(* ===== verification/Prelude.thy ===== *)
theory Prelude
  imports Complex_Main "HOL-Library.Word" "HOL-Library.Monad_Syntax"
begin

unbundle bit_operations_syntax

text \<open>
  Shared vocabulary of the development: the C integer types as words, byte arrays as
  lists with a cursor, and the generic lemmas every component uses. A C pointer
  \<open>uint8_t *buffer\<close> with an index \<open>int32_t *index\<close> is a pair of a byte list
  and a \<open>nat\<close>. An access outside the array, which is undefined behaviour in C, is
  the value \<open>None\<close>, so that every function that returns \<open>Some\<close> has been shown to
  stay inside its arrays.
\<close>

named_theorems word_simps "splitting words into bytes and joining them again"
named_theorems buf_simps "reading and writing byte arrays through a cursor"

type_synonym u8 = "8 word"
type_synonym u16 = "16 word"
type_synonym u32 = "32 word"
type_synonym u64 = "64 word"
type_synonym bytes = "u8 list"

subsection \<open>Byte arrays with a cursor\<close>

definition put_byte :: "bytes \<Rightarrow> nat \<Rightarrow> u8 \<Rightarrow> (bytes \<times> nat) option" where
  "put_byte buf i b = (if i < length buf then Some (buf[i := b], Suc i) else None)"

definition get_byte :: "bytes \<Rightarrow> nat \<Rightarrow> u8 option" where
  "get_byte buf i = (if i < length buf then Some (buf ! i) else None)"

text \<open>Writing a run of bytes: what a sequence of \<open>put_byte\<close> amounts to.\<close>

definition write_bytes :: "bytes \<Rightarrow> nat \<Rightarrow> bytes \<Rightarrow> (bytes \<times> nat) option" where
  "write_bytes buf i bs =
     (if i + length bs \<le> length buf
      then Some (take i buf @ bs @ drop (i + length bs) buf, i + length bs) else None)"

lemma put_byte_write [buf_simps]:
  "i < length buf \<Longrightarrow> put_byte buf i b = write_bytes buf i [b]"
  by (simp add: put_byte_def write_bytes_def upd_conv_take_nth_drop)

lemma put_byte_none: "length buf \<le> i \<Longrightarrow> put_byte buf i b = None"
  by (simp add: put_byte_def)

lemma put_byte_eq: "put_byte buf i b = write_bytes buf i [b]"
  by (cases "i < length buf") (simp_all add: buf_simps put_byte_none write_bytes_def)

lemma length_write_bytes:
  "write_bytes buf i bs = Some (buf', j) \<Longrightarrow> length buf' = length buf \<and> j = i + length bs"
  by (auto simp: write_bytes_def split: if_splits)

text \<open>Two adjacent runs are one run, also in how they fail (the second run is what can
  still fail once the first one fits).\<close>

lemma write_bytes_append:
  "Option.bind (write_bytes buf i xs) (\<lambda>(b, j). write_bytes b j ys) = write_bytes buf i (xs @ ys)"
proof (cases "i + length xs \<le> length buf")
  case True
  then show ?thesis
    by (cases xs) (auto simp: write_bytes_def min_def add.commute add.left_commute)
qed (auto simp: write_bytes_def)

lemma write_bytes_append_k:
  "Option.bind (write_bytes buf i xs) (\<lambda>(b, j). Option.bind (write_bytes b j ys) k)
     = Option.bind (write_bytes buf i (xs @ ys)) k"
  by (simp add: write_bytes_append [symmetric] bind_assoc split_def)

lemma write_bytes_ok:
  "i + length bs \<le> length buf \<Longrightarrow>
   write_bytes buf i bs = Some (take i buf @ bs @ drop (i + length bs) buf, i + length bs)"
  by (simp add: write_bytes_def)

lemma write_bytes_None: "length buf < i + length bs \<Longrightarrow> write_bytes buf i bs = None"
  by (simp add: write_bytes_def)

text \<open>From an empty prefix, the first \<open>n\<close> bytes of the result are the run itself.\<close>

lemma write_bytes_prefix:
  "write_bytes buf 0 bs = Some (b, n) \<Longrightarrow> take n b = bs"
  by (auto simp: write_bytes_def split: if_splits)

lemma get_byte_append [buf_simps]:
  "get_byte (xs @ ys) i = (if i < length xs then Some (xs ! i) else get_byte ys (i - length xs))"
  by (auto simp: get_byte_def nth_append)

lemma get_byte_Some: "i < length buf \<Longrightarrow> get_byte buf i = Some (buf ! i)"
  by (simp add: get_byte_def)

lemma get_byte_Some_iff: "get_byte buf i = Some b \<longleftrightarrow> i < length buf \<and> b = buf ! i"
  by (auto simp: get_byte_def)

lemma get_byte_None_iff: "get_byte buf i = None \<longleftrightarrow> length buf \<le> i"
  by (auto simp: get_byte_def)

subsection \<open>Words as bytes\<close>

text \<open>The byte of weight \<open>n\<close> of a word: the C cast \<open>(uint8_t)(w >> n)\<close>.\<close>

definition byte_of :: "nat \<Rightarrow> 'a::len word \<Rightarrow> u8" where
  "byte_of n w = ucast (drop_bit n w)"

lemma xor_move:
  fixes p u q v :: "'a::len word"
  assumes "p XOR u = q XOR v" shows "p XOR q = u XOR v"
proof (rule bit_word_eqI)
  fix n
  show "bit (p XOR q) n = bit (u XOR v) n"
    using arg_cong [OF assms, of "\<lambda>w. bit w n"] by (auto simp: bit_xor_iff)
qed

lemma xor_eq_0: "a XOR b = (0 :: 'a::len word) \<Longrightarrow> a = b"
  using xor_move [of a b 0 0] by simp

lemma and_ff: "w AND 0xFF = take_bit 8 (w :: 'a::len word)"
  by (simp add: take_bit_eq_mask mask_eq_exp_minus_1)

lemma and_ffff: "w AND 0xFFFF = take_bit 16 (w :: 'a::len word)"
  by (simp add: take_bit_eq_mask mask_eq_exp_minus_1)

lemma bit_byte_of [bit_simps]:
  "bit (byte_of n (w :: 'a::len word)) k \<longleftrightarrow> k < 8 \<and> bit w (n + k)"
  by (auto simp: byte_of_def bit_simps dest: bit_imp_le_length)

text \<open>Moving a byte back to its weight keeps exactly its eight bits.\<close>

lemma bit_push_byte [bit_simps]:
  "bit (push_bit k (ucast (byte_of k (w :: 'a::len word))) :: 'a word) n
     \<longleftrightarrow> k \<le> n \<and> n < k + 8 \<and> bit w n"
  by (auto simp: bit_simps dest: bit_imp_le_length)

lemma bit_low_byte [bit_simps]:
  "bit (ucast (byte_of 0 (w :: 'a::len word)) :: 'a word) n \<longleftrightarrow> n < 8 \<and> bit w n"
  by (auto simp: bit_simps dest: bit_imp_le_length)

lemma u16_bytes [word_simps]:
  "push_bit 8 (ucast (byte_of 8 (w :: u16))) OR ucast (byte_of 0 w) = w"
  by (rule bit_word_eqI, simp only: bit_or_iff bit_push_byte bit_low_byte) auto

lemma u32_bytes [word_simps]:
  "push_bit 24 (ucast (byte_of 24 (w :: u32))) OR push_bit 16 (ucast (byte_of 16 w))
     OR push_bit 8 (ucast (byte_of 8 w)) OR ucast (byte_of 0 w) = w"
  by (rule bit_word_eqI, simp only: bit_or_iff bit_push_byte bit_low_byte) auto

lemma u64_bytes [word_simps]:
  "push_bit 56 (ucast (byte_of 56 (w :: u64))) OR push_bit 48 (ucast (byte_of 48 w))
     OR push_bit 40 (ucast (byte_of 40 w)) OR push_bit 32 (ucast (byte_of 32 w))
     OR push_bit 24 (ucast (byte_of 24 w)) OR push_bit 16 (ucast (byte_of 16 w))
     OR push_bit 8 (ucast (byte_of 8 w)) OR ucast (byte_of 0 w) = w"
  by (rule bit_word_eqI, simp only: bit_or_iff bit_push_byte bit_low_byte) auto

text \<open>And the other way round: the bytes of a joined pair.\<close>

lemma byte_of_u16_join [word_simps]:
  "byte_of 8 (push_bit 8 (ucast (a :: u8)) OR ucast (b :: u8) :: u16) = a"
  "byte_of 0 (push_bit 8 (ucast (a :: u8)) OR ucast (b :: u8) :: u16) = b"
  by (rule bit_word_eqI; auto simp: bit_simps dest: bit_imp_le_length)+

text \<open>On a signed C integer \<open>>>\<close> is the arithmetic shift; the byte that the cast keeps is the
  same one as long as it lies inside the word.\<close>

definition sbyte_of :: "nat \<Rightarrow> 'a::len word \<Rightarrow> u8" where
  "sbyte_of n w = ucast (signed_drop_bit n w)"

lemma sbyte_of_byte_of [word_simps]:
  "n + 8 \<le> LENGTH('a) \<Longrightarrow> sbyte_of n (w :: 'a::len word) = byte_of n w"
  by (rule bit_word_eqI) (auto simp: sbyte_of_def byte_of_def bit_simps)

subsection \<open>Small unsigned fields\<close>

lemma unat_join16: "unat (push_bit 8 (ucast (a :: u8)) OR ucast (b :: u8) :: u16) = unat a * 256 + unat b"
proof -
  have "push_bit 8 (ucast a) OR ucast b = (push_bit 8 (ucast a) + ucast b :: u16)"
    by (rule disjunctive_add_eq_or [symmetric], rule bit_word_eqI) (auto simp: bit_simps dest: bit_imp_le_length)
  moreover have "unat a < 256" "unat b < 256"
    using unsigned_less [of a] unsigned_less [of b] by simp_all
  ultimately show ?thesis
    by (simp add: unat_word_ariths push_bit_eq_mult unsigned_ucast_eq take_bit_nat_def)
qed

lemma unat_join32: "unat (push_bit 8 (ucast (a :: u8)) OR ucast (b :: u8) :: u32) = unat a * 256 + unat b"
proof -
  have "push_bit 8 (ucast a) OR ucast b = (push_bit 8 (ucast a) + ucast b :: u32)"
    by (rule disjunctive_add_eq_or [symmetric], rule bit_word_eqI) (auto simp: bit_simps dest: bit_imp_le_length)
  moreover have "unat a < 256" "unat b < 256"
    using unsigned_less [of a] unsigned_less [of b] by simp_all
  ultimately show ?thesis
    by (simp add: unat_word_ariths push_bit_eq_mult unsigned_ucast_eq take_bit_nat_def)
qed

lemma unat_byte_lt [simp]: "unat (b :: u8) < 256"
  using unsigned_less [of b] by simp

lemma unat_byte_le [simp]: "unat (b :: u8) \<le> 255"
  using unat_byte_lt [of b] by linarith

lemma unat_byte_of_nat: "unat (word_of_nat n :: u8) = n mod 256"
  by (simp add: unat_of_nat)

lemma nat_and_ff: "n AND 0xFF = n mod (256 :: nat)"
proof -
  have "take_bit 8 n = n AND mask 8"
    by (rule take_bit_eq_mask)
  then show ?thesis
    by (simp add: mask_eq_exp_minus_1 take_bit_nat_def)
qed

lemma unat_join4:
  "unat (push_bit 24 (ucast (a :: u8)) OR push_bit 16 (ucast (b :: u8)) OR push_bit 8 (ucast (c :: u8))
     OR ucast (d :: u8) :: u32) = unat a * 16777216 + unat b * 65536 + unat c * 256 + unat d"
proof -
  have "push_bit 24 (ucast a) OR push_bit 16 (ucast b) OR push_bit 8 (ucast c) OR ucast d =
      (push_bit 24 (ucast a) + (push_bit 16 (ucast b) + (push_bit 8 (ucast c) + ucast d)) :: u32)"
    by (subst disjunctive_add_eq_or, rule bit_word_eqI,
        (auto simp: bit_simps dest: bit_imp_le_length)[1])+
      (simp add: or.assoc)
  moreover have "unat a < 256" "unat b < 256" "unat c < 256" "unat d < 256"
    using unat_byte_lt by blast+
  ultimately show ?thesis
    by (simp add: unat_word_ariths unsigned_push_bit_eq unsigned_ucast_eq take_bit_eq_mod push_bit_eq_mult
      del: unat_byte_lt unat_byte_le)
qed

lemma and_byte_ff [simp]: "(0xFF :: u8) AND b = b" "b AND (0xFF :: u8) = b"
proof -
  have "(0xFF :: u8) = - 1" by simp
  then show "(0xFF :: u8) AND b = b" "b AND (0xFF :: u8) = b"
    by (metis and.left_neutral, metis and.right_neutral)
qed

end
