(* ===== verification/Crc.thy ===== *)
theory Crc
  imports Prelude
begin

text \<open>
  The checksums of \<^verbatim>\<open>util/crc.c\<close>: the table driven CRC-16 that guards every packet and every
  stored code block, and the bitwise CRC-32 of \<open>crc32_with_init\<close>. A buffer with a length
  is the list of its bytes. The table is proved to be eight steps of the bitwise
  polynomial division, which gives the algebra (linearity, bijectivity of a step) that the
  error detection results rest on. The hardware CRC unit behind \<open>crc32\<close> is not here.
\<close>

section \<open>CRC-16\<close>

definition crc16_tab :: "u16 list" where
  "crc16_tab =
    [0x0000, 0x1021, 0x2042, 0x3063, 0x4084, 0x50a5, 0x60c6, 0x70e7,
     0x8108, 0x9129, 0xa14a, 0xb16b, 0xc18c, 0xd1ad, 0xe1ce, 0xf1ef,
     0x1231, 0x0210, 0x3273, 0x2252, 0x52b5, 0x4294, 0x72f7, 0x62d6,
     0x9339, 0x8318, 0xb37b, 0xa35a, 0xd3bd, 0xc39c, 0xf3ff, 0xe3de,
     0x2462, 0x3443, 0x0420, 0x1401, 0x64e6, 0x74c7, 0x44a4, 0x5485,
     0xa56a, 0xb54b, 0x8528, 0x9509, 0xe5ee, 0xf5cf, 0xc5ac, 0xd58d,
     0x3653, 0x2672, 0x1611, 0x0630, 0x76d7, 0x66f6, 0x5695, 0x46b4,
     0xb75b, 0xa77a, 0x9719, 0x8738, 0xf7df, 0xe7fe, 0xd79d, 0xc7bc,
     0x48c4, 0x58e5, 0x6886, 0x78a7, 0x0840, 0x1861, 0x2802, 0x3823,
     0xc9cc, 0xd9ed, 0xe98e, 0xf9af, 0x8948, 0x9969, 0xa90a, 0xb92b,
     0x5af5, 0x4ad4, 0x7ab7, 0x6a96, 0x1a71, 0x0a50, 0x3a33, 0x2a12,
     0xdbfd, 0xcbdc, 0xfbbf, 0xeb9e, 0x9b79, 0x8b58, 0xbb3b, 0xab1a,
     0x6ca6, 0x7c87, 0x4ce4, 0x5cc5, 0x2c22, 0x3c03, 0x0c60, 0x1c41,
     0xedae, 0xfd8f, 0xcdec, 0xddcd, 0xad2a, 0xbd0b, 0x8d68, 0x9d49,
     0x7e97, 0x6eb6, 0x5ed5, 0x4ef4, 0x3e13, 0x2e32, 0x1e51, 0x0e70,
     0xff9f, 0xefbe, 0xdfdd, 0xcffc, 0xbf1b, 0xaf3a, 0x9f59, 0x8f78,
     0x9188, 0x81a9, 0xb1ca, 0xa1eb, 0xd10c, 0xc12d, 0xf14e, 0xe16f,
     0x1080, 0x00a1, 0x30c2, 0x20e3, 0x5004, 0x4025, 0x7046, 0x6067,
     0x83b9, 0x9398, 0xa3fb, 0xb3da, 0xc33d, 0xd31c, 0xe37f, 0xf35e,
     0x02b1, 0x1290, 0x22f3, 0x32d2, 0x4235, 0x5214, 0x6277, 0x7256,
     0xb5ea, 0xa5cb, 0x95a8, 0x8589, 0xf56e, 0xe54f, 0xd52c, 0xc50d,
     0x34e2, 0x24c3, 0x14a0, 0x0481, 0x7466, 0x6447, 0x5424, 0x4405,
     0xa7db, 0xb7fa, 0x8799, 0x97b8, 0xe75f, 0xf77e, 0xc71d, 0xd73c,
     0x26d3, 0x36f2, 0x0691, 0x16b0, 0x6657, 0x7676, 0x4615, 0x5634,
     0xd94c, 0xc96d, 0xf90e, 0xe92f, 0x99c8, 0x89e9, 0xb98a, 0xa9ab,
     0x5844, 0x4865, 0x7806, 0x6827, 0x18c0, 0x08e1, 0x3882, 0x28a3,
     0xcb7d, 0xdb5c, 0xeb3f, 0xfb1e, 0x8bf9, 0x9bd8, 0xabbb, 0xbb9a,
     0x4a75, 0x5a54, 0x6a37, 0x7a16, 0x0af1, 0x1ad0, 0x2ab3, 0x3a92,
     0xfd2e, 0xed0f, 0xdd6c, 0xcd4d, 0xbdaa, 0xad8b, 0x9de8, 0x8dc9,
     0x7c26, 0x6c07, 0x5c64, 0x4c45, 0x3ca2, 0x2c83, 0x1ce0, 0x0cc1,
     0xef1f, 0xff3e, 0xcf5d, 0xdf7c, 0xaf9b, 0xbfba, 0x8fd9, 0x9ff8,
     0x6e17, 0x7e36, 0x4e55, 0x5e74, 0x2e93, 0x3eb2, 0x0ed1, 0x1ef0]"

fun crc16_rolling :: "u16 \<Rightarrow> bytes \<Rightarrow> u16" where
  "crc16_rolling cksum [] = cksum"
| "crc16_rolling cksum (b # bs) =
     crc16_rolling
       (crc16_tab ! unat ((drop_bit 8 cksum XOR ucast b) AND 0xFF) XOR push_bit 8 cksum) bs"

definition crc16 :: "bytes \<Rightarrow> u16" where
  "crc16 buf = crc16_rolling 0 buf"

subsection \<open>The table is the polynomial\<close>

text \<open>One bit of the division by the polynomial 0x1021, most significant bit first.\<close>

definition crc16_bit :: "u16 \<Rightarrow> u16" where
  "crc16_bit c = (if bit c 15 then push_bit 1 c XOR 0x1021 else push_bit 1 c)"

definition crc16_byte :: "u16 \<Rightarrow> u16" where
  "crc16_byte c = (crc16_bit ^^ 8) c"

lemma crc16_bit_xor: "crc16_bit (a XOR b) = crc16_bit a XOR crc16_bit b"
  by (rule bit_word_eqI) (auto simp: crc16_bit_def bit_simps)

lemma crc16_bits_xor: "(crc16_bit ^^ n) (a XOR b) = (crc16_bit ^^ n) a XOR (crc16_bit ^^ n) b"
  by (induction n) (auto simp: crc16_bit_xor)

lemma crc16_byte_xor: "crc16_byte (a XOR b) = crc16_byte a XOR crc16_byte b"
  by (simp add: crc16_byte_def crc16_bits_xor)

text \<open>The polynomial is odd, so a step can be undone: bit 0 of the result tells the bit
  that was shifted out.\<close>

lemma bit_crc16_bit:
  "bit (crc16_bit c) n \<longleftrightarrow>
     (0 < n \<and> n < 16 \<and> bit c (n - 1)) \<noteq> (bit c 15 \<and> bit (0x1021 :: u16) n)"
proof -
  have "bit (push_bit 1 c) n \<longleftrightarrow> 0 < n \<and> n < 16 \<and> bit c (n - 1)"
    by (simp only: bit_push_bit_iff) auto
  then show ?thesis
    by (simp only: crc16_bit_def bit_xor_iff split: if_split) blast
qed

lemma crc16_bit_inj: "crc16_bit a = crc16_bit b \<Longrightarrow> a = b"
proof (rule bit_word_eqI)
  fix n assume eq: "crc16_bit a = crc16_bit b" and n: "n < LENGTH(16)"
  have "bit c 15 = bit (crc16_bit c) 0" for c
    by (simp add: bit_crc16_bit)
  then have top: "bit a 15 = bit b 15"
    using eq by metis
  show "bit a n = bit b n"
    using arg_cong [OF eq, of "\<lambda>w. bit w (Suc n)"] top n
    by (cases "n = 15") (auto simp: bit_crc16_bit)
qed

lemma crc16_byte_inj: "crc16_byte a = crc16_byte b \<Longrightarrow> a = b"
proof -
  have "(crc16_bit ^^ n) a = (crc16_bit ^^ n) b \<Longrightarrow> a = b" for n
    by (induction n) (auto dest: crc16_bit_inj)
  then show "crc16_byte a = crc16_byte b \<Longrightarrow> a = b"
    by (auto simp: crc16_byte_def)
qed

lemma crc16_byte_0 [simp]: "crc16_byte 0 = 0"
  by (simp add: crc16_byte_def crc16_bit_def eval_nat_numeral)

text \<open>A byte in the low half is only shifted.\<close>

lemma crc16_byte_low: "crc16_byte (take_bit 8 c) = push_bit 8 c"
proof -
  have step: "(crc16_bit ^^ n) (take_bit 8 c) = push_bit n (take_bit 8 c)" if "n \<le> 8" for n
    using that
  proof (induction n)
    case (Suc n)
    have "\<not> bit (push_bit n (take_bit 8 c)) 15"
      using Suc.prems by (simp only: bit_push_bit_iff bit_take_bit_iff) auto
    then show ?case
      using Suc by (simp add: crc16_bit_def)
  qed simp
  have "push_bit 8 (take_bit 8 c) = push_bit 8 c"
    by (rule bit_word_eqI) (auto simp: bit_simps)
  then show ?thesis
    using step [of 8] by (simp add: crc16_byte_def)
qed

lemma crc16_byte_unfold:
  "crc16_byte c = crc16_bit (crc16_bit (crc16_bit (crc16_bit
     (crc16_bit (crc16_bit (crc16_bit (crc16_bit c)))))))"
  by (simp add: crc16_byte_def eval_nat_numeral)

lemma crc16_tab_map: "crc16_tab = map (\<lambda>i. crc16_byte (push_bit 8 (word_of_nat i))) [0..<256]"
proof -
  show ?thesis
    apply (simp add: crc16_tab_def upt_conv_Cons)
    apply (simp add: crc16_byte_unfold crc16_bit_def)
    done
qed

lemma crc16_tab_nth:
  assumes "i < 256" shows "crc16_tab ! i = crc16_byte (push_bit 8 (word_of_nat i))"
  using assms by (simp add: crc16_tab_map del: upt_rec_numeral)

text \<open>One round of the C loop is the division of one more byte.\<close>

lemma crc16_rolling_Cons:
  "crc16_rolling c (b # bs) = crc16_rolling (crc16_byte (c XOR push_bit 8 (ucast b))) bs"
proof -
  define h where "h = take_bit 8 (drop_bit 8 c XOR ucast b :: u16)"
  have h8: "push_bit 8 (drop_bit 8 c XOR ucast b) = push_bit 8 h"
    unfolding h_def by (rule bit_word_eqI) (auto simp: bit_simps)
  have "unat h < 256"
    unfolding h_def unsigned_take_bit_eq using take_bit_nat_less_exp [of 8] by simp
  then have "crc16_tab ! unat h = crc16_byte (push_bit 8 h)"
    by (simp add: crc16_tab_nth)
  moreover have "push_bit 8 h XOR take_bit 8 c = c XOR push_bit 8 (ucast b)"
    unfolding h8 [symmetric] by (rule bit_word_eqI) (auto simp: bit_simps)
  ultimately have "crc16_tab ! unat h XOR push_bit 8 c = crc16_byte (c XOR push_bit 8 (ucast b))"
    by (metis crc16_byte_low crc16_byte_xor)
  then show ?thesis
    by (simp only: crc16_rolling.simps and_ff h_def [symmetric])
qed

declare crc16_rolling.simps(2) [simp del]

lemma crc16_rolling_append:
  "crc16_rolling c (xs @ ys) = crc16_rolling (crc16_rolling c xs) ys"
  by (induction xs arbitrary: c) (auto simp: crc16_rolling_Cons)

lemma crc16_rolling_inj: "crc16_rolling a bs = crc16_rolling b bs \<Longrightarrow> a = b"
proof (induction bs arbitrary: a b)
  case (Cons x bs)
  then have "crc16_byte (a XOR push_bit 8 (ucast x)) = crc16_byte (b XOR push_bit 8 (ucast x))"
    by (auto simp: crc16_rolling_Cons)
  then have "a XOR push_bit 8 (ucast x) = b XOR push_bit 8 (ucast x)"
    by (rule crc16_byte_inj)
  then show ?case
    by (metis bit.xor_left_self xor.commute)
qed simp

text \<open>An error confined to two adjacent bytes (a burst of at most 16 bits, in particular any
  single damaged byte) never goes unnoticed.\<close>

lemma crc16_rolling_pair:
  assumes "crc16_rolling c [a1, a2] = crc16_rolling c [b1, b2]"
  shows "a1 = b1 \<and> a2 = b2"
proof -
  define d1 d2 where "d1 = a1 XOR b1" and "d2 = a2 XOR b2"
  let ?h = "\<lambda>b :: u8. push_bit 8 (ucast b) :: u16"
  have "crc16_byte (c XOR ?h a1) XOR ?h a2 = crc16_byte (c XOR ?h b1) XOR ?h b2"
    using assms crc16_byte_inj unfolding crc16_rolling_Cons crc16_rolling.simps(1) by blast
  then have "crc16_byte (c XOR ?h a1) XOR crc16_byte (c XOR ?h b1) = ?h a2 XOR ?h b2"
    by (rule xor_move)
  moreover have "(c XOR ?h a1) XOR (c XOR ?h b1) = ?h a1 XOR ?h b1"
    by (rule bit_word_eqI) (auto simp: bit_xor_iff)
  ultimately have "crc16_byte (?h a1 XOR ?h b1) = ?h a2 XOR ?h b2"
    by (metis crc16_byte_xor)
  moreover have "?h a1 XOR ?h b1 = ?h d1" and "?h a2 XOR ?h b2 = ?h d2"
    unfolding d1_def d2_def by (rule bit_word_eqI, auto simp: bit_simps)+
  ultimately have "crc16_byte (?h d1) = crc16_byte (take_bit 8 (ucast d2))"
    by (simp only: crc16_byte_low)
  then have eq: "?h d1 = take_bit 8 (ucast d2)"
    by (rule crc16_byte_inj)
  have "d1 = 0"
  proof (rule bit_word_eqI)
    fix n assume "n < LENGTH(8)"
    then show "bit d1 n = bit 0 n"
      using arg_cong [OF eq, of "\<lambda>w. bit w (n + 8)"] by (simp add: bit_simps)
  qed
  moreover have "d2 = 0"
  proof (rule bit_word_eqI)
    fix n assume "n < LENGTH(8)"
    then show "bit d2 n = bit 0 n"
      using arg_cong [OF eq, of "\<lambda>w. bit w n"] by (auto simp: bit_simps)
  qed
  ultimately show ?thesis
    by (auto simp: d1_def d2_def dest: xor_eq_0)
qed

lemma crc16_rolling_burst:
  assumes "crc16_rolling c (pre @ [a1, a2] @ post) = crc16_rolling c (pre @ [b1, b2] @ post)"
  shows "a1 = b1 \<and> a2 = b2"
proof -
  have "crc16_rolling (crc16_rolling c pre) [a1, a2] = crc16_rolling (crc16_rolling c pre) [b1, b2]"
    using assms crc16_rolling_inj [of _ post] unfolding crc16_rolling_append by blast
  then show ?thesis
    by (rule crc16_rolling_pair)
qed

section \<open>CRC-32\<close>

definition crc32_bit :: "u32 \<Rightarrow> u32" where
  "crc32_bit cksum = (let mask = - (cksum AND 1) in drop_bit 1 cksum XOR (0xEDB88320 AND mask))"

fun crc32_loop :: "u32 \<Rightarrow> bytes \<Rightarrow> u32" where
  "crc32_loop cksum [] = cksum"
| "crc32_loop cksum (b # bs) = crc32_loop ((crc32_bit ^^ 8) (cksum XOR ucast b)) bs"

definition crc32_with_init :: "bytes \<Rightarrow> u32 \<Rightarrow> u32" where
  "crc32_with_init buf cksum = NOT (crc32_loop (NOT cksum) buf)"

lemma crc32_loop_append: "crc32_loop c (xs @ ys) = crc32_loop (crc32_loop c xs) ys"
  by (induction xs arbitrary: c) auto

section \<open>The CRC unit of the microcontroller\<close>

text \<open>\<^verbatim>\<open>crc32\<close> feeds words to the data register of the STM32F4 CRC unit and
  returns what it then holds. The unit (reference manual RM0090, section 4) divides by the
  Ethernet polynomial 0x04C11DB7, a whole word at a time, most significant bit first, and its
  reset value is all ones. The register is the first argument.\<close>

definition crc_unit_bit :: "u32 \<Rightarrow> u32" where
  "crc_unit_bit c = (if bit c 31 then push_bit 1 c XOR 0x04C11DB7 else push_bit 1 c)"

definition crc_unit_write :: "u32 \<Rightarrow> u32 \<Rightarrow> u32" where
  "crc_unit_write dr w = (crc_unit_bit ^^ 32) (dr XOR w)"

fun crc32 :: "u32 \<Rightarrow> u32 list \<Rightarrow> u32" where
  "crc32 dr [] = dr"
| "crc32 dr (w # ws) = crc32 (crc_unit_write dr w) ws"

definition crc32_reset :: u32 where
  "crc32_reset = 0xFFFFFFFF"

lemma crc32_append: "crc32 dr (xs @ ys) = crc32 (crc32 dr xs) ys"
  by (induction xs arbitrary: dr) auto

lemma bit_crc_unit_bit:
  "bit (crc_unit_bit c) n \<longleftrightarrow>
     (0 < n \<and> n < 32 \<and> bit c (n - 1)) \<noteq> (bit c 31 \<and> bit (0x04C11DB7 :: u32) n)"
proof -
  have "bit (push_bit 1 c) n \<longleftrightarrow> 0 < n \<and> n < 32 \<and> bit c (n - 1)"
    by (simp only: bit_push_bit_iff) auto
  then show ?thesis
    by (simp only: crc_unit_bit_def bit_xor_iff split: if_split) blast
qed

lemma crc_unit_bit_inj: "crc_unit_bit a = crc_unit_bit b \<Longrightarrow> a = b"
proof (rule bit_word_eqI)
  fix n assume eq: "crc_unit_bit a = crc_unit_bit b" and n: "n < LENGTH(32)"
  have "bit c 31 = bit (crc_unit_bit c) 0" for c
    by (simp add: bit_crc_unit_bit)
  then have top: "bit a 31 = bit b 31"
    using eq by metis
  show "bit a n = bit b n"
    using arg_cong [OF eq, of "\<lambda>w. bit w (Suc n)"] top n
    by (cases "n = 31") (auto simp: bit_crc_unit_bit)
qed

lemma crc_unit_bits_inj: "(crc_unit_bit ^^ n) a = (crc_unit_bit ^^ n) b \<Longrightarrow> a = b"
  by (induction n) (auto dest: crc_unit_bit_inj)

lemma crc_unit_write_inj:
  "crc_unit_write a w = crc_unit_write b w \<Longrightarrow> a = b"
  "crc_unit_write a v = crc_unit_write a w \<Longrightarrow> v = w"
  by (auto simp: crc_unit_write_def dest!: crc_unit_bits_inj)
    (metis bit.xor_left_self xor.commute, metis bit.xor_left_self)

lemma crc32_inj: "crc32 a ws = crc32 b ws \<Longrightarrow> a = b"
  by (induction ws arbitrary: a b) (auto dest: crc_unit_write_inj)

text \<open>A single changed word always changes the checksum; appending the checksum to the words
  it was computed over drives the register to zero.\<close>

lemma crc32_one_word:
  "crc32 dr (xs @ v # ys) = crc32 dr (xs @ w # ys) \<Longrightarrow> v = w"
  unfolding crc32_append crc32.simps by (auto dest!: crc32_inj crc_unit_write_inj)

lemma crc_unit_bits_0: "(crc_unit_bit ^^ n) 0 = 0"
  by (induction n) (simp_all add: crc_unit_bit_def)

lemma crc32_residue: "crc32 dr (xs @ [crc32 dr xs]) = 0"
  by (simp add: crc32_append crc_unit_write_def crc_unit_bits_0)

section \<open>Properties\<close>

text \<open>C5. The table driven CRC-16 of the packets computes the bitwise remainder of the
  polynomial 0x1021, from every start value and over every message: one table lookup is eight
  steps of the shift register.\<close>

theorem crc16_rolling_bitwise:
  "crc16_rolling c buf = foldl (\<lambda>r b. crc16_byte (r XOR push_bit 8 (ucast b))) c buf"
  by (induction buf arbitrary: c) (simp_all add: crc16_rolling_Cons)

text \<open>Two messages that differ at most in two adjacent bytes have different CRC-16 values,
  so no burst error of up to 9 bits at any alignment, and no damaged single byte, is accepted.\<close>

theorem crc16_detects_adjacent:
  assumes "crc16 (pre @ [a1, a2] @ post) = crc16 (pre @ [b1, b2] @ post)"
  shows "a1 = b1 \<and> a2 = b2"
  using assms unfolding crc16_def by (rule crc16_rolling_burst)

theorem crc16_detects_adjacent_witness:
  "crc16 ([7] @ [1, 2] @ [9]) = crc16 ([7] @ [1, 2] @ [9]) \<and> (1 :: u8) = 1 \<and> (2 :: u8) = 2"
  using crc16_detects_adjacent [of "[7]" 1 2 "[9]" 1 2] by simp

end
