(* ===== verification/Buffer.thy ===== *)
theory Buffer
  imports Crc
begin

text \<open>
  The big-endian serialisers of \<^verbatim>\<open>util/buffer.c\<close>. \<open>buffer_append_X buffer number index\<close> returns
  the written array and the advanced index, \<open>buffer_get_X buffer index\<close> the value and the
  advanced index; both are \<open>None\<close> when the C code would step outside the array. A signed
  and an unsigned integer of one width are the same word; the caller reads it with
  \<open>sint\<close> or \<open>uint\<close>. The lemmas reduce every append to one \<open>write_bytes\<close> of its
  encoding and every get to reading that encoding back.
\<close>

section \<open>Appending\<close>

definition buffer_append_int16 :: "bytes \<Rightarrow> u16 \<Rightarrow> nat \<Rightarrow> (bytes \<times> nat) option" where
  "buffer_append_int16 buffer number index = do {
     (b1, i1) \<leftarrow> put_byte buffer index (sbyte_of 8 number);
     put_byte b1 i1 (sbyte_of 0 number)
   }"

definition buffer_append_uint16 :: "bytes \<Rightarrow> u16 \<Rightarrow> nat \<Rightarrow> (bytes \<times> nat) option" where
  "buffer_append_uint16 buffer number index = do {
     (b1, i1) \<leftarrow> put_byte buffer index (byte_of 8 number);
     put_byte b1 i1 (byte_of 0 number)
   }"

definition buffer_append_int32 :: "bytes \<Rightarrow> u32 \<Rightarrow> nat \<Rightarrow> (bytes \<times> nat) option" where
  "buffer_append_int32 buffer number index = do {
     (b1, i1) \<leftarrow> put_byte buffer index (sbyte_of 24 number);
     (b2, i2) \<leftarrow> put_byte b1 i1 (sbyte_of 16 number);
     (b3, i3) \<leftarrow> put_byte b2 i2 (sbyte_of 8 number);
     put_byte b3 i3 (sbyte_of 0 number)
   }"

definition buffer_append_uint32 :: "bytes \<Rightarrow> u32 \<Rightarrow> nat \<Rightarrow> (bytes \<times> nat) option" where
  "buffer_append_uint32 buffer number index = do {
     (b1, i1) \<leftarrow> put_byte buffer index (byte_of 24 number);
     (b2, i2) \<leftarrow> put_byte b1 i1 (byte_of 16 number);
     (b3, i3) \<leftarrow> put_byte b2 i2 (byte_of 8 number);
     put_byte b3 i3 (byte_of 0 number)
   }"

definition buffer_append_int64 :: "bytes \<Rightarrow> u64 \<Rightarrow> nat \<Rightarrow> (bytes \<times> nat) option" where
  "buffer_append_int64 buffer number index = do {
     (b1, i1) \<leftarrow> put_byte buffer index (sbyte_of 56 number);
     (b2, i2) \<leftarrow> put_byte b1 i1 (sbyte_of 48 number);
     (b3, i3) \<leftarrow> put_byte b2 i2 (sbyte_of 40 number);
     (b4, i4) \<leftarrow> put_byte b3 i3 (sbyte_of 32 number);
     (b5, i5) \<leftarrow> put_byte b4 i4 (sbyte_of 24 number);
     (b6, i6) \<leftarrow> put_byte b5 i5 (sbyte_of 16 number);
     (b7, i7) \<leftarrow> put_byte b6 i6 (sbyte_of 8 number);
     put_byte b7 i7 (sbyte_of 0 number)
   }"

definition buffer_append_uint64 :: "bytes \<Rightarrow> u64 \<Rightarrow> nat \<Rightarrow> (bytes \<times> nat) option" where
  "buffer_append_uint64 buffer number index = do {
     (b1, i1) \<leftarrow> put_byte buffer index (byte_of 56 number);
     (b2, i2) \<leftarrow> put_byte b1 i1 (byte_of 48 number);
     (b3, i3) \<leftarrow> put_byte b2 i2 (byte_of 40 number);
     (b4, i4) \<leftarrow> put_byte b3 i3 (byte_of 32 number);
     (b5, i5) \<leftarrow> put_byte b4 i4 (byte_of 24 number);
     (b6, i6) \<leftarrow> put_byte b5 i5 (byte_of 16 number);
     (b7, i7) \<leftarrow> put_byte b6 i6 (byte_of 8 number);
     put_byte b7 i7 (byte_of 0 number)
   }"

section \<open>Reading\<close>

definition buffer_get_int16 :: "bytes \<Rightarrow> nat \<Rightarrow> (u16 \<times> nat) option" where
  "buffer_get_int16 buffer index = do {
     b0 \<leftarrow> get_byte buffer index;
     b1 \<leftarrow> get_byte buffer (index + 1);
     Some (push_bit 8 (ucast b0) OR ucast b1, index + 2)
   }"

definition buffer_get_uint16 :: "bytes \<Rightarrow> nat \<Rightarrow> (u16 \<times> nat) option" where
  "buffer_get_uint16 buffer index = do {
     b0 \<leftarrow> get_byte buffer index;
     b1 \<leftarrow> get_byte buffer (index + 1);
     Some (push_bit 8 (ucast b0) OR ucast b1, index + 2)
   }"

definition buffer_get_int32 :: "bytes \<Rightarrow> nat \<Rightarrow> (u32 \<times> nat) option" where
  "buffer_get_int32 buffer index = do {
     b0 \<leftarrow> get_byte buffer index;
     b1 \<leftarrow> get_byte buffer (index + 1);
     b2 \<leftarrow> get_byte buffer (index + 2);
     b3 \<leftarrow> get_byte buffer (index + 3);
     Some (push_bit 24 (ucast b0) OR push_bit 16 (ucast b1) OR push_bit 8 (ucast b2)
        OR ucast b3, index + 4)
   }"

definition buffer_get_uint32 :: "bytes \<Rightarrow> nat \<Rightarrow> (u32 \<times> nat) option" where
  "buffer_get_uint32 buffer index = do {
     b0 \<leftarrow> get_byte buffer index;
     b1 \<leftarrow> get_byte buffer (index + 1);
     b2 \<leftarrow> get_byte buffer (index + 2);
     b3 \<leftarrow> get_byte buffer (index + 3);
     Some (push_bit 24 (ucast b0) OR push_bit 16 (ucast b1) OR push_bit 8 (ucast b2)
        OR ucast b3, index + 4)
   }"

definition buffer_get_int64 :: "bytes \<Rightarrow> nat \<Rightarrow> (u64 \<times> nat) option" where
  "buffer_get_int64 buffer index = do {
     b0 \<leftarrow> get_byte buffer index;
     b1 \<leftarrow> get_byte buffer (index + 1);
     b2 \<leftarrow> get_byte buffer (index + 2);
     b3 \<leftarrow> get_byte buffer (index + 3);
     b4 \<leftarrow> get_byte buffer (index + 4);
     b5 \<leftarrow> get_byte buffer (index + 5);
     b6 \<leftarrow> get_byte buffer (index + 6);
     b7 \<leftarrow> get_byte buffer (index + 7);
     Some (push_bit 56 (ucast b0) OR push_bit 48 (ucast b1) OR push_bit 40 (ucast b2)
        OR push_bit 32 (ucast b3) OR push_bit 24 (ucast b4) OR push_bit 16 (ucast b5)
        OR push_bit 8 (ucast b6) OR ucast b7, index + 8)
   }"

definition buffer_get_uint64 :: "bytes \<Rightarrow> nat \<Rightarrow> (u64 \<times> nat) option" where
  "buffer_get_uint64 buffer index = do {
     b0 \<leftarrow> get_byte buffer index;
     b1 \<leftarrow> get_byte buffer (index + 1);
     b2 \<leftarrow> get_byte buffer (index + 2);
     b3 \<leftarrow> get_byte buffer (index + 3);
     b4 \<leftarrow> get_byte buffer (index + 4);
     b5 \<leftarrow> get_byte buffer (index + 5);
     b6 \<leftarrow> get_byte buffer (index + 6);
     b7 \<leftarrow> get_byte buffer (index + 7);
     Some (push_bit 56 (ucast b0) OR push_bit 48 (ucast b1) OR push_bit 40 (ucast b2)
        OR push_bit 32 (ucast b3) OR push_bit 24 (ucast b4) OR push_bit 16 (ucast b5)
        OR push_bit 8 (ucast b6) OR ucast b7, index + 8)
   }"

section \<open>The encodings\<close>

definition be16 :: "u16 \<Rightarrow> bytes" where
  "be16 w = [byte_of 8 w, byte_of 0 w]"

definition be32 :: "u32 \<Rightarrow> bytes" where
  "be32 w = [byte_of 24 w, byte_of 16 w, byte_of 8 w, byte_of 0 w]"

definition be64 :: "u64 \<Rightarrow> bytes" where
  "be64 w = [byte_of 56 w, byte_of 48 w, byte_of 40 w, byte_of 32 w,
     byte_of 24 w, byte_of 16 w, byte_of 8 w, byte_of 0 w]"

lemma length_be [simp]: "length (be16 v) = 2" "length (be32 w) = 4" "length (be64 x) = 8"
  by (simp_all add: be16_def be32_def be64_def)

lemmas put_write = put_byte_eq write_bytes_append write_bytes_append_k

lemma append16_write [buf_simps]:
  "buffer_append_int16 buf w i = write_bytes buf i (be16 w)"
  "buffer_append_uint16 buf w i = write_bytes buf i (be16 w)"
  by (simp_all add: buffer_append_int16_def buffer_append_uint16_def be16_def put_write word_simps)

lemma append32_write [buf_simps]:
  "buffer_append_int32 buf v i = write_bytes buf i (be32 v)"
  "buffer_append_uint32 buf v i = write_bytes buf i (be32 v)"
  by (simp_all add: buffer_append_int32_def buffer_append_uint32_def be32_def put_write word_simps)

lemma append64_write [buf_simps]:
  "buffer_append_int64 buf x i = write_bytes buf i (be64 x)"
  "buffer_append_uint64 buf x i = write_bytes buf i (be64 x)"
  by (simp_all add: buffer_append_int64_def buffer_append_uint64_def be64_def put_write word_simps)

lemma get16_be:
  "buffer_get_int16 (pre @ be16 w @ post) (length pre) = Some (w, length pre + 2)"
  "buffer_get_uint16 (pre @ be16 w @ post) (length pre) = Some (w, length pre + 2)"
  by (simp_all add: buffer_get_int16_def buffer_get_uint16_def be16_def get_byte_def nth_append word_simps)

lemma get32_be:
  "buffer_get_int32 (pre @ be32 v @ post) (length pre) = Some (v, length pre + 4)"
  "buffer_get_uint32 (pre @ be32 v @ post) (length pre) = Some (v, length pre + 4)"
  by (simp_all add: buffer_get_int32_def buffer_get_uint32_def be32_def get_byte_def nth_append word_simps)

lemma get64_be:
  "buffer_get_int64 (pre @ be64 x @ post) (length pre) = Some (x, length pre + 8)"
  "buffer_get_uint64 (pre @ be64 x @ post) (length pre) = Some (x, length pre + 8)"
  by (simp_all add: buffer_get_int64_def buffer_get_uint64_def be64_def get_byte_def nth_append word_simps)

section \<open>Streams of values\<close>

text \<open>The messages of the firmware are sequences of such values written and read through one
  index. A field is a value with the C type of the function that writes it.\<close>

datatype field = I16 u16 | U16 u16 | I32 u32 | U32 u32 | I64 u64 | U64 u64

fun append_field :: "bytes \<Rightarrow> field \<Rightarrow> nat \<Rightarrow> (bytes \<times> nat) option" where
  "append_field buf (I16 w) i = buffer_append_int16 buf w i"
| "append_field buf (U16 w) i = buffer_append_uint16 buf w i"
| "append_field buf (I32 w) i = buffer_append_int32 buf w i"
| "append_field buf (U32 w) i = buffer_append_uint32 buf w i"
| "append_field buf (I64 w) i = buffer_append_int64 buf w i"
| "append_field buf (U64 w) i = buffer_append_uint64 buf w i"

fun append_fields :: "bytes \<Rightarrow> field list \<Rightarrow> nat \<Rightarrow> (bytes \<times> nat) option" where
  "append_fields buf [] i = Some (buf, i)"
| "append_fields buf (f # fs) i =
     Option.bind (append_field buf f i) (\<lambda>(b, j). append_fields b fs j)"

text \<open>Reading with the shape of a field: the value stored in the pattern is ignored.\<close>

fun get_field :: "bytes \<Rightarrow> field \<Rightarrow> nat \<Rightarrow> (field \<times> nat) option" where
  "get_field buf (I16 _) i = map_option (apfst I16) (buffer_get_int16 buf i)"
| "get_field buf (U16 _) i = map_option (apfst U16) (buffer_get_uint16 buf i)"
| "get_field buf (I32 _) i = map_option (apfst I32) (buffer_get_int32 buf i)"
| "get_field buf (U32 _) i = map_option (apfst U32) (buffer_get_uint32 buf i)"
| "get_field buf (I64 _) i = map_option (apfst I64) (buffer_get_int64 buf i)"
| "get_field buf (U64 _) i = map_option (apfst U64) (buffer_get_uint64 buf i)"

fun get_fields :: "bytes \<Rightarrow> field list \<Rightarrow> nat \<Rightarrow> (field list \<times> nat) option" where
  "get_fields buf [] i = Some ([], i)"
| "get_fields buf (f # fs) i = do {
     (v, j) \<leftarrow> get_field buf f i;
     (vs, k) \<leftarrow> get_fields buf fs j;
     Some (v # vs, k)
   }"

fun enc_field :: "field \<Rightarrow> bytes" where
  "enc_field (I16 w) = be16 w" | "enc_field (U16 w) = be16 w"
| "enc_field (I32 w) = be32 w" | "enc_field (U32 w) = be32 w"
| "enc_field (I64 w) = be64 w" | "enc_field (U64 w) = be64 w"

definition enc_fields :: "field list \<Rightarrow> bytes" where
  "enc_fields fs = concat (map enc_field fs)"

lemma append_field_write: "append_field buf f i = write_bytes buf i (enc_field f)"
  by (cases f) (simp_all add: buf_simps)

lemma append_fields_write:
  "i \<le> length buf \<Longrightarrow> append_fields buf fs i = write_bytes buf i (enc_fields fs)"
proof (induction fs arbitrary: buf i)
  case Nil
  then show ?case by (simp add: enc_fields_def write_bytes_def)
next
  case (Cons f fs)
  have "append_fields buf (f # fs) i =
      Option.bind (write_bytes buf i (enc_field f)) (\<lambda>(b, j). write_bytes b j (enc_fields fs))"
    using Cons.IH Cons.prems
    by (cases "write_bytes buf i (enc_field f)")
      (auto simp: append_field_write write_bytes_def split: if_splits)
  then show ?case
    by (simp add: write_bytes_append enc_fields_def)
qed

lemma get_field_enc:
  "get_field (pre @ enc_field f @ post) f (length pre) = Some (f, length pre + length (enc_field f))"
  by (cases f) (simp_all add: get16_be get32_be get64_be)

lemma get_fields_enc:
  "get_fields (pre @ enc_fields fs @ post) fs (length pre) =
     Some (fs, length pre + length (enc_fields fs))"
proof (induction fs arbitrary: pre)
  case (Cons f fs)
  show ?case
    using Cons.IH [of "pre @ enc_field f"] get_field_enc [of pre f "enc_fields fs @ post"]
    by (simp add: enc_fields_def)
qed (simp add: enc_fields_def)

section \<open>Properties\<close>

text \<open>A sequence of integers of any widths and signs, written one after the other into an
  array with enough room, is read back unchanged by the matching readers, which stop exactly
  where the writers stopped; the bytes in front of and behind the written part are kept.\<close>

theorem buffer_fields_roundtrip:
  assumes "i + length (enc_fields fs) \<le> length buf"
  shows "\<exists>buf' j. append_fields buf fs i = Some (buf', j) \<and> get_fields buf' fs i = Some (fs, j) \<and>
    j = i + length (enc_fields fs) \<and> take i buf' = take i buf \<and> drop j buf' = drop j buf"
proof -
  define buf' where "buf' = take i buf @ enc_fields fs @ drop (i + length (enc_fields fs)) buf"
  have "append_fields buf fs i = Some (buf', i + length (enc_fields fs))"
    using assms append_fields_write [of i buf fs] by (simp add: write_bytes_def buf'_def)
  moreover have "get_fields buf' fs i = Some (fs, i + length (enc_fields fs))"
    using assms get_fields_enc [of "take i buf" fs "drop (i + length (enc_fields fs)) buf"]
    by (simp add: buf'_def min_absorb2)
  ultimately show ?thesis
    using assms by (simp add: buf'_def)
qed

theorem buffer_fields_roundtrip_witness:
  "\<exists>buf' j. append_fields [0, 0, 0, 0, 0, 0, 0, 0] [I16 0xFFFE, U32 70000] 1 = Some (buf', j) \<and>
    get_fields buf' [I16 0xFFFE, U32 70000] 1 = Some ([I16 0xFFFE, U32 70000], j) \<and> j = 7"
proof -
  have e: "length (enc_fields [I16 0xFFFE, U32 70000]) = 6"
    by (simp add: enc_fields_def)
  show ?thesis
    using buffer_fields_roundtrip [of 1 "[I16 0xFFFE, U32 70000]" "[0, 0, 0, 0, 0, 0, 0, 0]"]
    unfolding e by fastforce
qed

text \<open>The encoding is big endian: the bytes an append stores, read as a number in base 256,
  are the value itself.\<close>

theorem buffer_append_uint32_big_endian:
  assumes "buffer_append_uint32 buf w i = Some (buf', j)"
  shows "j = i + 4 \<and> i + 4 \<le> length buf \<and>
    foldl (\<lambda>n b. 256 * n + unat b) 0 (take 4 (drop i buf')) = unat w"
proof -
  have b: "buf' = take i buf @ be32 w @ drop (i + 4) buf" "j = i + 4" "i + 4 \<le> length buf"
    using assms by (auto simp: buf_simps write_bytes_def split: if_splits)
  then have "take 4 (drop i buf') = be32 w"
    by (simp add: min_absorb2)
  moreover have "unat (byte_of 24 w) * 16777216 + unat (byte_of 16 w) * 65536 +
      unat (byte_of 8 w) * 256 + unat (byte_of 0 w) = unat w"
    using unat_join4 [of "byte_of 24 w" "byte_of 16 w" "byte_of 8 w" "byte_of 0 w"]
    by (simp add: u32_bytes)
  ultimately show ?thesis
    using b by (simp add: be32_def)
qed

theorem buffer_append_uint32_big_endian_witness:
  "foldl (\<lambda>n b. 256 * n + unat b) 0 (take 4 (drop 0 (be32 0x01020304))) = unat (0x01020304 :: u32)"
  using buffer_append_uint32_big_endian [of "[0, 0, 0, 0]" "0x01020304" 0 "be32 0x01020304" 4]
  by (simp add: buf_simps write_bytes_def)

end
