(* ===== verification/System.thy ===== *)
theory System
  imports Buffer
begin

text \<open>
  The state of the machine that the storage code works on, and the guards it takes around
  every flash operation: the counted kernel lock of \<^verbatim>\<open>util/utils_sys.c\<close>, the watchdog and
  shutdown settings of \<^verbatim>\<open>timeout.c\<close>, and the calls of \<^verbatim>\<open>motor/mc_interface.c\<close> that stop the
  motor. The flash itself is memory of bytes with the operations of the STM32F4 peripheral
  library: programming can only clear bits, erasing sets a whole sector to 0xFF.
  What an operation reports and whether it took effect is given by a script, one entry per
  operation, so that a statement about every script covers every flash error and a loss of
  power at any point.
\<close>

section \<open>State\<close>

datatype flash_err = BUSY | ERR_RD | ERR_PGS | ERR_PGP | ERR_PGA | ERR_WRP | ERR_PROGRAM | ERR_OPERATION

text \<open>\<open>Done\<close>: the operation completes. \<open>Failed e eff\<close>: it reports the error \<open>e\<close>, having
  taken effect or not. \<open>PowerCut\<close>: from here on nothing reaches the flash any more; the
  code that runs on in the model only reads, so that the memory it ends with is the one the
  power loss left behind. A script that has ended goes on with \<open>Done\<close>.\<close>

datatype outcome = Done | Failed flash_err bool | PowerCut

record sys =
  mem :: "nat \<Rightarrow> u8"
  script :: "outcome list"
  flash_locked :: bool
  sys_lock_cnt :: nat
  sys_locked :: bool
  init_done :: bool
  iwdt :: "nat \<times> nat"
  sampling_disabled :: bool
  ignore_input :: int
  motor_stops :: bool
  motor_override_released :: bool

type_synonym status = u16

fun err_code :: "flash_err \<Rightarrow> status" where
  "err_code BUSY = 1"
| "err_code ERR_RD = 2"
| "err_code ERR_PGS = 3"
| "err_code ERR_PGP = 4"
| "err_code ERR_PGA = 5"
| "err_code ERR_WRP = 6"
| "err_code ERR_PROGRAM = 7"
| "err_code ERR_OPERATION = 8"

definition FLASH_COMPLETE :: status where "FLASH_COMPLETE = 9"

lemma err_code_not_complete [simp]: "err_code e \<noteq> FLASH_COMPLETE" "FLASH_COMPLETE \<noteq> err_code e"
  by (cases e; simp add: FLASH_COMPLETE_def)+

declare err_code.simps [simp del]

section \<open>Counted lock\<close>

definition utils_sys_lock_cnt :: "'a sys_scheme \<Rightarrow> 'a sys_scheme" where
  "utils_sys_lock_cnt s =
     (let s1 = (if sys_lock_cnt s = 0 then s\<lparr>sys_locked := True\<rparr> else s)
      in s1\<lparr>sys_lock_cnt := sys_lock_cnt s1 + 1\<rparr>)"

definition utils_sys_unlock_cnt :: "'a sys_scheme \<Rightarrow> 'a sys_scheme" where
  "utils_sys_unlock_cnt s =
     (if sys_lock_cnt s \<noteq> 0 then
        (let s1 = s\<lparr>sys_lock_cnt := sys_lock_cnt s - 1\<rparr>
         in if sys_lock_cnt s1 = 0 then s1\<lparr>sys_locked := False\<rparr> else s1)
      else s)"

section \<open>Watchdog\<close>

text \<open>Prescaler and reload value of the independent watchdog. The code waits for the
  update flags of the watchdog before and after; that wait has no other effect.\<close>

definition timeout_configure_IWDT_slowest :: "'a sys_scheme \<Rightarrow> 'a sys_scheme" where
  "timeout_configure_IWDT_slowest s =
     (if \<not> init_done s then s else s\<lparr>sampling_disabled := True, iwdt := (256, 4000)\<rparr>)"

definition timeout_configure_IWDT :: "'a sys_scheme \<Rightarrow> 'a sys_scheme" where
  "timeout_configure_IWDT s =
     (if \<not> init_done s then s else s\<lparr>sampling_disabled := False, iwdt := (4, 140)\<rparr>)"

section \<open>Stopping the motor\<close>

definition mc_interface_ignore_input_both :: "int \<Rightarrow> 'a sys_scheme \<Rightarrow> 'a sys_scheme" where
  "mc_interface_ignore_input_both time_ms s = s\<lparr>ignore_input := time_ms\<rparr>"

definition mc_interface_release_motor_override_both :: "'a sys_scheme \<Rightarrow> 'a sys_scheme" where
  "mc_interface_release_motor_override_both s = s\<lparr>motor_override_released := True\<rparr>"

text \<open>Whether the motor stops within the three seconds is a fact of the environment.\<close>

definition mc_interface_wait_for_motor_release_both :: "'a sys_scheme \<Rightarrow> bool" where
  "mc_interface_wait_for_motor_release_both s = motor_stops s"

section \<open>Flash\<close>

definition FLASH_Unlock :: "'a sys_scheme \<Rightarrow> 'a sys_scheme" where "FLASH_Unlock s = s\<lparr>flash_locked := False\<rparr>"
definition FLASH_Lock :: "'a sys_scheme \<Rightarrow> 'a sys_scheme" where "FLASH_Lock s = s\<lparr>flash_locked := True\<rparr>"

text \<open>While the control register is locked an operation changes nothing and is reported as a
  programming error. An operation is one step: a cut of the power falls between two operations, never inside an erase or
  the programming of a word (an erase that is torn may leave anything, see \<open>torn_erase_loses_all\<close> in Eeprom_Store).\<close>

definition flash_op :: "((nat \<Rightarrow> u8) \<Rightarrow> nat \<Rightarrow> u8) \<Rightarrow> 'a sys_scheme \<Rightarrow> status \<times> 'a sys_scheme" where
  "flash_op f s =
     (if flash_locked s then (err_code ERR_PROGRAM, s)
      else case script s of
        [] \<Rightarrow> (FLASH_COMPLETE, s\<lparr>mem := f (mem s)\<rparr>)
      | Done # os \<Rightarrow> (FLASH_COMPLETE, s\<lparr>mem := f (mem s), script := os\<rparr>)
      | Failed e eff # os \<Rightarrow> (err_code e, s\<lparr>mem := (if eff then f (mem s) else mem s), script := os\<rparr>)
      | PowerCut # os \<Rightarrow> (err_code BUSY, s))"

definition prog8 :: "nat \<Rightarrow> u8 \<Rightarrow> (nat \<Rightarrow> u8) \<Rightarrow> nat \<Rightarrow> u8" where
  "prog8 a v m = m(a := m a AND v)"

definition prog16 :: "nat \<Rightarrow> u16 \<Rightarrow> (nat \<Rightarrow> u8) \<Rightarrow> nat \<Rightarrow> u8" where
  "prog16 a v m = prog8 (a + 1) (byte_of 8 v) (prog8 a (byte_of 0 v) m)"

definition prog32 :: "nat \<Rightarrow> u32 \<Rightarrow> (nat \<Rightarrow> u8) \<Rightarrow> nat \<Rightarrow> u8" where
  "prog32 a v m = prog8 (a + 3) (byte_of 24 v) (prog8 (a + 2) (byte_of 16 v)
     (prog8 (a + 1) (byte_of 8 v) (prog8 a (byte_of 0 v) m)))"

definition erase_range :: "nat \<Rightarrow> nat \<Rightarrow> (nat \<Rightarrow> u8) \<Rightarrow> nat \<Rightarrow> u8" where
  "erase_range lo hi m = (\<lambda>a. if lo \<le> a \<and> a < hi then 0xFF else m a)"

definition FLASH_ProgramByte :: "nat \<Rightarrow> u8 \<Rightarrow> 'a sys_scheme \<Rightarrow> status \<times> 'a sys_scheme" where
  "FLASH_ProgramByte a v = flash_op (prog8 a v)"

definition FLASH_ProgramHalfWord :: "nat \<Rightarrow> u16 \<Rightarrow> 'a sys_scheme \<Rightarrow> status \<times> 'a sys_scheme" where
  "FLASH_ProgramHalfWord a v = flash_op (prog16 a v)"

definition FLASH_ProgramWord :: "nat \<Rightarrow> u32 \<Rightarrow> 'a sys_scheme \<Rightarrow> status \<times> 'a sys_scheme" where
  "FLASH_ProgramWord a v = flash_op (prog32 a v)"

text \<open>The twelve sectors: base addresses (\<open>flash_addr\<close>) and the identifiers the peripheral
  library gives them (\<open>flash_sector\<close>, multiples of 8). A sector reaches up to the next one.\<close>

definition flash_addr :: "nat list" where
  "flash_addr = [0x08000000, 0x08004000, 0x08008000, 0x0800C000, 0x08010000, 0x08020000,
     0x08040000, 0x08060000, 0x08080000, 0x080A0000, 0x080C0000, 0x080E0000]"

definition flash_sector :: "nat list" where
  "flash_sector = [0x00, 0x08, 0x10, 0x18, 0x20, 0x28, 0x30, 0x38, 0x40, 0x48, 0x50, 0x58]"

definition FLASH_EraseSector :: "nat \<Rightarrow> 'a sys_scheme \<Rightarrow> status \<times> 'a sys_scheme" where
  "FLASH_EraseSector sector =
     (let ends = flash_addr @ [0x08100000]
      in flash_op (erase_range (ends ! (sector div 8)) (ends ! (sector div 8 + 1))))"

text \<open>Reading memory as the core does, little endian.\<close>

definition rd16 :: "(nat \<Rightarrow> u8) \<Rightarrow> nat \<Rightarrow> u16" where
  "rd16 m a = ucast (m a) OR push_bit 8 (ucast (m (a + 1)))"

definition rd32 :: "(nat \<Rightarrow> u8) \<Rightarrow> nat \<Rightarrow> u32" where
  "rd32 m a = ucast (m a) OR push_bit 8 (ucast (m (a + 1))) OR push_bit 16 (ucast (m (a + 2)))
     OR push_bit 24 (ucast (m (a + 3)))"

definition rd_bytes :: "(nat \<Rightarrow> u8) \<Rightarrow> nat \<Rightarrow> nat \<Rightarrow> bytes" where
  "rd_bytes m a n = map m [a ..< a + n]"

lemma length_rd_bytes [simp]: "length (rd_bytes m a n) = n"
  by (simp add: rd_bytes_def)

lemma rd_bytes_cong: "(\<And>i. a \<le> i \<Longrightarrow> i < a + n \<Longrightarrow> m i = m' i) \<Longrightarrow> rd_bytes m a n = rd_bytes m' a n"
  by (simp add: rd_bytes_def)

lemma rd_bytes_nth [simp]: "i < n \<Longrightarrow> rd_bytes m a n ! i = m (a + i)"
  by (simp add: rd_bytes_def)

lemma rd_bytes_append: "rd_bytes m a (n + k) = rd_bytes m a n @ rd_bytes m (a + n) k"
  by (simp add: rd_bytes_def upt_add_eq_append [of a "a + n"] add.assoc [symmetric])

section \<open>Facts about one operation\<close>

lemma flash_op_frame:
  "snd (flash_op f s) = s\<lparr>mem := mem (snd (flash_op f s)), script := script (snd (flash_op f s))\<rparr>"
  by (auto simp: flash_op_def split: list.splits outcome.splits)

lemma flash_op_mem: "mem (snd (flash_op f s)) = mem s \<or> mem (snd (flash_op f s)) = f (mem s)"
  by (auto simp: flash_op_def split: list.splits outcome.splits)

lemma flash_op_complete:
  "fst (flash_op f s) = FLASH_COMPLETE \<Longrightarrow> mem (snd (flash_op f s)) = f (mem s) \<and> \<not> flash_locked s"
  by (auto simp: flash_op_def split: list.splits outcome.splits if_splits)

lemma flash_op_ok:
  "\<not> flash_locked s \<Longrightarrow> script s = [] \<Longrightarrow> flash_op f s = (FLASH_COMPLETE, s\<lparr>mem := f (mem s)\<rparr>)"
  by (simp add: flash_op_def)

lemma flash_op_fields [simp]:
  "flash_locked (snd (flash_op f s)) = flash_locked s"
  "sys_lock_cnt (snd (flash_op f s)) = sys_lock_cnt s"
  "sys_locked (snd (flash_op f s)) = sys_locked s"
  "init_done (snd (flash_op f s)) = init_done s"
  "iwdt (snd (flash_op f s)) = iwdt s"
  "sampling_disabled (snd (flash_op f s)) = sampling_disabled s"
  "ignore_input (snd (flash_op f s)) = ignore_input s"
  "motor_stops (snd (flash_op f s)) = motor_stops s"
  "motor_override_released (snd (flash_op f s)) = motor_override_released s"
  "sys.more (snd (flash_op f s)) = sys.more s"
  by (auto simp: flash_op_def split: list.splits outcome.splits)

lemma prog8_other [simp]: "b \<noteq> a \<Longrightarrow> prog8 a v m b = m b"
  by (simp add: prog8_def)

lemma prog8_same [simp]: "prog8 a v m a = m a AND v"
  by (simp add: prog8_def)

lemma byte_of_rd16:
  "byte_of 0 (rd16 m a) = m a" "byte_of 8 (rd16 m a) = m (a + 1)"
  by (rule bit_word_eqI, auto simp: rd16_def byte_of_def bit_simps dest: bit_imp_le_length)+

lemma rd16_eq_iff: "rd16 m a = rd16 m' b \<longleftrightarrow> m a = m' b \<and> m (a + 1) = m' (b + 1)"
  by (metis byte_of_rd16 rd16_def)

text \<open>Halfwords at even addresses do not overlap.\<close>

lemma rd16_prog16_same: "rd16 (prog16 a v m) a = rd16 m a AND v"
  by (rule bit_word_eqI)
    (auto simp: rd16_def prog16_def byte_of_def bit_simps dest: bit_imp_le_length)

lemma rd16_prog16_other:
  assumes "even a" and "even b" and "a \<noteq> b"
  shows "rd16 (prog16 a v m) b = rd16 m b"
proof -
  have "b \<noteq> a + 1" and "b + 1 \<noteq> a"
    using assms by auto
  then show ?thesis
    using assms(3) by (simp add: rd16_def prog16_def)
qed

end
