(* ===== verification/Flash_Helper.thy ===== *)
theory Flash_Helper
  imports System
begin

text \<open>
  \<^verbatim>\<open>flash_helper.c\<close>: erasing and writing the sectors of the new firmware image and of the
  user code (QML interface, lisp program, lisp constants), the check that user code is intact,
  the CRC over the firmware itself, and the memory offered to native packages. A C pointer into
  flash is its address, the null pointer is \<open>None\<close>; \<open>code_checks\<close> holds the pairs
  \<open>check_done\<close>, \<open>ok\<close>; \<open>crc_dr\<close> is the data register of the CRC unit and \<open>chunk_index\<close>
  the static variable of \<^verbatim>\<open>flash_helper_verify_flash_memory_chunk\<close>.
\<close>

record fh = sys +
  code_checks :: "(bool \<times> bool) list"
  lisp_running :: bool
  crc_dr :: u32
  chunk_index :: u32

definition BOOTLOADER_BASE :: nat where "BOOTLOADER_BASE = 11"
definition NEW_APP_BASE :: nat where "NEW_APP_BASE = 8"
definition NEW_APP_SECTORS :: nat where "NEW_APP_SECTORS = 3"
definition QMLUI_MAX_SIZE :: u32 where "QMLUI_MAX_SIZE = 131064"

text \<open>The sectors behind the code indices 0 (QML), 1 (lisp) and 2 (lisp constants).\<close>

definition code_sectors :: "nat list" where "code_sectors = [9, 10, 8]"

section \<open>Entering and leaving a flash operation\<close>

text \<open>The statements every operation starts and ends with. \<^verbatim>\<open>FLASH_ClearFlag\<close> clears
  the sticky error flags; the errors of later operations are what the script says.\<close>

definition stop_motor :: "'a sys_scheme \<Rightarrow> 'a sys_scheme" where
  "stop_motor s = mc_interface_release_motor_override_both (mc_interface_ignore_input_both 5000 s)"

definition flash_enter :: "'a sys_scheme \<Rightarrow> 'a sys_scheme" where
  "flash_enter s = timeout_configure_IWDT_slowest (utils_sys_lock_cnt s)"

definition flash_leave :: "int \<Rightarrow> 'a sys_scheme \<Rightarrow> 'a sys_scheme" where
  "flash_leave t s =
     utils_sys_unlock_cnt (mc_interface_ignore_input_both t (timeout_configure_IWDT (FLASH_Lock s)))"

section \<open>Erasing and writing\<close>

definition erase_sector :: "nat \<Rightarrow> 'a sys_scheme \<Rightarrow> status \<times> 'a sys_scheme" where
  "erase_sector sector s =
     (let s1 = stop_motor (FLASH_Unlock s) in
      if \<not> mc_interface_wait_for_motor_release_both s1 then (100, s1)
      else (let (res, s2) = FLASH_EraseSector sector (flash_enter s1)
            in (res, flash_leave 100 s2)))"

fun write_loop :: "u32 \<Rightarrow> bytes \<Rightarrow> 'a sys_scheme \<Rightarrow> status \<times> 'a sys_scheme" where
  "write_loop base [] s = (FLASH_COMPLETE, s)"
| "write_loop base (d # ds) s =
     (let (res, s1) = FLASH_ProgramByte (unat base) d s
      in if res \<noteq> FLASH_COMPLETE then (res, s1) else write_loop (base + 1) ds s1)"

definition write_data :: "u32 \<Rightarrow> bytes \<Rightarrow> 'a sys_scheme \<Rightarrow> status \<times> 'a sys_scheme" where
  "write_data base data s =
     (let s1 = stop_motor (FLASH_Unlock s) in
      if \<not> mc_interface_wait_for_motor_release_both s1 then (100, s1)
      else (let (res, s2) = write_loop base data (flash_enter s1)
            in if res \<noteq> FLASH_COMPLETE then (res, flash_leave 5000 s2)
               else (FLASH_COMPLETE, flash_leave 100 s2)))"

definition flash_helper_write_otp :: "u32 \<Rightarrow> bytes \<Rightarrow> 'a sys_scheme \<Rightarrow> status \<times> 'a sys_scheme" where
  "flash_helper_write_otp addr data s =
     (let (res, s1) = write_data addr data s in (if res = FLASH_COMPLETE then 0 else res, s1))"

definition flash_addr32 :: "nat \<Rightarrow> u32" where "flash_addr32 i = word_of_nat (flash_addr ! i)"

text \<open>The loop over the sectors of the new image; \<open>i\<close> counts from 0 to
  \<open>NEW_APP_SECTORS\<close>. The size has the base address added with 32 bit wrap-around.\<close>

fun erase_new_app_loop :: "nat \<Rightarrow> nat \<Rightarrow> u32 \<Rightarrow> 'a sys_scheme \<Rightarrow> status \<times> 'a sys_scheme" where
  "erase_new_app_loop 0 i end_addr s = (FLASH_COMPLETE, flash_leave 100 s)"
| "erase_new_app_loop (Suc n) i end_addr s =
     (if end_addr > flash_addr32 (NEW_APP_BASE + i) then
        (let (res, s1) = FLASH_EraseSector (flash_sector ! (NEW_APP_BASE + i)) s
         in if res \<noteq> FLASH_COMPLETE then (res, flash_leave 5000 s1)
            else erase_new_app_loop n (Suc i) end_addr s1)
      else (FLASH_COMPLETE, flash_leave 100 s))"

definition flash_helper_erase_new_app :: "u32 \<Rightarrow> fh \<Rightarrow> status \<times> fh" where
  "flash_helper_erase_new_app new_app_size s =
     (let s1 = stop_motor (FLASH_Unlock (s\<lparr>lisp_running := False\<rparr>));
          end_addr = new_app_size + flash_addr32 NEW_APP_BASE in
      if \<not> mc_interface_wait_for_motor_release_both s1 then (100, s1)
      else erase_new_app_loop NEW_APP_SECTORS 0 end_addr (flash_enter s1))"

definition flash_helper_erase_bootloader :: "fh \<Rightarrow> status \<times> fh" where
  "flash_helper_erase_bootloader = erase_sector (flash_sector ! BOOTLOADER_BASE)"

definition flash_helper_write_new_app_data :: "u32 \<Rightarrow> bytes \<Rightarrow> fh \<Rightarrow> status \<times> fh" where
  "flash_helper_write_new_app_data offset = write_data (flash_addr32 NEW_APP_BASE + offset)"

section \<open>User code\<close>

definition flash_helper_code_data_raw :: "nat \<Rightarrow> nat" where
  "flash_helper_code_data_raw ind = flash_addr ! (code_sectors ! ind)"

text \<open>The scan for data in front of an erase: the loop counter advances, the pointer does not.\<close>

fun has_data_scan :: "nat \<Rightarrow> nat \<Rightarrow> (nat \<Rightarrow> u8) \<Rightarrow> bool" where
  "has_data_scan 0 p m = False"
| "has_data_scan (Suc n) p m = (if m p \<noteq> 0xFF then True else has_data_scan n p m)"

definition flash_helper_erase_code :: "nat \<Rightarrow> fh \<Rightarrow> status \<times> fh" where
  "flash_helper_erase_code ind s =
     (let s1 = (if ind = 1 \<or> ind = 2 then s\<lparr>lisp_running := False\<rparr> else s) in
      if \<not> has_data_scan 131072 (flash_helper_code_data_raw ind) (mem s1) then (FLASH_COMPLETE, s1)
      else erase_sector (flash_sector ! (code_sectors ! ind))
             (s1\<lparr>code_checks := (code_checks s1)[ind := (False, False)]\<rparr>))"

definition flash_helper_write_code :: "nat \<Rightarrow> u32 \<Rightarrow> bytes \<Rightarrow> fh \<Rightarrow> status \<times> fh" where
  "flash_helper_write_code ind offset data s =
     write_data (flash_addr32 (code_sectors ! ind) + offset) data
       (s\<lparr>code_checks := (code_checks s)[ind := (False, False)]\<rparr>)"

text \<open>The header of user code: 4 bytes length, 2 bytes CRC, then 2 bytes flags that the CRC
  includes. A length above the maximum is refused before the CRC is computed.\<close>

definition code_intact :: "nat \<Rightarrow> (nat \<Rightarrow> u8) \<Rightarrow> bool" where
  "code_intact ind m =
     (let base = flash_helper_code_data_raw ind;
          hdr = rd_bytes m base 8;
          qmlui_len = fst (the (buffer_get_uint32 hdr 0));
          qmlui_crc = fst (the (buffer_get_uint16 hdr 4))
      in if qmlui_len \<le> QMLUI_MAX_SIZE
         then crc16 (rd_bytes m (base + 6) (unat (qmlui_len + 2))) = qmlui_crc
         else False)"

definition qmlui_check :: "nat \<Rightarrow> fh \<Rightarrow> fh" where
  "qmlui_check ind s =
     (if fst (code_checks s ! ind) then s
      else s\<lparr>code_checks := (code_checks s)[ind := (True, code_intact ind (mem s))]\<rparr>)"

definition checked_ok :: "nat \<Rightarrow> fh \<Rightarrow> bool" where
  "checked_ok ind s = (fst (code_checks s ! ind) \<and> snd (code_checks s ! ind))"

definition flash_helper_code_data :: "nat \<Rightarrow> fh \<Rightarrow> nat option \<times> fh" where
  "flash_helper_code_data ind s =
     (let s1 = qmlui_check ind s
      in (if checked_ok ind s1 then Some (flash_helper_code_data_raw ind + 8) else None, s1))"

definition flash_helper_code_size :: "nat \<Rightarrow> fh \<Rightarrow> u32 \<times> fh" where
  "flash_helper_code_size ind s =
     (let s1 = qmlui_check ind s in
      (if checked_ok ind s1
       then fst (the (buffer_get_uint32 (rd_bytes (mem s1) (flash_helper_code_data_raw ind) 8) 0))
       else 0, s1))"

definition flash_helper_code_flags :: "nat \<Rightarrow> fh \<Rightarrow> u16 \<times> fh" where
  "flash_helper_code_flags ind s =
     (let s1 = qmlui_check ind s in
      (if checked_ok ind s1
       then fst (the (buffer_get_uint16 (rd_bytes (mem s1) (flash_helper_code_data_raw ind) 8) 6))
       else 0, s1))"

definition flash_helper_get_sector_address :: "nat \<Rightarrow> nat option" where
  "flash_helper_get_sector_address fsector = map_of (zip flash_sector flash_addr) fsector"

section \<open>Integrity of the firmware\<close>

definition VECTOR_TABLE_ADDRESS :: nat where "VECTOR_TABLE_ADDRESS = 0x08000000"
definition VECTOR_TABLE_SIZE :: nat where "VECTOR_TABLE_SIZE = 0x4000"
definition APP_MAX_SIZE :: nat where "APP_MAX_SIZE = 1024 * 128 * 4 - 8"
definition EEPROM_EMULATION_SIZE :: nat where "EEPROM_EMULATION_SIZE = 0x08010000 - 0x08008000"
definition APP_START_ADDRESS :: nat where "APP_START_ADDRESS = 0x0800C000"
definition APP_SIZE :: nat where "APP_SIZE = APP_MAX_SIZE - VECTOR_TABLE_SIZE - EEPROM_EMULATION_SIZE"
definition APP_CRC_FLAG_ADDRESS :: nat where "APP_CRC_FLAG_ADDRESS = 0x08000000 + APP_MAX_SIZE - 8"
definition APP_CRC_ADDRESS :: nat where "APP_CRC_ADDRESS = 0x08000000 + APP_MAX_SIZE - 4"

lemmas app_layout = VECTOR_TABLE_ADDRESS_def VECTOR_TABLE_SIZE_def APP_MAX_SIZE_def
  EEPROM_EMULATION_SIZE_def APP_START_ADDRESS_def APP_SIZE_def APP_CRC_FLAG_ADDRESS_def
  APP_CRC_ADDRESS_def

definition rd_words :: "(nat \<Rightarrow> u8) \<Rightarrow> nat \<Rightarrow> nat \<Rightarrow> u32 list" where
  "rd_words m a n = map (\<lambda>i. rd32 m (a + 4 * i)) [0 ..< n]"

definition crc_feed :: "nat \<Rightarrow> nat \<Rightarrow> fh \<Rightarrow> fh" where
  "crc_feed a n s = s\<lparr>crc_dr := crc32 (crc_dr s) (rd_words (mem s) a n)\<rparr>"

datatype verify_result = FAULT_CODE_NONE | FAULT_CODE_FLASH_CORRUPTION | SYSTEM_RESET

text \<open>If the flag word is still blank this is the first boot of a new image: the flag is
  cleared, the CRC over everything in front of the CRC word is stored behind it and the
  system restarts. Otherwise the CRC over the whole image including the stored word has to
  come out as zero. The emulated EEPROM in sectors 1 and 2 is left out.\<close>

definition flash_helper_verify_flash_memory :: "fh \<Rightarrow> verify_result \<times> fh" where
  "flash_helper_verify_flash_memory s =
     (if rd32 (mem s) APP_CRC_FLAG_ADDRESS = 0 then
        (let s1 = crc_feed VECTOR_TABLE_ADDRESS (VECTOR_TABLE_SIZE div 4) (s\<lparr>crc_dr := crc32_reset\<rparr>);
             s2 = crc_feed APP_START_ADDRESS (APP_SIZE div 4) s1
         in (if crc_dr s2 = 0 then FAULT_CODE_NONE else FAULT_CODE_FLASH_CORRUPTION, s2))
      else
        (let (res, s1) = FLASH_ProgramWord APP_CRC_FLAG_ADDRESS 0 (FLASH_Unlock s) in
         if res \<noteq> FLASH_COMPLETE then (FAULT_CODE_FLASH_CORRUPTION, FLASH_Lock s1)
         else
           (let s2 = crc_feed VECTOR_TABLE_ADDRESS (VECTOR_TABLE_SIZE div 4) (s1\<lparr>crc_dr := crc32_reset\<rparr>);
                s3 = crc_feed APP_START_ADDRESS ((APP_SIZE - 4) div 4) s2;
                (res, s4) = FLASH_ProgramWord APP_CRC_ADDRESS (crc_dr s3) s3
            in if res \<noteq> FLASH_COMPLETE then (FAULT_CODE_FLASH_CORRUPTION, FLASH_Lock s4)
               else (SYSTEM_RESET, FLASH_Lock s4))))"

definition flash_helper_verify_flash_memory_chunk :: "fh \<Rightarrow> verify_result \<times> fh" where
  "flash_helper_verify_flash_memory_chunk s =
     (let tot_bytes = word_of_nat (VECTOR_TABLE_SIZE + APP_SIZE) :: u32;
          index = chunk_index s;
          s1 = (if index = 0 then s\<lparr>crc_dr := crc32_reset\<rparr> else s);
          chunk_size = (if index + 1024 \<ge> tot_bytes then tot_bytes - index else 1024);
          (crc, s2) =
            (if index < word_of_nat VECTOR_TABLE_SIZE
             then (0, crc_feed (VECTOR_TABLE_ADDRESS + 4 * (unat index div 4)) (unat chunk_size div 4) s1)
             else (let t = crc_feed (APP_START_ADDRESS + 4 * (unat (index - word_of_nat VECTOR_TABLE_SIZE) div 4))
                             (unat chunk_size div 4) s1
                   in (crc_dr t, t)));
          next = index + chunk_size
      in if next \<ge> tot_bytes
         then (if crc \<noteq> 0 then FAULT_CODE_FLASH_CORRUPTION else FAULT_CODE_NONE, s2\<lparr>chunk_index := 0\<rparr>)
         else (FAULT_CODE_NONE, s2\<lparr>chunk_index := next\<rparr>))"

definition flash_helper_app_crc :: "fh \<Rightarrow> u32" where
  "flash_helper_app_crc s = rd32 (mem s) APP_CRC_ADDRESS"

section \<open>Memory for packages\<close>

definition VESC_IF_NVM_REGION_SIZE :: u32 where
  "VESC_IF_NVM_REGION_SIZE = flash_addr32 11 - flash_addr32 10"

definition flash_helper_read_nvm :: "u32 \<Rightarrow> u32 \<Rightarrow> fh \<Rightarrow> bytes option" where
  "flash_helper_read_nvm len address s =
     (if address + len > VESC_IF_NVM_REGION_SIZE then None
      else Some (rd_bytes (mem s) (unat (flash_addr32 11 + address)) (unat len)))"

definition flash_helper_write_nvm :: "bytes \<Rightarrow> u32 \<Rightarrow> fh \<Rightarrow> bool \<times> fh" where
  "flash_helper_write_nvm v address s =
     (if address + word_of_nat (length v) > VESC_IF_NVM_REGION_SIZE then (False, s)
      else (let (res, s1) = write_data (flash_addr32 11 + address) v s in (res = FLASH_COMPLETE, s1)))"

definition flash_helper_wipe_nvm :: "fh \<Rightarrow> bool \<times> fh" where
  "flash_helper_wipe_nvm s =
     (let (res, s1) = erase_sector (flash_sector ! 11) s in (res = FLASH_COMPLETE, s1))"

section \<open>What the operations do to the memory\<close>

definition and_bytes :: "nat \<Rightarrow> bytes \<Rightarrow> (nat \<Rightarrow> u8) \<Rightarrow> nat \<Rightarrow> u8" where
  "and_bytes a ds m = (\<lambda>x. if a \<le> x \<and> x < a + length ds then m x AND ds ! (x - a) else m x)"

lemma and_bytes_Nil [simp]: "and_bytes a [] m = m"
  by (rule ext) (auto simp: and_bytes_def)

lemma and_bytes_Cons: "and_bytes a (d # ds) m = and_bytes (Suc a) ds (prog8 a d m)"
proof (rule ext)
  fix x
  show "and_bytes a (d # ds) m x = and_bytes (Suc a) ds (prog8 a d m) x"
  proof (cases "x \<le> a")
    case False
    then obtain j where "x = a + Suc j"
      using less_imp_Suc_add [of a x] by auto
    then show ?thesis by (simp add: and_bytes_def prog8_def)
  qed (auto simp: and_bytes_def prog8_def)
qed

lemma and_bytes_outside: "x < a \<or> a + length ds \<le> x \<Longrightarrow> and_bytes a ds m x = m x"
  by (auto simp: and_bytes_def)

lemma and_bytes_append: "and_bytes (a + length xs) ys (and_bytes a xs m) = and_bytes a (xs @ ys) m"
  by (rule ext) (auto simp: and_bytes_def nth_append)

lemma rd_bytes_and_bytes:
  "\<forall>x. a \<le> x \<and> x < a + length ds \<longrightarrow> m x = 0xFF \<Longrightarrow> rd_bytes (and_bytes a ds m) a (length ds) = ds"
  by (rule nth_equalityI) (auto simp: and_bytes_def)

lemma write_loop_mem:
  assumes "unat base + length ds \<le> 2 ^ 32"
  shows "\<exists>k \<le> length ds. mem (snd (write_loop base ds s)) = and_bytes (unat base) (take k ds) (mem s) \<and>
    (fst (write_loop base ds s) = FLASH_COMPLETE \<longrightarrow> k = length ds)"
  using assms
proof (induction ds arbitrary: base s)
  case Nil
  then show ?case by simp
next
  case (Cons d ds)
  let ?r = "FLASH_ProgramByte (unat base) d s"
  show ?case
  proof (cases "fst ?r = FLASH_COMPLETE")
    case False
    have "mem (snd ?r) = mem s \<or> mem (snd ?r) = prog8 (unat base) d (mem s)"
      unfolding FLASH_ProgramByte_def by (rule flash_op_mem)
    then have "\<exists>k \<le> Suc 0. mem (snd ?r) = and_bytes (unat base) (take k (d # ds)) (mem s)"
      by (auto simp: and_bytes_Cons intro: exI [of _ 0] exI [of _ "Suc 0"])
    then obtain k where "k \<le> length (d # ds)"
        "mem (snd ?r) = and_bytes (unat base) (take k (d # ds)) (mem s)"
      by (metis One_nat_def Suc_le_mono le0 le_trans length_Cons)
    then show ?thesis
      using False by (auto simp: case_prod_beta)
  next
    case True
    then have m: "mem (snd ?r) = prog8 (unat base) d (mem s)"
      unfolding FLASH_ProgramByte_def by (simp add: flash_op_complete)
    have w: "write_loop base (d # ds) s = write_loop (base + 1) ds (snd ?r)"
      using True by (simp add: case_prod_beta)
    show ?thesis
    proof (cases "ds = []")
      case True
      then show ?thesis
        using m w by (auto simp: and_bytes_Cons intro: exI [of _ "Suc 0"])
    next
      case False
      then have u: "unat (base + 1) = Suc (unat base)"
        using Cons.prems by (cases ds) (auto simp: unat_word_ariths)
      then obtain k where "k \<le> length ds"
          "mem (snd (write_loop (base + 1) ds (snd ?r))) = and_bytes (Suc (unat base)) (take k ds) (mem (snd ?r))"
          "fst (write_loop (base + 1) ds (snd ?r)) = FLASH_COMPLETE \<longrightarrow> k = length ds"
        using Cons.IH [of "base + 1" "snd ?r"] Cons.prems by auto
      then show ?thesis
        unfolding w using m by (intro exI [of _ "Suc k"]) (simp add: and_bytes_Cons)
    qed
  qed
qed

lemma write_loop_ok:
  "\<not> flash_locked s \<Longrightarrow> script s = [] \<Longrightarrow>
     fst (write_loop base ds s) = FLASH_COMPLETE \<and> script (snd (write_loop base ds s)) = []"
  by (induction ds arbitrary: base s) (simp_all add: FLASH_ProgramByte_def flash_op_ok)

lemma write_loop_fields [simp]:
  "flash_locked (snd (write_loop base ds s)) = flash_locked s"
  "sys_lock_cnt (snd (write_loop base ds s)) = sys_lock_cnt s"
  "sys_locked (snd (write_loop base ds s)) = sys_locked s"
  "init_done (snd (write_loop base ds s)) = init_done s"
  "iwdt (snd (write_loop base ds s)) = iwdt s"
  "sampling_disabled (snd (write_loop base ds s)) = sampling_disabled s"
  "motor_stops (snd (write_loop base ds s)) = motor_stops s"
  "sys.more (snd (write_loop base ds s)) = sys.more s"
  by (induction ds arbitrary: base s; simp add: FLASH_ProgramByte_def case_prod_beta)+

lemma FLASH_EraseSector_nth:
  assumes "i < 12"
  shows "FLASH_EraseSector (flash_sector ! i) =
    flash_op (erase_range ((flash_addr @ [0x08100000]) ! i) ((flash_addr @ [0x08100000]) ! Suc i))"
proof -
  have "flash_sector ! i = 8 * i"
    using assms by (auto simp: flash_sector_def eval_nat_numeral less_Suc_eq)
  then show ?thesis
    by (simp add: FLASH_EraseSector_def Let_def)
qed

lemmas guard_defs = stop_motor_def flash_enter_def flash_leave_def utils_sys_lock_cnt_def
  utils_sys_unlock_cnt_def timeout_configure_IWDT_slowest_def timeout_configure_IWDT_def
  mc_interface_ignore_input_both_def mc_interface_release_motor_override_both_def
  mc_interface_wait_for_motor_release_both_def FLASH_Unlock_def FLASH_Lock_def

lemma guard_fields [simp]:
  "mem (stop_motor s) = mem s" "script (stop_motor s) = script s"
  "flash_locked (stop_motor s) = flash_locked s" "motor_stops (stop_motor s) = motor_stops s"
  "sys.more (stop_motor s) = sys.more s"
  "mem (flash_enter s) = mem s" "script (flash_enter s) = script s"
  "flash_locked (flash_enter s) = flash_locked s" "motor_stops (flash_enter s) = motor_stops s"
  "sys.more (flash_enter s) = sys.more s"
  "mem (flash_leave t s) = mem s" "script (flash_leave t s) = script s"
  "flash_locked (flash_leave t s)" "motor_stops (flash_leave t s) = motor_stops s"
  "sys.more (flash_leave t s) = sys.more s"
  "mem (FLASH_Unlock s) = mem s" "script (FLASH_Unlock s) = script s"
  "\<not> flash_locked (FLASH_Unlock s)" "motor_stops (FLASH_Unlock s) = motor_stops s"
  "sys.more (FLASH_Unlock s) = sys.more s"
  "mem (FLASH_Lock s) = mem s" "script (FLASH_Lock s) = script s" "sys.more (FLASH_Lock s) = sys.more s"
  by (simp_all add: guard_defs Let_def)

lemma write_data_mem:
  assumes "unat base + length ds \<le> 2 ^ 32"
  shows "\<exists>k \<le> length ds. mem (snd (write_data base ds s)) = and_bytes (unat base) (take k ds) (mem s) \<and>
    (fst (write_data base ds s) = FLASH_COMPLETE \<longrightarrow> k = length ds)"
proof (cases "motor_stops s")
  case False
  then show ?thesis
    by (auto simp: write_data_def mc_interface_wait_for_motor_release_both_def FLASH_COMPLETE_def Let_def)
next
  case True
  show ?thesis
    using write_loop_mem [OF assms, of "flash_enter (stop_motor (FLASH_Unlock s))"] True
    by (auto simp: write_data_def mc_interface_wait_for_motor_release_both_def Let_def case_prod_beta)
qed

lemma write_data_outside:
  assumes "unat base + length ds \<le> 2 ^ 32" and "x < unat base \<or> unat base + length ds \<le> x"
  shows "mem (snd (write_data base ds s)) x = mem s x"
proof -
  obtain k where "mem (snd (write_data base ds s)) = and_bytes (unat base) (take k ds) (mem s)"
    using write_data_mem [OF assms(1)] by blast
  then show ?thesis
    using assms(2) by (auto intro!: and_bytes_outside)
qed

lemma write_data_ok:
  assumes "unat base + length ds \<le> 2 ^ 32" and "motor_stops s" and "script s = []"
  shows "fst (write_data base ds s) = FLASH_COMPLETE"
    and "mem (snd (write_data base ds s)) = and_bytes (unat base) ds (mem s)"
    and "script (snd (write_data base ds s)) = []"
proof -
  let ?t = "flash_enter (stop_motor (FLASH_Unlock s))"
  have w: "fst (write_loop base ds ?t) = FLASH_COMPLETE \<and> script (snd (write_loop base ds ?t)) = []"
    using assms by (intro write_loop_ok) simp_all
  then show c: "fst (write_data base ds s) = FLASH_COMPLETE" "script (snd (write_data base ds s)) = []"
    using assms by (simp_all add: write_data_def mc_interface_wait_for_motor_release_both_def Let_def case_prod_beta)
  show "mem (snd (write_data base ds s)) = and_bytes (unat base) ds (mem s)"
    using write_data_mem [OF assms(1), of s] c by auto
qed

lemma write_data_fields [simp]:
  "motor_stops (snd (write_data base ds s)) = motor_stops s"
  "sys.more (snd (write_data base ds s)) = sys.more s"
  by (simp_all add: write_data_def Let_def case_prod_beta)

lemma fh_more: "sys.more s = sys.more t \<longleftrightarrow> code_checks s = code_checks t \<and>
    lisp_running s = lisp_running t \<and> crc_dr s = crc_dr t \<and> chunk_index s = chunk_index (t :: fh)"
  by (cases s; cases t) auto

lemma write_data_fh [simp]:
  "code_checks (snd (write_data base ds s)) = code_checks (s :: fh)"
  using write_data_fields(2) [of base ds s] unfolding fh_more by simp

definition sector_range :: "nat \<Rightarrow> nat \<times> nat" where
  "sector_range i = ((flash_addr @ [0x08100000]) ! i, (flash_addr @ [0x08100000]) ! Suc i)"

lemma erase_sector_mem:
  assumes "i < 12" and "sector_range i = (lo, hi)"
  shows "mem (snd (erase_sector (flash_sector ! i) s)) = mem s \<or>
      mem (snd (erase_sector (flash_sector ! i) s)) = erase_range lo hi (mem s)"
    and "fst (erase_sector (flash_sector ! i) s) = FLASH_COMPLETE \<Longrightarrow>
      mem (snd (erase_sector (flash_sector ! i) s)) = erase_range lo hi (mem s)"
    and "motor_stops s \<Longrightarrow> script s = [] \<Longrightarrow> fst (erase_sector (flash_sector ! i) s) = FLASH_COMPLETE \<and>
      script (snd (erase_sector (flash_sector ! i) s)) = []"
proof -
  let ?t = "flash_enter (stop_motor (FLASH_Unlock s))" and ?f = "erase_range lo hi"
  have e: "FLASH_EraseSector (flash_sector ! i) ?t = flash_op ?f ?t"
    using assms by (simp add: FLASH_EraseSector_nth sector_range_def)
  show "mem (snd (erase_sector (flash_sector ! i) s)) = mem s \<or>
      mem (snd (erase_sector (flash_sector ! i) s)) = erase_range lo hi (mem s)"
    using flash_op_mem [of ?f ?t]
    by (auto simp: erase_sector_def Let_def case_prod_beta e)
  show "fst (erase_sector (flash_sector ! i) s) = FLASH_COMPLETE \<Longrightarrow>
      mem (snd (erase_sector (flash_sector ! i) s)) = erase_range lo hi (mem s)"
    using flash_op_complete [of ?f ?t]
    by (auto simp: erase_sector_def Let_def case_prod_beta e FLASH_COMPLETE_def split: if_splits)
  show "motor_stops s \<Longrightarrow> script s = [] \<Longrightarrow> fst (erase_sector (flash_sector ! i) s) = FLASH_COMPLETE \<and>
      script (snd (erase_sector (flash_sector ! i) s)) = []"
    using flash_op_ok [of ?t ?f]
    by (simp add: erase_sector_def Let_def case_prod_beta e mc_interface_wait_for_motor_release_both_def)
qed

lemma erase_sector_fields [simp]:
  "motor_stops (snd (erase_sector i s)) = motor_stops s"
  "sys.more (snd (erase_sector i s)) = sys.more s"
  by (simp_all add: erase_sector_def Let_def case_prod_beta FLASH_EraseSector_def)

lemma erase_sector_fh [simp]:
  "code_checks (snd (erase_sector i s)) = code_checks (s :: fh)"
  using erase_sector_fields(2) [of i s] unfolding fh_more by simp

lemma has_data_scan_iff: "has_data_scan n p m \<longleftrightarrow> n > 0 \<and> m p \<noteq> 0xFF"
  by (induction n) auto

section \<open>Sequences of requests\<close>

text \<open>The requests the rest of the firmware makes of this component.\<close>

datatype fh_op = EraseNewApp u32 | WriteNewApp u32 bytes | EraseBootloader | EraseCode nat
  | WriteCode nat u32 bytes | WriteNvm bytes u32 | WipeNvm | CodeData nat | CodeSize nat | CodeFlags nat

fun fh_exec :: "fh_op \<Rightarrow> fh \<Rightarrow> fh" where
  "fh_exec (EraseNewApp n) s = snd (flash_helper_erase_new_app n s)"
| "fh_exec (WriteNewApp off d) s = snd (flash_helper_write_new_app_data off d s)"
| "fh_exec EraseBootloader s = snd (flash_helper_erase_bootloader s)"
| "fh_exec (EraseCode ind) s = snd (flash_helper_erase_code ind s)"
| "fh_exec (WriteCode ind off d) s = snd (flash_helper_write_code ind off d s)"
| "fh_exec (WriteNvm v a) s = snd (flash_helper_write_nvm v a s)"
| "fh_exec WipeNvm s = snd (flash_helper_wipe_nvm s)"
| "fh_exec (CodeData ind) s = snd (flash_helper_code_data ind s)"
| "fh_exec (CodeSize ind) s = snd (flash_helper_code_size ind s)"
| "fh_exec (CodeFlags ind) s = snd (flash_helper_code_flags ind s)"

text \<open>The arguments a caller has to respect: a code index, and writes that end inside the
  sectors they start in.\<close>

fun fh_op_ok :: "fh_op \<Rightarrow> bool" where
  "fh_op_ok (WriteNewApp off d) = (unat off + length d \<le> 0x60000)"
| "fh_op_ok (EraseCode ind) = (ind < 3)"
| "fh_op_ok (WriteCode ind off d) = (ind < 3 \<and> unat off + length d \<le> 0x20000)"
| "fh_op_ok (WriteNvm v a) = (unat a + length v < 2 ^ 32)"
| "fh_op_ok (CodeData ind) = (ind < 3)"
| "fh_op_ok (CodeSize ind) = (ind < 3)"
| "fh_op_ok (CodeFlags ind) = (ind < 3)"
| "fh_op_ok _ = True"

subsection \<open>The guards are balanced\<close>

definition idle :: "'a sys_scheme \<Rightarrow> bool" where
  "idle s = (init_done s \<and> sys_lock_cnt s = 0 \<and> \<not> sys_locked s \<and> iwdt s = (4, 140) \<and> \<not> sampling_disabled s)"

text \<open>Inside an operation: locked once, the watchdog slow, the shutdown button not sampled.\<close>

definition busy :: "'a sys_scheme \<Rightarrow> bool" where
  "busy s = (init_done s \<and> sys_lock_cnt s = 1 \<and> sys_locked s \<and> iwdt s = (256, 4000) \<and> sampling_disabled s)"

lemma idle_stop [simp]: "idle (stop_motor (FLASH_Unlock s)) = idle s"
  by (simp add: idle_def guard_defs)

lemma busy_enter: "idle s \<Longrightarrow> busy (flash_enter s)"
  by (simp add: idle_def busy_def guard_defs)

lemma idle_leave: "busy s \<Longrightarrow> idle (flash_leave t s)"
  by (simp add: idle_def busy_def guard_defs)

lemma busy_flash_op [simp]: "busy (snd (flash_op f s)) = busy s"
  by (simp add: busy_def)

lemma busy_write_loop [simp]: "busy (snd (write_loop base ds s)) = busy s"
  by (simp add: busy_def)

lemma idle_write_data: "idle s \<Longrightarrow> idle (snd (write_data base ds s))"
  by (auto simp: write_data_def Let_def case_prod_beta intro!: idle_leave busy_enter)

lemma idle_erase_sector: "idle s \<Longrightarrow> idle (snd (erase_sector i s))"
  by (auto simp: erase_sector_def Let_def case_prod_beta FLASH_EraseSector_def
      intro!: idle_leave busy_enter)

lemma idle_erase_new_app_loop: "busy s \<Longrightarrow> idle (snd (erase_new_app_loop n i e s))"
  by (induction n arbitrary: i s)
    (auto simp: Let_def case_prod_beta FLASH_EraseSector_def intro!: idle_leave)

lemma idle_fh [simp]:
  "idle (s\<lparr>code_checks := c\<rparr>) = idle s" "idle (s\<lparr>lisp_running := l\<rparr>) = idle s"
  by (simp_all add: idle_def)

lemma idle_exec: "idle s \<Longrightarrow> idle (fh_exec op s)"
  by (cases op)
    (auto simp: flash_helper_erase_new_app_def flash_helper_write_new_app_data_def
      flash_helper_erase_bootloader_def flash_helper_erase_code_def flash_helper_write_code_def
      flash_helper_write_nvm_def flash_helper_wipe_nvm_def flash_helper_code_data_def
      flash_helper_code_size_def flash_helper_code_flags_def qmlui_check_def Let_def case_prod_beta
      intro!: idle_write_data idle_erase_sector idle_erase_new_app_loop busy_enter)

subsection \<open>Where the operations write\<close>

text \<open>Sectors 8 to 11; everything below is the running firmware and its configuration.\<close>

definition above_app :: "(nat \<Rightarrow> u8) \<Rightarrow> (nat \<Rightarrow> u8) \<Rightarrow> bool" where
  "above_app m m' = (\<forall>x. x < 0x08080000 \<or> 0x08100000 \<le> x \<longrightarrow> m' x = m x)"

lemma above_refl [simp]: "above_app m m"
  by (simp add: above_app_def)

lemma above_trans: "above_app m m' \<Longrightarrow> above_app m' m'' \<Longrightarrow> above_app m m''"
  by (simp add: above_app_def)

lemma above_erase: "8 \<le> i \<Longrightarrow> i < 12 \<Longrightarrow> sector_range i = (lo, hi) \<Longrightarrow> above_app m (erase_range lo hi m)"
proof -
  assume "8 \<le> i" "i < 12" and r: "sector_range i = (lo, hi)"
  then have "i \<in> {8, 9, 10, 11}" by auto
  then show ?thesis
    using r by (auto simp: sector_range_def flash_addr_def above_app_def erase_range_def)
qed

lemma above_erase_sector:
  assumes "8 \<le> i" and "i < 12"
  shows "above_app (mem s) (mem (snd (erase_sector (flash_sector ! i) s)))"
proof -
  obtain lo hi where r: "sector_range i = (lo, hi)" by (cases "sector_range i")
  show ?thesis
    using erase_sector_mem(1) [OF assms(2) r, of s] above_erase [OF assms r, of "mem s"] by auto
qed

lemma above_write_data:
  assumes "0x08080000 \<le> unat base" and "unat base + length ds \<le> 0x08100000"
  shows "above_app (mem s) (mem (snd (write_data base ds s)))"
  unfolding above_app_def
proof (intro allI impI)
  fix x :: nat assume "x < 0x08080000 \<or> 0x08100000 \<le> x"
  then show "mem (snd (write_data base ds s)) x = mem s x"
    using assms by (intro write_data_outside) auto
qed

lemma above_erase_new_app_loop:
  "i + n = 3 \<Longrightarrow> above_app (mem s) (mem (snd (erase_new_app_loop n i e s)))"
proof (induction n arbitrary: i s)
  case 0
  then show ?case by simp
next
  case (Suc n)
  obtain lo hi where r: "sector_range (8 + i) = (lo, hi)" by (cases "sector_range (8 + i)")
  let ?r = "FLASH_EraseSector (flash_sector ! (8 + i)) s"
  have "?r = flash_op (erase_range lo hi) s"
    using r Suc.prems by (simp add: FLASH_EraseSector_nth sector_range_def)
  then have "mem (snd ?r) = mem s \<or> mem (snd ?r) = erase_range lo hi (mem s)"
    using flash_op_mem [of "erase_range lo hi" s] by simp
  then have a: "above_app (mem s) (mem (snd ?r))"
    using above_erase [OF _ _ r, of "mem s"] Suc.prems by auto
  then show ?case
    using Suc.IH [of "Suc i" "snd ?r"] Suc.prems
    by (auto simp: Let_def case_prod_beta NEW_APP_BASE_def intro: above_trans)
qed

lemma below_12: "i < 12 \<Longrightarrow> i \<in> {0, 1, 2, 3, 4, 5, 6, 7, 8, 9, 10, 11 :: nat}"
  unfolding insert_iff empty_iff simp_thms by presburger

lemma unat_flash_addr32: "i < 12 \<Longrightarrow> unat (flash_addr32 i) = flash_addr ! i"
proof -
  assume "i < 12"
  then have "i \<in> {0, 1, 2, 3, 4, 5, 6, 7, 8, 9, 10, 11}" by (rule below_12)
  then show ?thesis
    by (auto simp: flash_addr32_def flash_addr_def unat_of_nat)
qed

lemma unat_sector_offset:
  assumes "i < 12" and "unat off \<le> 0x60000"
  shows "unat (flash_addr32 i + off) = flash_addr ! i + unat off"
proof -
  have "i \<in> {0, 1, 2, 3, 4, 5, 6, 7, 8, 9, 10, 11}"
    using assms(1) by (rule below_12)
  then have "flash_addr ! i \<le> 0x080E0000"
    by (auto simp: flash_addr_def)
  then show ?thesis
    using assms by (simp add: unat_word_ariths unat_flash_addr32)
qed

lemma nvm_size: "unat VESC_IF_NVM_REGION_SIZE = 0x20000"
  by (simp add: VESC_IF_NVM_REGION_SIZE_def flash_addr32_def flash_addr_def)

lemma code_sector_cases: "ind < 3 \<Longrightarrow> code_sectors ! ind \<in> {8, 9, 10}"
  by (auto simp: code_sectors_def eval_nat_numeral less_Suc_eq)

lemma above_exec:
  assumes "fh_op_ok op"
  shows "above_app (mem s) (mem (fh_exec op s))"
proof (cases op)
  case (WriteNewApp off d)
  then have "unat (flash_addr32 8 + off) = 0x08080000 + unat off"
    using assms by (subst unat_sector_offset) (auto simp: flash_addr_def)
  then show ?thesis
    using assms WriteNewApp
    by (auto simp: flash_helper_write_new_app_data_def NEW_APP_BASE_def intro!: above_write_data)
next
  case (WriteCode ind off d)
  then have c: "code_sectors ! ind \<in> {8, 9, 10}"
    using assms by (simp only: fh_op_ok.simps code_sector_cases)
  then have u: "unat (flash_addr32 (code_sectors ! ind) + off) = flash_addr ! (code_sectors ! ind) + unat off"
    using assms WriteCode by (intro unat_sector_offset) auto
  have "flash_addr ! (code_sectors ! ind) \<in> {0x08080000, 0x080A0000, 0x080C0000}"
    using c by (auto simp: flash_addr_def)
  then have "above_app (mem t) (mem (snd (write_data (flash_addr32 (code_sectors ! ind) + off) d t)))"
    for t :: fh
    using assms WriteCode by (intro above_write_data) (auto simp: u)
  from this [of "s\<lparr>code_checks := (code_checks s)[ind := (False, False)]\<rparr>"] show ?thesis
    using WriteCode by (simp add: flash_helper_write_code_def)
next
  case (EraseCode ind)
  then have "code_sectors ! ind \<in> {8, 9, 10}"
    using assms by (simp only: fh_op_ok.simps code_sector_cases)
  then have "8 \<le> code_sectors ! ind" "code_sectors ! ind < 12" by auto
  then show ?thesis
    using EraseCode above_erase_sector [of "code_sectors ! ind" "s\<lparr>code_checks := c\<rparr>" for c]
      above_erase_sector [of "code_sectors ! ind" "s\<lparr>lisp_running := False, code_checks := c\<rparr>" for c]
    by (auto simp: flash_helper_erase_code_def Let_def)
next
  case (EraseNewApp n)
  let ?t = "flash_enter (stop_motor (FLASH_Unlock (s\<lparr>lisp_running := False\<rparr>)))"
  have "above_app (mem ?t) (mem (snd (erase_new_app_loop 3 0 e ?t)))" for e
    by (rule above_erase_new_app_loop) simp
  then show ?thesis
    using EraseNewApp by (simp add: flash_helper_erase_new_app_def NEW_APP_SECTORS_def Let_def)
next
  case (WriteNvm v a)
  show ?thesis
  proof (cases "a + word_of_nat (length v) > VESC_IF_NVM_REGION_SIZE")
    case False
    have "unat (a + word_of_nat (length v)) = unat a + length v"
      using assms WriteNvm by (simp add: unat_word_ariths unat_of_nat)
    then have le: "unat a + length v \<le> 0x20000"
      using False nvm_size by (simp add: word_less_nat_alt)
    then have "unat (flash_addr32 11 + a) = 0x080E0000 + unat a"
      by (subst unat_sector_offset) (auto simp: flash_addr_def)
    then show ?thesis
      using WriteNvm False le
      by (auto simp: flash_helper_write_nvm_def Let_def case_prod_beta intro!: above_write_data)
  qed (use WriteNvm in \<open>simp add: flash_helper_write_nvm_def\<close>)
qed (auto simp: flash_helper_erase_bootloader_def flash_helper_wipe_nvm_def
    flash_helper_code_data_def flash_helper_code_size_def flash_helper_code_flags_def
    qmlui_check_def Let_def case_prod_beta BOOTLOADER_BASE_def
    intro!: above_erase_sector [of 11, simplified])

subsection \<open>The image and its checksum\<close>

definition image :: "(nat \<Rightarrow> u8) \<Rightarrow> u32 list" where
  "image m = rd_words m VECTOR_TABLE_ADDRESS (VECTOR_TABLE_SIZE div 4) @ rd_words m APP_START_ADDRESS (APP_SIZE div 4)"

lemma length_rd_words [simp]: "length (rd_words m a n) = n"
  by (simp add: rd_words_def)

lemma rd_words_append: "rd_words m a (n + k) = rd_words m a n @ rd_words m (a + 4 * n) k"
proof (rule nth_equalityI)
  fix i assume "i < length (rd_words m a (n + k))"
  then show "rd_words m a (n + k) ! i = (rd_words m a n @ rd_words m (a + 4 * n) k) ! i"
  proof (cases "i < n")
    case False
    then obtain j where "i = n + j"
      using le_Suc_ex not_less by blast
    then show ?thesis
      using \<open>i < length (rd_words m a (n + k))\<close> by (simp add: rd_words_def nth_append algebra_simps)
  qed (simp add: rd_words_def nth_append)
qed simp

lemma rd_words_Suc: "rd_words m a (Suc n) = rd_words m a n @ [rd32 m (a + 4 * n)]"
  using rd_words_append [of m a n 1] by (simp add: rd_words_def)

lemma rd_words_cong:
  assumes "\<And>x. a \<le> x \<Longrightarrow> x < a + 4 * n \<Longrightarrow> m x = m' x"
  shows "rd_words m a n = rd_words m' a n"
proof (rule nth_equalityI)
  fix i assume "i < length (rd_words m a n)"
  then have "a + 4 * i + 3 < a + 4 * n" by simp
  then have "m (a + 4 * i + j) = m' (a + 4 * i + j)" if "j \<le> 3" for j
    using that by (intro assms) auto
  from this [of 0] this [of 1] this [of 2] this [of 3]
  show "rd_words m a n ! i = rd_words m' a n ! i"
    using \<open>i < length (rd_words m a n)\<close> by (simp add: rd_words_def rd32_def)
qed simp

lemma image_cong: "(\<And>x. 0x08000000 \<le> x \<Longrightarrow> x < 0x0807FFF8 \<Longrightarrow> m x = m' x) \<Longrightarrow> image m = image m'"
  unfolding image_def by (intro arg_cong2 [of _ _ _ _ "(@)"] rd_words_cong) (auto simp: app_layout)

lemma verify_sealed:
  assumes "rd32 (mem s) APP_CRC_FLAG_ADDRESS = 0"
  shows "fst (flash_helper_verify_flash_memory s) =
    (if crc32 crc32_reset (image (mem s)) = 0 then FAULT_CODE_NONE else FAULT_CODE_FLASH_CORRUPTION)"
  using assms by (simp add: flash_helper_verify_flash_memory_def crc_feed_def image_def crc32_append Let_def)

subsection \<open>Checking in chunks\<close>

lemma take_image:
  "n \<le> 4096 \<Longrightarrow> take n (image m) = rd_words m VECTOR_TABLE_ADDRESS n"
  "take (4096 + k) (image m) = rd_words m VECTOR_TABLE_ADDRESS 4096 @ take k (rd_words m APP_START_ADDRESS 118782)"
proof -
  have "take n (rd_words m a (n + j)) = rd_words m a n" for a j
    by (simp add: rd_words_append)
  from this [of VECTOR_TABLE_ADDRESS "4096 - n"]
  show "n \<le> 4096 \<Longrightarrow> take n (image m) = rd_words m VECTOR_TABLE_ADDRESS n"
    by (simp add: image_def app_layout)
qed (simp add: image_def app_layout)

lemma take_rd_words: "k \<le> n \<Longrightarrow> take k (rd_words m a n) = rd_words m a k"
  using rd_words_append [of m a k "n - k"] by simp

lemma take_image_step:
  assumes "256 * (k + 1) \<le> 122878"
  shows "take (256 * (k + 1)) (image m) = take (256 * k) (image m) @
    (if k < 16 then rd_words m (VECTOR_TABLE_ADDRESS + 1024 * k) 256
     else rd_words m (APP_START_ADDRESS + 1024 * (k - 16)) 256)"
proof (cases "k < 16")
  case True
  then show ?thesis
    using rd_words_append [of m VECTOR_TABLE_ADDRESS "256 * k" 256]
    by (simp add: take_image(1) add.commute mult.commute)
next
  case False
  then obtain j where k: "k = 16 + j"
    using le_Suc_ex not_less by blast
  then show ?thesis
    using assms rd_words_append [of m APP_START_ADDRESS "256 * j" 256]
      take_image(2) [of "256 * j" m] take_image(2) [of "256 * (j + 1)" m]
    by (simp add: take_rd_words algebra_simps)
qed

text \<open>After \<open>k\<close> calls the register holds the CRC of the first \<open>k\<close> chunks.\<close>

definition chunks_done :: "nat \<Rightarrow> fh \<Rightarrow> fh \<Rightarrow> bool" where
  "chunks_done k s t = (mem t = mem s \<and> chunk_index t = word_of_nat (1024 * k) \<and>
     (k > 0 \<longrightarrow> crc_dr t = crc32 crc32_reset (take (256 * k) (image (mem s)))))"

lemma chunk_step:
  assumes "chunks_done k s t" and "k < 479"
  shows "fst (flash_helper_verify_flash_memory_chunk t) = FAULT_CODE_NONE \<and>
    chunks_done (k + 1) s (snd (flash_helper_verify_flash_memory_chunk t))"
proof -
  define i where "i = (word_of_nat (1024 * k) :: u32)"
  have u: "unat i = 1024 * k" "unat (i + 1024) = 1024 * (k + 1)"
    using assms(2) by (simp_all add: i_def unat_of_nat unat_word_ariths)
  have z: "i = 0 \<longleftrightarrow> k = 0"
    using u(1) by (metis mult_eq_0_iff unat_eq_zero zero_neq_numeral)
  have small: "\<not> i + 1024 \<ge> word_of_nat (VECTOR_TABLE_SIZE + APP_SIZE)"
    unfolding word_le_nat_alt u using assms(2) by (simp add: app_layout unat_of_nat)
  have vt: "i < word_of_nat VECTOR_TABLE_SIZE \<longleftrightarrow> k < 16"
    unfolding word_less_nat_alt u by (simp add: app_layout unat_of_nat)
  have sub: "unat (i - word_of_nat VECTOR_TABLE_SIZE) = 1024 * (k - 16)" if "\<not> k < 16"
    using that vt u by (subst unat_sub) (auto simp: not_less app_layout unat_of_nat)
  have next_i: "i + 1024 = word_of_nat (1024 * (k + 1))"
    by (simp add: i_def)
  have crc: "crc32 (if i = 0 then crc32_reset else crc_dr t) ws =
      crc32 crc32_reset (take (256 * k) (image (mem s)) @ ws)" for ws
    using assms(1) z by (cases "k = 0") (simp_all add: chunks_done_def crc32_append)
  have c: "chunk_index t = i" "mem t = mem s"
    using assms(1) by (simp_all add: chunks_done_def i_def)
  have step: "take (256 * (k + 1)) (image (mem s)) = take (256 * k) (image (mem s)) @
      (if k < 16 then rd_words (mem s) (VECTOR_TABLE_ADDRESS + 1024 * k) 256
       else rd_words (mem s) (APP_START_ADDRESS + 1024 * (k - 16)) 256)"
    using assms(2) by (intro take_image_step) simp
  define r where "r = (if i = 0 then t\<lparr>crc_dr := crc32_reset\<rparr> else t)"
  have r: "mem r = mem s" "crc_dr r = (if i = 0 then crc32_reset else crc_dr t)"
    by (simp_all add: r_def c)
  have next_k: "chunks_done (k + 1) s (q\<lparr>chunk_index := i + 1024\<rparr>)"
    if "mem q = mem s" "crc_dr q = crc32 crc32_reset (take (256 * (k + 1)) (image (mem s)))" for q
    using that by (simp add: chunks_done_def next_i)
  have d4: "4 * (1024 * j div 4) = 1024 * j" for j :: nat
    by simp
  show ?thesis
  proof (cases "k < 16")
    case True
    then have "flash_helper_verify_flash_memory_chunk t = (FAULT_CODE_NONE,
        (crc_feed (VECTOR_TABLE_ADDRESS + 1024 * k) 256 r)\<lparr>chunk_index := i + 1024\<rparr>)"
      using small vt by (simp add: flash_helper_verify_flash_memory_chunk_def c r_def Let_def u d4)
    then show ?thesis
      using True crc step by (simp only: fst_conv snd_conv simp_thms) (rule next_k; simp add: crc_feed_def r)
  next
    case False
    then have "flash_helper_verify_flash_memory_chunk t = (FAULT_CODE_NONE,
        (crc_feed (APP_START_ADDRESS + 1024 * (k - 16)) 256 r)\<lparr>chunk_index := i + 1024\<rparr>)"
      using small vt sub by (simp add: flash_helper_verify_flash_memory_chunk_def c r_def Let_def u d4)
    then show ?thesis
      using False crc step by (simp only: fst_conv snd_conv simp_thms) (rule next_k; simp add: crc_feed_def r)
  qed
qed

primrec chunk_run :: "nat \<Rightarrow> fh \<Rightarrow> fh" where
  "chunk_run 0 s = s"
| "chunk_run (Suc k) s = snd (flash_helper_verify_flash_memory_chunk (chunk_run k s))"

lemma chunks_run:
  assumes "chunk_index s = 0" and "k \<le> 479"
  shows "chunks_done k s (chunk_run k s)"
  using assms(2)
proof (induction k)
  case 0
  then show ?case using assms(1) by (simp add: chunks_done_def)
next
  case (Suc k)
  then show ?case
    using chunk_step [of k s "chunk_run k s"] by simp
qed

lemma chunk_last:
  assumes "chunks_done 479 s t"
  shows "fst (flash_helper_verify_flash_memory_chunk t) =
      (if crc32 crc32_reset (image (mem s)) = 0 then FAULT_CODE_NONE else FAULT_CODE_FLASH_CORRUPTION)"
    and "chunk_index (snd (flash_helper_verify_flash_memory_chunk t)) = 0"
proof -
  have c: "chunk_index t = 490496" "mem t = mem s"
      "crc_dr t = crc32 crc32_reset (take 122624 (image (mem s)))"
    using assms by (simp_all add: chunks_done_def)
  have "image (mem s) = take 122624 (image (mem s)) @ rd_words (mem s) (APP_START_ADDRESS + 474112) 254"
    using take_image(2) [of 118528 "mem s"] rd_words_append [of "mem s" APP_START_ADDRESS 118528 254]
    by (simp add: take_rd_words image_def app_layout)
  then have img: "crc32 (crc_dr t) (rd_words (mem s) (APP_START_ADDRESS + 474112) 254) =
      crc32 crc32_reset (image (mem s))"
    unfolding c(3) crc32_append [symmetric] by simp
  have "flash_helper_verify_flash_memory_chunk t =
      (if crc32 crc32_reset (image (mem s)) \<noteq> 0 then FAULT_CODE_FLASH_CORRUPTION else FAULT_CODE_NONE,
       (crc_feed (APP_START_ADDRESS + 474112) 254 t)\<lparr>chunk_index := 0\<rparr>)"
    using img by (simp add: flash_helper_verify_flash_memory_chunk_def c crc_feed_def app_layout Let_def)
  then show "fst (flash_helper_verify_flash_memory_chunk t) =
      (if crc32 crc32_reset (image (mem s)) = 0 then FAULT_CODE_NONE else FAULT_CODE_FLASH_CORRUPTION)"
    and "chunk_index (snd (flash_helper_verify_flash_memory_chunk t)) = 0"
    by simp_all
qed

section \<open>User code round trip\<close>

definition code_image :: "u16 \<Rightarrow> bytes \<Rightarrow> bytes" where
  "code_image flags payload =
     be32 (word_of_nat (length payload)) @ be16 (crc16 (be16 flags @ payload)) @ be16 flags @ payload"

lemma length_code_image [simp]: "length (code_image flags payload) = length payload + 8"
  by (simp add: code_image_def)

text \<open>Reading a header laid over a list of bytes.\<close>

lemma code_header:
  assumes "rd_bytes m base (length p + 8) = code_image flags p" and "base = flash_helper_code_data_raw ind"
    and "length p \<le> 131064"
  shows "code_intact ind m"
    and "buffer_get_uint32 (rd_bytes m base 8) 0 = Some (word_of_nat (length p), 4)"
    and "buffer_get_uint16 (rd_bytes m base 8) 6 = Some (flags, 8)"
    and "rd_bytes m (base + 8) (length p) = p"
proof -
  let ?l = "word_of_nat (length p) :: u32"
  have split: "rd_bytes m base 8 @ rd_bytes m (base + 8) (length p) = code_image flags p"
    using assms(1) rd_bytes_append [of m base 8 "length p"] by (simp add: add.commute)
  have hdr: "rd_bytes m base 8 = be32 ?l @ be16 (crc16 (be16 flags @ p)) @ be16 flags"
    and pl: "rd_bytes m (base + 8) (length p) = p"
    using split by (simp_all add: code_image_def append_eq_append_conv flip: append_assoc)
  show "rd_bytes m (base + 8) (length p) = p" by (rule pl)
  show g32: "buffer_get_uint32 (rd_bytes m base 8) 0 = Some (?l, 4)"
    using get32_be(2) [of "[]" ?l] by (simp add: hdr)
  show "buffer_get_uint16 (rd_bytes m base 8) 6 = Some (flags, 8)"
    using get16_be(2) [of "be32 ?l @ be16 (crc16 (be16 flags @ p))" flags "[]"] by (simp add: hdr)
  have g16: "buffer_get_uint16 (rd_bytes m base 8) 4 = Some (crc16 (be16 flags @ p), 6)"
    using get16_be(2) [of "be32 ?l" "crc16 (be16 flags @ p)" "be16 flags"] by (simp add: hdr)
  have "rd_bytes m base 8 = rd_bytes m base 6 @ rd_bytes m (base + 6) 2"
    using rd_bytes_append [of m base 6 2] by simp
  then have "rd_bytes m (base + 6) 2 = be16 flags"
    using hdr by (simp add: append_eq_append_conv flip: append_assoc)
  then have body: "rd_bytes m (base + 6) (2 + length p) = be16 flags @ p"
    using pl rd_bytes_append [of m "base + 6" 2 "length p"] by (simp add: add.commute [of 8])
  have u: "unat ?l = length p" "unat (?l + 2) = 2 + length p"
    using assms(3) by (simp_all add: unat_of_nat unat_word_ariths)
  have "?l \<le> QMLUI_MAX_SIZE"
    using assms(3) by (simp add: word_le_nat_alt u QMLUI_MAX_SIZE_def)
  then show "code_intact ind m"
    using g32 g16 body u by (simp add: code_intact_def Let_def assms(2))
qed

text \<open>Erasing the sector of a code index.\<close>

lemma erase_code_clears:
  assumes "code_sectors ! ind < 12" and "sector_range (code_sectors ! ind) = (base, base + 0x20000)" and "motor_stops s" and "script s = []"
    and "mem s (flash_helper_code_data_raw ind) \<noteq> 0xFF \<or> (\<forall>x. base \<le> x \<and> x < base + 0x20000 \<longrightarrow> mem s x = 0xFF)"
  defines "t \<equiv> fh_exec (EraseCode ind) s"
  shows "\<forall>x. base \<le> x \<and> x < base + 0x20000 \<longrightarrow> mem t x = 0xFF" "script t = []" "motor_stops t"
    "(code_checks t)[ind := (False, False)] = (code_checks s)[ind := (False, False)]"
proof -
  define u where "u = (if ind = 1 \<or> ind = 2 then s\<lparr>lisp_running := False\<rparr> else s)"
  have u: "mem u = mem s" "script u = script s" "motor_stops u = motor_stops s" "code_checks u = code_checks s" by (simp_all add: u_def)
  have e: "t = snd (if \<not> has_data_scan 131072 (flash_helper_code_data_raw ind) (mem u) then (FLASH_COMPLETE, u)
      else erase_sector (flash_sector ! (code_sectors ! ind)) (u\<lparr>code_checks := (code_checks u)[ind := (False, False)]\<rparr>))"
    unfolding t_def fh_exec.simps flash_helper_erase_code_def Let_def u_def by (rule refl)
  let ?P = "(\<forall>x. base \<le> x \<and> x < base + 0x20000 \<longrightarrow> mem t x = 0xFF) \<and> script t = [] \<and> motor_stops t \<and>
    (code_checks t)[ind := (False, False)] = (code_checks s)[ind := (False, False)]"
  have ?P
  proof (cases "mem s (flash_helper_code_data_raw ind) \<noteq> 0xFF")
    case True
    let ?v = "u\<lparr>code_checks := (code_checks u)[ind := (False, False)]\<rparr>"
    have "t = snd (erase_sector (flash_sector ! (code_sectors ! ind)) ?v)"
      using True u(1) e by (simp add: has_data_scan_iff)
    then show ?thesis using erase_sector_mem(2,3) [OF assms(1,2), of ?v] assms(3,4) u by (simp add: erase_range_def)
  next
    case False
    then have "t = u" using u(1) e by (simp add: has_data_scan_iff)
    then show ?thesis using False assms(3-5) u by simp
  qed
  then show "\<forall>x. base \<le> x \<and> x < base + 0x20000 \<longrightarrow> mem t x = 0xFF" "script t = []" "motor_stops t"
    "(code_checks t)[ind := (False, False)] = (code_checks s)[ind := (False, False)]" by blast+
qed

section \<open>Properties\<close>

text \<open>C6. User code round trip: on flash that works and with a motor that stops, erasing the
  sector of code index 0, 1 or 2 and writing a code image to it in
  two pieces cut anywhere makes the code available: \<open>code_data\<close> returns the address of
  the payload, \<open>code_size\<close> and \<open>code_flags\<close> the values of the header, and the flash
  at that address holds the payload. Before, the sector is either in use from its first byte on or completely
  erased: a sector in use whose first byte reads 0xFF is not erased by the code.\<close>

theorem flash_helper_code_roundtrip:
  assumes "ind < 3" and "length (code_checks s) = 3" and "motor_stops s" and "script s = []"
    and "mem s (flash_helper_code_data_raw ind) \<noteq> 0xFF \<or>
      (\<forall>x. flash_helper_code_data_raw ind \<le> x \<and> x < flash_helper_code_data_raw ind + 0x20000 \<longrightarrow> mem s x = 0xFF)"
    and "length p \<le> 131064" and "code_image flags p = a @ b"
  shows "\<exists>t. fh_exec (WriteCode ind (word_of_nat (length a)) b)
        (fh_exec (WriteCode ind 0 a) (fh_exec (EraseCode ind) s)) = t \<and>
      fst (flash_helper_code_data ind t) = Some (flash_helper_code_data_raw ind + 8) \<and>
      fst (flash_helper_code_size ind t) = word_of_nat (length p) \<and>
      fst (flash_helper_code_flags ind t) = flags \<and>
      rd_bytes (mem t) (flash_helper_code_data_raw ind + 8) (length p) = p"
proof -
  let ?base = "flash_helper_code_data_raw ind" and ?i = "code_sectors ! ind"
  have c: "?i \<in> {8, 9, 10}" using assms(1) by (rule code_sector_cases)
  then have i: "?i < 12" and base: "?base = flash_addr ! ?i" "?base \<le> 0x080C0000"
      and r: "sector_range ?i = (?base, ?base + 0x20000)"
    by (auto simp: flash_helper_code_data_raw_def sector_range_def flash_addr_def)
  have len: "length a + length b = length p + 8"
    using arg_cong [OF assms(7), of length] by simp
  define t1 where "t1 = fh_exec (EraseCode ind) s"
  have t1: "\<forall>x. ?base \<le> x \<and> x < ?base + 0x20000 \<longrightarrow> mem t1 x = 0xFF" "script t1 = []" "motor_stops t1"
      "(code_checks t1)[ind := (False, False)] = (code_checks s)[ind := (False, False)]"
    using erase_code_clears [OF i r assms(3,4)] assms(5) by (simp_all add: t1_def)
  define t2 where "t2 = fh_exec (WriteCode ind 0 a) t1"
  have u: "unat (flash_addr32 ?i + w) = ?base + unat w" if "unat w \<le> 0x60000" for w
    using unat_sector_offset [OF i that] base by simp
  have t2: "mem t2 = and_bytes ?base a (mem t1)" "script t2 = []" "motor_stops t2"
      "code_checks t2 = (code_checks s)[ind := (False, False)]"
    using write_data_ok [of "flash_addr32 ?i" a "t1\<lparr>code_checks := (code_checks t1)[ind := (False, False)]\<rparr>"]
      t1 len assms(6) base u [of 0]
    by (simp_all add: t2_def flash_helper_write_code_def)
  define t where "t = fh_exec (WriteCode ind (word_of_nat (length a)) b) t2"
  have la: "unat (word_of_nat (length a) :: u32) = length a"
    using len assms(6) by (simp add: unat_of_nat)
  have t: "mem t = and_bytes (?base + length a) b (mem t2)" "code_checks t = (code_checks s)[ind := (False, False)]"
    using write_data_ok [of "flash_addr32 ?i + word_of_nat (length a)" b
        "t2\<lparr>code_checks := (code_checks t2)[ind := (False, False)]\<rparr>"]
      t2 len assms(6) base u [of "word_of_nat (length a)"] la
    by (simp_all add: t_def flash_helper_write_code_def)
  have "mem t = and_bytes ?base (code_image flags p) (mem t1)"
    by (simp add: t t2 and_bytes_append assms(7))
  then have img: "rd_bytes (mem t) ?base (length p + 8) = code_image flags p"
    using rd_bytes_and_bytes [of ?base "code_image flags p" "mem t1"] assms(6) t1(1)
    by simp
  note h = code_header [OF img refl assms(6)]
  have q: "qmlui_check ind t = t\<lparr>code_checks := (code_checks s)[ind := (True, True)]\<rparr>"
    using assms(1,2) h(1) by (simp add: qmlui_check_def t)
  have ok: "checked_ok ind (qmlui_check ind t)"
    using assms(1,2) by (simp add: q checked_ok_def)
  show ?thesis
    unfolding t1_def [symmetric] t2_def [symmetric] t_def [symmetric]
    using ok h(2-4) by (simp add: flash_helper_code_data_def flash_helper_code_size_def
        flash_helper_code_flags_def q Let_def)
qed

text \<open>The state after start-up, with the given flash contents and flash that works.\<close>

definition fh_init :: "(nat \<Rightarrow> u8) \<Rightarrow> fh" where
  "fh_init m = \<lparr>mem = m, script = [], flash_locked = True, sys_lock_cnt = 0, sys_locked = False,
     init_done = True, iwdt = (4, 140), sampling_disabled = False, ignore_input = 0, motor_stops = True,
     motor_override_released = False, code_checks = replicate 3 (False, False), lisp_running = True,
     crc_dr = 0, chunk_index = 0\<rparr>"

lemma fh_init_fields [simp]:
  "mem (fh_init m) = m" "script (fh_init m) = []" "motor_stops (fh_init m)" "flash_locked (fh_init m)"
  "code_checks (fh_init m) = replicate 3 (False, False)" "chunk_index (fh_init m) = 0" "idle (fh_init m)"
  by (simp_all add: fh_init_def idle_def)

theorem flash_helper_code_roundtrip_witness:
  "fst (flash_helper_code_size 1 (fh_exec (WriteCode 1 3 (drop 3 (code_image 7 [1, 2])))
     (fh_exec (WriteCode 1 0 (take 3 (code_image 7 [1, 2]))) (fh_exec (EraseCode 1) (fh_init (\<lambda>_. 0)))))) = 2"
  using flash_helper_code_roundtrip [of 1 "fh_init (\<lambda>_. 0)" "[1, 2]" 7
      "take 3 (code_image 7 [1, 2])" "drop 3 (code_image 7 [1, 2])"]
  by simp

lemma fold_above:
  "\<forall>op \<in> set ops. fh_op_ok op \<Longrightarrow> above_app (mem s) (mem (fold fh_exec ops s))"
  by (induction ops arbitrary: s) (auto intro: above_trans above_exec)

text \<open>C7. Whatever sequence of requests is made with arguments in range (a code index below 3, and writes that
  end inside the sectors they start in, which the code itself does not check), whatever the flash
  reports and wherever the power fails between its operations, everything below the sectors for new firmware and user
  code is untouched: the running firmware (a sealed image checks as before) and the sectors of
  the emulated EEPROM.\<close>

theorem fh_requests_preserve_firmware:
  assumes "\<forall>op \<in> set ops. fh_op_ok op"
  shows "(\<forall>x. x < 0x08080000 \<longrightarrow> mem (fold fh_exec ops s) x = mem s x) \<and>
    (rd32 (mem s) APP_CRC_FLAG_ADDRESS = 0 \<longrightarrow>
      fst (flash_helper_verify_flash_memory (fold fh_exec ops s)) = fst (flash_helper_verify_flash_memory s))"
proof (intro conjI impI)
  show below: "\<forall>x. x < 0x08080000 \<longrightarrow> mem (fold fh_exec ops s) x = mem s x"
    using fold_above [OF assms, of s] by (simp add: above_app_def)
  assume sealed: "rd32 (mem s) APP_CRC_FLAG_ADDRESS = 0"
  have "rd32 (mem (fold fh_exec ops s)) APP_CRC_FLAG_ADDRESS = rd32 (mem s) APP_CRC_FLAG_ADDRESS"
    using below by (simp add: rd32_def app_layout)
  moreover have "image (mem (fold fh_exec ops s)) = image (mem s)"
    using below by (intro image_cong) simp
  ultimately show "fst (flash_helper_verify_flash_memory (fold fh_exec ops s)) =
      fst (flash_helper_verify_flash_memory s)"
    using sealed by (simp add: verify_sealed)
qed

theorem fh_requests_preserve_firmware_witness:
  "mem (fold fh_exec [WriteCode 1 0 [1, 2], EraseNewApp 5] (fh_init (\<lambda>_. 7))) 0x08000000 = 7"
  using fh_requests_preserve_firmware [of "[WriteCode 1 0 [1, 2], EraseNewApp 5]" "fh_init (\<lambda>_. 7)"]
  by simp

text \<open>C8. Every sequence of requests leaves the machine as it found it, on every branch and for
  every flash error: the kernel lock released exactly as often as taken, the watchdog fast again
  and the shutdown button sampled.\<close>

theorem fh_requests_guarded:
  assumes "idle s"
  shows "idle (fold fh_exec ops s)"
  using assms by (induction ops arbitrary: s) (auto intro: idle_exec)

theorem fh_requests_guarded_witness:
  "idle (fold fh_exec [EraseCode 0, WriteCode 0 0 [1]]
     ((fh_init (\<lambda>_. 0))\<lparr>script := [Failed ERR_WRP False, PowerCut]\<rparr>))"
  by (rule fh_requests_guarded) (simp add: idle_def fh_init_def)

text \<open>When the motor does not come to rest the write is refused with code 100 and without
  touching the flash, but the control register of the flash, unlocked at the start, is not
  locked again on this path.\<close>

theorem write_data_motor_running:
  assumes "\<not> motor_stops s"
  shows "fst (write_data base data s) = 100 \<and> mem (snd (write_data base data s)) = mem s \<and>
    \<not> flash_locked (snd (write_data base data s))"
  using assms by (simp add: write_data_def mc_interface_wait_for_motor_release_both_def Let_def)

theorem write_data_motor_running_witness:
  "fst (write_data 0x08080000 [1] ((fh_init (\<lambda>_. 0))\<lparr>motor_stops := False\<rparr>)) = 100"
  using write_data_motor_running [of "(fh_init (\<lambda>_. 0))\<lparr>motor_stops := False\<rparr>" "0x08080000" "[1]"]
  by simp

text \<open>The background check of the firmware, 1 KiB per call, agrees with the check at
  start-up: starting from index 0, 479 calls report nothing, the next one reports what the
  full check reports for a sealed image, and the index is back at 0.\<close>

theorem verify_chunks_equiv:
  assumes "chunk_index s = 0" and "rd32 (mem s) APP_CRC_FLAG_ADDRESS = 0"
  shows "(\<forall>k < 479. fst (flash_helper_verify_flash_memory_chunk (chunk_run k s)) = FAULT_CODE_NONE) \<and>
    fst (flash_helper_verify_flash_memory_chunk (chunk_run 479 s)) = fst (flash_helper_verify_flash_memory s) \<and>
    chunk_index (chunk_run 480 s) = 0"
proof (intro conjI allI impI)
  fix k :: nat assume "k < 479"
  then show "fst (flash_helper_verify_flash_memory_chunk (chunk_run k s)) = FAULT_CODE_NONE"
    using chunk_step [of k s] chunks_run [OF assms(1), of k] by simp
next
  show "fst (flash_helper_verify_flash_memory_chunk (chunk_run 479 s)) = fst (flash_helper_verify_flash_memory s)"
    using chunk_last(1) [OF chunks_run [OF assms(1) order_refl]] verify_sealed [OF assms(2)] by simp
  have "chunk_run 480 s = snd (flash_helper_verify_flash_memory_chunk (chunk_run 479 s))"
    using chunk_run.simps(2) [of 479 s] by simp
  then show "chunk_index (chunk_run 480 s) = 0"
    using chunk_last(2) [OF chunks_run [OF assms(1) order_refl]] by simp
qed

theorem verify_chunks_equiv_witness:
  "fst (flash_helper_verify_flash_memory_chunk (chunk_run 5 (fh_init (\<lambda>_. 0)))) = FAULT_CODE_NONE"
  using verify_chunks_equiv [of "fh_init (\<lambda>_. 0)"] by (simp add: rd32_def)

lemma rd32_prog32_same: "rd32 (prog32 a v m) a = rd32 m a AND v"
  by (rule bit_word_eqI)
    (auto simp: rd32_def prog32_def byte_of_def bit_simps dest: bit_imp_le_length)

lemma prog32_other: "x < a \<or> a + 4 \<le> x \<Longrightarrow> prog32 a v m x = m x"
  by (auto simp: prog32_def prog8_def)

lemma verify_seals:
  assumes "script s = []" and "rd32 (mem s) APP_CRC_FLAG_ADDRESS = 0xFFFFFFFF"
    and "rd32 (mem s) APP_CRC_ADDRESS = 0xFFFFFFFF"
  shows "\<exists>t. flash_helper_verify_flash_memory s = (SYSTEM_RESET, t) \<and>
    rd32 (mem t) APP_CRC_FLAG_ADDRESS = 0 \<and>
    fst (flash_helper_verify_flash_memory t) = FAULT_CODE_NONE \<and>
    (\<forall>x. x < APP_CRC_FLAG_ADDRESS \<or> APP_CRC_ADDRESS + 4 \<le> x \<longrightarrow> mem t x = mem s x)"
proof -
  let ?m1 = "prog32 APP_CRC_FLAG_ADDRESS 0 (mem s)"
  define crc where "crc = crc32 crc32_reset (rd_words ?m1 VECTOR_TABLE_ADDRESS 4096 @ rd_words ?m1 APP_START_ADDRESS 118781)"
  let ?m2 = "prog32 APP_CRC_ADDRESS crc ?m1"
  define t where "t = snd (flash_helper_verify_flash_memory s)"
  have nz: "rd32 (mem s) APP_CRC_FLAG_ADDRESS \<noteq> 0"
    using assms(2) by simp
  have sz: "VECTOR_TABLE_SIZE div 4 = 4096" "(APP_SIZE - 4) div 4 = 118781"
    by (simp_all add: app_layout)
  have ok: "FLASH_ProgramWord a v u = (FLASH_COMPLETE, u\<lparr>mem := prog32 a v (mem u)\<rparr>)"
    if "\<not> flash_locked u" "script u = []" for a v and u :: fh
    using that by (simp add: FLASH_ProgramWord_def flash_op_ok)
  have v: "flash_helper_verify_flash_memory s = (SYSTEM_RESET, t)" and t: "mem t = ?m2"
    using nz assms(1) by (simp_all add: t_def flash_helper_verify_flash_memory_def ok crc_feed_def
        crc_def crc32_append Let_def sz FLASH_Unlock_def FLASH_Lock_def)
  have "rd32 ?m2 APP_CRC_ADDRESS = crc"
  proof -
    have "rd32 ?m1 APP_CRC_ADDRESS = rd32 (mem s) APP_CRC_ADDRESS"
      by (simp add: rd32_def prog32_other app_layout)
    moreover have "(0xFFFFFFFF :: u32) AND crc = crc"
    proof -
      have "(0xFFFFFFFF :: u32) = - 1" by simp
      then show ?thesis by (metis and.left_neutral)
    qed
    ultimately show ?thesis
      by (simp add: rd32_prog32_same assms(3))
  qed
  moreover have "rd_words ?m2 VECTOR_TABLE_ADDRESS 4096 = rd_words ?m1 VECTOR_TABLE_ADDRESS 4096"
      "rd_words ?m2 APP_START_ADDRESS 118781 = rd_words ?m1 APP_START_ADDRESS 118781"
    by (rule rd_words_cong; simp add: prog32_other app_layout)+
  moreover have "rd_words ?m2 APP_START_ADDRESS 118782 =
      rd_words ?m2 APP_START_ADDRESS 118781 @ [rd32 ?m2 APP_CRC_ADDRESS]"
    using rd_words_Suc [of ?m2 APP_START_ADDRESS 118781] by (simp add: app_layout)
  ultimately have "image ?m2 = (rd_words ?m1 VECTOR_TABLE_ADDRESS 4096 @ rd_words ?m1 APP_START_ADDRESS 118781) @ [crc]"
    by (simp add: image_def sz APP_SIZE_def APP_MAX_SIZE_def VECTOR_TABLE_SIZE_def EEPROM_EMULATION_SIZE_def)
  then have "crc32 crc32_reset (image ?m2) = 0"
    unfolding crc_def by (simp only: crc32_residue)
  moreover have flag: "rd32 ?m2 APP_CRC_FLAG_ADDRESS = 0"
  proof -
    have "rd32 ?m2 APP_CRC_FLAG_ADDRESS = rd32 ?m1 APP_CRC_FLAG_ADDRESS"
      by (simp add: rd32_def prog32_other app_layout)
    then show ?thesis by (simp add: rd32_prog32_same)
  qed
  ultimately have "fst (flash_helper_verify_flash_memory t) = FAULT_CODE_NONE"
    using t by (simp add: verify_sealed)
  moreover have "\<forall>x. x < APP_CRC_FLAG_ADDRESS \<or> APP_CRC_ADDRESS + 4 \<le> x \<longrightarrow> mem t x = mem s x"
    unfolding t by (auto simp: prog32_other app_layout)
  ultimately show ?thesis
    using v t flag by auto
qed

text \<open>Sealing: on the first boot of an image (flag and CRC words blank, flash working) the
  check stores the CRC and restarts, changing nothing but the two words; the check after the
  restart accepts the image.\<close>

theorem verify_seals_image:
  assumes "script s = []" and "rd32 (mem s) APP_CRC_FLAG_ADDRESS = 0xFFFFFFFF"
    and "rd32 (mem s) APP_CRC_ADDRESS = 0xFFFFFFFF"
  shows "\<exists>t. flash_helper_verify_flash_memory s = (SYSTEM_RESET, t) \<and>
    fst (flash_helper_verify_flash_memory t) = FAULT_CODE_NONE \<and>
    (\<forall>x. x < APP_CRC_FLAG_ADDRESS \<or> APP_CRC_ADDRESS + 4 \<le> x \<longrightarrow> mem t x = mem s x)"
  using verify_seals [OF assms] by blast

theorem verify_seals_image_witness:
  "fst (flash_helper_verify_flash_memory (snd (flash_helper_verify_flash_memory (fh_init (\<lambda>_. 0xFF)))))
     = FAULT_CODE_NONE"
proof -
  have "rd32 (\<lambda>_. 0xFF) a = 0xFFFFFFFF" for a
    by (simp add: rd32_def)
  then show ?thesis
    using verify_seals_image [of "fh_init (\<lambda>_. 0xFF)"] by auto
qed

text \<open>Detection: when a sealed image checks as intact, an image that differs from it in
  exactly one of its 122878 words (flag word still clear) is reported as corrupted.\<close>

theorem verify_detects_word:
  assumes "rd32 (mem s) APP_CRC_FLAG_ADDRESS = 0" and "rd32 (mem t) APP_CRC_FLAG_ADDRESS = 0"
    and "fst (flash_helper_verify_flash_memory s) = FAULT_CODE_NONE"
    and "i < length (image (mem s))" and "image (mem t) = (image (mem s))[i := w]"
    and "w \<noteq> image (mem s) ! i"
  shows "fst (flash_helper_verify_flash_memory t) = FAULT_CODE_FLASH_CORRUPTION"
proof -
  let ?xs = "take i (image (mem s))" and ?ys = "drop (Suc i) (image (mem s))"
  have "image (mem s) = ?xs @ image (mem s) ! i # ?ys" "image (mem t) = ?xs @ w # ?ys"
    using assms(4,5) by (simp_all add: id_take_nth_drop upd_conv_take_nth_drop)
  moreover have "crc32 crc32_reset (image (mem s)) = 0"
    using assms(1,3) by (simp add: verify_sealed split: if_splits)
  ultimately have "crc32 crc32_reset (image (mem t)) \<noteq> 0"
    using assms(6) crc32_one_word by metis
  then show ?thesis
    using assms(2) by (simp add: verify_sealed)
qed

lemma image_upd_first:
  "image (m(VECTOR_TABLE_ADDRESS := b)) = (image m)[0 := rd32 (m(VECTOR_TABLE_ADDRESS := b)) VECTOR_TABLE_ADDRESS]"
proof -
  let ?m = "m(VECTOR_TABLE_ADDRESS := b)"
  have "rd_words ?m VECTOR_TABLE_ADDRESS (Suc n) = (rd_words m VECTOR_TABLE_ADDRESS (Suc n))[0 := rd32 ?m VECTOR_TABLE_ADDRESS]" for n
    by (rule nth_equalityI) (auto simp: rd_words_def nth_list_update rd32_def simp del: upt_Suc)
  from this [of 4095] have "rd_words ?m VECTOR_TABLE_ADDRESS 4096 =
      (rd_words m VECTOR_TABLE_ADDRESS 4096)[0 := rd32 ?m VECTOR_TABLE_ADDRESS]"
    by simp
  moreover have "rd_words ?m APP_START_ADDRESS n = rd_words m APP_START_ADDRESS n" for n
    by (rule rd_words_cong) (simp add: app_layout)
  moreover have "VECTOR_TABLE_SIZE div 4 = 4096"
    by (simp add: app_layout)
  moreover have "(xs @ ys)[0 := v] = xs[0 := v] @ ys" if "length xs = 4096" for xs ys :: "u32 list" and v
    using that by (simp add: list_update_append1)
  ultimately show ?thesis
    unfolding image_def by simp
qed

theorem verify_detects_word_witness:
  "\<exists>s b. fst (flash_helper_verify_flash_memory s) = FAULT_CODE_NONE \<and>
    fst (flash_helper_verify_flash_memory (s\<lparr>mem := (mem s)(VECTOR_TABLE_ADDRESS := b)\<rparr>))
      = FAULT_CODE_FLASH_CORRUPTION"
proof -
  have ff: "rd32 (\<lambda>_. 0xFF) a = 0xFFFFFFFF" for a
    by (simp add: rd32_def)
  define s where "s = snd (flash_helper_verify_flash_memory (fh_init (\<lambda>_. 0xFF)))"
  define t where "t = s\<lparr>mem := (mem s)(VECTOR_TABLE_ADDRESS := 0)\<rparr>"
  have s: "fst (flash_helper_verify_flash_memory s) = FAULT_CODE_NONE"
      "\<And>x. x < APP_CRC_FLAG_ADDRESS \<Longrightarrow> mem s x = 0xFF"
    using verify_seals [of "fh_init (\<lambda>_. 0xFF)"] ff by (auto simp: s_def)
  have sealed: "rd32 (mem s) APP_CRC_FLAG_ADDRESS = 0"
    using verify_seals [of "fh_init (\<lambda>_. 0xFF)"] ff by (auto simp: s_def)
  have b: "mem s VECTOR_TABLE_ADDRESS = 0xFF"
    by (rule s(2)) (simp add: app_layout)
  have "rd32 (mem t) VECTOR_TABLE_ADDRESS \<noteq> rd32 (mem s) VECTOR_TABLE_ADDRESS"
  proof
    assume "rd32 (mem t) VECTOR_TABLE_ADDRESS = rd32 (mem s) VECTOR_TABLE_ADDRESS"
    then have "bit (rd32 (mem t) VECTOR_TABLE_ADDRESS) 0 = bit (rd32 (mem s) VECTOR_TABLE_ADDRESS) 0"
      by simp
    then show False
      by (simp add: t_def rd32_def bit_simps b)
  qed
  moreover have "image (mem s) ! 0 = rd32 (mem s) VECTOR_TABLE_ADDRESS" "0 < length (image (mem s))"
    by (simp_all add: image_def rd_words_def nth_append app_layout)
  moreover have "image (mem t) = (image (mem s))[0 := rd32 (mem t) VECTOR_TABLE_ADDRESS]"
    using image_upd_first [of "mem s" 0] by (simp add: t_def)
  moreover have "rd32 (mem t) APP_CRC_FLAG_ADDRESS = 0"
    using sealed by (simp add: t_def rd32_def app_layout)
  ultimately have "fst (flash_helper_verify_flash_memory t) = FAULT_CODE_FLASH_CORRUPTION"
    using verify_detects_word [OF sealed _ s(1), of t 0 "rd32 (mem t) VECTOR_TABLE_ADDRESS"] by simp
  then show ?thesis
    using s(1) unfolding t_def by blast
qed

text \<open>The scan in front of an erase never moves its pointer: a sector whose first byte reads
  0xFF is taken for empty, \<open>erase_code\<close> reports success and leaves the data there,
  whatever the other 131071 bytes hold.\<close>

theorem flash_helper_erase_code_first_byte:
  assumes "mem s (flash_helper_code_data_raw ind) = 0xFF"
  shows "fst (flash_helper_erase_code ind s) = FLASH_COMPLETE \<and>
    mem (snd (flash_helper_erase_code ind s)) = mem s"
  using assms by (simp add: flash_helper_erase_code_def has_data_scan_iff Let_def)

theorem flash_helper_erase_code_first_byte_witness:
  "fst (flash_helper_erase_code 0 (fh_init ((\<lambda>_. 0)(flash_helper_code_data_raw 0 := 0xFF)))) = FLASH_COMPLETE"
  using flash_helper_erase_code_first_byte [of "fh_init ((\<lambda>_. 0)(flash_helper_code_data_raw 0 := 0xFF))" 0]
  by simp

text \<open>The bound of the package memory is computed with 32 bit wrap-around: a write of 16
  bytes at address 0xFFFFFFF0 passes the check and clears flash below the region, at the end
  of the lisp sector.\<close>

theorem flash_helper_write_nvm_wraps:
  "fst (flash_helper_write_nvm (replicate 16 0) 0xFFFFFFF0 (fh_init (\<lambda>_. 0xFF))) \<and>
   mem (snd (flash_helper_write_nvm (replicate 16 0) 0xFFFFFFF0 (fh_init (\<lambda>_. 0xFF)))) 0x080DFFFF = 0"
proof -
  have base: "unat (flash_addr32 11 + 0xFFFFFFF0) = 0x080DFFF0"
    by (simp add: flash_addr32_def flash_addr_def)
  have pass: "\<not> (0xFFFFFFF0 + word_of_nat (length (replicate 16 (0 :: u8))) > VESC_IF_NVM_REGION_SIZE)"
    by (simp add: VESC_IF_NVM_REGION_SIZE_def flash_addr32_def flash_addr_def)
  show ?thesis
    using write_data_ok [of "flash_addr32 11 + 0xFFFFFFF0" "replicate 16 0" "fh_init (\<lambda>_. 0xFF)"] pass base
    by (simp add: flash_helper_write_nvm_def and_bytes_def case_prod_beta Let_def)
qed

text \<open>The offset of new firmware is not checked either: with the offset 0xFFF80000, which a host may send, the
  address wraps around and the write goes to the running firmware.\<close>

lemma write_new_app_wraps:
  "mem (fh_exec (WriteNewApp 0xFFF80000 [0]) (fh_init (\<lambda>_. 0xFF))) 0x08000000 = 0"
proof -
  have "unat (flash_addr32 NEW_APP_BASE + 0xFFF80000) = 0x08000000"
    by (simp add: flash_addr32_def flash_addr_def NEW_APP_BASE_def)
  then show ?thesis
    using write_data_ok [of "flash_addr32 NEW_APP_BASE + 0xFFF80000" "[0]" "fh_init (\<lambda>_. 0xFF)"]
    by (simp add: flash_helper_write_new_app_data_def and_bytes_def)
qed

end
