(* ===== verification/Eeprom.thy ===== *)
theory Eeprom
  imports Flash_Helper
begin

text \<open>
  \<^verbatim>\<open>driver/eeprom.c\<close>: the EEPROM emulation in two flash sectors. A page is a 16 bit
  status word and 4095 slots of a value and the virtual address it belongs to; writing appends
  a slot, reading scans from the end, and a full page is compacted into the other one. The
  table of variables \<open>VirtAddVarTab\<close> is the argument \<open>tab\<close>. The first part translates the
  functions, the second describes pages as lists of entries and shows what each operation does
  to them, for every behaviour of the flash.
\<close>

section \<open>Constants\<close>

definition PAGE_SIZE :: nat where "PAGE_SIZE = 0x4000"
definition EEPROM_START_ADDRESS :: nat where "EEPROM_START_ADDRESS = 0x08004000"
definition PAGE0_BASE_ADDRESS :: nat where "PAGE0_BASE_ADDRESS = EEPROM_START_ADDRESS"
definition PAGE1_BASE_ADDRESS :: nat where "PAGE1_BASE_ADDRESS = EEPROM_START_ADDRESS + 0x4000"
definition PAGE0_ID :: nat where "PAGE0_ID = 0x08"
definition PAGE1_ID :: nat where "PAGE1_ID = 0x10"
definition NO_VALID_PAGE :: u16 where "NO_VALID_PAGE = 0x00AB"
definition ERASED :: u16 where "ERASED = 0xFFFF"
definition RECEIVE_DATA :: u16 where "RECEIVE_DATA = 0xEEEE"
definition VALID_PAGE :: u16 where "VALID_PAGE = 0"
definition PAGE_FULL :: u16 where "PAGE_FULL = 0x80"

text \<open>The global \<open>DataVar\<close>, through which the transfer loops read.\<close>

record ee = sys +
  DataVar :: u16

section \<open>Reading\<close>

datatype ee_operation = READ_FROM_VALID_PAGE | WRITE_IN_VALID_PAGE

definition EE_FindValidPage :: "ee_operation \<Rightarrow> (nat \<Rightarrow> u8) \<Rightarrow> u16" where
  "EE_FindValidPage Operation m =
     (let PageStatus0 = rd16 m PAGE0_BASE_ADDRESS; PageStatus1 = rd16 m PAGE1_BASE_ADDRESS in
      case Operation of
        WRITE_IN_VALID_PAGE \<Rightarrow>
          (if PageStatus1 = VALID_PAGE then (if PageStatus0 = RECEIVE_DATA then 0 else 1)
           else if PageStatus0 = VALID_PAGE then (if PageStatus1 = RECEIVE_DATA then 1 else 0)
           else NO_VALID_PAGE)
      | READ_FROM_VALID_PAGE \<Rightarrow>
          (if PageStatus0 = VALID_PAGE then 0
           else if PageStatus1 = VALID_PAGE then 1
           else NO_VALID_PAGE))"

text \<open>The scan from the end of the page down to its start.\<close>

function ee_read_loop :: "nat \<Rightarrow> nat \<Rightarrow> u16 \<Rightarrow> (nat \<Rightarrow> u8) \<Rightarrow> u16 option" where
  "ee_read_loop Address PageStartAddress VirtAddress m =
     (if Address > PageStartAddress + 2 then
        (if rd16 m Address = VirtAddress then Some (rd16 m (Address - 2))
         else ee_read_loop (Address - 4) PageStartAddress VirtAddress m)
      else None)"
  by pat_completeness auto
termination by (relation "measure fst") auto

text \<open>Status and the value left in the variable behind the pointer, whose old value is \<open>Data\<close>.\<close>

definition EE_ReadVariable :: "u16 \<Rightarrow> u16 \<Rightarrow> (nat \<Rightarrow> u8) \<Rightarrow> u16 \<times> u16" where
  "EE_ReadVariable VirtAddress Data m =
     (let ValidPage = EE_FindValidPage READ_FROM_VALID_PAGE m in
      if ValidPage = NO_VALID_PAGE then (NO_VALID_PAGE, Data)
      else case ee_read_loop (EEPROM_START_ADDRESS - 2 + (1 + unat ValidPage) * PAGE_SIZE)
                  (EEPROM_START_ADDRESS + unat ValidPage * PAGE_SIZE) VirtAddress m of
        Some d \<Rightarrow> (0, d)
      | None \<Rightarrow> (1, Data))"

section \<open>Writing\<close>

function ee_find_free :: "nat \<Rightarrow> nat \<Rightarrow> (nat \<Rightarrow> u8) \<Rightarrow> nat option" where
  "ee_find_free Address PageEndAddress m =
     (if Address < PageEndAddress then
        (if rd32 m Address = 0xFFFFFFFF then Some Address
         else ee_find_free (Address + 4) PageEndAddress m)
      else None)"
  by pat_completeness auto
termination by (relation "measure (\<lambda>(a, e, m). e - a)") auto

definition EE_VerifyPageFullWriteVariable :: "u16 \<Rightarrow> u16 \<Rightarrow> 'a sys_scheme \<Rightarrow> status \<times> 'a sys_scheme" where
  "EE_VerifyPageFullWriteVariable VirtAddress Data s =
     (let ValidPage = EE_FindValidPage WRITE_IN_VALID_PAGE (mem s) in
      if ValidPage = NO_VALID_PAGE then (NO_VALID_PAGE, s)
      else case ee_find_free (EEPROM_START_ADDRESS + unat ValidPage * PAGE_SIZE)
                  (EEPROM_START_ADDRESS - 2 + (1 + unat ValidPage) * PAGE_SIZE) (mem s) of
        None \<Rightarrow> (PAGE_FULL, s)
      | Some Address \<Rightarrow>
          (let (FlashStatus, s1) = FLASH_ProgramHalfWord Address Data s in
           if FlashStatus \<noteq> FLASH_COMPLETE then (FlashStatus, s1)
           else FLASH_ProgramHalfWord (Address + 2) VirtAddress s1))"

definition EE_EraseSectorIfNotEmpty :: "nat \<Rightarrow> 'a sys_scheme \<Rightarrow> status \<times> 'a sys_scheme" where
  "EE_EraseSectorIfNotEmpty FLASH_Sector s =
     (let addr = the (flash_helper_get_sector_address FLASH_Sector) in
      if list_ex (\<lambda>i. mem s (addr + i) \<noteq> 0xFF) [0 ..< PAGE_SIZE]
      then FLASH_EraseSector FLASH_Sector s else (FLASH_COMPLETE, s))"

text \<open>Copying one variable, as the transfer loops do it: read the last update, and if there is
  one (or no valid page to read from), write it through the global \<open>DataVar\<close>.\<close>

definition ee_copy :: "u16 \<Rightarrow> 'a ee_scheme \<Rightarrow> status \<times> 'a ee_scheme" where
  "ee_copy v s =
     (let (ReadStatus, d) = EE_ReadVariable v (DataVar s) (mem s);
          s1 = s\<lparr>DataVar := d\<rparr> in
      if ReadStatus \<noteq> 1 then EE_VerifyPageFullWriteVariable v (DataVar s1) s1
      else (FLASH_COMPLETE, s1))"

text \<open>The loop of the page transfer over the table.\<close>

fun ee_transfer_loop :: "u16 list \<Rightarrow> u16 \<Rightarrow> 'a ee_scheme \<Rightarrow> status \<times> 'a ee_scheme" where
  "ee_transfer_loop [] VirtAddress s = (FLASH_COMPLETE, s)"
| "ee_transfer_loop (v # vs) VirtAddress s =
     (if v \<noteq> VirtAddress then
        (let (EepromStatus, s1) = ee_copy v s in
         if EepromStatus \<noteq> FLASH_COMPLETE then (EepromStatus, s1)
         else ee_transfer_loop vs VirtAddress s1)
      else ee_transfer_loop vs VirtAddress s)"

definition EE_PageTransfer :: "u16 list \<Rightarrow> u16 \<Rightarrow> u16 \<Rightarrow> 'a ee_scheme \<Rightarrow> status \<times> 'a ee_scheme" where
  "EE_PageTransfer tab VirtAddress Data s =
     (let ValidPage = EE_FindValidPage READ_FROM_VALID_PAGE (mem s) in
      if ValidPage = NO_VALID_PAGE then (NO_VALID_PAGE, s)
      else
        (let (NewPageAddress, OldPageId) =
               (if ValidPage = 1 then (PAGE0_BASE_ADDRESS, PAGE1_ID) else (PAGE1_BASE_ADDRESS, PAGE0_ID));
             (st1, s1) = FLASH_ProgramHalfWord NewPageAddress RECEIVE_DATA s in
         if st1 \<noteq> FLASH_COMPLETE then (st1, s1)
         else let (st2, s2) = EE_VerifyPageFullWriteVariable VirtAddress Data s1 in
         if st2 \<noteq> FLASH_COMPLETE then (st2, s2)
         else let (st3, s3) = ee_transfer_loop tab VirtAddress s2 in
         if st3 \<noteq> FLASH_COMPLETE then (st3, s3)
         else let (st4, s4) = EE_EraseSectorIfNotEmpty OldPageId s3 in
         if st4 \<noteq> FLASH_COMPLETE then (st4, s4)
         else FLASH_ProgramHalfWord NewPageAddress VALID_PAGE s4))"

definition EE_WriteVariable :: "u16 list \<Rightarrow> u16 \<Rightarrow> u16 \<Rightarrow> 'a ee_scheme \<Rightarrow> status \<times> 'a ee_scheme" where
  "EE_WriteVariable tab VirtAddress Data s =
     (let (st, data_old) = EE_ReadVariable VirtAddress 0 (mem s) in
      if st = 0 \<and> data_old = Data then (FLASH_COMPLETE, s)
      else
        (let (Status, s1) = EE_VerifyPageFullWriteVariable VirtAddress Data s in
         if Status = PAGE_FULL then EE_PageTransfer tab VirtAddress Data s1 else (Status, s1)))"

section \<open>Start-up\<close>

definition EE_Format :: "'a sys_scheme \<Rightarrow> status \<times> 'a sys_scheme" where
  "EE_Format s =
     (let (st1, s1) = EE_EraseSectorIfNotEmpty PAGE0_ID s in
      if st1 \<noteq> FLASH_COMPLETE then (st1, s1)
      else let (st2, s2) = FLASH_ProgramHalfWord PAGE0_BASE_ADDRESS VALID_PAGE s1 in
      if st2 \<noteq> FLASH_COMPLETE then (st2, s2)
      else EE_EraseSectorIfNotEmpty PAGE1_ID s2)"

text \<open>The transfer loops of the recovery, which differ only in the page they fill (its base
  address is the first argument): \<open>VarIdx\<close> is the position in the table, \<open>x\<close> the position
  of the variable found in the first slot of that page.\<close>

fun ee_init_loop :: "nat \<Rightarrow> u16 list \<Rightarrow> int \<Rightarrow> int \<Rightarrow> 'a ee_scheme \<Rightarrow> status \<times> 'a ee_scheme" where
  "ee_init_loop base [] VarIdx x s = (FLASH_COMPLETE, s)"
| "ee_init_loop base (v # vs) VarIdx x s =
     (let x' = (if rd16 (mem s) (base + 6) = v then VarIdx else x) in
      if VarIdx \<noteq> x' then
        (let (EepromStatus, s1) = ee_copy v s in
         if EepromStatus \<noteq> FLASH_COMPLETE then (EepromStatus, s1)
         else ee_init_loop base vs (VarIdx + 1) x' s1)
      else ee_init_loop base vs (VarIdx + 1) x' s)"

text \<open>Finish an interrupted transfer into the page at \<open>base\<close>: transfer, mark it valid, erase
  the other page.\<close>

definition ee_init_resume :: "u16 list \<Rightarrow> nat \<Rightarrow> nat \<Rightarrow> 'a ee_scheme \<Rightarrow> status \<times> 'a ee_scheme" where
  "ee_init_resume tab base other_id s =
     (let (st1, s1) = ee_init_loop base tab 0 (- 1) s in
      if st1 \<noteq> FLASH_COMPLETE then (st1, s1)
      else let (st2, s2) = FLASH_ProgramHalfWord base VALID_PAGE s1 in
      if st2 \<noteq> FLASH_COMPLETE then (st2, s2)
      else EE_EraseSectorIfNotEmpty other_id s2)"

text \<open>Erase the unused page if it is not clean, then mark the received one valid.\<close>

definition ee_init_finish :: "nat \<Rightarrow> nat \<Rightarrow> 'a sys_scheme \<Rightarrow> status \<times> 'a sys_scheme" where
  "ee_init_finish base other_id s =
     (let (st1, s1) = EE_EraseSectorIfNotEmpty other_id s in
      if st1 \<noteq> FLASH_COMPLETE then (st1, s1) else FLASH_ProgramHalfWord base VALID_PAGE s1)"

definition EE_Init :: "u16 list \<Rightarrow> 'a ee_scheme \<Rightarrow> status \<times> 'a ee_scheme" where
  "EE_Init tab s =
     (let PageStatus0 = rd16 (mem s) PAGE0_BASE_ADDRESS; PageStatus1 = rd16 (mem s) PAGE1_BASE_ADDRESS in
      if PageStatus0 = ERASED then
        (if PageStatus1 = VALID_PAGE then EE_EraseSectorIfNotEmpty PAGE0_ID s
         else if PageStatus1 = RECEIVE_DATA then ee_init_finish PAGE1_BASE_ADDRESS PAGE0_ID s
         else EE_Format s)
      else if PageStatus0 = RECEIVE_DATA then
        (if PageStatus1 = VALID_PAGE then ee_init_resume tab PAGE0_BASE_ADDRESS PAGE1_ID s
         else if PageStatus1 = ERASED then ee_init_finish PAGE0_BASE_ADDRESS PAGE1_ID s
         else EE_Format s)
      else if PageStatus0 = VALID_PAGE then
        (if PageStatus1 = VALID_PAGE then EE_Format s
         else if PageStatus1 = ERASED then EE_EraseSectorIfNotEmpty PAGE1_ID s
         else ee_init_resume tab PAGE1_BASE_ADDRESS PAGE0_ID s)
      else EE_Format s)"

section \<open>Pages as lists of entries\<close>

declare ee_read_loop.simps [simp del] ee_find_free.simps [simp del] upt_rec_numeral [simp del]

lemmas ee_consts = PAGE_SIZE_def EEPROM_START_ADDRESS_def PAGE0_BASE_ADDRESS_def PAGE1_BASE_ADDRESS_def
  PAGE0_ID_def PAGE1_ID_def

lemma ee_status_neq [simp]:
  "NO_VALID_PAGE \<noteq> 0" "NO_VALID_PAGE \<noteq> 1" "0 \<noteq> NO_VALID_PAGE" "1 \<noteq> NO_VALID_PAGE"
  "ERASED \<noteq> VALID_PAGE" "ERASED \<noteq> RECEIVE_DATA" "VALID_PAGE \<noteq> RECEIVE_DATA"
  "VALID_PAGE \<noteq> ERASED" "RECEIVE_DATA \<noteq> ERASED" "RECEIVE_DATA \<noteq> VALID_PAGE"
  "PAGE_FULL \<noteq> FLASH_COMPLETE" "FLASH_COMPLETE \<noteq> PAGE_FULL" "err_code e \<noteq> PAGE_FULL"
  "NO_VALID_PAGE \<noteq> FLASH_COMPLETE" "FLASH_COMPLETE \<noteq> NO_VALID_PAGE"
  by (simp_all add: NO_VALID_PAGE_def ERASED_def VALID_PAGE_def RECEIVE_DATA_def PAGE_FULL_def FLASH_COMPLETE_def)
    (cases e; simp add: err_code.simps)

lemma page_header_and [simp]:
  "ERASED AND v = v" "RECEIVE_DATA AND VALID_PAGE = VALID_PAGE" "v AND VALID_PAGE = VALID_PAGE"
proof -
  have "ERASED = - 1" by (simp add: ERASED_def)
  then show "ERASED AND v = v" by (metis and.left_neutral)
qed (simp_all add: VALID_PAGE_def)

text \<open>An entry is a value and a virtual address; the erased slot reads as two times 0xFFFF.\<close>

type_synonym entry = "u16 \<times> u16"

definition blank :: entry where "blank = (ERASED, ERASED)"

definition page_base :: "nat \<Rightarrow> nat" where "page_base p = EEPROM_START_ADDRESS + p * PAGE_SIZE"

definition slot :: "(nat \<Rightarrow> u8) \<Rightarrow> nat \<Rightarrow> nat \<Rightarrow> entry" where
  "slot m p k = (rd16 m (page_base p + 4 * k), rd16 m (page_base p + 4 * k + 2))"

text \<open>The page \<open>p\<close> has the status \<open>h\<close> and the entries \<open>es\<close>, none of them blank, from
  slot 1 on, and is erased behind them.\<close>

definition pg :: "(nat \<Rightarrow> u8) \<Rightarrow> nat \<Rightarrow> u16 \<Rightarrow> entry list \<Rightarrow> bool" where
  "pg m p h es = (slot m p 0 = (h, ERASED) \<and> length es \<le> 4095 \<and> blank \<notin> set es \<and>
     (\<forall>k. 1 \<le> k \<and> k \<le> 4095 \<longrightarrow> slot m p k = (if k \<le> length es then es ! (k - 1) else blank)))"

text \<open>The variables a page holds: the last entry of an address counts. Address 0xFFFF is not
  usable; entries with it are values whose address was not written any more.\<close>

definition ee_map :: "entry list \<Rightarrow> u16 \<Rightarrow> u16 option" where
  "ee_map es = (\<lambda>va. if va = ERASED then None else map_of (rev (map prod.swap es)) va)"

lemma ee_map_Nil [simp]: "ee_map [] = Map.empty"
  by (rule ext) (simp add: ee_map_def)

lemma ee_map_snoc: "va \<noteq> ERASED \<Longrightarrow> ee_map (es @ [(d, va)]) = (ee_map es)(va \<mapsto> d)"
  by (rule ext) (simp add: ee_map_def)

lemma ee_map_torn [simp]: "ee_map (es @ [(d, ERASED)]) = ee_map es"
  by (rule ext) (simp add: ee_map_def)

lemma ee_map_erased [simp]: "ee_map es ERASED = None"
  by (simp add: ee_map_def)

lemma map_of_blanks: "va \<noteq> ERASED \<Longrightarrow> map_of (replicate n (ERASED, ERASED)) va = None"
  by (induction n) auto

subsection \<open>Reading a page\<close>

lemma ee_read_slots:
  assumes "va \<noteq> ERASED"
  shows "ee_read_loop (page_base p + 4 * k + 2) (page_base p) va m =
    map_of (rev (map (\<lambda>i. prod.swap (slot m p i)) [1 ..< Suc k])) va"
proof (induction k)
  case 0
  then show ?case by (simp add: ee_read_loop.simps)
next
  case (Suc k)
  have "ee_read_loop (page_base p + 4 * Suc k + 2) (page_base p) va m =
      (if rd16 m (page_base p + 4 * Suc k + 2) = va then Some (rd16 m (page_base p + 4 * Suc k))
       else ee_read_loop (page_base p + 4 * k + 2) (page_base p) va m)"
    by (subst ee_read_loop.simps) (simp add: add_ac)
  then show ?case
    using Suc by (simp add: slot_def del: mult_Suc_right)
qed

lemma pg_slots:
  assumes "pg m p h es"
  shows "map (slot m p) [1 ..< 4096] = es @ replicate (4095 - length es) blank"
proof (rule nth_equalityI)
  show "length (map (slot m p) [1 ..< 4096]) = length (es @ replicate (4095 - length es) blank)"
    using assms by (simp add: pg_def)
  fix i assume "i < length (map (slot m p) [1 ..< 4096])"
  then have "i < 4095" by simp
  then show "map (slot m p) [1 ..< 4096] ! i = (es @ replicate (4095 - length es) blank) ! i"
    using assms by (simp add: pg_def nth_append)
qed

lemma ee_read_page:
  assumes "pg m p h es" and "va \<noteq> ERASED"
  shows "ee_read_loop (page_base p + 0x3FFE) (page_base p) va m = ee_map es va"
proof -
  have "ee_read_loop (page_base p + 4 * 4095 + 2) (page_base p) va m =
      map_of (rev (map prod.swap (map (slot m p) [1 ..< 4096]))) va"
    using ee_read_slots [OF assms(2), of p 4095 m] by (simp add: comp_def)
  also have "\<dots> = map_of (rev (map prod.swap es)) va"
    unfolding pg_slots [OF assms(1)] using assms(2)
    by (simp add: map_add_def blank_def map_of_blanks)
  finally show ?thesis
    using assms(2) by (simp add: ee_map_def add.commute)
qed

lemma rd32_all_ones:
  "rd32 m a = 0xFFFFFFFF \<longleftrightarrow> m a = 0xFF \<and> m (a + 1) = 0xFF \<and> m (a + 2) = 0xFF \<and> m (a + 3) = 0xFF"
proof
  assume w: "rd32 m a = 0xFFFFFFFF"
  have "m a = byte_of 0 (rd32 m a)" "m (a + 1) = byte_of 8 (rd32 m a)"
      "m (a + 2) = byte_of 16 (rd32 m a)" "m (a + 3) = byte_of 24 (rd32 m a)"
    by (rule bit_word_eqI, auto simp: rd32_def byte_of_def bit_simps dest: bit_imp_le_length)+
  then show "m a = 0xFF \<and> m (a + 1) = 0xFF \<and> m (a + 2) = 0xFF \<and> m (a + 3) = 0xFF"
    by (simp add: w byte_of_def)
qed (simp add: rd32_def)

lemma rd16_all_ones: "rd16 m a = ERASED \<longleftrightarrow> m a = 0xFF \<and> m (a + 1) = 0xFF"
proof
  assume w: "rd16 m a = ERASED"
  have "m a = byte_of 0 (rd16 m a)" "m (a + 1) = byte_of 8 (rd16 m a)"
    by (simp_all add: byte_of_rd16)
  then show "m a = 0xFF \<and> m (a + 1) = 0xFF"
    by (simp add: w byte_of_def ERASED_def)
qed (simp add: rd16_def ERASED_def)

lemma rd32_rd16: "rd32 m a = 0xFFFFFFFF \<longleftrightarrow> rd16 m a = ERASED \<and> rd16 m (a + 2) = ERASED"
  unfolding rd32_all_ones rd16_all_ones by (simp add: eval_nat_numeral)

lemma ee_find_free_slots:
  assumes "\<forall>k. k0 \<le> k \<and> k < n \<longrightarrow> slot m p k \<noteq> blank" and "k0 \<le> n" and "n \<le> 4096"
    and "n < 4096 \<Longrightarrow> slot m p n = blank"
  shows "ee_find_free (page_base p + 4 * k0) (page_base p + 0x3FFE) m =
    (if n < 4096 then Some (page_base p + 4 * n) else None)"
  using assms(1,2)
proof (induction "n - k0" arbitrary: k0)
  case 0
  then show ?case
    using assms(3,4) by (subst ee_find_free.simps) (auto simp: rd32_rd16 slot_def blank_def)
next
  case (Suc d)
  then have "k0 < n" and s: "slot m p k0 \<noteq> blank" by simp_all
  then have "ee_find_free (page_base p + 4 * k0) (page_base p + 0x3FFE) m =
      ee_find_free (page_base p + 4 * Suc k0) (page_base p + 0x3FFE) m"
    using assms(3) by (subst ee_find_free.simps) (auto simp: rd32_rd16 slot_def blank_def algebra_simps)
  then show ?case
    using Suc.hyps(1) [of "Suc k0"] Suc.hyps(2) Suc.prems \<open>k0 < n\<close> by simp
qed

lemma ee_find_free_page:
  assumes "pg m p h es" and "h \<noteq> ERASED"
  shows "ee_find_free (page_base p) (page_base p + 0x3FFE) m =
    (if length es < 4095 then Some (page_base p + 4 * (length es + 1)) else None)"
proof -
  have "slot m p k \<noteq> blank" if "k < length es + 1" for k
  proof (cases k)
    case 0
    then show ?thesis using assms by (simp add: pg_def blank_def)
  next
    case (Suc j)
    then have "slot m p k = es ! j" "j < length es"
      using assms(1) that by (auto simp: pg_def)
    then show ?thesis
      using assms(1) by (auto simp: pg_def) (metis nth_mem)
  qed
  moreover have "length es + 1 < 4096 \<Longrightarrow> slot m p (length es + 1) = blank" "length es + 1 \<le> 4096"
    using assms(1) by (auto simp: pg_def)
  ultimately show ?thesis
    using ee_find_free_slots [of 0 "length es + 1" m p] by simp
qed

subsection \<open>Programming and erasing a page\<close>

lemma even_page_base [simp]: "even (page_base p)"
  by (simp add: page_base_def ee_consts)

lemma slot_prog_data:
  "slot (prog16 (page_base p + 4 * j) v m) p k =
     (if k = j then (fst (slot m p k) AND v, snd (slot m p k)) else slot m p k)"
proof -
  have "page_base p + 4 * k + 2 \<noteq> page_base p + 4 * j"
    by presburger
  then show ?thesis
    by (auto simp: slot_def rd16_prog16_same rd16_prog16_other)
qed

lemma slot_prog_addr:
  "slot (prog16 (page_base p + 4 * j + 2) v m) p k =
     (if k = j then (fst (slot m p k), snd (slot m p k) AND v) else slot m p k)"
proof -
  have "page_base p + 4 * k \<noteq> page_base p + 4 * j + 2"
    by presburger
  moreover have "page_base p + 4 * k + 2 \<noteq> page_base p + 4 * j + 2" if "k \<noteq> j"
    using that by simp
  ultimately show ?thesis
    by (cases "k = j") (auto simp: slot_def rd16_prog16_same [of _ v m] rd16_prog16_other)
qed

lemma pg_header:
  assumes "pg m p h es"
  shows "pg (prog16 (page_base p) v m) p (h AND v) es"
  using assms slot_prog_data [of p 0 v m] by (simp add: pg_def)

lemma pg_write_data:
  assumes "pg m p h es" and "length es < 4095"
  shows "pg (prog16 (page_base p + 4 * (length es + 1)) d m) p h (if d = ERASED then es else es @ [(d, ERASED)])"
  unfolding pg_def slot_prog_data using assms by (auto simp: pg_def nth_append blank_def)

lemma pg_write_both:
  assumes "pg m p h es" and "length es < 4095" and "va \<noteq> ERASED"
  shows "pg (prog16 (page_base p + 4 * (length es + 1) + 2) va
      (prog16 (page_base p + 4 * (length es + 1)) d m)) p h (es @ [(d, va)])"
  unfolding pg_def slot_prog_addr slot_prog_data
  using assms by (auto simp: pg_def nth_append blank_def)

lemma pg_cong:
  assumes "\<And>x. page_base p \<le> x \<Longrightarrow> x < page_base p + 0x4000 \<Longrightarrow> m' x = m x"
  shows "pg m' p h es = pg m p h es"
proof -
  have "slot m' p k = slot m p k" if "k \<le> 4095" for k
    using that assms by (simp add: slot_def rd16_def)
  then show ?thesis
    by (simp add: pg_def)
qed

lemma page_disjoint:
  assumes "p \<noteq> q" and "p \<le> 1" and "q \<le> 1"
  shows "page_base p + 0x4000 \<le> page_base q \<or> page_base q + 0x4000 \<le> page_base p"
  using assms by (cases p; cases q) (auto simp: page_base_def ee_consts)

lemma pg_other:
  assumes "p \<noteq> q" and "p \<le> 1" and "q \<le> 1" and "i + 1 < 0x4000"
  shows "pg (prog16 (page_base p + i) v m) q h es = pg m q h es"
proof (rule pg_cong)
  fix x assume "page_base q \<le> x" "x < page_base q + 0x4000"
  then have "x \<noteq> page_base p + i" "x \<noteq> page_base p + i + 1"
    using page_disjoint [OF assms(1-3)] assms(4) by auto
  then show "prog16 (page_base p + i) v m x = m x"
    by (simp add: prog16_def)
qed

lemma pg_erase:
  "pg (erase_range (page_base p) (page_base p + 0x4000) m) p ERASED []"
proof -
  have "slot (erase_range (page_base p) (page_base p + 0x4000) m) p k = blank" if "k \<le> 4095" for k
    using that by (simp add: slot_def rd16_all_ones blank_def erase_range_def)
  then show ?thesis
    by (simp add: pg_def blank_def)
qed

lemma pg_erase_other:
  assumes "p \<noteq> q" and "p \<le> 1" and "q \<le> 1"
  shows "pg (erase_range (page_base p) (page_base p + 0x4000) m) q h es = pg m q h es"
proof (rule pg_cong)
  fix x assume "page_base q \<le> x" "x < page_base q + 0x4000"
  then show "erase_range (page_base p) (page_base p + 0x4000) m x = m x"
    using page_disjoint [OF assms] by (auto simp: erase_range_def)
qed

text \<open>An erased page holds nothing but 0xFF, so it is not erased again.\<close>

lemma pg_blank_bytes:
  assumes "pg m p ERASED []" and "x < 0x4000"
  shows "m (page_base p + x) = 0xFF"
proof -
  define k r where "k = x div 4" and "r = x mod 4"
  then have x: "x = 4 * k + r" and r: "r < 4" and k: "k \<le> 4095"
    using assms(2) by auto
  have "slot m p k = blank"
    using assms(1) k by (cases k) (simp_all add: pg_def blank_def)
  then have b: "m (page_base p + 4 * k) = 0xFF" "m (page_base p + 4 * k + 1) = 0xFF"
      "m (page_base p + 4 * k + 2) = 0xFF" "m (page_base p + 4 * k + 2 + 1) = 0xFF"
    by (simp_all only: slot_def blank_def prod.inject rd16_all_ones)
  consider "r = 0" | "r = 1" | "r = 2" | "r = 3"
    using r by linarith
  then show ?thesis
  proof cases
    case 4
    have "page_base p + x = page_base p + 4 * k + 2 + 1"
      by (simp add: x 4)
    then show ?thesis by (simp only: b(4))
  qed (use b x in \<open>simp_all add: add.assoc\<close>)
qed

definition page_id :: "nat \<Rightarrow> nat" where "page_id p = (if p = 0 then PAGE0_ID else PAGE1_ID)"

lemma ee_erase:
  assumes "p \<le> 1"
  shows "fst (EE_EraseSectorIfNotEmpty (page_id p) s) = FLASH_COMPLETE \<Longrightarrow>
      pg (mem (snd (EE_EraseSectorIfNotEmpty (page_id p) s))) p ERASED []"
    and "mem (snd (EE_EraseSectorIfNotEmpty (page_id p) s)) = mem s \<or>
      mem (snd (EE_EraseSectorIfNotEmpty (page_id p) s)) = erase_range (page_base p) (page_base p + 0x4000) (mem s)"
    and "\<not> flash_locked s \<Longrightarrow> script s = [] \<Longrightarrow> fst (EE_EraseSectorIfNotEmpty (page_id p) s) = FLASH_COMPLETE"
    and "fst (EE_EraseSectorIfNotEmpty (page_id p) s) \<noteq> PAGE_FULL"
proof -
  have p: "p = 0 \<or> p = 1" using assms by auto
  then have a: "the (flash_helper_get_sector_address (page_id p)) = page_base p"
    by (auto simp: flash_helper_get_sector_address_def flash_sector_def flash_addr_def page_id_def
        page_base_def ee_consts)
  have e: "FLASH_EraseSector (page_id p) = flash_op (erase_range (page_base p) (page_base p + 0x4000))"
    using p by (auto simp: FLASH_EraseSector_def page_id_def ee_consts page_base_def flash_addr_def Let_def)
  let ?dirty = "list_ex (\<lambda>i. mem s (page_base p + i) \<noteq> 0xFF) [0 ..< PAGE_SIZE]"
  have clean: "pg (mem s) p ERASED []" if "\<not> ?dirty"
  proof -
    have "mem s (page_base p + i) = 0xFF" if "i < 0x4000" for i
      using \<open>\<not> ?dirty\<close> that by (auto simp: list_ex_iff PAGE_SIZE_def)
    then have "slot (mem s) p k = blank" if "k \<le> 4095" for k
      unfolding slot_def blank_def rd16_all_ones prod.inject add.assoc
      by (intro conjI \<open>\<And>i. i < 0x4000 \<Longrightarrow> mem s (page_base p + i) = 0xFF\<close>) (use that in simp_all)
    then show ?thesis by (simp add: pg_def blank_def)
  qed
  note d = EE_EraseSectorIfNotEmpty_def Let_def a e
  show "fst (EE_EraseSectorIfNotEmpty (page_id p) s) = FLASH_COMPLETE \<Longrightarrow>
      pg (mem (snd (EE_EraseSectorIfNotEmpty (page_id p) s))) p ERASED []"
    using clean flash_op_complete [of "erase_range (page_base p) (page_base p + 0x4000)" s]
    by (auto simp: d pg_erase)
  show "mem (snd (EE_EraseSectorIfNotEmpty (page_id p) s)) = mem s \<or>
      mem (snd (EE_EraseSectorIfNotEmpty (page_id p) s)) = erase_range (page_base p) (page_base p + 0x4000) (mem s)"
    using flash_op_mem [of "erase_range (page_base p) (page_base p + 0x4000)" s] by (auto simp: d)
  show "\<not> flash_locked s \<Longrightarrow> script s = [] \<Longrightarrow> fst (EE_EraseSectorIfNotEmpty (page_id p) s) = FLASH_COMPLETE"
    by (simp add: d flash_op_ok)
  show "fst (EE_EraseSectorIfNotEmpty (page_id p) s) \<noteq> PAGE_FULL"
    by (auto simp: d flash_op_def split: list.splits outcome.splits)
qed

section \<open>The operations on pages, for every behaviour of the flash\<close>

text \<open>Unlocked flash with no failure ahead.\<close>

definition good :: "'a sys_scheme \<Rightarrow> bool" where
  "good s = (\<not> flash_locked s \<and> script s = [])"

lemma good_flash_op: "good s \<Longrightarrow> fst (flash_op f s) = FLASH_COMPLETE \<and> good (snd (flash_op f s))"
  by (simp add: good_def flash_op_ok)

lemma good_DataVar [simp]: "good (s\<lparr>DataVar := d\<rparr>) = good s"
  by (simp add: good_def)

lemma flash_op_status: "fst (flash_op f s) \<noteq> PAGE_FULL"
  by (auto simp: flash_op_def split: list.splits outcome.splits)

lemma prog_half_cases:
  obtains "fst (FLASH_ProgramHalfWord a v s) = FLASH_COMPLETE" "mem (snd (FLASH_ProgramHalfWord a v s)) = prog16 a v (mem s)"
  | "fst (FLASH_ProgramHalfWord a v s) \<noteq> FLASH_COMPLETE"
    "mem (snd (FLASH_ProgramHalfWord a v s)) = mem s \<or> mem (snd (FLASH_ProgramHalfWord a v s)) = prog16 a v (mem s)"
  using flash_op_complete [of "prog16 a v" s] flash_op_mem [of "prog16 a v" s]
  unfolding FLASH_ProgramHalfWord_def by blast

lemma prog_half_good:
  "good s \<Longrightarrow> fst (FLASH_ProgramHalfWord a v s) = FLASH_COMPLETE \<and> good (snd (FLASH_ProgramHalfWord a v s))"
  unfolding FLASH_ProgramHalfWord_def by (rule good_flash_op)

lemma prog_half_status [simp]: "fst (FLASH_ProgramHalfWord a v s) \<noteq> PAGE_FULL"
  unfolding FLASH_ProgramHalfWord_def by (rule flash_op_status)

subsection \<open>Finding the pages\<close>

lemma pg_status: "pg m p h es \<Longrightarrow> rd16 m (page_base p) = h"
  by (simp add: pg_def slot_def)

lemma page_bases: "page_base 0 = PAGE0_BASE_ADDRESS" "page_base (Suc 0) = PAGE1_BASE_ADDRESS"
    "page_base 1 = PAGE1_BASE_ADDRESS"
  by (simp_all add: page_base_def ee_consts)

text \<open>The page \<open>p\<close> is valid and the other one has status \<open>hq\<close>.\<close>

lemma find_page:
  assumes "pg m p VALID_PAGE ep" and "pg m (1 - p) hq eq" and "p \<le> 1"
  shows "hq \<noteq> VALID_PAGE \<Longrightarrow> EE_FindValidPage READ_FROM_VALID_PAGE m = word_of_nat p"
    and "hq = RECEIVE_DATA \<Longrightarrow> EE_FindValidPage WRITE_IN_VALID_PAGE m = word_of_nat (1 - p)"
    and "hq = ERASED \<Longrightarrow> EE_FindValidPage WRITE_IN_VALID_PAGE m = word_of_nat p"
  using assms(3) pg_status [OF assms(1)] pg_status [OF assms(2)]
  by (cases p; simp add: EE_FindValidPage_def page_bases)+

lemma word_page: "p \<le> 1 \<Longrightarrow> unat (word_of_nat p :: u16) = p" "p \<le> 1 \<Longrightarrow> word_of_nat p \<noteq> NO_VALID_PAGE"
  by (cases p; simp add: NO_VALID_PAGE_def)+

lemma read_variable:
  assumes "pg m p VALID_PAGE ep" and "pg m (1 - p) hq eq" and "p \<le> 1" and "hq \<noteq> VALID_PAGE" and "va \<noteq> ERASED"
  shows "EE_ReadVariable va Data m = (case ee_map ep va of Some d \<Rightarrow> (0, d) | None \<Rightarrow> (1, Data))"
proof -
  have "EEPROM_START_ADDRESS - 2 + (1 + p) * PAGE_SIZE = page_base p + 0x3FFE"
      "EEPROM_START_ADDRESS + p * PAGE_SIZE = page_base p"
    by (simp_all add: page_base_def ee_consts)
  then show ?thesis
    using find_page(1) [OF assms(1-4)] word_page [OF assms(3)] ee_read_page [OF assms(1,5)]
    by (simp add: EE_ReadVariable_def)
qed

subsection \<open>Writing one entry\<close>

lemma write_entry:
  assumes "pg (mem s) w h es" and "h \<noteq> ERASED" and "w \<le> 1" and "va \<noteq> ERASED"
    and "EE_FindValidPage WRITE_IN_VALID_PAGE (mem s) = word_of_nat w"
    and r: "r = EE_VerifyPageFullWriteVariable va d s"
  shows "length es = 4095 \<Longrightarrow> r = (PAGE_FULL, s)"
    and "length es < 4095 \<Longrightarrow> fst r \<noteq> PAGE_FULL \<and> (good s \<longrightarrow> fst r = FLASH_COMPLETE \<and> good (snd r)) \<and>
      (\<exists>es'. pg (mem (snd r)) w h es' \<and> es' \<in> {es, es @ [(d, ERASED)], es @ [(d, va)]} \<and>
         (fst r = FLASH_COMPLETE \<longrightarrow> es' = es @ [(d, va)])) \<and>
      (\<forall>q h' es'. q \<noteq> w \<and> q \<le> 1 \<longrightarrow> pg (mem (snd r)) q h' es' = pg (mem s) q h' es')"
proof -
  let ?a = "page_base w + 4 * (length es + 1)"
  have "EEPROM_START_ADDRESS - 2 + (1 + w) * PAGE_SIZE = page_base w + 0x3FFE"
      "EEPROM_START_ADDRESS + w * PAGE_SIZE = page_base w"
    by (simp_all add: page_base_def ee_consts)
  then have r': "r = (case if length es < 4095 then Some ?a else None of
        None \<Rightarrow> (PAGE_FULL, s)
      | Some Address \<Rightarrow>
          (let (FlashStatus, s1) = FLASH_ProgramHalfWord Address d s in
           if FlashStatus \<noteq> FLASH_COMPLETE then (FlashStatus, s1)
           else FLASH_ProgramHalfWord (Address + 2) va s1))"
    using ee_find_free_page [OF assms(1,2)] word_page [OF assms(3)] assms(5)
    by (simp add: r EE_VerifyPageFullWriteVariable_def)
  show "length es = 4095 \<Longrightarrow> r = (PAGE_FULL, s)"
    by (simp add: r')
  assume l: "length es < 4095"
  define r1 where "r1 = FLASH_ProgramHalfWord ?a d s"
  define r2 where "r2 = FLASH_ProgramHalfWord (?a + 2) va (snd r1)"
  have rr: "r = (if fst r1 \<noteq> FLASH_COMPLETE then r1 else r2)"
    using l by (simp add: r' r1_def r2_def case_prod_beta Let_def)
  have m1: "mem (snd r1) = mem s \<or> mem (snd r1) = prog16 ?a d (mem s)"
      "fst r1 = FLASH_COMPLETE \<Longrightarrow> mem (snd r1) = prog16 ?a d (mem s)"
    unfolding r1_def by (rule prog_half_cases [of ?a d s]; auto)+
  have m2: "mem (snd r2) = mem (snd r1) \<or> mem (snd r2) = prog16 (?a + 2) va (mem (snd r1))"
      "fst r2 = FLASH_COMPLETE \<Longrightarrow> mem (snd r2) = prog16 (?a + 2) va (mem (snd r1))"
    unfolding r2_def by (rule prog_half_cases [of "?a + 2" va "snd r1"]; auto)+
  have one: "pg (prog16 ?a d (mem s)) w h (if d = ERASED then es else es @ [(d, ERASED)])"
    by (rule pg_write_data [OF assms(1) l])
  have two: "pg (prog16 (?a + 2) va (prog16 ?a d (mem s))) w h (es @ [(d, va)])"
    by (rule pg_write_both [OF assms(1) l assms(4)])
  have "pg (prog16 ?a v m) q h' es' = pg m q h' es'" "pg (prog16 (?a + 2) v m) q h' es' = pg m q h' es'"
    if "q \<noteq> w" "q \<le> 1" for q h' es' v m
    unfolding add.assoc by (rule pg_other; use that assms(3) l in simp)+
  then have other: "pg (mem (snd r)) q h' es' = pg (mem s) q h' es'" if "q \<noteq> w" "q \<le> 1" for q h' es'
    using that m1 m2 by (auto simp: rr)
  have "\<exists>es'. pg (mem (snd r)) w h es' \<and> es' \<in> {es, es @ [(d, ERASED)], es @ [(d, va)]} \<and>
         (fst r = FLASH_COMPLETE \<longrightarrow> es' = es @ [(d, va)])"
  proof (cases "fst r1 = FLASH_COMPLETE")
    case False
    then show ?thesis
      using m1(1) one assms(1) by (auto simp: rr split: if_splits)
  next
    case True
    then show ?thesis
      using m1(2) m2 one two by (cases "fst r2 = FLASH_COMPLETE") (auto simp: rr split: if_splits)
  qed
  moreover have "good s \<longrightarrow> fst r = FLASH_COMPLETE \<and> good (snd r)"
    using prog_half_good by (auto simp: rr r1_def r2_def)
  moreover have "fst r \<noteq> PAGE_FULL"
    by (simp add: rr r1_def r2_def)
  ultimately show "fst r \<noteq> PAGE_FULL \<and> (good s \<longrightarrow> fst r = FLASH_COMPLETE \<and> good (snd r)) \<and>
      (\<exists>es'. pg (mem (snd r)) w h es' \<and> es' \<in> {es, es @ [(d, ERASED)], es @ [(d, va)]} \<and>
         (fst r = FLASH_COMPLETE \<longrightarrow> es' = es @ [(d, va)])) \<and>
      (\<forall>q h' es'. q \<noteq> w \<and> q \<le> 1 \<longrightarrow> pg (mem (snd r)) q h' es' = pg (mem s) q h' es')"
    using other by blast
qed

subsection \<open>Copying variables\<close>

text \<open>During a transfer: page \<open>p\<close> is valid with entries \<open>ep\<close>, the other one receives.\<close>

definition receiving :: "(nat \<Rightarrow> u8) \<Rightarrow> nat \<Rightarrow> entry list \<Rightarrow> entry list \<Rightarrow> bool" where
  "receiving m p ep es = (p \<le> 1 \<and> pg m p VALID_PAGE ep \<and> pg m (1 - p) RECEIVE_DATA es)"

lemma copy_variable:
  assumes "receiving (mem s) p ep es" and "v \<noteq> ERASED" and "length es < 4095" and r: "r = ee_copy v s"
  shows "fst r \<noteq> PAGE_FULL \<and> (good s \<longrightarrow> fst r = FLASH_COMPLETE \<and> good (snd r)) \<and>
    (\<exists>es'. receiving (mem (snd r)) p ep es' \<and>
       (es' = es \<or> (\<exists>x. ee_map ep v = Some x \<and> es' \<in> {es @ [(x, ERASED)], es @ [(x, v)]})) \<and>
       (fst r = FLASH_COMPLETE \<longrightarrow>
          es' = (case ee_map ep v of None \<Rightarrow> es | Some x \<Rightarrow> es @ [(x, v)])))"
proof -
  have p: "p \<le> 1" "pg (mem s) p VALID_PAGE ep" "pg (mem s) (1 - p) RECEIVE_DATA es"
    using assms(1) by (simp_all add: receiving_def)
  have rd: "EE_ReadVariable v (DataVar s) (mem s) =
      (case ee_map ep v of Some d \<Rightarrow> (0, d) | None \<Rightarrow> (1, DataVar s))"
    using read_variable [OF p(2,3,1) _ assms(2)] by simp
  show ?thesis
  proof (cases "ee_map ep v")
    case None
    then show ?thesis
      using rd assms(1) by (auto simp: r ee_copy_def)
  next
    case (Some x)
    let ?s = "s\<lparr>DataVar := x\<rparr>"
    have rx: "r = EE_VerifyPageFullWriteVariable v x ?s"
      using rd Some by (simp add: r ee_copy_def)
    have "pg (mem ?s) (1 - p) RECEIVE_DATA es" "1 - p \<le> 1"
        "EE_FindValidPage WRITE_IN_VALID_PAGE (mem ?s) = word_of_nat (1 - p)"
      using p find_page(2) [OF p(2,3,1)] by simp_all
    note w = write_entry(2) [OF this(1) _ this(2) assms(2) this(3) rx assms(3)]
    have "p \<noteq> 1 - p" using p(1) by presburger
    then have "pg (mem (snd r)) p VALID_PAGE ep"
      using w p by simp
    then show ?thesis
      using w Some p(1) by (auto simp: receiving_def)
  qed
qed

text \<open>What a copied page may contain relative to the variables \<open>g\<close> it is meant to hold in the
  end: nothing that contradicts them.\<close>

lemma map_le_iff: "f \<subseteq>\<^sub>m g \<longleftrightarrow> (\<forall>v y. f v = Some y \<longrightarrow> g v = Some y)"
  by (auto simp: map_le_def dom_def)

lemma copied_le:
  assumes "ee_map es \<subseteq>\<^sub>m g" and "v \<noteq> ERASED" and "\<And>x. ee_map ep v = Some x \<Longrightarrow> g v = Some x"
    and "es' = es \<or> (\<exists>x. ee_map ep v = Some x \<and> es' \<in> {es @ [(x, ERASED)], es @ [(x, v)]})"
  shows "ee_map es' \<subseteq>\<^sub>m g"
  using assms by (auto simp: ee_map_snoc map_le_iff split: if_splits)

lemma ee_map_append_dom: "ee_map es v \<noteq> None \<Longrightarrow> ee_map (es @ zs) v \<noteq> None"
  by (auto simp: ee_map_def map_add_def split: option.splits if_splits)

lemma copied_stays:
  assumes "ee_map es v = g v" and "ee_map (es @ zs) \<subseteq>\<^sub>m g"
  shows "ee_map (es @ zs) v = g v"
proof (cases "g v")
  case None
  then show ?thesis using assms(2) by (cases "ee_map (es @ zs) v") (auto simp: map_le_iff)
next
  case (Some y)
  then have "ee_map (es @ zs) v \<noteq> None"
    using assms(1) ee_map_append_dom [of es v zs] by simp
  then show ?thesis using assms(2) by (auto simp: map_le_iff)
qed

text \<open>The outcome of a transfer loop that started with \<open>es\<close>: some more entries, no
  contradiction to \<open>g\<close>, and on success the whole list \<open>vs\<close> agrees with \<open>g\<close>.\<close>

definition loop_result where
  "loop_result vs g p ep es s r =
     (fst r \<noteq> PAGE_FULL \<and> (good s \<longrightarrow> fst r = FLASH_COMPLETE \<and> good (snd r)) \<and>
      (\<exists>zs. receiving (mem (snd r)) p ep (es @ zs) \<and> ee_map (es @ zs) \<subseteq>\<^sub>m g \<and> length zs \<le> length vs \<and>
        (fst r = FLASH_COMPLETE \<longrightarrow> (\<forall>v \<in> set vs. ee_map (es @ zs) v = g v))))"

lemma loop_result_skip:
  assumes "loop_result vs g p ep es s r" and "ee_map es v = g v"
  shows "loop_result (v # vs) g p ep es s r"
  using assms copied_stays [of es v g] unfolding loop_result_def
  by (auto intro: le_SucI)

lemma loop_result_copy:
  assumes "receiving (mem s) p ep es" and "v \<noteq> ERASED" and "length es < 4095" and "ee_map es \<subseteq>\<^sub>m g"
    and gv: "g v = ee_map ep v"
    and rest: "\<And>es1 s1. fst (ee_copy v s) = FLASH_COMPLETE \<Longrightarrow> s1 = snd (ee_copy v s) \<Longrightarrow>
      receiving (mem s1) p ep es1 \<Longrightarrow> es1 = es \<or> (\<exists>x. es1 = es @ [(x, v)]) \<Longrightarrow> ee_map es1 \<subseteq>\<^sub>m g \<Longrightarrow>
      loop_result vs g p ep es1 s1 (k s1)"
    and r: "r = (let (st, s1) = ee_copy v s in if st \<noteq> FLASH_COMPLETE then (st, s1) else k s1)"
  shows "loop_result (v # vs) g p ep es s r"
proof -
  let ?c = "ee_copy v s"
  note c = copy_variable [OF assms(1-3) refl]
  then obtain es' where es': "receiving (mem (snd ?c)) p ep es'"
      "es' = es \<or> (\<exists>x. ee_map ep v = Some x \<and> es' \<in> {es @ [(x, ERASED)], es @ [(x, v)]})"
      "fst ?c = FLASH_COMPLETE \<longrightarrow> es' = (case ee_map ep v of None \<Rightarrow> es | Some x \<Rightarrow> es @ [(x, v)])"
    by blast
  have le: "ee_map es' \<subseteq>\<^sub>m g"
    by (rule copied_le [OF assms(4,2) _ es'(2)]) (simp add: gv)
  show ?thesis
  proof (cases "fst ?c = FLASH_COMPLETE")
    case False
    then have rc: "r = ?c" by (simp add: r case_prod_beta)
    obtain zs where "es' = es @ zs" "length zs \<le> 1"
      using es'(2) by fastforce
    then show ?thesis
      using False c es'(1) le unfolding rc loop_result_def by auto
  next
    case True
    then have "r = k (snd ?c)" by (simp add: r case_prod_beta)
    moreover have e: "es' = es \<and> ee_map ep v = None \<or> (\<exists>x. es' = es @ [(x, v)] \<and> ee_map ep v = Some x)"
      using True es'(3) by (auto split: option.splits)
    ultimately have l: "loop_result vs g p ep es' (snd ?c) r"
      using rest [OF True refl es'(1) _ le] by auto
    have "ee_map es' v = g v"
      using e gv le assms(2) by (auto simp: ee_map_snoc map_le_iff) (cases "ee_map es v"; simp)
    moreover obtain zs where "receiving (mem (snd r)) p ep (es' @ zs)" "ee_map (es' @ zs) \<subseteq>\<^sub>m g"
        "length zs \<le> length vs" "fst r = FLASH_COMPLETE \<longrightarrow> (\<forall>u \<in> set vs. ee_map (es' @ zs) u = g u)"
      using l unfolding loop_result_def by blast
    moreover obtain ys where "es' = es @ ys" "length ys \<le> 1"
      using e by fastforce
    moreover have "fst r \<noteq> PAGE_FULL" "good s \<longrightarrow> fst r = FLASH_COMPLETE \<and> good (snd r)"
      using l c unfolding loop_result_def by blast+
    ultimately show ?thesis
      using copied_stays [of es' v g] unfolding loop_result_def
      by (intro conjI exI [of _ "ys @ zs"]) auto
  qed
qed

lemma transfer_loop:
  fixes s :: "'a ee_scheme"
  assumes "receiving (mem s) p ep es" and "ee_map es \<subseteq>\<^sub>m g" and "ee_map es va = g va"
    and "\<forall>v \<in> set vs. v \<noteq> ERASED \<and> (v \<noteq> va \<longrightarrow> g v = ee_map ep v)"
    and "length es + length vs \<le> 4095"
  shows "loop_result vs g p ep es s (ee_transfer_loop vs va s)"
  using assms
proof (induction vs arbitrary: es s)
  case Nil
  then show ?case
    by (auto simp: loop_result_def intro: exI [of _ "[]"])
next
  case (Cons v vs)
  show ?case
  proof (cases "v = va")
    case True
    then show ?thesis
      using Cons.IH [of s es] Cons.prems by (auto intro!: loop_result_skip)
  next
    case False
    show ?thesis
    proof (rule loop_result_copy [where k = "ee_transfer_loop vs va"])
      fix es1 and s1 :: "'a ee_scheme"
      assume s1: "receiving (mem s1) p ep es1" "es1 = es \<or> (\<exists>x. es1 = es @ [(x, v)])" "ee_map es1 \<subseteq>\<^sub>m g"
      have "ee_map es1 va = g va"
        using s1(2,3) Cons.prems(3) copied_stays [of es va g] by auto
      then show "loop_result vs g p ep es1 s1 (ee_transfer_loop vs va s1)"
        using Cons.IH [of s1 es1] Cons.prems(4,5) s1 by auto
    qed (use Cons.prems False in auto)
  qed
qed

lemma first_entry:
  assumes "pg m q h es"
  shows "rd16 m (page_base q + 6) = (if es = [] then ERASED else snd (hd es))"
proof -
  have "snd (slot m q 1) = rd16 m (page_base q + 6)"
    by (simp add: slot_def add.commute)
  moreover have "slot m q 1 = (if es = [] then blank else hd es)"
    using assms by (cases es) (simp_all add: pg_def)
  ultimately show ?thesis
    by (simp add: blank_def split: if_splits)
qed

lemma ee_map_hd:
  assumes "es \<noteq> []" and "snd (hd es) \<noteq> ERASED"
  shows "ee_map es (snd (hd es)) \<noteq> None"
  using assms by (cases es) (auto simp: ee_map_def map_add_def prod.swap_def split: option.splits)

lemma init_loop:
  fixes s :: "'a ee_scheme"
  assumes "receiving (mem s) p ep es" and "ee_map es \<subseteq>\<^sub>m g"
    and "\<forall>v \<in> set vs. v \<noteq> ERASED \<and> (g v = ee_map ep v \<or> es \<noteq> [] \<and> v = snd (hd es))"
    and "length es + length vs \<le> 4095" and "x < i"
  shows "loop_result vs g p ep es s (ee_init_loop (page_base (1 - p)) vs i x s)"
  using assms
proof (induction vs arbitrary: es s i x)
  case Nil
  then show ?case
    by (auto simp: loop_result_def intro: exI [of _ "[]"])
next
  case (Cons v vs)
  have v: "v \<noteq> ERASED" using Cons.prems(3) by simp
  have f: "rd16 (mem s) (page_base (1 - p) + 6) = v \<longleftrightarrow> es \<noteq> [] \<and> v = snd (hd es)"
    using first_entry [of "mem s" "1 - p" RECEIVE_DATA es] Cons.prems(1) v by (auto simp: receiving_def)
  show ?case
  proof (cases "es \<noteq> [] \<and> v = snd (hd es)")
    case True
    have "loop_result vs g p ep es s (ee_init_loop (page_base (1 - p)) vs (i + 1) i s)"
      using Cons.prems by (intro Cons.IH) auto
    moreover have "ee_map es v = g v"
      using True v ee_map_hd [of es] Cons.prems(2) by (auto simp: map_le_iff)
    ultimately show ?thesis
      using True f loop_result_skip by simp
  next
    case False
    show ?thesis
    proof (rule loop_result_copy [where k = "ee_init_loop (page_base (1 - p)) vs (i + 1) x"])
      show "g v = ee_map ep v"
        using Cons.prems(3) False by auto
      show "ee_init_loop (page_base (1 - p)) (v # vs) i x s =
          (let (st, s1) = ee_copy v s in if st \<noteq> FLASH_COMPLETE then (st, s1)
           else ee_init_loop (page_base (1 - p)) vs (i + 1) x s1)"
        using Cons.prems(5) False unfolding f [symmetric] by (simp add: Let_def del: One_nat_def)
      fix es1 and s1 :: "'a ee_scheme"
      assume s1: "receiving (mem s1) p ep es1" "es1 = es \<or> (\<exists>x. es1 = es @ [(x, v)])" "ee_map es1 \<subseteq>\<^sub>m g"
      show "loop_result vs g p ep es1 s1 (ee_init_loop (page_base (1 - p)) vs (i + 1) x s1)"
      proof (rule Cons.IH [OF s1(1,3)])
        have "es \<noteq> [] \<Longrightarrow> es1 \<noteq> [] \<and> hd es1 = hd es"
          using s1(2) by auto
        then show "\<forall>u \<in> set vs. u \<noteq> ERASED \<and> (g u = ee_map ep u \<or> es1 \<noteq> [] \<and> u = snd (hd es1))"
          using Cons.prems(3) by (metis list.set_intros(2))
        show "length es1 + length vs \<le> 4095" "x < i + 1"
          using s1(2) Cons.prems(4,5) by auto
      qed
    qed (use Cons.prems v in auto)
  qed
qed

subsection \<open>Stable and interrupted states\<close>

text \<open>At rest: page \<open>p\<close> is valid, the other one erased.\<close>

definition ready :: "(nat \<Rightarrow> u8) \<Rightarrow> nat \<Rightarrow> entry list \<Rightarrow> bool" where
  "ready m p ep = (p \<le> 1 \<and> pg m p VALID_PAGE ep \<and> pg m (1 - p) ERASED [])"

text \<open>The old page is erased, the new one complete but not yet marked.\<close>

definition unmarked :: "(nat \<Rightarrow> u8) \<Rightarrow> nat \<Rightarrow> entry list \<Rightarrow> bool" where
  "unmarked m q es = (q \<le> 1 \<and> pg m q RECEIVE_DATA es \<and> pg m (1 - q) ERASED [])"

text \<open>The variables after a transfer that writes \<open>va\<close>: only those in the table survive.\<close>

definition transferred :: "u16 list \<Rightarrow> entry list \<Rightarrow> u16 \<Rightarrow> u16 \<Rightarrow> u16 \<Rightarrow> u16 option" where
  "transferred tab ep va d = (ee_map ep |` set tab)(va \<mapsto> d)"

text \<open>Everything a write can leave behind, by where it was interrupted.\<close>

definition interrupted :: "u16 list \<Rightarrow> (nat \<Rightarrow> u8) \<Rightarrow> nat \<Rightarrow> entry list \<Rightarrow> u16 \<Rightarrow> u16 \<Rightarrow> bool" where
  "interrupted tab m p ep va d =
     ((\<exists>ep' \<in> {ep, ep @ [(d, ERASED)], ep @ [(d, va)]}. ready m p ep') \<or>
      (\<exists>es. receiving m p ep es \<and> length es \<le> length tab + 1 \<and> ee_map es \<subseteq>\<^sub>m transferred tab ep va d \<and>
         (es = [] \<or> es = [(d, ERASED)] \<or> hd es = (d, va) \<and> es \<noteq> [])) \<or>
      (\<exists>es. unmarked m (1 - p) es \<and> ee_map es = transferred tab ep va d) \<or>
      (\<exists>es. ready m (1 - p) es \<and> ee_map es = transferred tab ep va d))"

lemma other_page: "(p :: nat) \<le> 1 \<Longrightarrow> p \<noteq> 1 - p" "p \<le> 1 \<Longrightarrow> 1 - p \<noteq> p" "p \<le> 1 \<Longrightarrow> 1 - (1 - p) = p"
  by (cases p; simp)+

lemma other_le: "1 - p \<le> (1::nat)"
  by simp

lemma program_status:
  assumes "pg (mem s) q h es" and "q \<le> 1" and r: "r = FLASH_ProgramHalfWord (page_base q) v s"
  shows "fst r \<noteq> PAGE_FULL" and "good s \<Longrightarrow> fst r = FLASH_COMPLETE \<and> good (snd r)"
    and "mem (snd r) = mem s \<or> pg (mem (snd r)) q (h AND v) es"
    and "fst r = FLASH_COMPLETE \<Longrightarrow> pg (mem (snd r)) q (h AND v) es"
    and "\<forall>q' h' es'. q' \<noteq> q \<and> q' \<le> 1 \<longrightarrow> pg (mem (snd r)) q' h' es' = pg (mem s) q' h' es'"
proof -
  have m: "mem (snd r) = mem s \<or> mem (snd r) = prog16 (page_base q) v (mem s)"
      "fst r = FLASH_COMPLETE \<Longrightarrow> mem (snd r) = prog16 (page_base q) v (mem s)"
    unfolding r by (rule prog_half_cases [of "page_base q" v s]; auto)+
  show "fst r \<noteq> PAGE_FULL"
    by (simp add: r)
  show "good s \<Longrightarrow> fst r = FLASH_COMPLETE \<and> good (snd r)"
    unfolding r by (rule prog_half_good)
  show "mem (snd r) = mem s \<or> pg (mem (snd r)) q (h AND v) es"
    "fst r = FLASH_COMPLETE \<Longrightarrow> pg (mem (snd r)) q (h AND v) es"
    using m pg_header [OF assms(1), of v] by auto
  show "\<forall>q' h' es'. q' \<noteq> q \<and> q' \<le> 1 \<longrightarrow> pg (mem (snd r)) q' h' es' = pg (mem s) q' h' es'"
    using m(1) pg_other [of q _ 0 v "mem s"] assms(2) by auto
qed

lemma erase_page:
  assumes "q \<le> 1" and r: "r = EE_EraseSectorIfNotEmpty (page_id q) s"
  shows "fst r \<noteq> PAGE_FULL" and "good s \<Longrightarrow> fst r = FLASH_COMPLETE \<and> good (snd r)"
    and "mem (snd r) = mem s \<or> pg (mem (snd r)) q ERASED []"
    and "fst r = FLASH_COMPLETE \<Longrightarrow> pg (mem (snd r)) q ERASED []"
    and "\<forall>q' h' es'. q' \<noteq> q \<and> q' \<le> 1 \<longrightarrow> pg (mem (snd r)) q' h' es' = pg (mem s) q' h' es'"
proof -
  note e = ee_erase [OF assms(1), of s]
  show "fst r \<noteq> PAGE_FULL" unfolding r by (rule e(4))
  show "good s \<Longrightarrow> fst r = FLASH_COMPLETE \<and> good (snd r)"
    using e(3) good_flash_op [of s] unfolding r good_def
    by (auto simp: EE_EraseSectorIfNotEmpty_def FLASH_EraseSector_def Let_def)
  show "mem (snd r) = mem s \<or> pg (mem (snd r)) q ERASED []"
    using e(2) pg_erase [of q] by (auto simp: r)
  show "fst r = FLASH_COMPLETE \<Longrightarrow> pg (mem (snd r)) q ERASED []"
    unfolding r by (rule e(1))
  show "\<forall>q' h' es'. q' \<noteq> q \<and> q' \<le> 1 \<longrightarrow> pg (mem (snd r)) q' h' es' = pg (mem s) q' h' es'"
    using e(2) pg_erase_other [of q _ "mem s"] assms(1) by (auto simp: r)
qed

lemma transferred_complete:
  assumes "ee_map es \<subseteq>\<^sub>m transferred tab ep va d" and "ee_map es va = Some d"
    and "\<forall>v \<in> set tab. ee_map es v = transferred tab ep va d v"
  shows "ee_map es = transferred tab ep va d"
proof (rule ext)
  fix v
  show "ee_map es v = transferred tab ep va d v"
  proof (cases "v \<in> set tab \<or> v = va")
    case True
    then show ?thesis using assms(2,3) by (auto simp: transferred_def)
  next
    case False
    then have "transferred tab ep va d v = None" by (simp add: transferred_def restrict_map_def)
    then show ?thesis using assms(1) by (cases "ee_map es v") (auto simp: map_le_iff)
  qed
qed

text \<open>The page transfer. Each step either completes or leaves one of the interrupted states.\<close>

lemma page_transfer:
  assumes "ready (mem s) p ep" and "va \<noteq> ERASED" and "\<forall>v \<in> set tab. v \<noteq> ERASED"
    and "length tab < 4095" and r: "r = EE_PageTransfer tab va d s"
  shows "fst r \<noteq> PAGE_FULL \<and> (good s \<longrightarrow> fst r = FLASH_COMPLETE \<and> good (snd r)) \<and>
    interrupted tab (mem (snd r)) p ep va d \<and>
    (fst r = FLASH_COMPLETE \<longrightarrow> (\<exists>es. ready (mem (snd r)) (1 - p) es \<and> ee_map es = transferred tab ep va d))"
proof -
  let ?g = "transferred tab ep va d" and ?q = "1 - p"
  have p: "p \<le> 1" and P: "pg (mem s) p VALID_PAGE ep" and Q: "pg (mem s) ?q ERASED []"
    using assms(1) by (simp_all add: ready_def)
  note op = other_page [OF p] other_le [of p]
  define r1 where "r1 = FLASH_ProgramHalfWord (page_base ?q) RECEIVE_DATA s"
  define r2 where "r2 = EE_VerifyPageFullWriteVariable va d (snd r1)"
  define r3 where "r3 = ee_transfer_loop tab va (snd r2)"
  define r4 where "r4 = EE_EraseSectorIfNotEmpty (page_id p) (snd r3)"
  define r5 where "r5 = FLASH_ProgramHalfWord (page_base ?q) VALID_PAGE (snd r4)"
  have rr: "r = (if fst r1 \<noteq> FLASH_COMPLETE then r1 else if fst r2 \<noteq> FLASH_COMPLETE then r2
      else if fst r3 \<noteq> FLASH_COMPLETE then r3 else if fst r4 \<noteq> FLASH_COMPLETE then r4 else r5)"
    using find_page(1) [OF P Q p] p
    by (cases p) (simp_all add: r EE_PageTransfer_def r1_def r2_def r3_def r4_def r5_def page_bases
        page_id_def Let_def case_prod_beta NO_VALID_PAGE_def)
  note s1 = program_status [OF Q op(4) r1_def, simplified]
  have R1: "mem (snd r1) = mem s \<or> receiving (mem (snd r1)) p ep []"
      "fst r1 = FLASH_COMPLETE \<Longrightarrow> receiving (mem (snd r1)) p ep []"
    using s1 P p op by (auto simp: receiving_def)
  have I1: "interrupted tab (mem (snd r1)) p ep va d"
    using R1(1) assms(1) by (auto simp: interrupted_def)
  show ?thesis
  proof (cases "fst r1 = FLASH_COMPLETE")
    case False
    then show ?thesis using s1 I1 by (auto simp: rr)
  next
    case c1: True
    have W: "pg (mem (snd r1)) ?q RECEIVE_DATA []" "pg (mem (snd r1)) p VALID_PAGE ep"
      using R1(2) [OF c1] by (simp_all add: receiving_def)
    note s2 = write_entry(2) [OF W(1) _ op(4) assms(2) find_page(2) [OF W(2,1) p refl] r2_def, simplified]
    then obtain es2 where es2: "receiving (mem (snd r2)) p ep es2" "es2 \<in> {[], [(d, ERASED)], [(d, va)]}"
        "fst r2 = FLASH_COMPLETE \<longrightarrow> es2 = [(d, va)]"
      using W(2) p op by (auto simp: receiving_def)
    have g2: "ee_map [(d, va)] = [va \<mapsto> d]" "[va \<mapsto> d] \<subseteq>\<^sub>m ?g"
      using ee_map_snoc [OF assms(2), of "[]" d] by (simp_all add: transferred_def map_le_iff)
    have I2: "interrupted tab (mem (snd r2)) p ep va d"
      using es2 g2 ee_map_torn [of "[]" d] by (auto simp: interrupted_def)
    show ?thesis
    proof (cases "fst r2 = FLASH_COMPLETE")
      case False
      then show ?thesis using c1 s1 s2 I2 by (auto simp: rr)
    next
      case c2: True
      then have e2: "es2 = [(d, va)]" using es2(3) by simp
      have "loop_result tab ?g p ep es2 (snd r2) r3"
        unfolding r3_def
      proof (rule transfer_loop [OF es2(1)])
        show "ee_map es2 \<subseteq>\<^sub>m ?g" "ee_map es2 va = ?g va"
          using e2 g2 by (simp_all add: transferred_def)
        show "\<forall>v \<in> set tab. v \<noteq> ERASED \<and> (v \<noteq> va \<longrightarrow> ?g v = ee_map ep v)"
          using assms(3) by (simp add: transferred_def)
      qed (use e2 assms(4) in simp)
      then obtain zs where zs: "receiving (mem (snd r3)) p ep (es2 @ zs)" "ee_map (es2 @ zs) \<subseteq>\<^sub>m ?g"
          "length zs \<le> length tab" "fst r3 = FLASH_COMPLETE \<longrightarrow> (\<forall>v \<in> set tab. ee_map (es2 @ zs) v = ?g v)"
        and s3: "fst r3 \<noteq> PAGE_FULL" "good (snd r2) \<longrightarrow> fst r3 = FLASH_COMPLETE \<and> good (snd r3)"
        unfolding loop_result_def by blast
      let ?es = "es2 @ zs"
      have I: "interrupted tab m p ep va d" if "receiving m p ep ?es" for m
        using that zs(2,3) e2 unfolding interrupted_def by fastforce
      show ?thesis
      proof (cases "fst r3 = FLASH_COMPLETE")
        case False
        then show ?thesis using c1 c2 s1 s2 s3 I [OF zs(1)] by (auto simp: rr)
      next
        case c3: True
        have full: "ee_map ?es = ?g"
          using zs c3 e2 g2 copied_stays [of es2 va ?g zs]
          by (intro transferred_complete) (auto simp: transferred_def)
        note s4 = erase_page [OF p r4_def]
        have R4: "mem (snd r4) = mem (snd r3) \<or> unmarked (mem (snd r4)) ?q ?es"
            "fst r4 = FLASH_COMPLETE \<Longrightarrow> unmarked (mem (snd r4)) ?q ?es"
          using s4 zs(1) op by (auto simp: receiving_def unmarked_def)
        have U: "interrupted tab m p ep va d" if "unmarked m ?q ?es" for m
          using that full unfolding interrupted_def by blast
        show ?thesis
        proof (cases "fst r4 = FLASH_COMPLETE")
          case False
          then show ?thesis using c1 c2 c3 s1 s2 s3 s4 R4 I zs(1) U by (auto simp: rr)
        next
          case c4: True
          have U4: "pg (mem (snd r4)) ?q RECEIVE_DATA ?es" "pg (mem (snd r4)) p ERASED []"
            using R4(2) [OF c4] op by (simp_all add: unmarked_def)
          note s5 = program_status [OF U4(1) op(4) r5_def, simplified]
          have R5: "mem (snd r5) = mem (snd r4) \<or> ready (mem (snd r5)) ?q ?es"
              "fst r5 = FLASH_COMPLETE \<Longrightarrow> ready (mem (snd r5)) ?q ?es"
            using s5 U4(2) op p by (auto simp: ready_def)
          have "interrupted tab m p ep va d" if "ready m ?q ?es" for m
            using that full unfolding interrupted_def by blast
          then show ?thesis
            using c1 c2 c3 c4 s1 s2 s3 s4 s5 R5 U R4(2) [OF c4] full by (auto simp: rr)
        qed
      qed
    qed
  qed
qed

lemma write_variable:
  assumes "ready (mem s) p ep" and "va \<noteq> ERASED" and "\<forall>v \<in> set tab. v \<noteq> ERASED"
    and "length tab < 4095" and r: "r = EE_WriteVariable tab va d s"
  shows "(good s \<longrightarrow> fst r = FLASH_COMPLETE \<and> good (snd r)) \<and> interrupted tab (mem (snd r)) p ep va d \<and>
    (fst r = FLASH_COMPLETE \<longrightarrow> (\<exists>q es. ready (mem (snd r)) q es \<and>
       (ee_map es = (ee_map ep)(va \<mapsto> d) \<or> ee_map es = transferred tab ep va d)))"
proof -
  have p: "p \<le> 1" and P: "pg (mem s) p VALID_PAGE ep" and Q: "pg (mem s) (1 - p) ERASED []"
    using assms(1) by (simp_all add: ready_def)
  have rd: "EE_ReadVariable va 0 (mem s) = (case ee_map ep va of Some x \<Rightarrow> (0, x) | None \<Rightarrow> (1, 0))"
    using read_variable [OF P Q p _ assms(2)] by simp
  define w where "w = EE_VerifyPageFullWriteVariable va d s"
  have rr: "r = (if ee_map ep va = Some d then (FLASH_COMPLETE, s)
      else if fst w = PAGE_FULL then EE_PageTransfer tab va d (snd w) else w)"
    using rd by (auto simp: r EE_WriteVariable_def w_def Let_def case_prod_beta split: option.splits)
  show ?thesis
  proof (cases "ee_map ep va = Some d")
    case True
    then have "ee_map ep = (ee_map ep)(va \<mapsto> d)" by auto
    moreover have "interrupted tab (mem s) p ep va d"
      using assms(1) by (auto simp: interrupted_def)
    ultimately show ?thesis
      using True assms(1) by (auto simp: rr)
  next
    case new: False
    note e = write_entry [OF P _ p assms(2) find_page(3) [OF P Q p refl] w_def, simplified]
    have "length ep \<le> 4095" using P by (simp add: pg_def)
    then consider "length ep = 4095" | "length ep < 4095" by linarith
    then show ?thesis
    proof cases
      case 1
      then have "r = EE_PageTransfer tab va d s"
        using e(1) new by (simp add: rr)
      from page_transfer [OF assms(1-4) this] show ?thesis by blast
    next
      case 2
      then have "r = w" using e(2) new by (simp add: rr)
      moreover obtain es' where "pg (mem (snd w)) p VALID_PAGE es'" "es' \<in> {ep, ep @ [(d, ERASED)], ep @ [(d, va)]}"
          "fst w = FLASH_COMPLETE \<longrightarrow> es' = ep @ [(d, va)]"
        using e(2) 2 by blast
      moreover have "pg (mem (snd w)) (1 - p) ERASED []"
        using e(2) 2 Q other_page [OF p] by simp
      ultimately have "ready (mem (snd r)) p es'" "es' \<in> {ep, ep @ [(d, ERASED)], ep @ [(d, va)]}"
          "fst r = FLASH_COMPLETE \<longrightarrow> es' = ep @ [(d, va)]"
        using p by (simp_all add: ready_def)
      then show ?thesis
        using e(2) 2 \<open>r = w\<close> ee_map_snoc [OF assms(2), of ep d] unfolding interrupted_def by blast
    qed
  qed
qed

subsection \<open>Start-up\<close>

lemma init_branches:
  "ready (mem s) p ep \<Longrightarrow> EE_Init tab s = EE_EraseSectorIfNotEmpty (page_id (1 - p)) s"
  "receiving (mem s) p ep es \<Longrightarrow> EE_Init tab s = ee_init_resume tab (page_base (1 - p)) (page_id p) s"
  "unmarked (mem s) q es \<Longrightarrow> EE_Init tab s = ee_init_finish (page_base q) (page_id (1 - q)) s"
proof -
  have le: "p = 0 \<or> p = 1" if "p \<le> 1" for p :: nat
    using that by auto
  note d = EE_Init_def page_bases page_id_def Let_def
  show "ready (mem s) p ep \<Longrightarrow> EE_Init tab s = EE_EraseSectorIfNotEmpty (page_id (1 - p)) s"
    unfolding ready_def using le [of p] by (auto simp: d dest!: pg_status)
  show "receiving (mem s) p ep es \<Longrightarrow> EE_Init tab s = ee_init_resume tab (page_base (1 - p)) (page_id p) s"
    unfolding receiving_def using le [of p] by (auto simp: d dest!: pg_status)
  show "unmarked (mem s) q es \<Longrightarrow> EE_Init tab s = ee_init_finish (page_base q) (page_id (1 - q)) s"
    unfolding unmarked_def using le [of q] by (auto simp: d dest!: pg_status)
qed

lemma init_ready:
  assumes "ready (mem s) p ep" and "good s"
  shows "fst (EE_Init tab s) = FLASH_COMPLETE \<and> good (snd (EE_Init tab s)) \<and> ready (mem (snd (EE_Init tab s))) p ep"
proof -
  have p: "p \<le> 1" using assms(1) by (simp add: ready_def)
  note e = erase_page [OF other_le [of p] refl, of s]
  show ?thesis
    unfolding init_branches(1) [OF assms(1)]
    using e(2) [OF assms(2)] e(4) e(5) assms(1) other_page [OF p] p by (simp add: ready_def)
qed

lemma init_unmarked:
  assumes "unmarked (mem s) q es" and "good s"
  shows "fst (EE_Init tab s) = FLASH_COMPLETE \<and> good (snd (EE_Init tab s)) \<and> ready (mem (snd (EE_Init tab s))) q es"
proof -
  have q: "q \<le> 1" and Q: "pg (mem s) q RECEIVE_DATA es" "pg (mem s) (1 - q) ERASED []"
    using assms(1) by (simp_all add: unmarked_def)
  define r1 where "r1 = EE_EraseSectorIfNotEmpty (page_id (1 - q)) s"
  note e = erase_page [OF other_le r1_def]
  have c: "fst r1 = FLASH_COMPLETE" "good (snd r1)" using e(2) assms(2) by blast+
  have R: "pg (mem (snd r1)) q RECEIVE_DATA es" "pg (mem (snd r1)) (1 - q) ERASED []"
    using e(4) e(5) c Q other_page [OF q] q by simp_all
  note s = program_status [OF R(1) q refl, of VALID_PAGE]
  have "EE_Init tab s = FLASH_ProgramHalfWord (page_base q) VALID_PAGE (snd r1)"
    using c(1) by (simp add: init_branches(3) [OF assms(1)] ee_init_finish_def r1_def [symmetric] case_prod_beta del: One_nat_def)
  then show ?thesis
    using s(2) [OF c(2)] s(4) s(5) R(2) other_page [OF q] q by (simp add: ready_def)
qed

lemma init_receiving:
  assumes "receiving (mem s) p ep es" and "good s" and "ee_map es \<subseteq>\<^sub>m g"
    and "\<forall>v \<in> set tab. v \<noteq> ERASED \<and> (g v = ee_map ep v \<or> es \<noteq> [] \<and> v = snd (hd es))"
    and "length es + length tab \<le> 4095"
  shows "\<exists>zs. fst (EE_Init tab s) = FLASH_COMPLETE \<and> good (snd (EE_Init tab s)) \<and>
    ready (mem (snd (EE_Init tab s))) (1 - p) (es @ zs) \<and> ee_map (es @ zs) \<subseteq>\<^sub>m g \<and>
    (\<forall>v \<in> set tab. ee_map (es @ zs) v = g v)"
proof -
  have p: "p \<le> 1" using assms(1) by (simp add: receiving_def)
  define r1 where "r1 = ee_init_loop (page_base (1 - p)) tab 0 (- 1) s"
  have "loop_result tab g p ep es s r1"
    unfolding r1_def using assms by (intro init_loop) auto
  then obtain zs where c1: "fst r1 = FLASH_COMPLETE" "good (snd r1)"
      and zs: "receiving (mem (snd r1)) p ep (es @ zs)" "ee_map (es @ zs) \<subseteq>\<^sub>m g"
        "\<forall>v \<in> set tab. ee_map (es @ zs) v = g v"
    using assms(2) unfolding loop_result_def by blast
  have Q: "pg (mem (snd r1)) (1 - p) RECEIVE_DATA (es @ zs)"
    using zs(1) by (simp add: receiving_def)
  define r2 where "r2 = FLASH_ProgramHalfWord (page_base (1 - p)) VALID_PAGE (snd r1)"
  note s2 = program_status [OF Q other_le r2_def]
  have c2: "fst r2 = FLASH_COMPLETE" "good (snd r2)" using s2(2) [OF c1(2)] by blast+
  define r3 where "r3 = EE_EraseSectorIfNotEmpty (page_id p) (snd r2)"
  note s3 = erase_page [OF p r3_def]
  have c3: "fst r3 = FLASH_COMPLETE" "good (snd r3)" using s3(2) [OF c2(2)] by blast+
  have "EE_Init tab s = r3"
    using c1(1) c2(1)
    by (simp add: init_branches(2) [OF assms(1)] ee_init_resume_def r1_def [symmetric] r2_def [symmetric]
        r3_def [symmetric] case_prod_beta del: One_nat_def)
  moreover have "ready (mem (snd r3)) (1 - p) (es @ zs)"
    using s3(4) [OF c3(1)] s3(5) s2(4) [OF c2(1)] other_page [OF p] other_le [of p] by (simp add: ready_def)
  ultimately show ?thesis
    using c3 zs by auto
qed

text \<open>Whatever a write left behind, a start-up without further trouble finds either the old
  variables or the new ones, as far as the table knows them.\<close>

lemma init_recovers:
  assumes "interrupted tab (mem s) p ep va d" and "good s" and "va \<noteq> ERASED"
    and "\<forall>v \<in> set tab. v \<noteq> ERASED" and "2 * length tab + 1 \<le> 4095"
  shows "fst (EE_Init tab s) = FLASH_COMPLETE \<and> good (snd (EE_Init tab s)) \<and>
    (\<exists>q es. ready (mem (snd (EE_Init tab s))) q es \<and>
       ee_map es \<in> {ee_map ep, (ee_map ep)(va \<mapsto> d), ee_map ep |` set tab, transferred tab ep va d})"
proof -
  from assms(1) consider
    (old) ep' where "ep' \<in> {ep, ep @ [(d, ERASED)], ep @ [(d, va)]}" "ready (mem s) p ep'"
  | (copying) es where "receiving (mem s) p ep es" "length es \<le> length tab + 1"
      "ee_map es \<subseteq>\<^sub>m transferred tab ep va d" "es = [] \<or> es = [(d, ERASED)] \<or> hd es = (d, va) \<and> es \<noteq> []"
  | (unmarked) es where "unmarked (mem s) (1 - p) es" "ee_map es = transferred tab ep va d"
  | (new) es where "ready (mem s) (1 - p) es" "ee_map es = transferred tab ep va d"
    unfolding interrupted_def by blast
  then show ?thesis
proof cases
  case e: (old ep')
  then have "ee_map ep' \<in> {ee_map ep, (ee_map ep)(va \<mapsto> d)}"
    using ee_map_snoc [OF assms(3)] by auto
  then show ?thesis
    using init_ready [OF e(2) assms(2), of tab] by blast
next
  case es: (unmarked es)
  then show ?thesis
    using init_unmarked [OF es(1) assms(2), of tab] by (metis insertCI)
next
  case es: (new es)
  then show ?thesis
    using init_ready [OF es(1) assms(2), of tab] by (metis insertCI)
next
  case (copying es)
  note rc = copying(1) and len = copying(2) and le = copying(3) and shape = copying(4)
  have room: "length es + length tab \<le> 4095" using len assms(5) by simp
  show ?thesis
  proof (cases "es \<noteq> [] \<and> hd es = (d, va)")
    case True
    have "\<forall>v \<in> set tab. v \<noteq> ERASED \<and> (transferred tab ep va d v = ee_map ep v \<or> es \<noteq> [] \<and> v = snd (hd es))"
      using True assms(4) by (auto simp: transferred_def)
    then obtain zs where z: "fst (EE_Init tab s) = FLASH_COMPLETE" "good (snd (EE_Init tab s))"
        "ready (mem (snd (EE_Init tab s))) (1 - p) (es @ zs)" "ee_map (es @ zs) \<subseteq>\<^sub>m transferred tab ep va d"
        "\<forall>v \<in> set tab. ee_map (es @ zs) v = transferred tab ep va d v"
      using init_receiving [OF rc assms(2) le _ room] by blast
    have "ee_map (es @ zs) va \<noteq> None"
      using True ee_map_hd [of es] assms(3) ee_map_append_dom [of es va zs] by simp
    then have "ee_map (es @ zs) va = transferred tab ep va d va"
      using z(4) by (auto simp: map_le_def dom_def)
    then have "ee_map (es @ zs) va = Some d"
      by (simp add: transferred_def)
    then have "ee_map (es @ zs) = transferred tab ep va d"
      using z(4,5) by (intro transferred_complete)
    then show ?thesis
      using z by (metis insertCI)
  next
    case False
    then have es: "es = [] \<or> es = [(d, ERASED)]" using shape by blast
    then have emp: "ee_map es = Map.empty" using ee_map_torn [of "[]" d] by auto
    let ?g = "ee_map ep |` set tab"
    have "\<forall>v \<in> set tab. v \<noteq> ERASED \<and> (?g v = ee_map ep v \<or> es \<noteq> [] \<and> v = snd (hd es))"
      using assms(4) by simp
    then obtain zs where z: "fst (EE_Init tab s) = FLASH_COMPLETE" "good (snd (EE_Init tab s))"
        "ready (mem (snd (EE_Init tab s))) (1 - p) (es @ zs)" "ee_map (es @ zs) \<subseteq>\<^sub>m ?g"
        "\<forall>v \<in> set tab. ee_map (es @ zs) v = ?g v"
      using init_receiving [OF rc assms(2) _ _ room, of ?g] emp by auto
    have "ee_map (es @ zs) = ?g"
    proof (rule ext)
      fix v show "ee_map (es @ zs) v = ?g v"
      proof (cases "v \<in> set tab")
        case False
        then have "?g v = None" by simp
        then show ?thesis using z(4) by (cases "ee_map (es @ zs) v") (auto simp: map_le_iff)
      qed (use z(5) in simp)
    qed
    then show ?thesis
      using z by (metis insertCI)
  qed
qed
qed

end
