(* ===== verification/Eeprom_Store.thy ===== *)
theory Eeprom_Store
  imports Eeprom
begin

text \<open>
  What the EEPROM emulation promises its callers: the two pages are a map from virtual addresses
  to values. The contract is the locale \<open>var_store\<close>, which the configuration store uses; it is
  interpreted here on the code's own functions. The properties below state the contract, what a
  loss of power does to it, and which addresses the code can touch at all.
\<close>

section \<open>The contract of a variable store\<close>

locale var_store =
  fixes rd :: "'s \<Rightarrow> u16 \<Rightarrow> u16 option"
    and wr :: "u16 \<Rightarrow> u16 \<Rightarrow> 's \<Rightarrow> status \<times> 's"
    and ok :: "'s \<Rightarrow> bool"
    and keys :: "u16 set"
  assumes wr_complete: "ok s \<Longrightarrow> va \<in> keys \<Longrightarrow> fst (wr va d s) = FLASH_COMPLETE"
    and wr_ok: "ok s \<Longrightarrow> va \<in> keys \<Longrightarrow> ok (snd (wr va d s))"
    and wr_rd: "ok s \<Longrightarrow> va \<in> keys \<Longrightarrow> rd (snd (wr va d s)) = (rd s)(va \<mapsto> d)"

text \<open>The loop every caller has: write values to consecutive addresses until one fails.\<close>

fun write_vars :: "(u16 \<Rightarrow> u16 \<Rightarrow> 's \<Rightarrow> status \<times> 's) \<Rightarrow> u16 \<Rightarrow> u16 list \<Rightarrow> 's \<Rightarrow> bool \<times> 's" where
  "write_vars wr a [] s = (True, s)"
| "write_vars wr a (d # ds) s =
     (let (st, s1) = wr a d s in
      if st \<noteq> FLASH_COMPLETE then (False, s1) else write_vars wr (a + 1) ds s1)"

definition block :: "u16 \<Rightarrow> nat \<Rightarrow> u16 set" where
  "block a n = {a + word_of_nat i | i. i < n}"

lemma block_Suc: "block a (Suc n) = insert a (block (a + 1) n)"
proof -
  have "{a + word_of_nat i |i. i < Suc n} = (\<lambda>i. a + word_of_nat i) ` {..< Suc n}" by auto
  also have "\<dots> = insert a ((\<lambda>i. a + 1 + word_of_nat i) ` {..< n})"
    by (simp only: lessThan_Suc_eq_insert_0 image_insert image_image) (simp add: algebra_simps)
  finally show ?thesis by (auto simp: block_def)
qed

lemma block_0 [simp]: "block a 0 = {}"
  by (simp add: block_def)

text \<open>The map a block of values stands for.\<close>

fun block_map :: "u16 \<Rightarrow> u16 list \<Rightarrow> u16 \<Rightarrow> u16 option" where
  "block_map a [] = Map.empty"
| "block_map a (d # ds) = [a \<mapsto> d] ++ block_map (a + 1) ds"

context var_store
begin

lemma write_vars_spec:
  assumes "ok s" and "block a (length ds) \<subseteq> keys"
  shows "fst (write_vars wr a ds s) \<and> ok (snd (write_vars wr a ds s)) \<and>
    rd (snd (write_vars wr a ds s)) = rd s ++ block_map a ds"
  using assms
proof (induction ds arbitrary: a s)
  case (Cons d ds)
  then have a: "a \<in> keys" "block (a + 1) (length ds) \<subseteq> keys"
    by (simp_all add: block_Suc)
  note w = wr_complete [OF Cons.prems(1) a(1), of d] wr_ok [OF Cons.prems(1) a(1), of d]
    wr_rd [OF Cons.prems(1) a(1), of d]
  show ?case
    using Cons.IH [OF w(2) a(2)] w by (simp add: case_prod_beta Let_def del: fun_upd_apply)
qed simp

end

section \<open>The EEPROM as a variable store\<close>

text \<open>What \<open>EE_ReadVariable\<close> finds under an address; 0xFFFF is not usable as an address.\<close>

definition ee_store :: "(nat \<Rightarrow> u8) \<Rightarrow> u16 \<Rightarrow> u16 option" where
  "ee_store m va =
     (let (st, d) = EE_ReadVariable va 0 m in if va \<noteq> ERASED \<and> st = 0 then Some d else None)"

text \<open>The table is usable: no entry is 0xFFFF and a page has room to resume a transfer.\<close>

definition good_tab :: "u16 list \<Rightarrow> bool" where
  "good_tab tab = (list_all (\<lambda>v. v \<noteq> ERASED) tab \<and> 2 * length tab + 1 \<le> 4095)"

text \<open>At rest with all variables known to the table.\<close>

definition at_rest :: "u16 list \<Rightarrow> (nat \<Rightarrow> u8) \<Rightarrow> bool" where
  "at_rest tab m = (\<exists>p ep. ready m p ep \<and> dom (ee_map ep) \<subseteq> set tab)"

lemma ee_store_ready: "ready m p ep \<Longrightarrow> ee_store m = ee_map ep"
proof (rule ext)
  fix va assume "ready m p ep"
  then have "pg m p VALID_PAGE ep" "pg m (1 - p) ERASED []" "p \<le> 1" by (simp_all add: ready_def)
  from read_variable [OF this(1,2,3), of va 0] show "ee_store m va = ee_map ep va"
    by (cases "va = ERASED") (auto simp: ee_store_def split: option.splits)
qed

lemma good_tabD: "good_tab tab \<Longrightarrow> v \<in> set tab \<Longrightarrow> v \<noteq> ERASED" "good_tab tab \<Longrightarrow> length tab < 4095"
    "good_tab tab \<Longrightarrow> 2 * length tab + 1 \<le> 4095"
  by (auto simp: good_tab_def list_all_iff)

lemma restrict_dom: "dom f \<subseteq> A \<Longrightarrow> f |` A = f"
  by (rule ext) (metis domIff restrict_map_def subsetD)

lemma dom_upd_sub: "dom f \<subseteq> A \<Longrightarrow> va \<in> A \<Longrightarrow> dom (f(va \<mapsto> d)) \<subseteq> A"
  by auto

lemma at_restE:
  assumes "at_rest tab m"
  obtains p ep where "ready m p ep" "dom (ee_map ep) \<subseteq> set tab" "ee_store m = ee_map ep"
  using assms ee_store_ready unfolding at_rest_def by blast

text \<open>A write on flash that works, in whatever state the pages are, full page included.\<close>

lemma write_store:
  assumes "good s" and "at_rest tab (mem s)" and "good_tab tab" and "va \<in> set tab"
  shows "fst (EE_WriteVariable tab va d s) = FLASH_COMPLETE" and "good (snd (EE_WriteVariable tab va d s))"
    and "at_rest tab (mem (snd (EE_WriteVariable tab va d s)))"
    and "ee_store (mem (snd (EE_WriteVariable tab va d s))) = (ee_store (mem s))(va \<mapsto> d)"
proof -
  obtain p ep where r: "ready (mem s) p ep" "dom (ee_map ep) \<subseteq> set tab" "ee_store (mem s) = ee_map ep"
    using assms(2) by (rule at_restE)
  have v: "va \<noteq> ERASED" "\<forall>v \<in> set tab. v \<noteq> ERASED" "length tab < 4095"
    using good_tabD [OF assms(3)] assms(4) by auto
  note w = write_variable [OF r(1) v refl, of d]
  then show c: "fst (EE_WriteVariable tab va d s) = FLASH_COMPLETE" "good (snd (EE_WriteVariable tab va d s))"
    using assms(1) by blast+
  have t: "transferred tab ep va d = (ee_map ep)(va \<mapsto> d)"
    by (simp add: transferred_def restrict_dom [OF r(2)])
  obtain q es where q: "ready (mem (snd (EE_WriteVariable tab va d s))) q es" "ee_map es = (ee_map ep)(va \<mapsto> d)"
    using w c(1) unfolding t by blast
  show "at_rest tab (mem (snd (EE_WriteVariable tab va d s)))"
    using q assms(4) r(2) unfolding at_rest_def by (metis dom_fun_upd insert_subset option.distinct(1))
  show "ee_store (mem (snd (EE_WriteVariable tab va d s))) = (ee_store (mem s))(va \<mapsto> d)"
    by (simp add: ee_store_ready [OF q(1)] q(2) r(3))
qed

interpretation eeprom: var_store "\<lambda>s. ee_store (mem s)" "EE_WriteVariable tab"
  "\<lambda>s :: 'a ee_scheme. good s \<and> at_rest tab (mem s) \<and> good_tab tab" "set tab" for tab
  by unfold_locales (simp_all add: write_store)

text \<open>Formatting a blank chip gives the empty store.\<close>

lemma blank_pg: "(\<And>a. m a = 0xFF) \<Longrightarrow> pg m p ERASED []"
  by (simp add: pg_def slot_def rd16_all_ones blank_def)

lemma init_formats:
  assumes "good s" and "EE_Init tab s = EE_Format s"
  shows "fst (EE_Init tab s) = FLASH_COMPLETE \<and> good (snd (EE_Init tab s)) \<and> ready (mem (snd (EE_Init tab s))) 0 []"
proof -
  define r1 where "r1 = EE_EraseSectorIfNotEmpty (page_id 0) s"
  note e1 = erase_page [OF _ r1_def]
  have c1: "fst r1 = FLASH_COMPLETE" "good (snd r1)" "pg (mem (snd r1)) 0 ERASED []"
    using e1(2,4) assms(1) by simp_all
  define r2 where "r2 = FLASH_ProgramHalfWord (page_base 0) VALID_PAGE (snd r1)"
  note s2 = program_status [OF c1(3) _ r2_def]
  have c2: "fst r2 = FLASH_COMPLETE" "good (snd r2)" "pg (mem (snd r2)) 0 VALID_PAGE []"
    using s2(2,4) c1 by simp_all
  define r3 where "r3 = EE_EraseSectorIfNotEmpty (page_id 1) (snd r2)"
  note e3 = erase_page [OF _ r3_def]
  have "EE_Init tab s = r3"
    using c1(1) c2(1) by (simp add: assms(2) EE_Format_def r1_def [symmetric] r2_def [symmetric] r3_def [symmetric]
        case_prod_beta page_id_def page_bases [symmetric] r1_def r2_def r3_def)
  then show ?thesis
    using e3(2,4,5) c2 by (simp add: ready_def)
qed

lemma init_blank:
  assumes "good s" and "\<And>a. mem s a = 0xFF"
  shows "fst (EE_Init tab s) = FLASH_COMPLETE \<and> good (snd (EE_Init tab s)) \<and> ready (mem (snd (EE_Init tab s))) 0 []"
proof (rule init_formats [OF assms(1)])
  have "rd16 (mem s) a = ERASED" for a by (simp add: rd16_all_ones assms(2))
  then show "EE_Init tab s = EE_Format s" by (simp add: EE_Init_def)
qed

section \<open>Interrupted writes and restarts\<close>

text \<open>A start-up with flash that works, after a write that ended anywhere.\<close>

lemma recover:
  assumes "at_rest tab (mem s)" and "good_tab tab" and "va \<in> set tab"
    and "good s'" and "mem s' = mem (snd (EE_WriteVariable tab va d s))"
  shows "fst (EE_Init tab s') = FLASH_COMPLETE \<and> at_rest tab (mem (snd (EE_Init tab s'))) \<and>
    ee_store (mem (snd (EE_Init tab s'))) \<in> {ee_store (mem s), (ee_store (mem s))(va \<mapsto> d)}"
proof -
  obtain p ep where r: "ready (mem s) p ep" "dom (ee_map ep) \<subseteq> set tab" "ee_store (mem s) = ee_map ep"
    using assms(1) by (rule at_restE)
  have v: "va \<noteq> ERASED" "\<forall>v \<in> set tab. v \<noteq> ERASED" "length tab < 4095" "2 * length tab + 1 \<le> 4095"
    using good_tabD [OF assms(2)] assms(3) by auto
  have t: "transferred tab ep va d = (ee_map ep)(va \<mapsto> d)" "ee_map ep |` set tab = ee_map ep"
    by (simp_all add: transferred_def restrict_dom [OF r(2)])
  have "interrupted tab (mem s') p ep va d"
    using write_variable [OF r(1) v(1-3) refl, of d] by (simp add: assms(5))
  from init_recovers [OF this assms(4) v(1,2,4)] obtain q es where
    q: "fst (EE_Init tab s') = FLASH_COMPLETE" "ready (mem (snd (EE_Init tab s'))) q es"
      "ee_map es \<in> {ee_map ep, (ee_map ep)(va \<mapsto> d)}"
    unfolding t by blast
  have "dom (ee_map es) \<subseteq> set tab"
    using q(3) r(2) dom_upd_sub [OF r(2) assms(3), of d]
    by (cases "ee_map es = ee_map ep") (simp_all del: fun_upd_apply)
  then show ?thesis
    using q r(3) ee_store_ready [OF q(2)] unfolding at_rest_def by auto
qed

text \<open>The life of the two pages: writes that complete, and writes cut off or failing after
  which the device starts again. The list records the writes and whether they completed.\<close>

inductive life :: "u16 list \<Rightarrow> (nat \<Rightarrow> u8) \<Rightarrow> (u16 \<times> u16 \<times> bool) list \<Rightarrow> (nat \<Rightarrow> u8) \<Rightarrow> bool"
  for tab :: "u16 list" and m0 :: "nat \<Rightarrow> u8" where
  life_start: "life tab m0 [] m0"
| life_write: "life tab m0 h m \<Longrightarrow> mem (s :: ee) = m \<Longrightarrow> va \<in> set tab \<Longrightarrow>
    EE_WriteVariable tab va d s = (FLASH_COMPLETE, s') \<Longrightarrow> life tab m0 (h @ [(va, d, True)]) (mem s')"
| life_cut: "life tab m0 h m \<Longrightarrow> mem (s :: ee) = m \<Longrightarrow> va \<in> set tab \<Longrightarrow> EE_WriteVariable tab va d s = (st, s') \<Longrightarrow>
    mem s'' = mem s' \<Longrightarrow> good (s'' :: ee) \<Longrightarrow> life tab m0 (h @ [(va, d, False)]) (mem (snd (EE_Init tab s'')))"

text \<open>The values a variable may have after a history: a completed write decides it, one that
  did not complete leaves the choice between the old value and the new one.\<close>

fun after_writes :: "u16 option set \<Rightarrow> u16 \<Rightarrow> (u16 \<times> u16 \<times> bool) list \<Rightarrow> u16 option set" where
  "after_writes S v [] = S"
| "after_writes S v ((va, d, done) # h) =
     after_writes (if v = va then (if done then {Some d} else insert (Some d) S) else S) v h"

lemma after_writes_snoc: "after_writes S v (h @ [(va, d, done)]) =
    (let T = after_writes S v h in if v = va then (if done then {Some d} else insert (Some d) T) else T)"
  by (induction S v h rule: after_writes.induct) (auto simp: Let_def)

lemma completed_write:
  assumes "at_rest tab (mem s)" and "good_tab tab" and "va \<in> set tab"
    and "EE_WriteVariable tab va d s = (FLASH_COMPLETE, s')"
  shows "at_rest tab (mem s') \<and> ee_store (mem s') = (ee_store (mem s))(va \<mapsto> d)"
proof -
  obtain p ep where r: "ready (mem s) p ep" "dom (ee_map ep) \<subseteq> set tab" "ee_store (mem s) = ee_map ep"
    using assms(1) by (rule at_restE)
  have v: "va \<noteq> ERASED" "\<forall>v \<in> set tab. v \<noteq> ERASED" "length tab < 4095"
    using good_tabD [OF assms(2)] assms(3) by auto
  have t: "transferred tab ep va d = (ee_map ep)(va \<mapsto> d)"
    by (simp add: transferred_def restrict_dom [OF r(2)])
  from write_variable [OF r(1) v refl, of d] obtain q es where
    q: "ready (mem s') q es" "ee_map es = (ee_map ep)(va \<mapsto> d)"
    unfolding t assms(4) by auto
  then have "dom (ee_map es) \<subseteq> set tab"
    using dom_upd_sub [OF r(2) assms(3), of d] by (simp del: fun_upd_apply)
  then have "at_rest tab (mem s')" using q(1) unfolding at_rest_def by blast
  then show ?thesis
    using q(2) ee_store_ready [OF q(1)] r(3) by (simp del: fun_upd_apply)
qed

lemma life_at_rest:
  assumes "life tab m0 h m" and "at_rest tab m0" and "good_tab tab"
  shows "at_rest tab m \<and> (\<forall>v. ee_store m v \<in> after_writes {ee_store m0 v} v h)"
  using assms
proof (induction rule: life.induct)
  case life_start
  then show ?case by simp
next
  case (life_write h m s va d s')
  then show ?case
    using completed_write [of tab s va d s'] by (auto simp: after_writes_snoc Let_def)
next
  case (life_cut h m s va d st s' s'')
  then have "at_rest tab (mem (snd (EE_Init tab s'')))" and
    e: "ee_store (mem (snd (EE_Init tab s''))) \<in> {ee_store m, (ee_store m)(va \<mapsto> d)}"
    using recover [of tab s va s'' d] by auto
  moreover have "ee_store (mem (snd (EE_Init tab s''))) v \<in> after_writes {ee_store m0 v} v (h @ [(va, d, False)])" for v
    using e life_cut by (auto simp: after_writes_snoc Let_def)
  ultimately show ?case by blast
qed

section \<open>Which addresses the emulation can change\<close>

definition confined :: "(nat \<Rightarrow> u8) \<Rightarrow> (nat \<Rightarrow> u8) \<Rightarrow> bool" where
  "confined m m' = (\<forall>a. a < 0x08004000 \<or> 0x0800C000 \<le> a \<longrightarrow> m' a = m a)"

lemma confined_refl [simp]: "confined m m"
  by (simp add: confined_def)

lemma confined_trans: "confined m m' \<Longrightarrow> confined m' m'' \<Longrightarrow> confined m m''"
  by (simp add: confined_def)

lemma confined_prog:
  assumes "0x08004000 \<le> a" and "a + 1 < 0x0800C000"
  shows "confined (mem s) (mem (snd (FLASH_ProgramHalfWord a v s)))"
  using flash_op_mem [of "prog16 a v" s] assms
  by (auto simp: FLASH_ProgramHalfWord_def confined_def prog16_def prog8_def)

lemma confined_erase: "p \<le> 1 \<Longrightarrow> confined (mem s) (mem (snd (EE_EraseSectorIfNotEmpty (page_id p) s)))"
  using ee_erase(2) [of p s] by (cases p) (auto simp: confined_def erase_range_def page_base_def ee_consts)

lemma find_free_range: "ee_find_free a e m = Some b \<Longrightarrow> \<exists>k. b = a + 4 * k \<and> b < e"
proof (induction a e m rule: ee_find_free.induct)
  case (1 a e m)
  show ?case
  proof (cases "a < e \<and> rd32 m a \<noteq> 0xFFFFFFFF")
    case True
    then obtain k where "b = a + 4 + 4 * k" "b < e"
      using 1 by (auto simp: ee_find_free.simps [of a])
    then show ?thesis by (intro exI [of _ "k + 1"]) simp
  qed (use 1 in \<open>auto simp: ee_find_free.simps [of a] split: if_splits\<close>)
qed

lemma slot_room: "4 * (k :: nat) < 0x3FFE \<Longrightarrow> 4 * k + 3 < 0x4000"
  by presburger

lemma find_valid_range: "EE_FindValidPage op m \<noteq> NO_VALID_PAGE \<Longrightarrow> EE_FindValidPage op m \<in> {0, 1}"
  by (auto simp: EE_FindValidPage_def Let_def split: ee_operation.splits if_splits)

lemma confined_write: "confined (mem s) (mem (snd (EE_VerifyPageFullWriteVariable va d s)))"
proof (cases "EE_FindValidPage WRITE_IN_VALID_PAGE (mem s) = NO_VALID_PAGE")
  case False
  let ?v = "EE_FindValidPage WRITE_IN_VALID_PAGE (mem s)"
  have v: "unat ?v \<le> 1" using find_valid_range [OF False] by auto
  show ?thesis
  proof (cases "ee_find_free (EEPROM_START_ADDRESS + unat ?v * PAGE_SIZE)
      (EEPROM_START_ADDRESS - 2 + (1 + unat ?v) * PAGE_SIZE) (mem s)")
    case None
    then show ?thesis using False by (simp add: EE_VerifyPageFullWriteVariable_def Let_def)
  next
    case (Some a)
    let ?s = "snd (FLASH_ProgramHalfWord a d s)"
    from v have "unat ?v = 0 \<or> unat ?v = 1" by linarith
    then have b: "0x08004000 \<le> a" "a + 3 < 0x0800C000"
      using find_free_range [OF Some] slot_room by (elim disjE exE; force simp: ee_consts)+
    then have "confined (mem s) (mem ?s)" "confined (mem ?s) (mem (snd (FLASH_ProgramHalfWord (a + 2) va ?s)))"
      using b by (intro confined_prog; simp)+
    then show ?thesis
      using False Some confined_trans by (auto simp: EE_VerifyPageFullWriteVariable_def Let_def case_prod_beta)
  qed
qed (simp add: EE_VerifyPageFullWriteVariable_def)

lemma confined_copy: "confined (mem s) (mem (snd (ee_copy v s)))"
  using confined_write [of "s\<lparr>DataVar := snd (EE_ReadVariable v (DataVar s) (mem s))\<rparr>"]
  by (auto simp: ee_copy_def Let_def case_prod_beta)

lemma confined_transfer_loop: "confined (mem s) (mem (snd (ee_transfer_loop tab va s)))"
  by (induction tab arbitrary: s) (auto simp: Let_def case_prod_beta intro: confined_copy confined_trans [OF confined_copy])

lemma confined_init_loop: "confined (mem s) (mem (snd (ee_init_loop base tab i x s)))"
  by (induction tab arbitrary: i x s) (auto simp: Let_def case_prod_beta intro: confined_copy confined_trans [OF confined_copy])

lemma confined_half: "p \<le> 1 \<Longrightarrow> confined (mem s) (mem (snd (FLASH_ProgramHalfWord (page_base p) v s)))"
  by (rule confined_prog) (cases p; simp add: page_base_def ee_consts)+

text \<open>Each operation as the last step of a sequence.\<close>

lemmas confined_snoc = confined_trans [OF _ confined_erase] confined_trans [OF _ confined_half]
  confined_trans [OF _ confined_write] confined_trans [OF _ confined_transfer_loop]
  confined_trans [OF _ confined_init_loop]

lemma page_ids: "PAGE0_ID = page_id 0" "PAGE1_ID = page_id 1"
  by (simp_all add: page_id_def)

lemma confined_page_transfer: "confined (mem s) (mem (snd (EE_PageTransfer tab va d s)))"
  unfolding EE_PageTransfer_def page_ids page_bases(1,3) [symmetric]
  by (auto simp: Let_def case_prod_beta intro!: confined_snoc)

lemma confined_write_variable: "confined (mem s) (mem (snd (EE_WriteVariable tab va d s)))"
  by (auto simp: EE_WriteVariable_def Let_def case_prod_beta
      intro!: confined_trans [OF _ confined_page_transfer] confined_snoc)

lemma confined_format: "confined (mem s) (mem (snd (EE_Format s)))"
  unfolding EE_Format_def page_ids page_bases(1,3) [symmetric]
  by (auto simp: Let_def case_prod_beta intro!: confined_snoc)

lemma confined_resume: "p \<le> 1 \<Longrightarrow> q \<le> 1 \<Longrightarrow> confined (mem s) (mem (snd (ee_init_resume tab (page_base p) (page_id q) s)))"
  by (auto simp: ee_init_resume_def Let_def case_prod_beta intro!: confined_snoc)

lemma confined_finish: "p \<le> 1 \<Longrightarrow> q \<le> 1 \<Longrightarrow> confined (mem s) (mem (snd (ee_init_finish (page_base p) (page_id q) s)))"
  by (auto simp: ee_init_finish_def Let_def case_prod_beta intro!: confined_snoc)

lemma confined_init: "confined (mem s) (mem (snd (EE_Init tab s)))"
  unfolding EE_Init_def page_ids page_bases(1,3) [symmetric]
  by (auto simp: Let_def intro: confined_erase confined_format confined_resume confined_finish)

section \<open>What a start-up establishes on any memory\<close>

text \<open>Page \<open>p\<close> is marked valid and the other one reads 0xFF everywhere.\<close>

definition one_valid :: "(nat \<Rightarrow> u8) \<Rightarrow> nat \<Rightarrow> bool" where
  "one_valid m p = (p \<le> 1 \<and> rd16 m (page_base p) = VALID_PAGE \<and> (\<forall>i < 0x4000. m (page_base (1 - p) + i) = 0xFF))"

lemma erase_other:
  assumes "p \<le> 1" and r: "r = EE_EraseSectorIfNotEmpty (page_id (1 - p)) s" and "fst r = FLASH_COMPLETE"
  shows "\<forall>i < 0x4000. mem (snd r) (page_base (1 - p) + i) = 0xFF"
    and "rd16 (mem (snd r)) (page_base p) = rd16 (mem s) (page_base p)"
proof -
  note e = ee_erase [OF other_le [of p], of s]
  show "\<forall>i < 0x4000. mem (snd r) (page_base (1 - p) + i) = 0xFF"
    using pg_blank_bytes [OF e(1)] assms(3) by (simp add: r)
  have "erase_range (page_base (1 - p)) (page_base (1 - p) + 0x4000) m (page_base p + i) = m (page_base p + i)"
    if "i < 0x4000" for m i
    using page_disjoint [OF other_page(1) [OF assms(1)] assms(1) other_le] that by (auto simp: erase_range_def)
  from this [of 0] this [of 1] show "rd16 (mem (snd r)) (page_base p) = rd16 (mem s) (page_base p)"
    using e(2) by (auto simp: r rd16_eq_iff)
qed

lemma mark_valid:
  assumes "p \<le> 1" and r: "r = FLASH_ProgramHalfWord (page_base p) VALID_PAGE s" and "fst r = FLASH_COMPLETE"
  shows "rd16 (mem (snd r)) (page_base p) = VALID_PAGE"
    and "i < 0x4000 \<Longrightarrow> mem (snd r) (page_base (1 - p) + i) = mem s (page_base (1 - p) + i)"
proof -
  have m: "mem (snd r) = prog16 (page_base p) VALID_PAGE (mem s)"
    by (rule prog_half_cases [of "page_base p" VALID_PAGE s]) (use assms(3) in \<open>simp_all add: r\<close>)
  show "rd16 (mem (snd r)) (page_base p) = VALID_PAGE"
    by (simp add: m rd16_prog16_same)
  show "mem (snd r) (page_base (1 - p) + i) = mem s (page_base (1 - p) + i)" if "i < 0x4000"
    using page_disjoint [OF other_page(1) [OF assms(1)] assms(1) other_le] that by (auto simp: m prog16_def)
qed

lemma finish_one_valid:
  assumes "p \<le> 1" and "fst (ee_init_finish (page_base p) (page_id (1 - p)) s) = FLASH_COMPLETE"
  shows "one_valid (mem (snd (ee_init_finish (page_base p) (page_id (1 - p)) s))) p"
proof -
  define r1 where "r1 = EE_EraseSectorIfNotEmpty (page_id (1 - p)) s"
  define r2 where "r2 = FLASH_ProgramHalfWord (page_base p) VALID_PAGE (snd r1)"
  have "ee_init_finish (page_base p) (page_id (1 - p)) s = (if fst r1 \<noteq> FLASH_COMPLETE then r1 else r2)"
    by (simp add: ee_init_finish_def r1_def r2_def Let_def case_prod_beta)
  then show ?thesis
    using assms erase_other [OF assms(1) r1_def] mark_valid [OF assms(1) r2_def]
    by (auto simp: one_valid_def split: if_splits)
qed

lemma erase_one_valid:
  "p \<le> 1 \<Longrightarrow> r = EE_EraseSectorIfNotEmpty (page_id (1 - p)) s \<Longrightarrow> rd16 (mem s) (page_base p) = VALID_PAGE \<Longrightarrow>
    fst r = FLASH_COMPLETE \<Longrightarrow> one_valid (mem (snd r)) p"
  using erase_other [of p r s] by (simp add: one_valid_def)

lemma resume_one_valid:
  assumes "p \<le> 1" and "fst (ee_init_resume tab (page_base p) (page_id (1 - p)) s) = FLASH_COMPLETE"
  shows "one_valid (mem (snd (ee_init_resume tab (page_base p) (page_id (1 - p)) s))) p"
proof -
  define r1 where "r1 = ee_init_loop (page_base p) tab 0 (- 1) s"
  define r2 where "r2 = FLASH_ProgramHalfWord (page_base p) VALID_PAGE (snd r1)"
  define r3 where "r3 = EE_EraseSectorIfNotEmpty (page_id (1 - p)) (snd r2)"
  have "ee_init_resume tab (page_base p) (page_id (1 - p)) s =
      (if fst r1 \<noteq> FLASH_COMPLETE then r1 else if fst r2 \<noteq> FLASH_COMPLETE then r2 else r3)"
    by (simp add: ee_init_resume_def r1_def r2_def r3_def Let_def case_prod_beta)
  then show ?thesis
    using assms mark_valid(1) [OF assms(1) r2_def] erase_one_valid [OF assms(1) r3_def]
    by (auto split: if_splits)
qed

lemma format_one_valid:
  assumes "fst (EE_Format s) = FLASH_COMPLETE"
  shows "one_valid (mem (snd (EE_Format s))) 0"
proof -
  define r1 where "r1 = EE_EraseSectorIfNotEmpty (page_id 0) s"
  define r2 where "r2 = FLASH_ProgramHalfWord (page_base 0) VALID_PAGE (snd r1)"
  define r3 where "r3 = EE_EraseSectorIfNotEmpty (page_id (1 - 0)) (snd r2)"
  have "EE_Format s = (if fst r1 \<noteq> FLASH_COMPLETE then r1 else if fst r2 \<noteq> FLASH_COMPLETE then r2 else r3)"
    by (simp add: EE_Format_def r1_def r2_def r3_def Let_def case_prod_beta page_ids page_bases)
  then show ?thesis
    using assms mark_valid(1) [OF _ r2_def] erase_one_valid [OF _ r3_def] by (auto split: if_splits)
qed

lemma init_one_valid:
  assumes "fst (EE_Init tab s) = FLASH_COMPLETE"
  shows "\<exists>p. one_valid (mem (snd (EE_Init tab s))) p"
proof -
  note A = format_one_valid [of s] finish_one_valid [of 0 s] finish_one_valid [of 1 s]
    resume_one_valid [of 0 tab s] resume_one_valid [of 1 tab s] erase_one_valid [of 0, OF _ refl, of s]
    erase_one_valid [of 1, OF _ refl, of s]
  show ?thesis
    using assms A unfolding EE_Init_def page_ids page_bases(1,3) [symmetric] Let_def by (auto split: if_splits)
qed

section \<open>Power loss while a start-up finishes a transfer\<close>

lemma both_valid_formats:
  assumes "good s" and "rd16 (mem s) (page_base 0) = VALID_PAGE" and "rd16 (mem s) (page_base 1) = VALID_PAGE"
  shows "fst (EE_Init tab s) = FLASH_COMPLETE \<and> ee_store (mem (snd (EE_Init tab s))) = Map.empty"
proof -
  have "EE_Init tab s = EE_Format s"
    using assms(2,3) by (simp add: EE_Init_def page_bases)
  note i = init_formats [OF assms(1) this]
  then have "ee_store (mem (snd (EE_Init tab s))) = ee_map []" by (intro ee_store_ready) blast
  with i show ?thesis by simp
qed

text \<open>An erase that is torn by a loss of power is outside the model of the flash: it may leave any content. What the start-up
  makes of it can be said all the same. During a transfer the old page is erased when the received one, still marked
  as receiving, already holds every variable; if the torn erase leaves a status of the old page that
  is none of the three, the start-up formats the EEPROM instead of finishing the transfer.\<close>

lemma torn_erase_loses_all:
  assumes "good s" and "p \<le> 1" and "rd16 (mem s) (page_base (1 - p)) = RECEIVE_DATA"
    and "rd16 (mem s) (page_base p) \<notin> {ERASED, RECEIVE_DATA, VALID_PAGE}"
  shows "fst (EE_Init tab s) = FLASH_COMPLETE \<and> ee_store (mem (snd (EE_Init tab s))) = Map.empty"
proof -
  have "p = 0 \<or> p = 1" using assms(2) by auto
  then have "EE_Init tab s = EE_Format s"
    using assms(3,4) by (auto simp: EE_Init_def page_bases)
  note i = init_formats [OF assms(1) this]
  then have "ee_store (mem (snd (EE_Init tab s))) = ee_map []" by (intro ee_store_ready) blast
  with i show ?thesis by simp
qed

lemma receiving_store:
  assumes "receiving m p ep es"
  shows "ee_store m = ee_map ep"
proof (rule ext)
  fix va
  have "pg m p VALID_PAGE ep" "pg m (1 - p) RECEIVE_DATA es" "p \<le> 1" using assms by (simp_all add: receiving_def)
  from read_variable [OF this, of va 0] show "ee_store m va = ee_map ep va"
    by (cases "va = ERASED") (auto simp: ee_store_def split: option.splits)
qed

text \<open>The window: the received page is marked valid and the power goes before the other page
  is erased.\<close>

lemma init_cut:
  assumes "receiving (mem s) p ep [(d, va)]" and "va \<noteq> ERASED" and "script s = [Done, PowerCut]" and "\<not> flash_locked s"
  shows "rd16 (mem (snd (EE_Init [va] s))) (page_base 0) = VALID_PAGE \<and>
    rd16 (mem (snd (EE_Init [va] s))) (page_base 1) = VALID_PAGE"
proof -
  have p: "p \<le> 1" "pg (mem s) p VALID_PAGE ep" "pg (mem s) (1 - p) RECEIVE_DATA [(d, va)]"
    using assms(1) by (simp_all add: receiving_def)
  have "slot (mem s) (1 - p) 1 = (d, va)" using p(3) by (simp add: pg_def)
  then have "rd16 (mem s) (page_base (1 - p) + 6) = va" by (simp add: slot_def ac_simps)
  then have l: "ee_init_loop (page_base (1 - p)) [va] 0 (- 1) s = (FLASH_COMPLETE, s)" by simp
  define r2 where "r2 = FLASH_ProgramHalfWord (page_base (1 - p)) VALID_PAGE s"
  have r2: "fst r2 = FLASH_COMPLETE" "script (snd r2) = [PowerCut]"
    using assms(3,4) by (simp_all add: r2_def FLASH_ProgramHalfWord_def flash_op_def)
  note w = program_status [OF p(3) other_le r2_def]
  have m: "pg (mem (snd r2)) (1 - p) VALID_PAGE [(d, va)]" "pg (mem (snd r2)) p VALID_PAGE ep"
    using w(4) [OF r2(1)] w(5) p(1,2) other_page [OF p(1)] by simp_all
  have "mem (snd (EE_EraseSectorIfNotEmpty i (snd r2))) = mem (snd r2)" for i
    using r2(2) by (simp add: EE_EraseSectorIfNotEmpty_def FLASH_EraseSector_def flash_op_def Let_def)
  then have "mem (snd (EE_Init [va] s)) = mem (snd r2)"
    unfolding init_branches(2) [OF assms(1)]
    using l r2(1) by (simp add: ee_init_resume_def r2_def Let_def case_prod_beta del: ee_init_loop.simps)
  moreover have "p = 0 \<or> p = 1" using p(1) by linarith
  ultimately show ?thesis
    using pg_status [OF m(1)] pg_status [OF m(2)] by auto
qed

lemma ee_full_page_keeps_table:
  assumes "good s" and "ready (mem s) p ep" and "length ep = 4095" and "va \<noteq> ERASED" and "good_tab tab"
    and "ee_store (mem s) va \<noteq> Some d"
  shows "fst (EE_WriteVariable tab va d s) = FLASH_COMPLETE \<and>
    ee_store (mem (snd (EE_WriteVariable tab va d s))) = (ee_store (mem s) |` set tab)(va \<mapsto> d)"
proof -
  have p: "p \<le> 1" and P: "pg (mem s) p VALID_PAGE ep" and Q: "pg (mem s) (1 - p) ERASED []"
    using assms(2) by (simp_all add: ready_def)
  have n: "ee_map ep va \<noteq> Some d" using assms(6) ee_store_ready [OF assms(2)] by simp
  note e = write_entry(1) [OF P _ p assms(4) find_page(3) [OF P Q p refl] refl assms(3), of d, simplified]
  have w: "EE_WriteVariable tab va d s = EE_PageTransfer tab va d s"
    using read_variable [OF P Q p _ assms(4), of 0] n e
    by (auto simp: EE_WriteVariable_def Let_def split: option.splits)
  have "\<forall>v \<in> set tab. v \<noteq> ERASED" "length tab < 4095" using good_tabD [OF assms(5)] by auto
  from page_transfer [OF assms(2,4) this w] assms(1) obtain es where
    "fst (EE_WriteVariable tab va d s) = FLASH_COMPLETE"
    "ready (mem (snd (EE_WriteVariable tab va d s))) (1 - p) es" "ee_map es = transferred tab ep va d"
    by blast
  then show ?thesis
    using ee_store_ready [OF assms(2)] ee_store_ready [of _ "1 - p" es] by (simp add: transferred_def)
qed

section \<open>Properties\<close>

text \<open>The EEPROM is a map: on flash that works, from any state at rest, writing a block of
  values to consecutive variables of the table completes and the store that
  \<open>EE_ReadVariable\<close> shows afterwards is the old one updated with exactly these values, with any
  number of page swaps in between, and the emulation is at rest again.\<close>

theorem ee_write_block_refines:
  assumes "good s" and "at_rest tab (mem s)" and "good_tab tab" and "block a (length ds) \<subseteq> set tab"
  shows "let (done, s') = write_vars (EE_WriteVariable tab) a ds s in
    done \<and> good s' \<and> at_rest tab (mem s') \<and> ee_store (mem s') = ee_store (mem s) ++ block_map a ds"
  using eeprom.write_vars_spec [of s tab a ds] assms by (simp add: case_prod_beta)

definition ee_blank :: ee where
  "ee_blank = \<lparr>mem = (\<lambda>_. 0xFF), script = [], flash_locked = False, sys_lock_cnt = 0, sys_locked = False,
     init_done = True, iwdt = (4, 140), sampling_disabled = False, ignore_input = 0, motor_stops = True,
     motor_override_released = False, DataVar = 0\<rparr>"

lemma formatted: "good (snd (EE_Init tab ee_blank)) \<and> at_rest tab (mem (snd (EE_Init tab ee_blank))) \<and>
    ee_store (mem (snd (EE_Init tab ee_blank))) = Map.empty"
proof -
  have i: "good (snd (EE_Init tab ee_blank))" "ready (mem (snd (EE_Init tab ee_blank))) 0 []"
    using init_blank [of ee_blank tab] by (simp_all add: ee_blank_def good_def)
  then show ?thesis
    using ee_store_ready [OF i(2)] by (auto simp: at_rest_def intro!: exI [of _ 0] exI [of _ "[]"])
qed

theorem ee_write_block_refines_witness:
  "let s = snd (EE_Init [1000, 1001] ee_blank);
     (done, s') = write_vars (EE_WriteVariable [1000, 1001]) 1000 [7, 8] s in
   done \<and> ee_store (mem s') 1000 = Some 7 \<and> ee_store (mem s') 1001 = Some 8"
proof -
  have "block 1000 (length [7, 8 :: u16]) \<subseteq> set [1000, 1001]" by (simp add: block_Suc)
  moreover have "good_tab [1000, 1001]" by (simp add: good_tab_def ERASED_def)
  ultimately show ?thesis
    using ee_write_block_refines [of "snd (EE_Init [1000, 1001] ee_blank)" "[1000, 1001]" 1000 "[7, 8]"]
      formatted [of "[1000, 1001]"]
    by (simp add: case_prod_beta Let_def del: write_vars.simps)
qed

text \<open>C36. Power loss between flash operations: through any history of writes to variables of the table, each of which
  completes, or is cut off before any of its flash operations (also in the middle of a page transfer), or has
  operations that fail, and is then followed by a start-up that runs through on working flash, every variable keeps the value of its
  last completed write unless a write of the same variable was interrupted after it, which leaves the old or the
  new value, and the emulation is at rest each time. An erase and the programming of a half word are one step each: what
  a cut inside an erase does is said in \<open>torn_erase_loses_all\<close>, what one inside a start-up does in the property on \<open>EE_Init\<close>.\<close>

theorem ee_survives_power_loss:
  assumes "life tab m0 h m" and "at_rest tab m0" and "good_tab tab"
  shows "at_rest tab m \<and> (\<forall>v. ee_store m v \<in> after_writes {ee_store m0 v} v h)"
  using life_at_rest [OF assms] .

theorem ee_survives_power_loss_witness:
  "\<exists>m. life [1000] (mem (snd (EE_Init [1000] ee_blank))) [(1000, 7, False), (1000, 8, True)] m \<and>
     at_rest [1000] m \<and> ee_store m 1000 = Some 8"
proof -
  let ?s = "snd (EE_Init [1000] ee_blank)"
  let ?r = "EE_WriteVariable [1000] 1000 7 (?s\<lparr>script := [Done, PowerCut]\<rparr>)"
  let ?b = "(snd ?r)\<lparr>script := [], flash_locked := False\<rparr>"
  let ?i = "snd (EE_Init [1000] ?b)"
  let ?t = "?i\<lparr>script := [], flash_locked := False\<rparr>"
  let ?w = "EE_WriteVariable [1000] 1000 8 ?t"
  have tab: "good_tab [1000]" by (simp add: good_tab_def ERASED_def)
  have g: "good ?b" "good ?t" by (simp_all add: good_def)
  have 1: "life [1000] (mem ?s) ([] @ [(1000, 7, False)]) (mem ?i)"
    by (rule life_cut [OF life_start, where s = "?s\<lparr>script := [Done, PowerCut]\<rparr>" and d = 7 and st = "fst ?r"
          and s' = "snd ?r"]) (simp_all add: g)
  have "at_rest [1000] (mem ?i)"
    using recover [of "[1000]" "?s\<lparr>script := [Done, PowerCut]\<rparr>" 1000 ?b 7] formatted [of "[1000]"] tab g by simp
  then have c: "fst ?w = FLASH_COMPLETE"
    using write_store(1) [OF g(2) _ tab, of 1000 8] by simp
  have 2: "life [1000] (mem ?s) (([] @ [(1000, 7, False)]) @ [(1000, 8, True)]) (mem (snd ?w))"
    by (rule life_write [OF 1, of ?t]) (simp_all add: c prod_eq_iff)
  have "at_rest [1000] (mem (snd ?w)) \<and> ee_store (mem (snd ?w)) 1000 = Some 8"
    using ee_survives_power_loss [OF 2 _ tab] formatted [of "[1000]"] by (auto dest: spec [of _ 1000])
  then show ?thesis
    using 2 by auto
qed

text \<open>A page full of entries of the variable 0x0101, and nothing for the table \<open>[1000]\<close>.\<close>

definition full_page :: "nat \<Rightarrow> u8" where
  "full_page a = (if a = 0x08004000 \<or> a = 0x08004001 then 0
     else if 0x08004004 \<le> a \<and> a < 0x08008000 then 1 else 0xFF)"

lemma full_page_ready: "ready full_page 0 (replicate 4095 (0x0101, 0x0101))"
proof -
  have b: "rd16 m a = 0x0101" if "m a = 1" "m (a + 1) = 1" for m a
    using that by (simp add: rd16_def)
  have n: "k - Suc 0 < 4095" if "k \<le> 4095" for k using that by linarith
  have "slot full_page 0 k = (0x0101, 0x0101)" if "1 \<le> k" "k \<le> 4095" for k
    unfolding slot_def using that by (intro prod_eqI; simp; intro b) (simp_all add: full_page_def page_base_def ee_consts)
  moreover have "slot full_page 0 0 = (VALID_PAGE, ERASED)"
    by (simp add: slot_def rd16_def full_page_def page_base_def ee_consts VALID_PAGE_def ERASED_def)
  ultimately have "pg full_page 0 VALID_PAGE (replicate 4095 (0x0101, 0x0101))"
    unfolding pg_def by (auto simp: blank_def ERASED_def n)
  moreover have "slot full_page 1 k = blank" if "k \<le> 4095" for k
    using that by (simp add: slot_def rd16_all_ones blank_def full_page_def page_base_def ee_consts)
  then have "pg full_page 1 ERASED []" by (simp add: pg_def blank_def)
  ultimately show ?thesis by (simp add: ready_def)
qed

lemma full_page_map: "ee_map (replicate 4095 (0x0101, 0x0101)) v = (if v = 0x0101 then Some 0x0101 else None)"
proof -
  have "map_of (replicate n (0x0101, 0x0101)) v = (if v = 0x0101 \<and> 0 < n then Some (0x0101 :: u16) else None)"
    for v :: u16 and n
    by (induction n) auto
  then show ?thesis by (simp add: ee_map_def ERASED_def)
qed

text \<open>Which writes are safe from the page swap: a write that meets a full page keeps of the
  old variables exactly those in the table. All others are gone afterwards.\<close>

theorem ee_full_page_keeps_table_only:
  assumes "good s" and "ready (mem s) p ep" and "length ep = 4095" and "va \<noteq> ERASED" and "good_tab tab"
    and "ee_store (mem s) va \<noteq> Some d"
  shows "fst (EE_WriteVariable tab va d s) = FLASH_COMPLETE \<and>
    ee_store (mem (snd (EE_WriteVariable tab va d s))) = (ee_store (mem s) |` set tab)(va \<mapsto> d)"
  by (rule ee_full_page_keeps_table [OF assms])

theorem ee_full_page_keeps_table_only_witness:
  "let s = ee_blank\<lparr>mem := full_page\<rparr> in ee_store (mem s) 0x0101 = Some 0x0101 \<and>
     ee_store (mem (snd (EE_WriteVariable [1000] 1000 5 s))) 0x0101 = None"
proof -
  let ?ep = "replicate 4095 (0x0101, 0x0101) :: entry list"
  have st: "ee_store full_page = ee_map ?ep" by (rule ee_store_ready [OF full_page_ready])
  show ?thesis
    using ee_full_page_keeps_table_only [of "ee_blank\<lparr>mem := full_page\<rparr>" 0 ?ep 1000 "[1000]" 5] full_page_ready
    by (simp add: st full_page_map good_def ee_blank_def good_tab_def ERASED_def)
qed

text \<open>C37. Whatever is in memory and whatever the flash does, start-up and writes change nothing
  outside the two sectors of the emulation.\<close>

theorem ee_confined:
  "mem (snd (EE_WriteVariable tab va d s)) a = mem s a \<and> mem (snd (EE_Init tab s)) a = mem s a \<or>
   0x08004000 \<le> a \<and> a < 0x0800C000"
  using confined_write_variable [of s tab va d] confined_init [of s tab] by (force simp: confined_def)

text \<open>Whatever is in memory and whatever the flash does, a start-up that reports success has
  left exactly one page marked valid and the other one completely erased.\<close>

theorem ee_init_one_valid:
  assumes "fst (EE_Init tab s) = FLASH_COMPLETE"
  shows "\<exists>p. one_valid (mem (snd (EE_Init tab s))) p"
  using init_one_valid [OF assms] .

theorem ee_init_one_valid_witness: "\<exists>p. one_valid (mem (snd (EE_Init [1000] ee_blank))) p"
  by (rule ee_init_one_valid) (use init_blank [of ee_blank "[1000]"] in \<open>simp add: ee_blank_def good_def\<close>)

text \<open>C38. The start-up itself is not safe from power loss: when it finishes an interrupted
  transfer it marks the received page valid before it erases the other one, and if the power
  goes in between, the next start-up takes the two valid pages for an invalid state and formats
  the EEPROM: every variable is lost although all of them were readable before.\<close>

theorem ee_init_power_cut_loses_all:
  assumes "receiving (mem s) p ep [(d, va)]" and "va \<noteq> ERASED" and "script s = [Done, PowerCut]"
    and "\<not> flash_locked s" and "good s'" and "mem s' = mem (snd (EE_Init [va] s))"
  shows "ee_store (mem s) = ee_map ep \<and> fst (EE_Init [va] s') = FLASH_COMPLETE \<and>
    ee_store (mem (snd (EE_Init [va] s'))) = Map.empty"
  using receiving_store [OF assms(1)] init_cut [OF assms(1-4)] both_valid_formats [OF assms(5)]
  by (simp add: assms(6))

definition cut_mem :: "nat \<Rightarrow> u8" where
  "cut_mem = prog16 0x08008006 1000 (prog16 0x08008004 7 (prog16 0x08008000 RECEIVE_DATA
     (prog16 0x08004006 1000 (prog16 0x08004004 7 (prog16 0x08004000 VALID_PAGE (\<lambda>_. 0xFF))))))"

lemma cut_mem_receiving: "receiving cut_mem 0 [(7, 1000)] [(7, 1000)]"
proof -
  let ?m0 = "\<lambda>_ :: nat. 0xFF :: u8"
  let ?m1 = "prog16 (page_base 0) VALID_PAGE ?m0"
  let ?m2 = "prog16 (page_base 0 + 6) 1000 (prog16 (page_base 0 + 4) 7 ?m1)"
  let ?m3 = "prog16 (page_base 1) RECEIVE_DATA ?m2"
  have b: "pg ?m0 p ERASED []" for p by (rule blank_pg) simp
  have o: "pg (prog16 (page_base 0 + i) v m) 1 h es = pg m 1 h es"
      "pg (prog16 (page_base 1 + i) v m) 0 h es = pg m 0 h es" if "i + 1 < 0x4000" for i v m h es
    by (rule pg_other; use that in simp)+
  have o0: "pg (prog16 (page_base 0) v m) 1 h es = pg m 1 h es" "pg (prog16 (page_base 1) v m) 0 h es = pg m 0 h es"
    for v m h es
    using o [of 0] by (simp_all del: One_nat_def)
  have va: "(1000 :: u16) \<noteq> ERASED" by (simp add: ERASED_def)
  have "pg ?m1 0 VALID_PAGE []" using pg_header [OF b, of 0 VALID_PAGE] by simp
  then have 2: "pg ?m2 0 VALID_PAGE [(7, 1000)]"
    using pg_write_both [of ?m1 0 VALID_PAGE "[]" 1000 7] va by (simp add: ac_simps)
  have "pg ?m2 1 ERASED []" by (simp add: o o0 b del: One_nat_def)
  then have 3: "pg ?m3 1 RECEIVE_DATA []" using pg_header [of ?m2 1 ERASED "[]" RECEIVE_DATA] by simp
  have c: "cut_mem = prog16 (page_base 1 + 6) 1000 (prog16 (page_base 1 + 4) 7 ?m3)"
    by (simp add: cut_mem_def page_base_def ee_consts)
  have "pg cut_mem 1 RECEIVE_DATA [(7, 1000)]"
    using pg_write_both [OF 3 _ va, of 7] by (simp add: c ac_simps)
  moreover have "pg cut_mem 0 VALID_PAGE [(7, 1000)]"
    using 2 by (simp add: c o o0 del: One_nat_def)
  ultimately show ?thesis by (simp add: receiving_def)
qed

theorem ee_init_power_cut_loses_all_witness:
  "let s = ee_blank\<lparr>mem := cut_mem, script := [Done, PowerCut]\<rparr>;
     s' = ee_blank\<lparr>mem := mem (snd (EE_Init [1000] s))\<rparr> in
   ee_store (mem s) 1000 = Some 7 \<and> ee_store (mem (snd (EE_Init [1000] s'))) 1000 = None"
  using ee_init_power_cut_loses_all [of "ee_blank\<lparr>mem := cut_mem, script := [Done, PowerCut]\<rparr>" 0 "[(7, 1000)]" 7 1000
      "ee_blank\<lparr>mem := mem (snd (EE_Init [1000] (ee_blank\<lparr>mem := cut_mem, script := [Done, PowerCut]\<rparr>)))\<rparr>"]
    cut_mem_receiving ee_map_snoc [of 1000 "[]" 7]
  by (simp add: ee_blank_def good_def ERASED_def Let_def)

end
