(* ===== verification/ConfStore.thy ===== *)
theory ConfStore
  imports Eeprom_Store
begin

text \<open>
  The configuration store of \<^verbatim>\<open>conf_general.c\<close>: the table of EEPROM variables, the backup
  data that survives a reset, the user variables, and the motor and application configurations.
  The C structs are their memory images, lists of bytes. The packed \<open>backup_data\<close> has the layout
  of \<^verbatim>\<open>datatypes.h\<close>; the sizes and the few offsets of the other two that the code uses
  depend on the compiler and are the record \<open>layout\<close>. The defaults that
  \<^verbatim>\<open>confgenerator.c\<close>, a generated file, writes are a parameter.
\<close>

section \<open>Layout and state\<close>

record layout =
  mc_size :: nat
  mc_crc :: nat
  app_size :: nat
  app_crc :: nat
  app_id :: nat
  app_baud :: nat
  app_can_mode :: nat
  enum_size :: nat
  boot_vesc_can :: bool
  default_baud :: u8
  default_id :: u8

definition EEPROM_BASE_MCCONF :: u16 where "EEPROM_BASE_MCCONF = 1000"
definition EEPROM_BASE_APPCONF :: u16 where "EEPROM_BASE_APPCONF = 2000"
definition EEPROM_BASE_HW :: u16 where "EEPROM_BASE_HW = 3000"
definition EEPROM_BASE_CUSTOM :: u16 where "EEPROM_BASE_CUSTOM = 4000"
definition EEPROM_BASE_MCCONF_2 :: u16 where "EEPROM_BASE_MCCONF_2 = 5000"
definition EEPROM_BASE_BACKUP :: u16 where "EEPROM_BASE_BACKUP = 6000"
definition EEPROM_VARS_HW :: int where "EEPROM_VARS_HW = 32"
definition EEPROM_VARS_CUSTOM :: int where "EEPROM_VARS_CUSTOM = 256"
definition BACKUP_VAR_INIT_CODE :: u32 where "BACKUP_VAR_INIT_CODE = 92891934"

text \<open>Offsets in the packed \<open>backup_data\<close> and its size.\<close>

definition off_odometer_flag :: nat where "off_odometer_flag = 0"
definition off_odometer :: nat where "off_odometer = 4"
definition off_runtime_flag :: nat where "off_runtime_flag = 12"
definition off_runtime :: nat where "off_runtime = 16"
definition off_hw_flag :: nat where "off_hw_flag = 24"
definition off_hw_config :: nat where "off_hw_config = 28"
definition off_enc_flag :: nat where "off_enc_flag = 156"
definition off_enc_en :: nat where "off_enc_en = 160"
definition off_enc_corr :: nat where "off_enc_corr = 161"
definition off_can_flag :: nat where "off_can_flag = 521"
definition off_can_baud :: nat where "off_can_baud = 525"
definition off_can_id :: nat where "off_can_id = 526"
definition backup_size :: nat where "backup_size = 528"

datatype conf_fault = FAULT_CODE_FLASH_CORRUPTION_APP_CFG | FAULT_CODE_FLASH_CORRUPTION_MC_CFG

record conf = ee +
  VirtAddVarTab :: "u16 list"
  g_backup :: bytes
  faults :: "conf_fault list"

section \<open>Fields of a memory image\<close>

definition get_u16 :: "bytes \<Rightarrow> nat \<Rightarrow> u16" where
  "get_u16 b i = ucast (b ! i) OR push_bit 8 (ucast (b ! (i + 1)))"

definition get_u32 :: "bytes \<Rightarrow> nat \<Rightarrow> u32" where
  "get_u32 b i = ucast (b ! i) OR push_bit 8 (ucast (b ! (i + 1))) OR push_bit 16 (ucast (b ! (i + 2)))
     OR push_bit 24 (ucast (b ! (i + 3)))"

text \<open>Overwrite the bytes from \<open>i\<close> on.\<close>

fun put :: "nat \<Rightarrow> bytes \<Rightarrow> bytes \<Rightarrow> bytes" where
  "put i [] b = b"
| "put i (v # vs) b = put (i + 1) vs (b[i := v])"

definition put_u16 :: "nat \<Rightarrow> u16 \<Rightarrow> bytes \<Rightarrow> bytes" where
  "put_u16 i v = put i [byte_of 0 v, byte_of 8 v]"

definition put_u32 :: "nat \<Rightarrow> u32 \<Rightarrow> bytes \<Rightarrow> bytes" where
  "put_u32 i v = put i [byte_of 0 v, byte_of 8 v, byte_of 16 v, byte_of 24 v]"

definition copy_field :: "nat \<Rightarrow> nat \<Rightarrow> bytes \<Rightarrow> bytes \<Rightarrow> bytes" where
  "copy_field i n src = put i (take n (drop i src))"

section \<open>Blocks of variables\<close>

text \<open>The values a struct is written as: two bytes each, the first one in the high half.\<close>

fun vars_of :: "bytes \<Rightarrow> u16 list" where
  "vars_of (hi # lo # bs) = ((push_bit 8 (ucast hi) AND 0xFF00) OR (ucast lo AND 0xFF)) # vars_of bs"
| "vars_of _ = []"

text \<open>The reading loop: \<open>n\<close> variables are left to read, the next one is number \<open>i\<close>.\<close>

fun read_vars :: "u16 \<Rightarrow> nat \<Rightarrow> nat \<Rightarrow> (nat \<Rightarrow> u8) \<Rightarrow> bytes \<Rightarrow> bool \<times> bytes" where
  "read_vars base 0 i m b = (True, b)"
| "read_vars base (Suc n) i m b =
     (let (st, var) = EE_ReadVariable (base + word_of_nat i) 0 m in
      if st = 0
      then read_vars base n (Suc i) m (b[2 * i := ucast (drop_bit 8 var AND 0xFF), 2 * i + 1 := ucast (var AND 0xFF)])
      else (False, b))"

section \<open>Backup data\<close>

definition conf_general_store_backup_data :: "conf \<Rightarrow> bool \<times> conf" where
  "conf_general_store_backup_data s =
     (let s1 = stop_motor s in
      if \<not> mc_interface_wait_for_motor_release_both s1 then (False, s1)
      else
        (let s2 = FLASH_Unlock (flash_enter s1);
             (is_ok, s3) = write_vars (EE_WriteVariable (VirtAddVarTab s2)) EEPROM_BASE_BACKUP (vars_of (g_backup s2)) s2
         in (is_ok, flash_leave 100 s3)))"

text \<open>\<open>VirtAddVarTab\<close> after the initialisation: the assigned addresses in the order of the
  loops, then zeros up to \<open>NB_OF_VAR\<close>.\<close>

definition addr_range :: "u16 \<Rightarrow> nat \<Rightarrow> u16 list" where
  "addr_range base n = map (\<lambda>i. base + word_of_nat i) [0 ..< n]"

definition NB_OF_VAR :: "layout \<Rightarrow> nat" where
  "NB_OF_VAR L = (2 * mc_size L + app_size L + 1) div 2 + nat EEPROM_VARS_HW * 2 + nat EEPROM_VARS_CUSTOM * 2
     + (backup_size + 1) div 2"

definition conf_tab :: "layout \<Rightarrow> u16 list" where
  "conf_tab L =
     (let used = addr_range EEPROM_BASE_MCCONF (mc_size L div 2) @ addr_range EEPROM_BASE_APPCONF (app_size L div 2)
            @ addr_range EEPROM_BASE_HW (nat EEPROM_VARS_HW * 2) @ addr_range EEPROM_BASE_CUSTOM (nat EEPROM_VARS_CUSTOM * 2)
            @ addr_range EEPROM_BASE_BACKUP (backup_size div 2)
      in used @ replicate (NB_OF_VAR L - length used) 0)"

text \<open>The valid parts of the backup in RAM, one by one; \<open>g\<close> is what RAM holds.\<close>

definition recover_backup :: "layout \<Rightarrow> bytes \<Rightarrow> bytes" where
  "recover_backup L g =
     (let b0 = replicate backup_size 0;
          b1 = (if get_u32 g off_odometer_flag = BACKUP_VAR_INIT_CODE then copy_field off_odometer 8 g b0 else b0);
          b2 = (if get_u32 g off_runtime_flag = BACKUP_VAR_INIT_CODE then copy_field off_runtime 8 g b1 else b1);
          b3 = (if get_u32 g off_hw_flag = BACKUP_VAR_INIT_CODE then copy_field off_hw_config 128 g b2 else b2);
          b4 = (if get_u32 g off_enc_flag = BACKUP_VAR_INIT_CODE
                then copy_field off_enc_en 1 g (copy_field off_enc_corr 360 g b3) else b3)
      in if get_u32 g off_can_flag = BACKUP_VAR_INIT_CODE
         then copy_field off_can_id 1 g (copy_field off_can_baud 1 g b4)
         else b4[off_can_baud := default_baud L, off_can_id := default_id L])"

definition set_backup_flags :: "bytes \<Rightarrow> bytes" where
  "set_backup_flags b =
     put_u32 off_can_flag BACKUP_VAR_INIT_CODE (put_u32 off_enc_flag BACKUP_VAR_INIT_CODE
       (put_u32 off_hw_flag BACKUP_VAR_INIT_CODE (put_u32 off_runtime_flag BACKUP_VAR_INIT_CODE
         (put_u32 off_odometer_flag BACKUP_VAR_INIT_CODE b))))"

text \<open>The initialisation. The start value of the local \<open>backup_tmp\<close> does not matter: it is read
  completely or cleared.\<close>

definition conf_general_init :: "layout \<Rightarrow> conf \<Rightarrow> conf" where
  "conf_general_init L s =
     (let s1 = FLASH_Lock (snd (EE_Init (conf_tab L) (FLASH_Unlock (s\<lparr>VirtAddVarTab := conf_tab L\<rparr>))));
          (is_ok, tmp) = read_vars EEPROM_BASE_BACKUP (backup_size div 2) 0 (mem s1) (replicate backup_size 0);
          tmp1 = (if is_ok then tmp else recover_backup L (g_backup s1))
      in snd (conf_general_store_backup_data (s1\<lparr>g_backup := set_backup_flags tmp1\<rparr>)))"

section \<open>User variables\<close>

definition read_eeprom_var :: "int \<Rightarrow> u16 \<Rightarrow> conf \<Rightarrow> u32 option" where
  "read_eeprom_var address base s =
     (let a = base + 2 * word_of_int address;
          (st0, var0) = EE_ReadVariable a 0 (mem s) in
      if st0 \<noteq> 0 then None
      else (let (st1, var1) = EE_ReadVariable (a + 1) 0 (mem s) in
            if st1 \<noteq> 0 then None else Some (push_bit 16 (ucast var0) OR ucast var1)))"

text \<open>When the motor is not released the function returns 100, which is \<open>true\<close>.\<close>

definition store_eeprom_var :: "u32 \<Rightarrow> int \<Rightarrow> u16 \<Rightarrow> conf \<Rightarrow> bool \<times> conf" where
  "store_eeprom_var v address base s =
     (let var0 = ucast (drop_bit 16 v); var1 = ucast (v AND 0xFFFF);
          s1 = stop_motor s in
      if \<not> mc_interface_wait_for_motor_release_both s1 then (True, s1)
      else
        (let s2 = FLASH_Unlock (flash_enter s1);
             (is_ok, s3) = write_vars (EE_WriteVariable (VirtAddVarTab s2)) (base + word_of_int address * 2) [var0, var1] s2
         in (is_ok, flash_leave 100 s3)))"

definition conf_general_read_eeprom_var_hw :: "int \<Rightarrow> conf \<Rightarrow> u32 option" where
  "conf_general_read_eeprom_var_hw address s =
     (if address < 0 \<or> address \<ge> EEPROM_VARS_HW then None else read_eeprom_var address EEPROM_BASE_HW s)"

definition conf_general_read_eeprom_var_custom :: "int \<Rightarrow> conf \<Rightarrow> u32 option" where
  "conf_general_read_eeprom_var_custom address s =
     (if address < 0 \<or> address \<ge> EEPROM_VARS_CUSTOM then None else read_eeprom_var address EEPROM_BASE_CUSTOM s)"

definition conf_general_store_eeprom_var_hw :: "u32 \<Rightarrow> int \<Rightarrow> conf \<Rightarrow> bool \<times> conf" where
  "conf_general_store_eeprom_var_hw v address s =
     (if address < 0 \<or> address \<ge> EEPROM_VARS_HW then (False, s) else store_eeprom_var v address EEPROM_BASE_HW s)"

definition conf_general_store_eeprom_var_custom :: "u32 \<Rightarrow> int \<Rightarrow> conf \<Rightarrow> bool \<times> conf" where
  "conf_general_store_eeprom_var_custom v address s =
     (if address < 0 \<or> address \<ge> EEPROM_VARS_CUSTOM then (False, s) else store_eeprom_var v address EEPROM_BASE_CUSTOM s)"

section \<open>Application configuration\<close>

definition app_calc_crc :: "layout \<Rightarrow> bytes \<Rightarrow> u16" where
  "app_calc_crc L conf = crc16 (put_u16 (app_crc L) 0 conf)"

definition put_enum :: "layout \<Rightarrow> nat \<Rightarrow> u8 \<Rightarrow> bytes \<Rightarrow> bytes" where
  "put_enum L i v = put i (v # replicate (enum_size L - 1) 0)"

text \<open>\<open>conf\<close> is what the caller's struct holds before; the result is what it holds after.\<close>

definition conf_general_read_app_configuration :: "layout \<Rightarrow> (bytes \<Rightarrow> bytes) \<Rightarrow> bytes \<Rightarrow> conf \<Rightarrow> bytes \<times> conf" where
  "conf_general_read_app_configuration L set_defaults conf s =
     (let (is_ok, c) = read_vars EEPROM_BASE_APPCONF (app_size L div 2) 0 (mem s) conf;
          crc_ok = (get_u16 c (app_crc L) = app_calc_crc L c);
          s1 = (if crc_ok then s else s\<lparr>faults := faults s @ [FAULT_CODE_FLASH_CORRUPTION_APP_CFG]\<rparr>)
      in if is_ok \<and> crc_ok then (c, s1)
         else ((put_enum L (app_baud L) (g_backup s1 ! off_can_baud) (set_defaults c))[app_id L := g_backup s1 ! off_can_id], s1))"

definition conf_general_store_app_configuration :: "layout \<Rightarrow> bytes \<Rightarrow> conf \<Rightarrow> bool \<times> bytes \<times> conf" where
  "conf_general_store_app_configuration L conf s =
     (let s1 = stop_motor s in
      if \<not> mc_interface_wait_for_motor_release_both s1 then (False, conf, s1)
      else
        (let s2 = flash_enter s1;
             c1 = (if boot_vesc_can L then put_enum L (app_can_mode L) 0 conf else conf);
             c2 = put_u16 (app_crc L) (app_calc_crc L c1) c1;
             (is_ok, s3) = write_vars (EE_WriteVariable (VirtAddVarTab s2)) EEPROM_BASE_APPCONF (vars_of c2) (FLASH_Unlock s2);
             c3 = (if boot_vesc_can L then copy_field (app_can_mode L) (enum_size L) conf c2 else c2);
             s4 = flash_leave 100 s3;
             s5 = s4\<lparr>g_backup := (g_backup s4)[off_can_id := c3 ! app_id L, off_can_baud := c3 ! app_baud L]\<rparr>;
             s6 = snd (conf_general_store_backup_data s5)
         in (is_ok, c3, s6)))"

section \<open>Motor configuration\<close>

definition mc_interface_calc_crc :: "layout \<Rightarrow> bytes \<Rightarrow> u16" where
  "mc_interface_calc_crc L conf = crc16 (put_u16 (mc_crc L) 0 conf)"

definition mc_base :: "bool \<Rightarrow> u16" where
  "mc_base is_motor_2 = (if is_motor_2 then EEPROM_BASE_MCCONF_2 else EEPROM_BASE_MCCONF)"

definition conf_general_read_mc_configuration :: "layout \<Rightarrow> (bytes \<Rightarrow> bytes) \<Rightarrow> bytes \<Rightarrow> bool \<Rightarrow> conf \<Rightarrow> bytes \<times> conf" where
  "conf_general_read_mc_configuration L set_defaults conf is_motor_2 s =
     (let (is_ok, c) = read_vars (mc_base is_motor_2) (mc_size L div 2) 0 (mem s) conf;
          crc_ok = (get_u16 c (mc_crc L) = mc_interface_calc_crc L c);
          s1 = (if crc_ok then s else s\<lparr>faults := faults s @ [FAULT_CODE_FLASH_CORRUPTION_MC_CFG]\<rparr>)
      in if is_ok \<and> crc_ok then (c, s1) else (set_defaults c, s1))"

definition conf_general_store_mc_configuration :: "layout \<Rightarrow> bytes \<Rightarrow> bool \<Rightarrow> conf \<Rightarrow> bool \<times> bytes \<times> conf" where
  "conf_general_store_mc_configuration L conf is_motor_2 s =
     (let s1 = stop_motor s in
      if \<not> mc_interface_wait_for_motor_release_both s1 then (False, conf, s1)
      else
        (let s2 = flash_enter s1;
             c = put_u16 (mc_crc L) (mc_interface_calc_crc L conf) conf;
             (is_ok, s3) = write_vars (EE_WriteVariable (VirtAddVarTab s2)) (mc_base is_motor_2) (vars_of c) (FLASH_Unlock s2)
         in (is_ok, c, flash_leave 100 s3)))"

section \<open>What a write of variables leaves alone\<close>

definition ee_frame :: "'a ee_scheme \<Rightarrow> 'a ee_scheme \<Rightarrow> bool" where
  "ee_frame s t = (t\<lparr>mem := mem s, script := script s, DataVar := DataVar s\<rparr> = s)"

lemma ee_frame_refl [simp]: "ee_frame s s"
  by (simp add: ee_frame_def)

lemma ee_frame_trans:
  assumes "ee_frame s t" and "ee_frame t u"
  shows "ee_frame s u"
proof -
  have "(u\<lparr>mem := mem t, script := script t, DataVar := DataVar t\<rparr>)\<lparr>mem := mem s, script := script s, DataVar := DataVar s\<rparr> = s"
    using assms by (simp add: ee_frame_def)
  then show ?thesis by (simp add: ee_frame_def)
qed

lemma ee_frame_flash_op: "ee_frame s (snd (flash_op f s))"
  by (auto simp: ee_frame_def flash_op_def split: list.splits outcome.splits)

lemma ee_frame_DataVar: "ee_frame s (s\<lparr>DataVar := d\<rparr>)"
  by (simp add: ee_frame_def)

lemmas ee_frame_snoc = ee_frame_trans [OF _ ee_frame_flash_op] ee_frame_trans [OF _ ee_frame_DataVar]

lemma ee_frame_program: "ee_frame s (snd (FLASH_ProgramHalfWord a v s))"
  by (simp add: FLASH_ProgramHalfWord_def ee_frame_flash_op)

lemma ee_frame_erase: "ee_frame s (snd (EE_EraseSectorIfNotEmpty i s))"
  by (simp add: EE_EraseSectorIfNotEmpty_def FLASH_EraseSector_def Let_def ee_frame_flash_op)

lemma ee_frame_verify: "ee_frame s (snd (EE_VerifyPageFullWriteVariable va d s))"
  by (auto simp: EE_VerifyPageFullWriteVariable_def Let_def case_prod_beta split: option.splits
      intro!: ee_frame_trans [OF _ ee_frame_program] ee_frame_program)

lemma ee_frame_copy: "ee_frame s (snd (ee_copy v s))"
  by (auto simp: ee_copy_def Let_def case_prod_beta intro!: ee_frame_trans [OF ee_frame_DataVar ee_frame_verify] ee_frame_DataVar)

lemma ee_frame_transfer_loop: "ee_frame s (snd (ee_transfer_loop tab va s))"
  by (induction tab arbitrary: s) (auto simp: Let_def case_prod_beta intro: ee_frame_copy ee_frame_trans [OF ee_frame_copy])

lemma ee_frame_init_loop: "ee_frame s (snd (ee_init_loop base tab i x s))"
  by (induction tab arbitrary: i x s)
    (auto simp: Let_def case_prod_beta intro: ee_frame_copy ee_frame_trans [OF ee_frame_copy])

lemmas ee_frame_last = ee_frame_trans [OF _ ee_frame_program] ee_frame_trans [OF _ ee_frame_erase]
  ee_frame_trans [OF _ ee_frame_verify] ee_frame_trans [OF _ ee_frame_transfer_loop]
  ee_frame_trans [OF _ ee_frame_init_loop]

lemma ee_frame_transfer: "ee_frame s (snd (EE_PageTransfer tab va d s))"
  by (auto simp: EE_PageTransfer_def Let_def case_prod_beta intro!: ee_frame_last)

lemma ee_frame_write: "ee_frame s (snd (EE_WriteVariable tab va d s))"
  by (auto simp: EE_WriteVariable_def Let_def case_prod_beta intro!: ee_frame_trans [OF _ ee_frame_transfer] ee_frame_last)

lemma ee_frame_format: "ee_frame s (snd (EE_Format s))"
  by (auto simp: EE_Format_def Let_def case_prod_beta intro!: ee_frame_last)

lemma ee_frame_resume: "ee_frame s (snd (ee_init_resume tab base i s))"
  by (auto simp: ee_init_resume_def Let_def case_prod_beta intro!: ee_frame_last)

lemma ee_frame_finish: "ee_frame s (snd (ee_init_finish base i s))"
  by (auto simp: ee_init_finish_def Let_def case_prod_beta intro!: ee_frame_last)

lemma ee_frame_init: "ee_frame s (snd (EE_Init tab s))"
  by (simp add: EE_Init_def Let_def ee_frame_format ee_frame_resume ee_frame_finish ee_frame_erase)

lemma ee_frame_write_vars: "ee_frame s (snd (write_vars (EE_WriteVariable tab) a ds s))"
  by (induction ds arbitrary: a s) (auto simp: Let_def case_prod_beta intro: ee_frame_write ee_frame_trans [OF ee_frame_write])

lemma ee_frame_fields:
  assumes "ee_frame s t"
  shows "flash_locked t = flash_locked s" "sys_lock_cnt t = sys_lock_cnt s" "sys_locked t = sys_locked s"
    "init_done t = init_done s" "iwdt t = iwdt s" "sampling_disabled t = sampling_disabled s"
    "ignore_input t = ignore_input s" "motor_stops t = motor_stops s"
    "motor_override_released t = motor_override_released s" "ee.more t = ee.more s"
  using arg_cong [OF assms [unfolded ee_frame_def], of flash_locked]
    arg_cong [OF assms [unfolded ee_frame_def], of sys_lock_cnt] arg_cong [OF assms [unfolded ee_frame_def], of sys_locked]
    arg_cong [OF assms [unfolded ee_frame_def], of init_done] arg_cong [OF assms [unfolded ee_frame_def], of iwdt]
    arg_cong [OF assms [unfolded ee_frame_def], of sampling_disabled]
    arg_cong [OF assms [unfolded ee_frame_def], of ignore_input]
    arg_cong [OF assms [unfolded ee_frame_def], of motor_stops]
    arg_cong [OF assms [unfolded ee_frame_def], of motor_override_released]
    arg_cong [OF assms [unfolded ee_frame_def], of ee.more]
  by simp_all

lemma ee_frame_conf:
  assumes "ee_frame s (t :: conf)"
  shows "VirtAddVarTab t = VirtAddVarTab s" "g_backup t = g_backup s" "faults t = faults s"
  using arg_cong [OF assms [unfolded ee_frame_def], of VirtAddVarTab]
    arg_cong [OF assms [unfolded ee_frame_def], of g_backup] arg_cong [OF assms [unfolded ee_frame_def], of faults]
  by simp_all

section \<open>Addresses of blocks\<close>

lemma block_iff:
  assumes "unat a + n \<le> 65536"
  shows "v \<in> block a n \<longleftrightarrow> unat a \<le> unat v \<and> unat v < unat a + n"
proof
  assume "v \<in> block a n"
  then obtain i where i: "v = a + word_of_nat i" "i < n" by (auto simp: block_def)
  then have "unat v = unat a + i"
    using assms by (simp add: unat_word_ariths unsigned_of_nat take_bit_eq_mod)
  then show "unat a \<le> unat v \<and> unat v < unat a + n" using i by simp
next
  assume v: "unat a \<le> unat v \<and> unat v < unat a + n"
  have "v = a + word_of_nat (unat v - unat a)"
    using v by (simp add: of_nat_diff)
  then show "v \<in> block a n" using v unfolding block_def by (intro CollectI exI [of _ "unat v - unat a"] conjI) auto
qed

lemma block_map_iff:
  assumes "unat a + length ds \<le> 65536"
  shows "block_map a ds v = (if v \<in> block a (length ds) then Some (ds ! (unat v - unat a)) else None)"
  using assms
proof (induction ds arbitrary: a)
  case (Cons d ds)
  show ?case
  proof (cases "unat a + length ds = 65535 \<and> ds = []")
    case True
    then show ?thesis using Cons.prems by (auto simp: block_iff word_unat_eq_iff)
  next
    case False
    then have "unat (a + 1) = unat a + 1"
      using Cons.prems by (cases ds) (auto simp: unat_word_ariths)
    then show ?thesis
      using Cons by (auto simp: block_iff map_add_def word_unat_eq_iff nth_Cons' split: if_splits)
  qed
qed simp

lemma set_addr_range: "set (addr_range a n) = block a n"
  by (auto simp: addr_range_def block_def)

lemma length_addr_range [simp]: "length (addr_range a n) = n"
  by (simp add: addr_range_def)

lemmas conf_consts = EEPROM_BASE_MCCONF_def EEPROM_BASE_APPCONF_def EEPROM_BASE_HW_def EEPROM_BASE_CUSTOM_def
  EEPROM_BASE_MCCONF_2_def EEPROM_BASE_BACKUP_def EEPROM_VARS_HW_def EEPROM_VARS_CUSTOM_def backup_size_def

text \<open>A layout as a compiler produces it: even sizes that fit between the bases, fields inside
  their structs, and a table that fits into a page twice.\<close>

definition good_layout :: "layout \<Rightarrow> bool" where
  "good_layout L =
     (even (mc_size L) \<and> even (app_size L) \<and> mc_size L \<le> 2000 \<and> app_size L \<le> 2000 \<and>
      mc_crc L + 2 \<le> mc_size L \<and> app_crc L + 2 \<le> app_size L \<and>
      app_id L < app_crc L \<and> app_baud L + enum_size L \<le> app_crc L \<and> app_can_mode L + enum_size L \<le> app_crc L \<and>
      0 < enum_size L \<and> 2 * NB_OF_VAR L + 1 \<le> 4095)"

lemma block_bounds:
  assumes "n \<le> 1000"
  shows "v \<in> block EEPROM_BASE_MCCONF n \<longleftrightarrow> 1000 \<le> unat v \<and> unat v < 1000 + n"
    and "v \<in> block EEPROM_BASE_APPCONF n \<longleftrightarrow> 2000 \<le> unat v \<and> unat v < 2000 + n"
    and "v \<in> block EEPROM_BASE_HW n \<longleftrightarrow> 3000 \<le> unat v \<and> unat v < 3000 + n"
    and "v \<in> block EEPROM_BASE_CUSTOM n \<longleftrightarrow> 4000 \<le> unat v \<and> unat v < 4000 + n"
    and "v \<in> block EEPROM_BASE_MCCONF_2 n \<longleftrightarrow> 5000 \<le> unat v \<and> unat v < 5000 + n"
    and "v \<in> block EEPROM_BASE_BACKUP n \<longleftrightarrow> 6000 \<le> unat v \<and> unat v < 6000 + n"
  using assms by (subst block_iff; simp add: conf_consts)+

lemma length_conf_tab: "length (conf_tab L) = NB_OF_VAR L"
proof -
  have "mc_size L div 2 + app_size L div 2 \<le> (2 * mc_size L + app_size L + 1) div 2" by presburger
  then show ?thesis by (simp add: conf_tab_def Let_def NB_OF_VAR_def conf_consts)
qed

definition used_addrs :: "layout \<Rightarrow> u16 set" where
  "used_addrs L = block EEPROM_BASE_MCCONF (mc_size L div 2) \<union> block EEPROM_BASE_APPCONF (app_size L div 2)
     \<union> block EEPROM_BASE_HW 64 \<union> block EEPROM_BASE_CUSTOM 512 \<union> block EEPROM_BASE_BACKUP 264"

lemma set_conf_tab: "used_addrs L \<subseteq> set (conf_tab L)" "set (conf_tab L) \<subseteq> insert 0 (used_addrs L)"
  by (auto simp: conf_tab_def Let_def set_addr_range used_addrs_def conf_consts)

lemma used_addr_bounds:
  assumes "good_layout L"
  shows "v \<in> used_addrs L \<longleftrightarrow>
    1000 \<le> unat v \<and> unat v < 1000 + mc_size L div 2 \<or> 2000 \<le> unat v \<and> unat v < 2000 + app_size L div 2 \<or>
    3000 \<le> unat v \<and> unat v < 3064 \<or> 4000 \<le> unat v \<and> unat v < 4512 \<or> 6000 \<le> unat v \<and> unat v < 6264"
proof -
  have "mc_size L div 2 \<le> 1000" "app_size L div 2 \<le> 1000"
    using assms by (auto simp: good_layout_def)
  then show ?thesis by (simp add: used_addrs_def block_bounds disj_assoc)
qed

lemma good_conf_tab: "good_layout L \<Longrightarrow> good_tab (conf_tab L)"
proof -
  assume L: "good_layout L"
  have "v \<noteq> ERASED" if "v \<in> set (conf_tab L)" for v
  proof -
    from that set_conf_tab(2) [of L] consider "v = 0" | "v \<in> used_addrs L" by blast
    then have "unat v < 65535" using L by cases (auto simp: used_addr_bounds good_layout_def)
    then show ?thesis by (auto simp: ERASED_def)
  qed
  then show ?thesis
    using L by (simp add: good_tab_def list_all_iff length_conf_tab good_layout_def)
qed

section \<open>Structs and blocks of variables\<close>

lemma length_vars_of [simp]: "length (vars_of b) = length b div 2"
  by (induction b rule: vars_of.induct) simp_all

lemma var_bytes:
  fixes hi lo :: u8
  defines "v \<equiv> (push_bit 8 (ucast hi) AND 0xFF00) OR (ucast lo AND 0xFF) :: u16"
  shows "ucast (drop_bit 8 v AND 0xFF) = hi" and "ucast (v AND 0xFF) = lo"
proof -
  have m: "(0xFF :: u16) = mask 8" "(0xFF00 :: u16) = push_bit 8 (mask 8)"
    by (simp_all add: mask_eq_exp_minus_1 push_bit_eq_mult)
  show "ucast (drop_bit 8 v AND 0xFF) = hi" "ucast (v AND 0xFF) = lo"
    unfolding v_def m by (rule bit_word_eqI; auto simp: bit_simps dest: bit_imp_le_length)+
qed

lemma read_vars_block:
  assumes "\<And>j. j < length c div 2 \<Longrightarrow> ee_store m (base + word_of_nat (i + j)) = Some (vars_of c ! j)"
    and "even (length c)" and "length b = 2 * i + length c"
  shows "read_vars base (length c div 2) i m b = (True, take (2 * i) b @ c)"
  using assms
proof (induction c arbitrary: i b rule: vars_of.induct)
  case (1 hi lo bs)
  define v :: u16 where "v = (push_bit 8 (ucast hi) AND 0xFF00) OR (ucast lo AND 0xFF)"
  have "ee_store m (base + word_of_nat i) = Some v" using 1(2) [of 0] by (simp add: v_def)
  then have "EE_ReadVariable (base + word_of_nat i) 0 m = (0, v)"
    by (cases "EE_ReadVariable (base + word_of_nat i) 0 m") (simp add: ee_store_def split: if_splits)
  moreover have "read_vars base (length bs div 2) (Suc i) m (b[2 * i := hi, 2 * i + 1 := lo]) =
      (True, take (2 * Suc i) (b[2 * i := hi, 2 * i + 1 := lo]) @ bs)"
  proof (rule "1.IH")
    fix j assume "j < length bs div 2"
    then show "ee_store m (base + word_of_nat (Suc i + j)) = Some (vars_of bs ! j)"
      using 1(2) [of "Suc j"] by simp
  qed (use 1 in simp_all)
  moreover have "take (2 * Suc i) (b[2 * i := hi, 2 * i + 1 := lo]) = take (2 * i) b @ [hi, lo]"
    using 1(4) by (simp add: take_Suc_conv_app_nth nth_list_update)
  ultimately show ?case
    by (simp add: var_bytes [of hi lo, folded v_def])
qed (auto simp: le_Suc_eq)

lemma read_vars_found:
  assumes "\<And>v. v \<in> block base (length c div 2) \<Longrightarrow> ee_store m v = block_map base (vars_of c) v"
    and "unat base + length c div 2 \<le> 65536" and "even (length c)" and "length b = length c"
  shows "read_vars base (length c div 2) 0 m b = (True, c)"
proof -
  have "ee_store m (base + word_of_nat j) = Some (vars_of c ! j)" if "j < length c div 2" for j
  proof -
    have "unat (base + word_of_nat j) = unat base + j"
      using that assms(2) by (simp add: unat_word_ariths unsigned_of_nat take_bit_eq_mod)
    then show ?thesis
      using that assms(2) by (simp add: assms(1) block_map_iff block_iff)
  qed
  from read_vars_block [of c m base 0 b, OF _ assms(3)] this assms(4) show ?thesis by simp
qed

subsection \<open>Fields\<close>

lemma length_put [simp]: "length (put i vs b) = length b"
  by (induction i vs b rule: put.induct) simp_all

lemma nth_put: "put i vs b ! j = (if i \<le> j \<and> j < i + length vs \<and> j < length b then vs ! (j - i) else b ! j)"
proof (induction i vs b rule: put.induct)
  case (2 i v vs b)
  then show ?case
    by (cases "i < length b") (auto simp: nth_Cons' nth_list_update list_update_beyond)
qed auto

lemma length_put_u16 [simp]: "length (put_u16 i v b) = length b"
  by (simp add: put_u16_def)

lemma length_put_u32 [simp]: "length (put_u32 i v b) = length b"
  by (simp add: put_u32_def)

lemma length_put_enum [simp]: "length (put_enum L i v b) = length b"
  by (simp add: put_enum_def)

lemma length_copy_field [simp]: "length (copy_field i n src b) = length b"
  by (simp add: copy_field_def)

lemma length_set_backup_flags [simp]: "length (set_backup_flags b) = length b"
  by (simp add: set_backup_flags_def)

lemma length_recover_backup [simp]: "length (recover_backup L g) = backup_size"
  by (simp add: recover_backup_def Let_def)

lemma length_read_vars [simp]: "length (snd (read_vars base n i m b)) = length b"
  by (induction n arbitrary: i b) (simp_all add: Let_def case_prod_beta)

lemma u16_halves: "ucast (byte_of 0 v) OR push_bit 8 (ucast (byte_of 8 v)) = (v :: u16)"
  by (rule bit_word_eqI) (auto simp: byte_of_def bit_simps dest: bit_imp_le_length)

lemma get_put_u16: "i + 2 \<le> length b \<Longrightarrow> get_u16 (put_u16 i v b) i = v"
  by (simp add: get_u16_def put_u16_def nth_put u16_halves)

lemma put_put_u16: "put_u16 i v (put_u16 i w b) = put_u16 i v b"
  by (rule nth_equalityI) (auto simp: put_u16_def nth_put simp del: put.simps)

section \<open>Storing on a working device\<close>

text \<open>The device between two operations: flash at rest and without failures ahead, the table
  initialised, the motor able to stop.\<close>

definition conf_ok :: "layout \<Rightarrow> conf \<Rightarrow> bool" where
  "conf_ok L s = (script s = [] \<and> motor_stops s \<and> VirtAddVarTab s = conf_tab L \<and> at_rest (conf_tab L) (mem s) \<and>
     length (g_backup s) = backup_size)"

lemma conf_ok_upd [simp]:
  "length b = backup_size \<Longrightarrow> conf_ok L s \<Longrightarrow> conf_ok L (s\<lparr>g_backup := b\<rparr>)"
  "conf_ok L (s\<lparr>faults := f\<rparr>) = conf_ok L s"
  by (simp_all add: conf_ok_def)

lemma guard_conf [simp]:
  "mem (stop_motor s) = mem s" "mem (flash_enter s) = mem s" "mem (flash_leave t s) = mem s" "mem (FLASH_Unlock s) = mem s"
  "script (stop_motor s) = script s" "script (flash_enter s) = script s" "script (flash_leave t s) = script s"
  "script (FLASH_Unlock s) = script s"
  "motor_stops (stop_motor s) = motor_stops s" "motor_stops (flash_enter s) = motor_stops s"
  "motor_stops (flash_leave t s) = motor_stops s" "motor_stops (FLASH_Unlock s) = motor_stops s"
  "sys.more (stop_motor s) = sys.more s" "sys.more (flash_enter s) = sys.more s"
  "sys.more (flash_leave t s) = sys.more s" "sys.more (FLASH_Unlock s) = sys.more s"
  by (simp_all add: guard_defs Let_def)

lemma guard_more [simp]:
  fixes s :: conf
  shows "VirtAddVarTab (stop_motor s) = VirtAddVarTab s" "VirtAddVarTab (flash_enter s) = VirtAddVarTab s"
    "VirtAddVarTab (flash_leave t s) = VirtAddVarTab s" "VirtAddVarTab (FLASH_Unlock s) = VirtAddVarTab s"
    "g_backup (stop_motor s) = g_backup s" "g_backup (flash_enter s) = g_backup s"
    "g_backup (flash_leave t s) = g_backup s" "g_backup (FLASH_Unlock s) = g_backup s"
    "faults (stop_motor s) = faults s" "faults (flash_enter s) = faults s"
    "faults (flash_leave t s) = faults s" "faults (FLASH_Unlock s) = faults s"
  by (simp_all add: guard_defs Let_def)

text \<open>One guarded block of writes, the common part of all store functions.\<close>

definition store_block :: "u16 \<Rightarrow> u16 list \<Rightarrow> conf \<Rightarrow> bool \<times> conf" where
  "store_block a ds s =
     (let s2 = FLASH_Unlock (flash_enter (stop_motor s));
          (is_ok, s3) = write_vars (EE_WriteVariable (VirtAddVarTab s2)) a ds s2 in (is_ok, flash_leave 100 s3))"

lemma store_block_spec:
  assumes "conf_ok L s" and "good_layout L" and "block a (length ds) \<subseteq> used_addrs L"
  shows "fst (store_block a ds s)" and "conf_ok L (snd (store_block a ds s))"
    and "ee_store (mem (snd (store_block a ds s))) = ee_store (mem s) ++ block_map a ds"
    and "g_backup (snd (store_block a ds s)) = g_backup s" and "faults (snd (store_block a ds s)) = faults s"
proof -
  let ?s = "FLASH_Unlock (flash_enter (stop_motor s))"
  have "good ?s" using assms(1) by (simp add: good_def conf_ok_def)
  then have w: "let (done, s') = write_vars (EE_WriteVariable (conf_tab L)) a ds ?s in
      done \<and> good s' \<and> at_rest (conf_tab L) (mem s') \<and> ee_store (mem s') = ee_store (mem ?s) ++ block_map a ds"
    using assms(1) good_conf_tab [OF assms(2)] set_conf_tab(1) [of L] assms(3)
      eeprom.write_vars_spec [of ?s "conf_tab L" a ds] by (auto simp: conf_ok_def)
  note f = ee_frame_write_vars [of ?s "conf_tab L" a ds]
  note ff = ee_frame_fields [OF f] ee_frame_conf [OF f]
  show "fst (store_block a ds s)" "conf_ok L (snd (store_block a ds s))"
    "ee_store (mem (snd (store_block a ds s))) = ee_store (mem s) ++ block_map a ds"
    "g_backup (snd (store_block a ds s)) = g_backup s" "faults (snd (store_block a ds s)) = faults s"
    using w ff assms(1) by (auto simp: store_block_def case_prod_beta Let_def conf_ok_def good_def)
qed

lemma backup_block: "good_layout L \<Longrightarrow> length b = backup_size \<Longrightarrow> block EEPROM_BASE_BACKUP (length (vars_of b)) \<subseteq> used_addrs L"
  by (auto simp: used_addrs_def backup_size_def)

lemma store_backup_spec:
  assumes "conf_ok L s" and "good_layout L"
  defines "r \<equiv> conf_general_store_backup_data s"
  shows "fst r" and "conf_ok L (snd r)" and "g_backup (snd r) = g_backup s" and "faults (snd r) = faults s"
    and "ee_store (mem (snd r)) = ee_store (mem s) ++ block_map EEPROM_BASE_BACKUP (vars_of (g_backup s))"
proof -
  have "r = store_block EEPROM_BASE_BACKUP (vars_of (g_backup s)) s"
    using assms(1) by (simp add: r_def conf_general_store_backup_data_def store_block_def Let_def conf_ok_def
        mc_interface_wait_for_motor_release_both_def)
  moreover have "length (g_backup s) = backup_size" using assms(1) by (simp add: conf_ok_def)
  ultimately show "fst r" "conf_ok L (snd r)" "g_backup (snd r) = g_backup s" "faults (snd r) = faults s"
    "ee_store (mem (snd r)) = ee_store (mem s) ++ block_map EEPROM_BASE_BACKUP (vars_of (g_backup s))"
    using store_block_spec [OF assms(1,2) backup_block [OF assms(2)]] by metis+
qed

text \<open>The image an application configuration is stored as.\<close>

definition stored_app :: "layout \<Rightarrow> bytes \<Rightarrow> bytes" where
  "stored_app L conf =
     (let c = (if boot_vesc_can L then put_enum L (app_can_mode L) 0 conf else conf)
      in put_u16 (app_crc L) (app_calc_crc L c) c)"

lemma length_stored_app [simp]: "length (stored_app L conf) = length conf"
  by (simp add: stored_app_def Let_def)

lemma stored_app_crc:
  assumes "app_crc L + 2 \<le> length conf"
  shows "get_u16 (stored_app L conf) (app_crc L) = app_calc_crc L (stored_app L conf)"
  using assms by (simp add: stored_app_def Let_def get_put_u16 app_calc_crc_def put_put_u16)

text \<open>What the caller's struct holds after the store: the image with its own CAN mode back.\<close>

definition kept_app :: "layout \<Rightarrow> bytes \<Rightarrow> bytes" where
  "kept_app L conf =
     (if boot_vesc_can L then copy_field (app_can_mode L) (enum_size L) conf (stored_app L conf) else stored_app L conf)"

lemma store_app_spec:
  assumes "conf_ok L s" and "good_layout L" and "length conf = app_size L"
  defines "r \<equiv> conf_general_store_app_configuration L conf s"
  shows "fst r" and "fst (snd r) = kept_app L conf" and "conf_ok L (snd (snd r))" and "faults (snd (snd r)) = faults s"
    and "g_backup (snd (snd r)) = (g_backup s)[off_can_id := kept_app L conf ! app_id L, off_can_baud := kept_app L conf ! app_baud L]"
    and "ee_store (mem (snd (snd r))) = ee_store (mem s) ++ block_map EEPROM_BASE_APPCONF (vars_of (stored_app L conf))
      ++ block_map EEPROM_BASE_BACKUP (vars_of (g_backup (snd (snd r))))"
proof -
  have "block EEPROM_BASE_APPCONF (length (vars_of (stored_app L conf))) \<subseteq> used_addrs L"
    by (auto simp: used_addrs_def assms(3))
  note b = store_block_spec [OF assms(1,2) this]
  let ?t = "snd (store_block EEPROM_BASE_APPCONF (vars_of (stored_app L conf)) s)"
  let ?u = "?t\<lparr>g_backup := (g_backup ?t)[off_can_id := kept_app L conf ! app_id L, off_can_baud := kept_app L conf ! app_baud L]\<rparr>"
  have "conf_ok L ?u" using b(2) by (intro conf_ok_upd) (simp_all add: conf_ok_def)
  note c = store_backup_spec [OF this assms(2)]
  have "motor_stops s" using assms(1) by (simp add: conf_ok_def)
  then have r: "r = (fst (store_block EEPROM_BASE_APPCONF (vars_of (stored_app L conf)) s), kept_app L conf,
      snd (conf_general_store_backup_data ?u))"
    by (simp add: r_def conf_general_store_app_configuration_def stored_app_def kept_app_def store_block_def Let_def
        case_prod_beta mc_interface_wait_for_motor_release_both_def)
  show "fst r" "fst (snd r) = kept_app L conf" "conf_ok L (snd (snd r))" "faults (snd (snd r)) = faults s"
    "g_backup (snd (snd r)) = (g_backup s)[off_can_id := kept_app L conf ! app_id L, off_can_baud := kept_app L conf ! app_baud L]"
    using b c by (simp_all add: r)
  show "ee_store (mem (snd (snd r))) = ee_store (mem s) ++ block_map EEPROM_BASE_APPCONF (vars_of (stored_app L conf))
      ++ block_map EEPROM_BASE_BACKUP (vars_of (g_backup (snd (snd r))))"
    using b(3) c(3,5) by (simp add: r)
qed

lemma store_mc_spec:
  assumes "conf_ok L s" and "good_layout L" and "length conf = mc_size L"
  defines "r \<equiv> conf_general_store_mc_configuration L conf False s"
    and "c \<equiv> put_u16 (mc_crc L) (mc_interface_calc_crc L conf) conf"
  shows "fst r" and "fst (snd r) = c" and "conf_ok L (snd (snd r))" and "faults (snd (snd r)) = faults s"
    and "g_backup (snd (snd r)) = g_backup s"
    and "ee_store (mem (snd (snd r))) = ee_store (mem s) ++ block_map EEPROM_BASE_MCCONF (vars_of c)"
proof -
  have "block EEPROM_BASE_MCCONF (length (vars_of c)) \<subseteq> used_addrs L"
    by (auto simp: used_addrs_def assms(3) c_def)
  note b = store_block_spec [OF assms(1,2) this]
  have r: "r = (fst (store_block EEPROM_BASE_MCCONF (vars_of c) s), c, snd (store_block EEPROM_BASE_MCCONF (vars_of c) s))"
    using assms(1) by (simp add: r_def c_def conf_general_store_mc_configuration_def store_block_def Let_def mc_base_def
        case_prod_beta mc_interface_wait_for_motor_release_both_def conf_ok_def)
  show "fst r" "fst (snd r) = c" "conf_ok L (snd (snd r))" "faults (snd (snd r)) = faults s"
    "g_backup (snd (snd r)) = g_backup s"
    "ee_store (mem (snd (snd r))) = ee_store (mem s) ++ block_map EEPROM_BASE_MCCONF (vars_of c)"
    using b by (simp_all add: r)
qed

text \<open>Reading back a struct that the store holds.\<close>

definition holds :: "(u16 \<Rightarrow> u16 option) \<Rightarrow> u16 \<Rightarrow> bytes \<Rightarrow> bool" where
  "holds f base c = (\<forall>v \<in> block base (length c div 2). f v = block_map base (vars_of c) v)"

lemma read_app_holds:
  assumes "holds (ee_store (mem s)) EEPROM_BASE_APPCONF c" and "good_layout L" and "length c = app_size L" and "length buf = app_size L"
    and "get_u16 c (app_crc L) = app_calc_crc L c"
  shows "conf_general_read_app_configuration L d buf s = (c, s)"
proof -
  have "app_size L div 2 \<le> 1000" "even (app_size L)" using assms(2) by (auto simp: good_layout_def)
  then have "read_vars EEPROM_BASE_APPCONF (app_size L div 2) 0 (mem s) buf = (True, c)"
    using read_vars_found [of EEPROM_BASE_APPCONF c "mem s" buf] assms by (simp add: holds_def conf_consts)
  then show ?thesis by (simp add: conf_general_read_app_configuration_def assms(5))
qed

lemma read_mc_holds:
  assumes "holds (ee_store (mem s)) EEPROM_BASE_MCCONF c" and "good_layout L" and "length c = mc_size L" and "length buf = mc_size L"
    and "get_u16 c (mc_crc L) = mc_interface_calc_crc L c"
  shows "conf_general_read_mc_configuration L d buf False s = (c, s)"
proof -
  have "mc_size L div 2 \<le> 1000" "even (mc_size L)" using assms(2) by (auto simp: good_layout_def)
  then have "read_vars EEPROM_BASE_MCCONF (mc_size L div 2) 0 (mem s) buf = (True, c)"
    using read_vars_found [of EEPROM_BASE_MCCONF c "mem s" buf] assms by (simp add: holds_def conf_consts)
  then show ?thesis by (simp add: conf_general_read_mc_configuration_def mc_base_def assms(5))
qed

lemma holds_last:
  "unat base + length c div 2 \<le> 65536 \<Longrightarrow> holds (f ++ block_map base (vars_of c)) base c"
  by (auto simp: holds_def map_add_def block_map_iff)

lemma holds_other:
  assumes "holds f base c" and "unat b2 + length ds \<le> 65536"
    and "block base (length c div 2) \<inter> block b2 (length ds) = {}"
  shows "holds (f ++ block_map b2 ds) base c"
proof -
  have "block_map b2 ds v = None" if "v \<in> block base (length c div 2)" for v
    using that assms(2,3) by (auto simp: block_map_iff)
  then show ?thesis using assms(1) by (simp add: holds_def map_add_def)
qed

section \<open>Storing that is interrupted\<close>

lemma init_at_rest:
  assumes "at_rest tab (mem t)" and "good t"
  shows "fst (EE_Init tab t) = FLASH_COMPLETE" and "good (snd (EE_Init tab t))"
    and "at_rest tab (mem (snd (EE_Init tab t)))" and "ee_store (mem (snd (EE_Init tab t))) = ee_store (mem t)"
proof -
  obtain p ep where r: "ready (mem t) p ep" "dom (ee_map ep) \<subseteq> set tab" "ee_store (mem t) = ee_map ep"
    using assms(1) by (rule at_restE)
  note i = init_ready [OF r(1) assms(2), of tab]
  then show "fst (EE_Init tab t) = FLASH_COMPLETE" "good (snd (EE_Init tab t))"
    "at_rest tab (mem (snd (EE_Init tab t)))"
    using r(2) unfolding at_rest_def by blast+
  show "ee_store (mem (snd (EE_Init tab t))) = ee_store (mem t)"
    using i r(3) ee_store_ready by metis
qed

lemma write_vars_cut:
  assumes "at_rest tab (mem s)" and "good_tab tab" and "block a (length ds) \<subseteq> set tab"
    and "good t" and "mem t = mem (snd (write_vars (EE_WriteVariable tab) a ds s))"
  shows "fst (EE_Init tab t) = FLASH_COMPLETE \<and> at_rest tab (mem (snd (EE_Init tab t))) \<and>
    (\<forall>v. ee_store (mem (snd (EE_Init tab t))) v = ee_store (mem s) v \<or>
      (\<exists>i < length ds. v = a + word_of_nat i \<and> ee_store (mem (snd (EE_Init tab t))) v = Some (ds ! i)))"
  using assms
proof (induction ds arbitrary: a s)
  case Nil
  then show ?case using init_at_rest [of tab t] by simp
next
  case (Cons d ds)
  have a: "a \<in> set tab" "block (a + 1) (length ds) \<subseteq> set tab"
    using Cons.prems(3) by (simp_all add: block_Suc)
  let ?r = "EE_WriteVariable tab a d s"
  show ?case
  proof (cases "fst ?r = FLASH_COMPLETE")
    case False
    then have "mem t = mem (snd ?r)"
      using Cons.prems(5) by (simp add: case_prod_beta Let_def)
    note rec = recover [OF Cons.prems(1,2) a(1) Cons.prems(4) this]
    then have "ee_store (mem (snd (EE_Init tab t))) v = ee_store (mem s) v \<or>
        v = a \<and> ee_store (mem (snd (EE_Init tab t))) v = Some d" for v
      by (cases "v = a") auto
    then show ?thesis using rec by fastforce
  next
    case True
    then have r: "?r = (FLASH_COMPLETE, snd ?r)" by (simp add: prod_eq_iff)
    note c = completed_write [OF Cons.prems(1,2) a(1) r]
    have "mem t = mem (snd (write_vars (EE_WriteVariable tab) (a + 1) ds (snd ?r)))"
      using Cons.prems(5) True by (simp add: case_prod_beta Let_def)
    note ih = Cons.IH [OF conjunct1 [OF c] Cons.prems(2) a(2) Cons.prems(4) this]
    have "ee_store (mem (snd (EE_Init tab t))) v = ee_store (mem s) v \<or>
      (\<exists>i < length (d # ds). v = a + word_of_nat i \<and> ee_store (mem (snd (EE_Init tab t))) v = Some ((d # ds) ! i))" for v
    proof -
      from ih consider "ee_store (mem (snd (EE_Init tab t))) v = ((ee_store (mem s))(a \<mapsto> d)) v"
        | i where "i < length ds" "v = a + 1 + word_of_nat i" "ee_store (mem (snd (EE_Init tab t))) v = Some (ds ! i)"
        using c by metis
      then show ?thesis
      proof cases
        case 1
        then show ?thesis by (cases "v = a") auto
      next
        case 2
        then show ?thesis by (intro disjI2 exI [of _ "Suc i"]) simp
      qed
    qed
    then show ?thesis using ih by blast
  qed
qed

section \<open>Initialisation\<close>

lemma general_init_reads:
  assumes "script t = []" and "motor_stops t" and "good_layout L" and "at_rest (conf_tab L) (mem t)"
    and "length (g_backup t) = backup_size"
  defines "b \<equiv> read_vars EEPROM_BASE_BACKUP (backup_size div 2) 0 (mem (snd (EE_Init (conf_tab L)
      (FLASH_Unlock (t\<lparr>VirtAddVarTab := conf_tab L\<rparr>))))) (replicate backup_size 0)"
    and "r \<equiv> conf_general_init L t"
  shows "conf_ok L r" and "g_backup r = set_backup_flags (if fst b then snd b else recover_backup L (g_backup t))"
    and "faults r = faults t" and "ee_store (mem r) = ee_store (mem t) ++ block_map EEPROM_BASE_BACKUP (vars_of (g_backup r))"
proof -
  let ?t = "FLASH_Unlock (t\<lparr>VirtAddVarTab := conf_tab L\<rparr>)"
  let ?i = "snd (EE_Init (conf_tab L) ?t)"
  have "good ?t" "at_rest (conf_tab L) (mem ?t)"
    using assms(1,4) by (simp_all add: good_def FLASH_Unlock_def)
  note i = init_at_rest [OF this(2,1)]
  note f = ee_frame_fields [OF ee_frame_init [of ?t "conf_tab L"]] ee_frame_conf [OF ee_frame_init [of ?t "conf_tab L"]]
  let ?g = "set_backup_flags (if fst b then snd b else recover_backup L (g_backup t))"
  let ?u = "(FLASH_Lock ?i)\<lparr>g_backup := ?g\<rparr>"
  have r: "r = snd (conf_general_store_backup_data ?u)"
    using f by (simp add: r_def conf_general_init_def b_def Let_def case_prod_beta FLASH_Lock_def if_distrib)
  have "conf_ok L ?u"
    using i f assms(1,2) by (simp add: conf_ok_def good_def FLASH_Lock_def b_def FLASH_Unlock_def)
  note s = store_backup_spec [OF this assms(3)]
  show "conf_ok L r" "g_backup r = ?g" "faults r = faults t"
    using s f by (simp_all add: r FLASH_Lock_def)
  show "ee_store (mem r) = ee_store (mem t) ++ block_map EEPROM_BASE_BACKUP (vars_of (g_backup r))"
    using s(3,5) i(4) by (simp add: r FLASH_Lock_def)
qed

lemma user_addr:
  assumes "0 \<le> address" and "address < 256" and "base = EEPROM_BASE_HW \<and> address < 32 \<or> base = EEPROM_BASE_CUSTOM"
  shows "unat (base + word_of_int address * 2) = unat base + 2 * nat address"
    and "block (base + word_of_int address * 2) 2 \<subseteq> used_addrs L"
    and "v \<in> block (base + word_of_int address * 2) 2 \<longleftrightarrow>
      unat base + 2 * nat address \<le> unat v \<and> unat v < unat base + 2 * nat address + 2"
proof -
  define n where "n = nat address"
  have n: "n < 256" "word_of_int address = word_of_nat n"
    using assms by (simp_all add: n_def)
  have b: "unat base \<le> 4000" using assms(3) by (auto simp: conf_consts)
  have "base + word_of_int address * 2 = base + word_of_nat (2 * n)" by (simp add: n(2) mult.commute)
  moreover have "unat (base + word_of_nat (2 * n)) = unat base + 2 * n"
    using b n(1) by (simp add: unat_word_ariths unsigned_of_nat take_bit_eq_mod)
  ultimately show u: "unat (base + word_of_int address * 2) = unat base + 2 * nat address"
    by (simp add: n_def)
  show iff: "v \<in> block (base + word_of_int address * 2) 2 \<longleftrightarrow>
      unat base + 2 * nat address \<le> unat v \<and> unat v < unat base + 2 * nat address + 2" for v
    using b n(1) by (subst block_iff) (simp_all add: u n_def [symmetric])
  show "block (base + word_of_int address * 2) 2 \<subseteq> used_addrs L"
  proof
    fix v assume "v \<in> block (base + word_of_int address * 2) 2"
    then have "v \<in> block EEPROM_BASE_HW 64 \<or> v \<in> block EEPROM_BASE_CUSTOM 512"
      using assms unfolding iff by (auto simp: block_bounds) (auto simp: conf_consts)
    then show "v \<in> used_addrs L" by (auto simp: used_addrs_def)
  qed
qed

lemma halves: "(push_bit 16 (ucast (ucast (drop_bit 16 v) :: u16)) OR ucast (ucast (v AND 0xFFFF) :: u16) :: u32) = v"
proof -
  have m: "(0xFFFF :: u32) = mask 16" by (simp add: mask_eq_exp_minus_1)
  show ?thesis unfolding m by (rule bit_word_eqI) (auto simp: bit_simps dest: bit_imp_le_length)
qed

lemma store_var_spec:
  fixes v :: u32
  assumes "conf_ok L s" and "good_layout L" and "0 \<le> address" and "address < 256"
    and "base = EEPROM_BASE_HW \<and> address < 32 \<or> base = EEPROM_BASE_CUSTOM"
  defines "r \<equiv> store_eeprom_var v address base s" and "ds \<equiv> [ucast (drop_bit 16 v), ucast (v AND 0xFFFF)]"
  shows "fst r" and "conf_ok L (snd r)" and "g_backup (snd r) = g_backup s" and "faults (snd r) = faults s"
    and "ee_store (mem (snd r)) = ee_store (mem s) ++ block_map (base + word_of_int address * 2) ds"
proof -
  have "r = store_block (base + word_of_int address * 2) ds s"
    using assms(1) by (simp add: r_def ds_def store_eeprom_var_def store_block_def Let_def conf_ok_def
        mc_interface_wait_for_motor_release_both_def del: write_vars.simps)
  moreover have "block (base + word_of_int address * 2) (length ds) \<subseteq> used_addrs L"
    using user_addr(2) [OF assms(3-5)] by (simp add: ds_def numeral_2_eq_2)
  note b = store_block_spec [OF assms(1,2) this]
  ultimately show "fst r" "conf_ok L (snd r)" "g_backup (snd r) = g_backup s" "faults (snd r) = faults s"
    "ee_store (mem (snd r)) = ee_store (mem s) ++ block_map (base + word_of_int address * 2) ds"
    using b by simp_all
qed

text \<open>A variable whose two halves are in the store.\<close>

definition holds_var :: "(u16 \<Rightarrow> u16 option) \<Rightarrow> u16 \<Rightarrow> int \<Rightarrow> u32 \<Rightarrow> bool" where
  "holds_var f base address v = (f (base + word_of_int address * 2) = Some (ucast (drop_bit 16 v)) \<and>
     f (base + word_of_int address * 2 + 1) = Some (ucast (v AND 0xFFFF)))"

lemma ee_storeD: "ee_store m a = Some d \<Longrightarrow> EE_ReadVariable a 0 m = (0, d)"
  by (cases "EE_ReadVariable a 0 m") (simp add: ee_store_def split: if_splits)

lemma read_var_holds: "holds_var (ee_store (mem s)) base address v \<Longrightarrow> read_eeprom_var address base s = Some v"
  by (auto simp: holds_var_def read_eeprom_var_def Let_def mult.commute dest!: ee_storeD intro: halves)

lemma holds_var_stored:
  "holds_var (f ++ block_map (base + word_of_int address * 2) [ucast (drop_bit 16 v), ucast (v AND 0xFFFF)]) base address v"
  by (simp add: holds_var_def map_add_def)

lemma holds_var_other:
  assumes "holds_var f base address v" and "unat b2 + length ds \<le> 65536"
    and "block (base + word_of_int address * 2) 2 \<inter> block b2 (length ds) = {}"
  shows "holds_var (f ++ block_map b2 ds) base address v"
proof -
  have "base + word_of_int address * 2 \<notin> block b2 (length ds)" "base + word_of_int address * 2 + 1 \<notin> block b2 (length ds)"
    using assms(3) by (auto simp: block_Suc numeral_2_eq_2)
  then show ?thesis using assms(1,2) by (simp add: holds_var_def map_add_def block_map_iff)
qed

lemma power_cycle:
  assumes "conf_ok L s" and "good_layout L" and "mem t = mem s" and "script t = []" and "motor_stops t"
    and "length (g_backup t) = backup_size"
  shows "conf_ok L (conf_general_init L t)" and "faults (conf_general_init L t) = faults t"
    and "ee_store (mem (conf_general_init L t)) = ee_store (mem s) ++
      block_map EEPROM_BASE_BACKUP (vars_of (g_backup (conf_general_init L t)))"
    and "length (g_backup (conf_general_init L t)) = backup_size"
    and "holds (ee_store (mem s)) EEPROM_BASE_BACKUP g \<Longrightarrow> length g = backup_size \<Longrightarrow>
      g_backup (conf_general_init L t) = set_backup_flags g"
proof -
  have r: "at_rest (conf_tab L) (mem t)" using assms(1,3) by (simp add: conf_ok_def)
  note i = general_init_reads [OF assms(4,5,2) r assms(6)]
  show "conf_ok L (conf_general_init L t)" "faults (conf_general_init L t) = faults t"
    "ee_store (mem (conf_general_init L t)) = ee_store (mem s) ++
      block_map EEPROM_BASE_BACKUP (vars_of (g_backup (conf_general_init L t)))"
    using i assms(3) by simp_all
  then show "length (g_backup (conf_general_init L t)) = backup_size" by (simp add: conf_ok_def)
  show "g_backup (conf_general_init L t) = set_backup_flags g"
    if h: "holds (ee_store (mem s)) EEPROM_BASE_BACKUP g" "length g = backup_size"
  proof -
    let ?t = "FLASH_Unlock (t\<lparr>VirtAddVarTab := conf_tab L\<rparr>)"
    have "good ?t" "at_rest (conf_tab L) (mem ?t)" using assms(4) r by (simp_all add: good_def FLASH_Unlock_def)
    note e = init_at_rest(4) [OF this(2,1)]
    have "read_vars EEPROM_BASE_BACKUP (length g div 2) 0 (mem (snd (EE_Init (conf_tab L) ?t))) (replicate backup_size 0) = (True, g)"
      by (rule read_vars_found) (use h e assms(3) in \<open>simp_all add: holds_def conf_consts\<close>)
    then show ?thesis using i(2) h(2) by simp
  qed
qed

lemma blocks_apart:
  assumes "good_layout L"
  shows "block EEPROM_BASE_MCCONF (mc_size L div 2) \<inter> block EEPROM_BASE_APPCONF (app_size L div 2) = {}"
    and "block EEPROM_BASE_MCCONF (mc_size L div 2) \<inter> block EEPROM_BASE_BACKUP 264 = {}"
    and "block EEPROM_BASE_APPCONF (app_size L div 2) \<inter> block EEPROM_BASE_BACKUP 264 = {}"
    and "0 \<le> address \<Longrightarrow> address < 256 \<Longrightarrow> base = EEPROM_BASE_HW \<and> address < 32 \<or> base = EEPROM_BASE_CUSTOM \<Longrightarrow>
      block (base + word_of_int address * 2) 2 \<inter> block EEPROM_BASE_MCCONF (mc_size L div 2) = {} \<and>
      block (base + word_of_int address * 2) 2 \<inter> block EEPROM_BASE_APPCONF (app_size L div 2) = {} \<and>
      block (base + word_of_int address * 2) 2 \<inter> block EEPROM_BASE_BACKUP 264 = {}"
proof -
  have "mc_size L div 2 \<le> 1000" "app_size L div 2 \<le> 1000" using assms by (auto simp: good_layout_def)
  then show "block EEPROM_BASE_MCCONF (mc_size L div 2) \<inter> block EEPROM_BASE_APPCONF (app_size L div 2) = {}"
    "block EEPROM_BASE_MCCONF (mc_size L div 2) \<inter> block EEPROM_BASE_BACKUP 264 = {}"
    "block EEPROM_BASE_APPCONF (app_size L div 2) \<inter> block EEPROM_BASE_BACKUP 264 = {}"
    by (auto simp: block_bounds)
  assume a: "0 \<le> address" "address < 256" "base = EEPROM_BASE_HW \<and> address < 32 \<or> base = EEPROM_BASE_CUSTOM"
  have "3000 \<le> unat base + 2 * nat address \<and> unat base + 2 * nat address + 2 \<le> 4512"
    using a by (auto simp: conf_consts)
  then show "block (base + word_of_int address * 2) 2 \<inter> block EEPROM_BASE_MCCONF (mc_size L div 2) = {} \<and>
      block (base + word_of_int address * 2) 2 \<inter> block EEPROM_BASE_APPCONF (app_size L div 2) = {} \<and>
      block (base + word_of_int address * 2) 2 \<inter> block EEPROM_BASE_BACKUP 264 = {}"
    using \<open>mc_size L div 2 \<le> 1000\<close> \<open>app_size L div 2 \<le> 1000\<close>
    by (auto simp: block_bounds user_addr(3) [OF a])
qed

section \<open>Properties\<close>

text \<open>C39. Nothing that was stored is lost by switching off: on a device that works, after storing a
  motor configuration, an application configuration and a user variable, a power cycle (the
  flash stays, the rest of the memory is arbitrary) and the initialisation, reading gives back the
  motor configuration with its checksum, the application configuration as it was stored, the
  variable, and the backup data with the controller id and CAN baud rate of the application
  configuration, and no fault is recorded.\<close>

theorem conf_survives_power_cycle:
  fixes v :: u32
  assumes "conf_ok L s" and "good_layout L" and "length mc = mc_size L" and "length app = app_size L"
    and "0 \<le> address" and "address < 256"
    and "(ok1, mc', s1) = conf_general_store_mc_configuration L mc False s"
    and "(ok2, app', s2) = conf_general_store_app_configuration L app s1"
    and "(ok3, s3) = conf_general_store_eeprom_var_custom v address s2"
    and "mem t = mem s3" and "script t = []" and "motor_stops t" and "length (g_backup t) = backup_size"
    and "length buf1 = mc_size L" and "length buf2 = app_size L"
  defines "u \<equiv> conf_general_init L t"
  shows "ok1 \<and> ok2 \<and> ok3 \<and> conf_ok L u \<and>
    conf_general_read_mc_configuration L d1 buf1 False u = (put_u16 (mc_crc L) (mc_interface_calc_crc L mc) mc, u) \<and>
    conf_general_read_app_configuration L d2 buf2 u = (stored_app L app, u) \<and>
    conf_general_read_eeprom_var_custom address u = Some v \<and>
    g_backup u = set_backup_flags ((g_backup s)[off_can_id := app' ! app_id L, off_can_baud := app' ! app_baud L]) \<and>
    faults u = faults t"
proof -
  let ?mc = "put_u16 (mc_crc L) (mc_interface_calc_crc L mc) mc" and ?app = "stored_app L app"
  note m = store_mc_spec [OF assms(1-3), folded assms(7), simplified]
  note a = store_app_spec [OF m(3) assms(2,4), folded assms(8), simplified]
  have r3: "(ok3, s3) = store_eeprom_var v address EEPROM_BASE_CUSTOM s2"
    using assms(5,6,9) by (simp add: conf_general_store_eeprom_var_custom_def conf_consts)
  note w = store_var_spec [OF a(3) assms(2,5,6), of EEPROM_BASE_CUSTOM v, folded r3, simplified]
  note p = power_cycle [OF w(2) assms(2,10-13), folded u_def]
  have sz: "mc_size L div 2 \<le> 1000" "app_size L div 2 \<le> 1000" "length (g_backup s2) = backup_size"
    using assms(2) a(3) by (auto simp: good_layout_def conf_ok_def)
  note u = blocks_apart(4) [OF assms(2,5,6) disjI2 [OF refl]]
  note ap0 = blocks_apart(1-3) [OF assms(2)] u [THEN conjunct1] u [THEN conjunct2, THEN conjunct1]
    u [THEN conjunct2, THEN conjunct2]
  note ap = ap0 ap0 [THEN trans [OF Int_commute]]
  have lb: "unat EEPROM_BASE_BACKUP + 264 \<le> 65536" "unat EEPROM_BASE_APPCONF + app_size L div 2 \<le> 65536"
      "unat EEPROM_BASE_MCCONF + mc_size L div 2 \<le> 65536" "backup_size div 2 = 264"
    using sz by (simp_all add: conf_consts)
  have lv: "unat (EEPROM_BASE_CUSTOM + word_of_int address * 2) + 2 \<le> 65536"
  proof -
    have "unat EEPROM_BASE_CUSTOM = 4000" "nat address < 256" using assms(5,6) by (simp_all add: conf_consts)
    then show ?thesis using user_addr(1) [OF assms(5,6) disjI2 [OF refl]] by linarith
  qed
  define vs where "vs = [ucast (drop_bit 16 v) :: u16, ucast (v AND 0xFFFF)]"
  note w5 = store_var_spec(5) [OF a(3) assms(2,5,6) disjI2 [OF refl], of v, folded r3, unfolded snd_conv, folded vs_def]
  let ?f = "ee_store (mem s) ++ block_map EEPROM_BASE_MCCONF (vars_of ?mc)"
  have store: "ee_store (mem u) = ?f ++ block_map EEPROM_BASE_APPCONF (vars_of ?app)
      ++ block_map EEPROM_BASE_BACKUP (vars_of (g_backup s2)) ++ block_map (EEPROM_BASE_CUSTOM + word_of_int address * 2) vs
      ++ block_map EEPROM_BASE_BACKUP (vars_of (g_backup u))"
    unfolding p(3) w5 a(6) m(6) by simp
  have g3: "holds (ee_store (mem s3)) EEPROM_BASE_BACKUP (g_backup s2)"
    unfolding w5 a(6) using lb lv
    by (intro holds_other [OF holds_last]) (simp_all add: vs_def sz ap numeral_2_eq_2 [symmetric])
  have gu: "length (g_backup u) = backup_size" using p(4) .
  have hm: "holds (ee_store (mem u)) EEPROM_BASE_MCCONF ?mc"
    unfolding store using lb lv
    by (intro holds_other [OF holds_other [OF holds_other [OF holds_other [OF holds_last]]]])
      (simp_all add: assms(3,4) vs_def ap sz gu numeral_2_eq_2 [symmetric])
  have ha: "holds (ee_store (mem u)) EEPROM_BASE_APPCONF ?app"
    unfolding store using lb lv
    by (intro holds_other [OF holds_other [OF holds_other [OF holds_last]]])
      (simp_all add: assms(3,4) vs_def ap sz gu numeral_2_eq_2 [symmetric])
  have hv: "holds_var (ee_store (mem u)) EEPROM_BASE_CUSTOM address v"
    unfolding store vs_def using lb lv
    by (intro holds_var_other [OF holds_var_stored]) (simp_all add: assms(3,4) ap sz gu)
  have fits: "mc_crc L + 2 \<le> length mc" "app_crc L + 2 \<le> length app"
    using assms(2-4) by (simp_all add: good_layout_def)
  have "conf_general_read_mc_configuration L d1 buf1 False u = (?mc, u)"
    by (rule read_mc_holds [OF hm assms(2)])
      (use fits assms(3,14) in \<open>simp_all add: get_put_u16 mc_interface_calc_crc_def put_put_u16\<close>)
  moreover have "conf_general_read_app_configuration L d2 buf2 u = (?app, u)"
    by (rule read_app_holds [OF ha assms(2)]) (use fits assms(4,15) in \<open>simp_all add: stored_app_crc\<close>)
  moreover have "conf_general_read_eeprom_var_custom address u = Some v"
    using read_var_holds [OF hv] assms(5,6) by (simp add: conf_general_read_eeprom_var_custom_def conf_consts)
  moreover have "g_backup u = set_backup_flags (g_backup s2)"
    using p(5) [OF g3] sz(3) by simp
  ultimately show ?thesis
    using m a w p by simp
qed

text \<open>A device for the witnesses: formatted flash, nothing stored.\<close>

definition layout0 :: layout where
  "layout0 = \<lparr>mc_size = 6, mc_crc = 4, app_size = 8, app_crc = 6, app_id = 0, app_baud = 1, app_can_mode = 2,
     enum_size = 1, boot_vesc_can = False, default_baud = 2, default_id = 7\<rparr>"

definition device :: "(nat \<Rightarrow> u8) \<Rightarrow> conf" where
  "device m = \<lparr>mem = m, script = [], flash_locked = True, sys_lock_cnt = 0, sys_locked = False, init_done = True,
     iwdt = (4, 140), sampling_disabled = False, ignore_input = 0, motor_stops = True,
     motor_override_released = False, DataVar = 0, VirtAddVarTab = conf_tab layout0,
     g_backup = replicate 528 0, faults = []\<rparr>"

definition flash0 :: "nat \<Rightarrow> u8" where "flash0 = mem (snd (EE_Init (conf_tab layout0) ee_blank))"

lemma layout0 [simp]: "good_layout layout0"
  by (simp add: good_layout_def layout0_def NB_OF_VAR_def conf_consts)

lemma layout0_sizes [simp]: "mc_size layout0 = 6" "app_size layout0 = 8" "boot_vesc_can layout0 = False"
  by (simp_all add: layout0_def)

lemma device_fields [simp]:
  "mem (device m) = m" "script (device m) = []" "motor_stops (device m)" "g_backup (device m) = replicate 528 0"
  "faults (device m) = []" "VirtAddVarTab (device m) = conf_tab layout0" "idle (device m)"
  by (simp_all add: device_def idle_def)

lemma flash0: "at_rest (conf_tab layout0) flash0" "ee_store flash0 = Map.empty"
  using formatted [of "conf_tab layout0"] by (simp_all add: flash0_def)

lemma device_ok: "conf_ok layout0 (device flash0)"
  by (simp add: conf_ok_def flash0 backup_size_def)

theorem conf_survives_power_cycle_witness:
  "let (ok1, mc', s1) = conf_general_store_mc_configuration layout0 [1, 2, 3, 4, 0, 0] False (device flash0);
       (ok2, app', s2) = conf_general_store_app_configuration layout0 [9, 2, 0, 4, 5, 6, 0, 0] s1;
       (ok3, s3) = conf_general_store_eeprom_var_custom 77 3 s2;
       u = conf_general_init layout0 (device (mem s3)) in
   ok1 \<and> ok2 \<and> ok3 \<and> conf_general_read_eeprom_var_custom 3 u = Some 77 \<and> faults u = []"
proof -
  obtain ok1 mc' s1 where 1: "conf_general_store_mc_configuration layout0 [1, 2, 3, 4, 0, 0] False (device flash0) = (ok1, mc', s1)"
    by (metis prod_cases3)
  obtain ok2 app' s2 where 2: "conf_general_store_app_configuration layout0 [9, 2, 0, 4, 5, 6, 0, 0] s1 = (ok2, app', s2)"
    by (metis prod_cases3)
  obtain ok3 s3 where 3: "conf_general_store_eeprom_var_custom 77 3 s2 = (ok3, s3)" by fastforce
  show ?thesis
    using conf_survives_power_cycle [OF device_ok layout0 _ _ _ _ 1 [symmetric] 2 [symmetric] 3 [symmetric],
        of "device (mem s3)" "replicate 6 0" "replicate 8 0"]
    by (simp add: 1 2 3 backup_size_def)
qed

text \<open>C40. Storing a motor configuration is safe from power loss between flash operations and from operations that fail: whichever
  of the operations of the store are carried out, fail or are cut off, the next start-up, provided that it runs through on
  working flash before anything else is stored, finds every variable outside the configuration as it was (the
  application configuration, the backup data, the user variables) and every variable of the
  configuration with its old or its new value; the checksum then decides between them. Until that start-up there may be
  no valid page. A cut inside the erase of a page swap is not covered: as the comment in front of
  \<^verbatim>\<open>conf_general_store_backup_data\<close> warns, it can lose everything (\<open>torn_erase_loses_all\<close> in Eeprom_Store).\<close>

theorem conf_store_mc_power_loss:
  assumes "VirtAddVarTab s = conf_tab L" and "at_rest (conf_tab L) (mem s)" and "good_layout L" and "length mc = mc_size L"
    and "good t" and "mem t = mem (snd (snd (conf_general_store_mc_configuration L mc False s)))"
  defines "m \<equiv> mem (snd (EE_Init (conf_tab L) t))" and "c \<equiv> put_u16 (mc_crc L) (mc_interface_calc_crc L mc) mc"
  shows "fst (EE_Init (conf_tab L) t) = FLASH_COMPLETE \<and> at_rest (conf_tab L) m \<and>
    (\<forall>v. ee_store m v = ee_store (mem s) v \<or>
      (\<exists>i < mc_size L div 2. v = EEPROM_BASE_MCCONF + word_of_nat i \<and> ee_store m v = Some (vars_of c ! i)))"
proof (cases "motor_stops s")
  case False
  then have "mem t = mem s"
    using assms(6) by (simp add: conf_general_store_mc_configuration_def mc_interface_wait_for_motor_release_both_def Let_def)
  then show ?thesis
    using init_at_rest [of "conf_tab L" t] assms(2,5) by (simp add: m_def)
next
  case True
  let ?s = "FLASH_Unlock (flash_enter (stop_motor s))"
  have "mem t = mem (snd (write_vars (EE_WriteVariable (conf_tab L)) EEPROM_BASE_MCCONF (vars_of c) ?s))"
    using assms(6) True by (simp add: conf_general_store_mc_configuration_def Let_def case_prod_beta assms(1)
        mc_interface_wait_for_motor_release_both_def mc_base_def c_def)
  moreover have "block EEPROM_BASE_MCCONF (length (vars_of c)) \<subseteq> set (conf_tab L)"
    using set_conf_tab(1) [of L] by (auto simp: c_def assms(4) used_addrs_def)
  ultimately show ?thesis
    using write_vars_cut [of "conf_tab L" ?s EEPROM_BASE_MCCONF "vars_of c" t] assms(2,4,5) good_conf_tab [OF assms(3)]
    by (simp add: m_def c_def)
qed

theorem conf_store_mc_power_loss_witness:
  "let s = (device flash0)\<lparr>script := [Done, PowerCut]\<rparr>;
       t = ee_blank\<lparr>mem := mem (snd (snd (conf_general_store_mc_configuration layout0 [1, 2, 3, 4, 0, 0] False s)))\<rparr>
   in fst (EE_Init (conf_tab layout0) t) = FLASH_COMPLETE"
  using conf_store_mc_power_loss [of "(device flash0)\<lparr>script := [Done, PowerCut]\<rparr>" layout0 "[1, 2, 3, 4, 0, 0]"
      "ee_blank\<lparr>mem := mem (snd (snd (conf_general_store_mc_configuration layout0 [1, 2, 3, 4, 0, 0] False
        ((device flash0)\<lparr>script := [Done, PowerCut]\<rparr>))))\<rparr>"] flash0
  by (simp add: good_def ee_blank_def)

lemma idle_frame: "ee_frame s t \<Longrightarrow> busy t = busy s"
  using ee_frame_fields [of s t] by (simp add: busy_def)

lemma idle_stop_motor [simp]: "idle (stop_motor s) = idle s"
  by (simp add: idle_def guard_defs)

lemma busy_unlock [simp]: "busy (FLASH_Unlock s) = busy s"
  by (simp add: busy_def guard_defs)

lemma idle_g_backup [simp]: "idle (s\<lparr>g_backup := b\<rparr>) = idle s"
  by (simp add: idle_def)

lemma idle_block:
  "idle s \<Longrightarrow> idle (flash_leave t (snd (write_vars (EE_WriteVariable tab) a ds (FLASH_Unlock (flash_enter (stop_motor s))))))"
  using idle_frame [OF ee_frame_write_vars [of "FLASH_Unlock (flash_enter (stop_motor s))" tab a ds]]
  by (auto intro!: idle_leave busy_enter)

lemma idle_store_backup: "idle s \<Longrightarrow> idle (snd (conf_general_store_backup_data s))"
  by (simp add: conf_general_store_backup_data_def Let_def case_prod_beta idle_block)

text \<open>Every store operation leaves the machine as it found it, on every branch and for every
  flash error: the kernel lock released, the watchdog fast again and the shutdown button sampled.\<close>

theorem conf_stores_guarded:
  assumes "idle s"
  shows "idle (snd (conf_general_store_backup_data s)) \<and>
    idle (snd (conf_general_store_eeprom_var_hw v a s)) \<and> idle (snd (conf_general_store_eeprom_var_custom v a s)) \<and>
    idle (snd (snd (conf_general_store_app_configuration L app s))) \<and>
    idle (snd (snd (conf_general_store_mc_configuration L mc is_motor_2 s)))"
  using assms idle_store_backup
  by (simp add: conf_general_store_eeprom_var_hw_def conf_general_store_eeprom_var_custom_def store_eeprom_var_def
      conf_general_store_app_configuration_def conf_general_store_mc_configuration_def Let_def case_prod_beta idle_block
      del: write_vars.simps)

theorem conf_stores_guarded_witness:
  "idle (snd (conf_general_store_eeprom_var_hw 5 3 ((device flash0)\<lparr>script := [Failed ERR_WRP False]\<rparr>)))"
  by (rule conf_stores_guarded [THEN conjunct2, THEN conjunct1]) (simp add: idle_def device_def)

text \<open>A motor that does not come to rest: the configurations and the backup data are refused, but
  the user variables are reported as stored although the flash is not touched.\<close>

theorem conf_store_motor_running:
  assumes "\<not> motor_stops s" and "0 \<le> a" and "a < 32"
  shows "fst (conf_general_store_eeprom_var_hw v a s) \<and> mem (snd (conf_general_store_eeprom_var_hw v a s)) = mem s \<and>
    \<not> fst (conf_general_store_backup_data s) \<and> \<not> fst (conf_general_store_app_configuration L app s) \<and>
    \<not> fst (conf_general_store_mc_configuration L mc is_motor_2 s)"
  using assms by (simp add: conf_general_store_eeprom_var_hw_def store_eeprom_var_def conf_general_store_backup_data_def
      conf_general_store_app_configuration_def conf_general_store_mc_configuration_def Let_def conf_consts
      mc_interface_wait_for_motor_release_both_def)

theorem conf_store_motor_running_witness:
  "let s = (device flash0)\<lparr>motor_stops := False\<rparr> in
   fst (conf_general_store_eeprom_var_hw 5 3 s) \<and> conf_general_read_eeprom_var_hw 3 (snd (conf_general_store_eeprom_var_hw 5 3 s)) = None"
proof -
  have "EE_ReadVariable a 0 flash0 = (0, d) \<Longrightarrow> a \<noteq> ERASED \<Longrightarrow> False" for a d
    using arg_cong [OF flash0(2), of "\<lambda>f. f a"] by (simp add: ee_store_def)
  from this [of 3006] have "fst (EE_ReadVariable 3006 0 flash0) \<noteq> 0"
    by (cases "EE_ReadVariable 3006 0 flash0") (auto simp: ERASED_def)
  then show ?thesis
    using conf_store_motor_running [of "(device flash0)\<lparr>motor_stops := False\<rparr>" 3 5]
    by (simp add: conf_general_read_eeprom_var_hw_def read_eeprom_var_def Let_def case_prod_beta conf_consts)
qed

lemma mc2_not_in_table:
  assumes "good_layout L" and "v \<in> block EEPROM_BASE_MCCONF_2 (mc_size L div 2)"
  shows "v \<notin> set (conf_tab L)"
proof -
  have "mc_size L div 2 \<le> 1000" using assms(1) by (auto simp: good_layout_def)
  with assms(2) have v: "5000 \<le> unat v" "unat v < 6000" by (simp_all add: block_bounds)
  then have "v \<noteq> 0" "v \<notin> used_addrs L" using assms(1) by (auto simp: used_addr_bounds good_layout_def)
  then show ?thesis using set_conf_tab(2) [of L] by blast
qed

text \<open>The second motor's configuration does not survive a page swap: its variables are not in
  the table, so that the write of any variable of the table that meets a full page (here one
  without further failures) removes them, and reading the configuration gives the defaults.\<close>

theorem conf_motor_2_lost:
  assumes "good s" and "ready (mem s) p ep" and "length ep = 4095" and "good_layout L" and "va \<in> used_addrs L"
    and "ee_store (mem s) va \<noteq> Some d" and "mem t = mem (snd (EE_WriteVariable (conf_tab L) va d s))"
  shows "fst (conf_general_read_mc_configuration L set_defaults buf True t) = set_defaults buf"
proof -
  have va: "va \<in> set (conf_tab L)" using assms(5) set_conf_tab(1) by blast
  have "va \<noteq> ERASED" using good_tabD(1) [OF good_conf_tab [OF assms(4)] va] .
  note e = ee_full_page_keeps_table [OF assms(1-3) this good_conf_tab [OF assms(4)] assms(6)]
  have n: "0 < mc_size L div 2" "mc_size L div 2 \<le> 1000" using assms(4) by (auto simp: good_layout_def)
  then have "EEPROM_BASE_MCCONF_2 \<in> block EEPROM_BASE_MCCONF_2 (mc_size L div 2)"
    by (simp add: block_bounds) (simp add: conf_consts)
  from mc2_not_in_table [OF assms(4) this] have "EEPROM_BASE_MCCONF_2 \<notin> set (conf_tab L)" .
  then have "ee_store (mem t) EEPROM_BASE_MCCONF_2 = None"
    using e va by (auto simp: assms(7) restrict_map_def)
  moreover have "EEPROM_BASE_MCCONF_2 \<noteq> ERASED" by (simp add: conf_consts ERASED_def)
  ultimately have "fst (EE_ReadVariable EEPROM_BASE_MCCONF_2 0 (mem t)) \<noteq> 0"
    by (auto simp: ee_store_def case_prod_beta Let_def split: if_splits)
  then have "read_vars EEPROM_BASE_MCCONF_2 (mc_size L div 2) 0 (mem t) buf = (False, buf)"
    using n(1) by (cases "mc_size L div 2") (simp_all add: case_prod_beta Let_def)
  then show ?thesis
    by (simp add: conf_general_read_mc_configuration_def mc_base_def Let_def)
qed

theorem conf_motor_2_lost_witness:
  "fst (conf_general_read_mc_configuration layout0 (\<lambda>_. [0]) [1] True
     ((device full_page)\<lparr>mem := mem (snd (EE_WriteVariable (conf_tab layout0) 3000 5 (ee_blank\<lparr>mem := full_page\<rparr>)))\<rparr>)) = [0]"
proof (rule conf_motor_2_lost [where d = 5, OF _ _ length_replicate])
  show "ready (mem (ee_blank\<lparr>mem := full_page\<rparr>)) 0 (replicate 4095 (0x0101, 0x0101))"
    using full_page_ready by simp
  have "ee_store full_page 3000 = ee_map (replicate 4095 (0x0101, 0x0101)) 3000"
    by (simp add: ee_store_ready [OF full_page_ready])
  also have "\<dots> = None" by (simp add: full_page_map)
  finally show "ee_store (mem (ee_blank\<lparr>mem := full_page\<rparr>)) 3000 \<noteq> Some 5" by simp
qed (simp_all add: good_def ee_blank_def used_addr_bounds)

section \<open>Recovering the backup data from RAM\<close>

lemma nth_copy_field:
  assumes "length src = length b" and "i + n \<le> length b"
  shows "copy_field i n src b ! j = (if i \<le> j \<and> j < i + n then src ! j else b ! j)"
  using assms by (auto simp: copy_field_def nth_put)

lemma nth_put_u32: "j < i \<or> i + 4 \<le> j \<Longrightarrow> put_u32 i v b ! j = b ! j"
  by (auto simp: put_u32_def nth_put simp del: put.simps)

lemma nth_set_flags:
  assumes "4 \<le> j \<and> j < 12 \<or> 16 \<le> j \<and> j < 24 \<or> 28 \<le> j \<and> j < 156 \<or> 160 \<le> j \<and> j < 521 \<or> 525 \<le> j"
  shows "set_backup_flags b ! j = b ! j"
  unfolding set_backup_flags_def off_odometer_flag_def off_runtime_flag_def off_hw_flag_def off_enc_flag_def off_can_flag_def
  using assms by (elim disjE; simp add: nth_put_u32)

lemmas backup_offsets = off_odometer_def off_runtime_def off_hw_config_def off_enc_en_def off_enc_corr_def
  off_can_baud_def off_can_id_def backup_size_def

lemma nth_recover:
  assumes "length g = backup_size"
  shows "4 \<le> j \<Longrightarrow> j < 12 \<Longrightarrow>
      recover_backup L g ! j = (if get_u32 g off_odometer_flag = BACKUP_VAR_INIT_CODE then g ! j else 0)"
    and "16 \<le> j \<Longrightarrow> j < 24 \<Longrightarrow>
      recover_backup L g ! j = (if get_u32 g off_runtime_flag = BACKUP_VAR_INIT_CODE then g ! j else 0)"
    and "28 \<le> j \<Longrightarrow> j < 156 \<Longrightarrow>
      recover_backup L g ! j = (if get_u32 g off_hw_flag = BACKUP_VAR_INIT_CODE then g ! j else 0)"
    and "160 \<le> j \<Longrightarrow> j < 521 \<Longrightarrow>
      recover_backup L g ! j = (if get_u32 g off_enc_flag = BACKUP_VAR_INIT_CODE then g ! j else 0)"
    and "recover_backup L g ! off_can_baud =
      (if get_u32 g off_can_flag = BACKUP_VAR_INIT_CODE then g ! off_can_baud else default_baud L)"
    and "recover_backup L g ! off_can_id =
      (if get_u32 g off_can_flag = BACKUP_VAR_INIT_CODE then g ! off_can_id else default_id L)"
  using assms by (simp_all add: recover_backup_def Let_def nth_copy_field backup_offsets)

lemma slice_eq:
  assumes "i + n \<le> length b" and "\<And>j. i \<le> j \<Longrightarrow> j < i + n \<Longrightarrow> b ! j = (if P then g ! j else 0)" and "length g = length b"
  shows "take n (drop i b) = (if P then take n (drop i g) else replicate n 0)"
  by (rule nth_equalityI) (use assms in auto)

text \<open>When the EEPROM holds no backup data (the first start after programming), the
  initialisation keeps of the RAM exactly the parts whose marker is intact: odometer, runtime,
  hardware configuration and encoder correction are those of the RAM or zero, the CAN settings
  those of the RAM or the defaults; and all of it is in the EEPROM afterwards.\<close>

theorem conf_init_recovers_ram:
  assumes "script t = []" and "motor_stops t" and "good_layout L" and "at_rest (conf_tab L) (mem t)"
    and "length (g_backup t) = backup_size" and "ee_store (mem t) EEPROM_BASE_BACKUP = None"
  defines "g \<equiv> g_backup t" and "u \<equiv> conf_general_init L t"
  defines "b \<equiv> g_backup u"
  shows "take 8 (drop off_odometer b) = (if get_u32 g off_odometer_flag = BACKUP_VAR_INIT_CODE
       then take 8 (drop off_odometer g) else replicate 8 0) \<and>
    take 8 (drop off_runtime b) = (if get_u32 g off_runtime_flag = BACKUP_VAR_INIT_CODE
       then take 8 (drop off_runtime g) else replicate 8 0) \<and>
    take 128 (drop off_hw_config b) = (if get_u32 g off_hw_flag = BACKUP_VAR_INIT_CODE
       then take 128 (drop off_hw_config g) else replicate 128 0) \<and>
    take 361 (drop off_enc_en b) = (if get_u32 g off_enc_flag = BACKUP_VAR_INIT_CODE
       then take 361 (drop off_enc_en g) else replicate 361 0) \<and>
    (b ! off_can_baud, b ! off_can_id) = (if get_u32 g off_can_flag = BACKUP_VAR_INIT_CODE
       then (g ! off_can_baud, g ! off_can_id) else (default_baud L, default_id L)) \<and>
    holds (ee_store (mem u)) EEPROM_BASE_BACKUP b"
proof -
  let ?t = "FLASH_Unlock (t\<lparr>VirtAddVarTab := conf_tab L\<rparr>)"
  have "good ?t" "at_rest (conf_tab L) (mem ?t)" using assms(1,4) by (simp_all add: good_def FLASH_Unlock_def)
  note e = init_at_rest(4) [OF this(2,1)]
  have "EEPROM_BASE_BACKUP \<noteq> ERASED" by (simp add: conf_consts ERASED_def)
  then have "fst (EE_ReadVariable EEPROM_BASE_BACKUP 0 (mem (snd (EE_Init (conf_tab L) ?t)))) \<noteq> 0"
    using arg_cong [OF e, of "\<lambda>f. f EEPROM_BASE_BACKUP"] assms(6)
    by (auto simp: ee_store_def case_prod_beta Let_def split: if_splits)
  then have "\<not> fst (read_vars EEPROM_BASE_BACKUP (Suc 263) 0 (mem (snd (EE_Init (conf_tab L) ?t))) (replicate backup_size 0))"
    by (simp only: read_vars.simps) (simp add: case_prod_beta Let_def)
  moreover have "backup_size div 2 = Suc 263" by (simp add: backup_size_def)
  ultimately have b: "b = set_backup_flags (recover_backup L g)"
    using general_init_reads(2) [OF assms(1-5)] by (simp add: b_def u_def g_def)
  have l: "length g = backup_size" "length b = backup_size" by (simp_all add: g_def assms(5) b)
  note n = nth_set_flags [of _ "recover_backup L g", folded b] nth_recover [OF l(1)]
  have "holds (ee_store (mem u)) EEPROM_BASE_BACKUP b"
    using general_init_reads(4) [OF assms(1-5)] l(2)
    by (simp add: u_def [symmetric] b_def [symmetric] holds_last conf_consts)
  moreover have "take 8 (drop off_odometer b) = (if get_u32 g off_odometer_flag = BACKUP_VAR_INIT_CODE
       then take 8 (drop off_odometer g) else replicate 8 0)"
    by (rule slice_eq) (simp_all add: n l off_odometer_def backup_size_def)
  moreover have "take 8 (drop off_runtime b) = (if get_u32 g off_runtime_flag = BACKUP_VAR_INIT_CODE
       then take 8 (drop off_runtime g) else replicate 8 0)"
    by (rule slice_eq) (simp_all add: n l off_runtime_def backup_size_def)
  moreover have "take 128 (drop off_hw_config b) = (if get_u32 g off_hw_flag = BACKUP_VAR_INIT_CODE
       then take 128 (drop off_hw_config g) else replicate 128 0)"
    by (rule slice_eq) (simp_all add: n l off_hw_config_def backup_size_def)
  moreover have "take 361 (drop off_enc_en b) = (if get_u32 g off_enc_flag = BACKUP_VAR_INIT_CODE
       then take 361 (drop off_enc_en g) else replicate 361 0)"
    by (rule slice_eq) (simp_all add: n l off_enc_en_def backup_size_def)
  moreover have "b ! off_can_baud = recover_backup L g ! off_can_baud" "b ! off_can_id = recover_backup L g ! off_can_id"
    by (simp_all add: n(1) off_can_baud_def off_can_id_def)
  then have "(b ! off_can_baud, b ! off_can_id) = (if get_u32 g off_can_flag = BACKUP_VAR_INIT_CODE
       then (g ! off_can_baud, g ! off_can_id) else (default_baud L, default_id L))"
    by (simp add: n(6,7))
  ultimately show ?thesis by blast
qed

definition ram0 :: bytes where "ram0 = [0x1E, 0x6B, 0x89, 0x05, 42] @ replicate 523 0"

theorem conf_init_recovers_ram_witness:
  "take 8 (drop off_odometer (g_backup (conf_general_init layout0 ((device flash0)\<lparr>g_backup := ram0\<rparr>)))) =
     [42, 0, 0, 0, 0, 0, 0, 0]"
proof -
  let ?t = "(device flash0)\<lparr>g_backup := ram0\<rparr>"
  have l: "length ram0 = backup_size" by (simp add: ram0_def backup_size_def)
  have "get_u32 ram0 off_odometer_flag = BACKUP_VAR_INIT_CODE"
    by (simp add: get_u32_def ram0_def off_odometer_flag_def BACKUP_VAR_INIT_CODE_def)
  moreover have "take 8 (drop off_odometer ram0) = [42, 0, 0, 0, 0, 0, 0, 0]"
    by (simp add: ram0_def off_odometer_def eval_nat_numeral)
  ultimately show ?thesis
    using conf_init_recovers_ram [of ?t layout0, THEN conjunct1] l by (simp add: flash0)
qed

end
