(* ===== verification/Packet.thy ===== *)
theory Packet
  imports Buffer
begin

text \<open>
  The framing layer of \<^verbatim>\<open>comm/packet.c\<close>: \<open>packet_send_packet\<close> wraps a payload into a frame,
  \<open>packet_process_byte\<close> collects received bytes in a linear buffer and calls
  \<open>try_decode_packet\<close> at increasing offsets. The two callbacks of the C state are
  modelled by what they are given: a send returns the transmitted frame, processing a byte
  returns the list of payloads handed to \<open>process_func\<close>. Reads and writes outside the two
  arrays are \<open>None\<close>.
\<close>

section \<open>The code\<close>

definition PACKET_MAX_PL_LEN :: nat where "PACKET_MAX_PL_LEN = 512"
definition PACKET_BUFFER_LEN :: nat where "PACKET_BUFFER_LEN = PACKET_MAX_PL_LEN + 8"

record packet_state =
  send_func :: bool
  process_func :: bool
  rx_read_ptr :: nat
  rx_write_ptr :: nat
  bytes_left :: int
  rx_buffer :: bytes
  tx_buffer :: bytes

definition packet_init :: "bool \<Rightarrow> bool \<Rightarrow> packet_state" where
  "packet_init s_func p_func =
     \<lparr>send_func = s_func, process_func = p_func, rx_read_ptr = 0, rx_write_ptr = 0, bytes_left = 0,
      rx_buffer = replicate PACKET_BUFFER_LEN 0, tx_buffer = replicate PACKET_BUFFER_LEN 0\<rparr>"

definition packet_reset :: "packet_state \<Rightarrow> packet_state" where
  "packet_reset state = state\<lparr>rx_read_ptr := 0, rx_write_ptr := 0, bytes_left := 0\<rparr>"

text \<open>The start byte and the length bytes of a frame, shortest form first.\<close>

definition packet_header :: "nat \<Rightarrow> bytes" where
  "packet_header len =
     (if len \<le> 255 then [2, word_of_nat len]
      else if len \<le> 65535 then [3, word_of_nat (drop_bit 8 len), word_of_nat (len AND 0xFF)]
      else [4, word_of_nat (drop_bit 16 len), word_of_nat (drop_bit 8 len AND 0xFF),
            word_of_nat (len AND 0xFF)])"

definition packet_send_packet ::
  "bytes \<Rightarrow> packet_state \<Rightarrow> (packet_state \<times> bytes option) option" where
  "packet_send_packet data state =
     (let len = length data in
      if len = 0 \<or> len > PACKET_MAX_PL_LEN then Some (state, None)
      else do {
        (tx1, b_ind1) \<leftarrow> write_bytes (tx_buffer state) 0 (packet_header len);
        (tx2, b_ind2) \<leftarrow> write_bytes tx1 b_ind1 data;
        let crc = crc16 data;
        (tx3, b_ind3) \<leftarrow> put_byte tx2 b_ind2 (byte_of 8 crc);
        (tx4, b_ind4) \<leftarrow> put_byte tx3 b_ind3 (byte_of 0 crc);
        (tx5, b_ind5) \<leftarrow> put_byte tx4 b_ind4 3;
        Some (state\<lparr>tx_buffer := tx5\<rparr>, if send_func state then Some (take b_ind5 tx5) else None)
      })"

text \<open>
  The length field, for the three start bytes. \<open>Some None\<close> is the early return of \<open>-1\<close> for a
  length that a shorter header should have carried. The flag for the 24 bit form is the
  preprocessor's: it is off for \<open>PACKET_MAX_PL_LEN \<le> 65535\<close>.
\<close>

definition decode_len :: "bytes \<Rightarrow> bool \<Rightarrow> bool \<Rightarrow> bool \<Rightarrow> nat option option" where
  "decode_len buffer is_len_8b is_len_16b is_len_24b =
     (if is_len_8b then do {
        b1 \<leftarrow> get_byte buffer 1;
        let len = unat b1;
        Some (if len < 1 then None else Some len)
      } else if is_len_16b then do {
        b1 \<leftarrow> get_byte buffer 1;
        b2 \<leftarrow> get_byte buffer 2;
        let len = unat (push_bit 8 (ucast b1) OR ucast b2 :: u32);
        Some (if len < 255 then None else Some len)
      } else if is_len_24b then do {
        b1 \<leftarrow> get_byte buffer 1;
        b2 \<leftarrow> get_byte buffer 2;
        b3 \<leftarrow> get_byte buffer 3;
        let len = unat (push_bit 16 (ucast b1) OR push_bit 8 (ucast b2) OR ucast b3 :: u32);
        Some (if len < 65535 then None else Some len)
      } else Some (Some 0))"

text \<open>The body behind the length checks: stop byte, checksum, callback.\<close>

definition decode_body :: "bytes \<Rightarrow> nat \<Rightarrow> nat \<Rightarrow> (int \<times> bytes list) option" where
  "decode_body buffer data_start len = do {
     stop \<leftarrow> get_byte buffer (data_start + len + 2);
     if stop \<noteq> 3 then Some (- 1, [])
     else do {
       let crc_calc = crc16 (take len (drop data_start buffer));
       hi \<leftarrow> get_byte buffer (data_start + len);
       lo \<leftarrow> get_byte buffer (data_start + len + 1);
       let crc_rx = push_bit 8 (ucast hi) OR ucast lo;
       if crc_calc = crc_rx
       then Some (int (len + data_start + 3), [take len (drop data_start buffer)])
       else Some (- 1, [])
     }
   }"

text \<open>The result is the return value, the value left in \<open>*bytes_left\<close> and the payload that goes
  to the callback.\<close>

definition try_decode_packet :: "bytes \<Rightarrow> nat \<Rightarrow> (int \<times> int \<times> bytes list) option" where
  "try_decode_packet buffer in_len =
     (if in_len = 0 then Some (- 2, 1, [])
      else do {
        b0 \<leftarrow> get_byte buffer 0;
        let is_len_8b = (b0 = 2);
        let data_start = unat b0;
        let is_len_16b = (PACKET_MAX_PL_LEN > 255 \<and> b0 = 3);
        let is_len_24b = (PACKET_MAX_PL_LEN > 65535 \<and> b0 = 4);
        if \<not> is_len_8b \<and> \<not> is_len_16b \<and> \<not> is_len_24b then Some (- 1, 0, [])
        else if in_len < data_start then Some (- 2, int data_start - int in_len, [])
        else do {
          l \<leftarrow> decode_len buffer is_len_8b is_len_16b is_len_24b;
          case l of
            None \<Rightarrow> Some (- 1, 0, [])
          | Some len \<Rightarrow>
              if len > PACKET_MAX_PL_LEN then Some (- 1, 0, [])
              else if in_len < len + data_start + 3
              then Some (- 2, int (len + data_start + 3) - int in_len, [])
              else do {
                (res, out) \<leftarrow> decode_body buffer data_start len;
                Some (res, 0, out)
              }
        }
      })"

text \<open>The \<open>for (;;)\<close> loop of \<open>packet_process_byte\<close>. It stops because every round that does not
  break consumes at least one byte; a return value the decoder never produces would spin
  for ever and is \<open>None\<close>.\<close>

lemma decode_body_res:
  "decode_body buffer ds len = Some (res, out) \<Longrightarrow> res = - 1 \<or> res = int (len + ds + 3)"
  by (auto simp: decode_body_def bind_eq_Some_conv Let_def split: if_splits)

lemma try_decode_packet_res:
  assumes "try_decode_packet buffer n = Some (res, bl, out)"
  shows "res = - 2 \<or> (0 < n \<and> (res = - 1 \<or> 0 < res \<and> nat res \<le> n))"
  using assms
  by (auto simp: try_decode_packet_def bind_eq_Some_conv Let_def
        split: if_splits option.splits dest!: decode_body_res)

function decode_loop ::
  "bytes \<Rightarrow> nat \<Rightarrow> nat \<Rightarrow> bytes list \<Rightarrow> (nat \<times> nat \<times> int \<times> bytes list) option" where
  "decode_loop rx read_ptr data_len out =
     (case try_decode_packet (drop read_ptr rx) data_len of
        None \<Rightarrow> None
      | Some (res, bl, o') \<Rightarrow>
          if res = - 2 then Some (read_ptr, data_len, bl, out @ o')
          else if res > 0
          then decode_loop rx (read_ptr + nat res) (data_len - nat res) (out @ o')
          else if res = - 1 then decode_loop rx (read_ptr + 1) (data_len - 1) (out @ o')
          else None)"
  by pat_completeness auto
termination
  by (relation "measure (\<lambda>(rx, r, n, out). n)") (auto dest: try_decode_packet_res)

declare decode_loop.simps [simp del]

definition packet_process_byte :: "u8 \<Rightarrow> packet_state \<Rightarrow> (packet_state \<times> bytes list) option" where
  "packet_process_byte rx_data state =
     (let data_len = rx_write_ptr state - rx_read_ptr state in
      if data_len \<ge> PACKET_BUFFER_LEN then do {
        (rx, w) \<leftarrow> put_byte (rx_buffer state) 0 rx_data;
        Some (state\<lparr>rx_write_ptr := w, rx_read_ptr := 0, bytes_left := 0, rx_buffer := rx\<rparr>, [])
      }
      else do {
        let st1 = (if rx_write_ptr state \<ge> PACKET_BUFFER_LEN
          then state\<lparr>rx_buffer := take data_len (drop (rx_read_ptr state) (rx_buffer state))
                                     @ drop data_len (rx_buffer state),
                     rx_read_ptr := 0, rx_write_ptr := data_len\<rparr>
          else state);
        (rx, w) \<leftarrow> put_byte (rx_buffer st1) (rx_write_ptr st1) rx_data;
        let st2 = st1\<lparr>rx_buffer := rx, rx_write_ptr := w\<rparr>;
        let data_len = data_len + 1;
        if bytes_left st2 > 1 then Some (st2\<lparr>bytes_left := bytes_left st2 - 1\<rparr>, [])
        else do {
          (r, n, bl, out) \<leftarrow> decode_loop rx (rx_read_ptr st2) data_len [];
          let delivered = (if process_func state then out else []);
          Some (if n = 0 then st2\<lparr>rx_read_ptr := 0, rx_write_ptr := 0, bytes_left := bl\<rparr>
                else st2\<lparr>rx_read_ptr := r, bytes_left := bl\<rparr>, delivered)
        }
      })"

fun packet_process_bytes :: "bytes \<Rightarrow> packet_state \<Rightarrow> (packet_state \<times> bytes list) option" where
  "packet_process_bytes [] state = Some (state, [])"
| "packet_process_bytes (b # bs) state = do {
     (state, out) \<leftarrow> packet_process_byte b state;
     (state, out') \<leftarrow> packet_process_bytes bs state;
     Some (state, out @ out')
   }"

section \<open>What a window decodes to\<close>

text \<open>The decoder never leaves the received bytes and its result is a function of them: this is
  \<open>try_decode_packet\<close> with every array access resolved.\<close>

definition win_len :: "bytes \<Rightarrow> nat" where
  "win_len w = (if w ! 0 = 2 then unat (w ! 1) else unat (w ! 1) * 256 + unat (w ! 2))"

definition win_min :: "bytes \<Rightarrow> nat" where
  "win_min w = (if w ! 0 = 2 then 1 else 255)"

definition win_start :: "bytes \<Rightarrow> nat" where
  "win_start w = (if w ! 0 = 2 then 2 else 3)"

definition win_payload :: "bytes \<Rightarrow> bytes" where
  "win_payload w = take (win_len w) (drop (win_start w) w)"

definition win_ok :: "bytes \<Rightarrow> bool" where
  "win_ok w \<longleftrightarrow> w ! (win_start w + win_len w + 2) = 3 \<and>
     crc16 (win_payload w) =
       push_bit 8 (ucast (w ! (win_start w + win_len w))) OR ucast (w ! (win_start w + win_len w + 1))"

definition dec :: "bytes \<Rightarrow> nat \<Rightarrow> int \<times> int \<times> bytes list" where
  "dec w n =
     (if n = 0 then (- 2, 1, [])
      else if w ! 0 \<noteq> 2 \<and> w ! 0 \<noteq> 3 then (- 1, 0, [])
      else if n < win_start w then (- 2, int (win_start w) - int n, [])
      else if win_len w < win_min w \<or> win_len w > PACKET_MAX_PL_LEN then (- 1, 0, [])
      else if n < win_len w + win_start w + 3
        then (- 2, int (win_len w + win_start w + 3) - int n, [])
      else if win_ok w then (int (win_len w + win_start w + 3), 0, [win_payload w])
      else (- 1, 0, []))"

lemma decode_len_8: "2 \<le> length w \<Longrightarrow> w ! 0 = 2 \<Longrightarrow>
  decode_len w True b c = Some (if win_len w < win_min w then None else Some (win_len w))"
  by (simp add: decode_len_def get_byte_def win_len_def win_min_def)

lemma decode_len_16: "3 \<le> length w \<Longrightarrow> w ! 0 = 3 \<Longrightarrow>
  decode_len w False True c = Some (if win_len w < win_min w then None else Some (win_len w))"
  by (simp add: decode_len_def get_byte_def win_len_def win_min_def unat_join32)

lemma decode_body_win:
  "win_start w + win_len w + 3 \<le> length w \<Longrightarrow>
   decode_body w (win_start w) (win_len w) =
     Some (if win_ok w then (int (win_len w + win_start w + 3), [win_payload w]) else (- 1, []))"
  by (auto simp: decode_body_def get_byte_def win_ok_def win_payload_def Let_def)

lemma try_decode_packet_dec:
  assumes n: "n \<le> length w"
  shows "try_decode_packet w n = Some (dec w n)"
proof (cases "n = 0")
  case False
  then have b0: "get_byte w 0 = Some (w ! 0)"
    using n by (auto simp: get_byte_def)
  consider (a) "w ! 0 = 2" | (b) "w ! 0 = 3" | (c) "w ! 0 \<noteq> 2" "w ! 0 \<noteq> 3"
    by blast
  then show ?thesis
  proof cases
    case a
    then show ?thesis
      using False n b0 decode_len_8 [of w] decode_body_win [of w]
      by (auto simp: try_decode_packet_def dec_def PACKET_MAX_PL_LEN_def win_start_def Let_def)
  next
    case b
    then show ?thesis
      using False n b0 decode_len_16 [of w] decode_body_win [of w]
      by (auto simp: try_decode_packet_def dec_def PACKET_MAX_PL_LEN_def win_start_def Let_def)
  next
    case c
    then show ?thesis
      using False b0 by (simp add: try_decode_packet_def dec_def PACKET_MAX_PL_LEN_def)
  qed
qed (simp add: try_decode_packet_def dec_def)

section \<open>The window machine\<close>

text \<open>
  The abstract decoder keeps the undecoded bytes themselves instead of two pointers into an
  array and tries to decode after every byte. \<open>win_run w\<close> is its result on the bytes \<open>w\<close>:
  the bytes that stay, how many more are needed, and the payloads.
\<close>

lemma dec_cases:
  assumes "dec w n = (res, bl, out)"
  shows "res = - 2 \<and> out = [] \<or> 0 < n \<and> (res = - 1 \<and> out = [] \<or> 0 < res \<and> nat res \<le> n)"
  using assms by (auto simp: dec_def split: if_splits)

function win_run :: "bytes \<Rightarrow> bytes \<times> int \<times> bytes list" where
  "win_run w =
     (case dec w (length w) of
        (res, bl, out) \<Rightarrow>
          if res = - 2 then (w, bl, [])
          else case win_run (drop (if res > 0 then nat res else 1) w) of
            (w', bl', out') \<Rightarrow> (w', bl', out @ out'))"
  by pat_completeness auto
termination
  by (relation "measure length") (auto dest!: dec_cases [OF sym])

declare win_run.simps [simp del]

lemma dec_append: "n \<le> length w \<Longrightarrow> dec (w @ rest) n = dec w n"
proof -
  assume n: "n \<le> length w"
  have a: "win_start (w @ rest) = win_start w" "win_min (w @ rest) = win_min w" if "0 < n"
    using that n by (cases w; simp add: win_start_def win_min_def)+
  have b: "win_len (w @ rest) = win_len w" if "win_start w \<le> n" "w ! 0 = 2 \<or> w ! 0 = 3"
    using that n by (auto simp: win_len_def nth_append win_start_def split: if_splits)
  have c: "win_ok (w @ rest) = win_ok w" "win_payload (w @ rest) = win_payload w"
    if "0 < n" "win_len w + win_start w + 3 \<le> n" "w ! 0 = 2 \<or> w ! 0 = 3"
    using that n a b by (auto simp: win_ok_def win_payload_def nth_append)
  have d: "(w @ rest) ! 0 = w ! 0" if "0 < n"
    using that n by (cases w) auto
  show ?thesis
    unfolding dec_def using a b c d by (auto simp del: One_nat_def)
qed

text \<open>The concrete loop is the window machine on the slice between the pointers.\<close>

lemma decode_loop_win_run:
  assumes "r + n \<le> length rx"
  shows "case win_run (take n (drop r rx)) of (w', bl, o') \<Rightarrow>
    decode_loop rx r n out = Some (r + n - length w', length w', bl, out @ o')
      \<and> length w' \<le> n \<and> w' = take (length w') (drop (r + n - length w') rx)"
  using assms
proof (induction n arbitrary: r out rule: less_induct)
  case (less n)
  define w where "w = take n (drop r rx)"
  have len: "length w = n"
    using less.prems by (simp add: w_def)
  obtain res bl o1 where d: "dec w n = (res, bl, o1)"
    by (cases "dec w n")
  have "drop r rx = w @ drop n (drop r rx)"
    unfolding w_def by (rule append_take_drop_id [symmetric])
  then have t: "try_decode_packet (drop r rx) n = Some (res, bl, o1)"
    using d len by (metis dec_append order_refl try_decode_packet_dec length_append le_add1)
  show ?case
  proof (cases "res = - 2")
    case True
    then have "o1 = []"
      using dec_cases [OF d] by auto
    then show ?thesis
      using True d len t unfolding w_def [symmetric]
      by (simp add: decode_loop.simps [of rx r n out] win_run.simps [of w]) (simp add: w_def)
  next
    case False
    define k where "k = (if res > 0 then nat res else 1)"
    have k: "0 < k" "k \<le> n" "res > 0 \<or> res = - 1"
      using False dec_cases [OF d] by (auto simp: k_def)
    obtain w' bl' o' where run: "win_run (drop k w) = (w', bl', o')"
      by (cases "win_run (drop k w)")
    have slice: "drop k w = take (n - k) (drop (r + k) rx)"
      by (simp add: w_def drop_take add.commute)
    have "decode_loop rx r n out = decode_loop rx (r + k) (n - k) (out @ o1)"
      using False k t by (auto simp: decode_loop.simps [of rx r n out] k_def)
    moreover have "win_run w = (w', bl', o1 @ o')"
      using False d len run by (simp add: win_run.simps [of w] k_def)
    ultimately show ?thesis
      using less.IH [of "n - k" "r + k" "out @ o1"] less.prems k run slice
      unfolding w_def [symmetric] by auto
  qed
qed

text \<open>A window on which the decoder waits: it waits for exactly \<open>bl\<close> more bytes, whatever
  they are. This is what makes the countdown \<open>bytes_left\<close> of the C code sound.\<close>

lemma win_run_waits: "win_run w = (w', bl, out) \<Longrightarrow> dec w' (length w') = (- 2, bl, [])"
proof (induction w arbitrary: out rule: win_run.induct)
  case (1 w)
  obtain res bl1 o1 where d: "dec w (length w) = (res, bl1, o1)"
    by (cases "dec w (length w)")
  show ?case
  proof (cases "res = - 2")
    case True
    then show ?thesis
      using "1.prems" d dec_cases [OF d] by (auto simp: win_run.simps [of w])
  next
    case False
    then show ?thesis
      using "1.prems" "1.IH" [OF d [symmetric] refl False]
      by (auto simp: win_run.simps [of w] d split: prod.splits)
  qed
qed

lemma win_run_of_waiting: "dec w (length w) = (- 2, bl, out) \<Longrightarrow> win_run w = (w, bl, [])"
  by (simp add: win_run.simps)

lemma waiting_bounds:
  "dec w n = (- 2, bl, out) \<Longrightarrow> 1 \<le> bl \<and> int n + bl \<le> int PACKET_MAX_PL_LEN + 6"
  by (auto simp: dec_def PACKET_MAX_PL_LEN_def win_start_def split: if_splits)

lemma waiting_more:
  assumes "dec w (length w) = (- 2, bl, out)" and "int (length e) < bl"
  shows "dec (w @ e) (length (w @ e)) = (- 2, bl - int (length e), [])"
proof (cases "w = []")
  case True
  then show ?thesis using assms by (simp add: dec_def)
next
  case False
  then have a: "win_start (w @ e) = win_start w" "win_min (w @ e) = win_min w"
      "(w @ e) ! 0 = w ! 0"
    by (cases w; simp add: win_start_def win_min_def)+
  have b: "win_len (w @ e) = win_len w" if "win_start w \<le> length w" "w ! 0 = 2 \<or> w ! 0 = 3"
    using that by (auto simp: win_len_def nth_append win_start_def split: if_splits)
  show ?thesis
    using assms False a b unfolding dec_def by (auto split: if_splits)
qed

section \<open>Refinement\<close>

definition window :: "packet_state \<Rightarrow> bytes" where
  "window st = take (rx_write_ptr st - rx_read_ptr st) (drop (rx_read_ptr st) (rx_buffer st))"

definition packet_inv :: "packet_state \<Rightarrow> bool" where
  "packet_inv st \<longleftrightarrow>
     length (rx_buffer st) = PACKET_BUFFER_LEN \<and> length (tx_buffer st) = PACKET_BUFFER_LEN \<and>
     rx_read_ptr st \<le> rx_write_ptr st \<and> rx_write_ptr st \<le> PACKET_BUFFER_LEN \<and>
     (dec (window st) (length (window st)) = (- 2, bytes_left st, []) \<or>
      window st = [] \<and> bytes_left st = 0)"

lemma length_window: "packet_inv st \<Longrightarrow> length (window st) = rx_write_ptr st - rx_read_ptr st"
  by (auto simp: packet_inv_def window_def)

lemma packet_inv_window_le:
  assumes "packet_inv st"
  shows "length (window st) \<le> PACKET_MAX_PL_LEN + 5"
  using assms waiting_bounds [of "window st" "length (window st)"] by (force simp: packet_inv_def)

lemma packet_inv_init: "packet_inv (packet_init s p)"
  by (simp add: packet_inv_def packet_init_def window_def PACKET_BUFFER_LEN_def)

lemma packet_init_simps [simp]:
  "send_func (packet_init s p) = s" "process_func (packet_init s p) = p"
  "window (packet_init s p) = []" "length (tx_buffer (packet_init s p)) = PACKET_BUFFER_LEN"
  by (simp_all add: packet_init_def window_def)

lemma packet_inv_reset: "packet_inv st \<Longrightarrow> packet_inv (packet_reset st)"
  by (simp add: packet_inv_def packet_reset_def window_def)

text \<open>One byte: the machine with the array, the two pointers and the countdown does what the
  window machine does on the window extended by the byte.\<close>

lemma take_drop_update_snoc:
  "r + n < length rx \<Longrightarrow> take (Suc n) (drop r (rx[r + n := b])) = take n (drop r rx) @ [b]"
  by (rule nth_equalityI) (auto simp: nth_append nth_list_update less_Suc_eq)

lemma packet_shift:
  assumes inv: "packet_inv st"
  defines "n \<equiv> rx_write_ptr st - rx_read_ptr st"
  defines "st1 \<equiv> (if rx_write_ptr st \<ge> PACKET_BUFFER_LEN
          then st\<lparr>rx_buffer := take n (drop (rx_read_ptr st) (rx_buffer st)) @ drop n (rx_buffer st),
                  rx_read_ptr := 0, rx_write_ptr := n\<rparr>
          else st)"
  shows "length (rx_buffer st1) = PACKET_BUFFER_LEN" "rx_read_ptr st1 + n = rx_write_ptr st1"
    "rx_write_ptr st1 < PACKET_BUFFER_LEN" "take n (drop (rx_read_ptr st1) (rx_buffer st1)) = window st"
    "bytes_left st1 = bytes_left st" "process_func st1 = process_func st"
    "send_func st1 = send_func st" "tx_buffer st1 = tx_buffer st"
proof -
  have n: "n < PACKET_BUFFER_LEN"
    using packet_inv_window_le [OF inv] length_window [OF inv]
    by (simp add: n_def PACKET_BUFFER_LEN_def)
  have i: "length (rx_buffer st) = PACKET_BUFFER_LEN" "rx_read_ptr st \<le> rx_write_ptr st"
      "rx_write_ptr st \<le> PACKET_BUFFER_LEN"
    using inv by (auto simp: packet_inv_def)
  have rn: "rx_read_ptr st + n = rx_write_ptr st"
    using i by (simp add: n_def)
  have w: "window st = take n (drop (rx_read_ptr st) (rx_buffer st))" and lw: "length (window st) = n"
    using i by (simp_all add: window_def n_def)
  show "length (rx_buffer st1) = PACKET_BUFFER_LEN"
    using lw i n by (simp add: st1_def w)
  show "rx_read_ptr st1 + n = rx_write_ptr st1"
    using rn by (simp add: st1_def)
  show "rx_write_ptr st1 < PACKET_BUFFER_LEN"
    using n by (simp add: st1_def)
  show "take n (drop (rx_read_ptr st1) (rx_buffer st1)) = window st"
    using lw by (simp add: st1_def w)
qed (simp_all add: st1_def)

lemma packet_process_byte_refines:
  assumes inv: "packet_inv st" and run: "win_run (window st @ [b]) = (w', bl, out)"
  shows "\<exists>st'. packet_process_byte b st = Some (st', if process_func st then out else [])
    \<and> packet_inv st' \<and> window st' = w' \<and> bytes_left st' = bl
    \<and> process_func st' = process_func st \<and> send_func st' = send_func st
    \<and> tx_buffer st' = tx_buffer st"
proof -
  define n where "n = rx_write_ptr st - rx_read_ptr st"
  define st1 where "st1 = (if rx_write_ptr st \<ge> PACKET_BUFFER_LEN
          then st\<lparr>rx_buffer := take n (drop (rx_read_ptr st) (rx_buffer st)) @ drop n (rx_buffer st),
                  rx_read_ptr := 0, rx_write_ptr := n\<rparr>
          else st)"
  note s1 = packet_shift [OF inv, folded n_def, folded st1_def]
  have n: "n < PACKET_BUFFER_LEN"
    using packet_inv_window_le [OF inv] length_window [OF inv]
    by (simp add: n_def PACKET_BUFFER_LEN_def)
  define r1 rx2 where "r1 = rx_read_ptr st1" and "rx2 = (rx_buffer st1)[rx_write_ptr st1 := b]"
  have put: "put_byte (rx_buffer st1) (rx_write_ptr st1) b = Some (rx2, Suc (rx_write_ptr st1))"
    using s1 by (simp add: put_byte_def rx2_def)
  have slice: "take (Suc n) (drop r1 rx2) = window st @ [b]"
    using s1 take_drop_update_snoc [of r1 n "rx_buffer st1" b] by (simp add: r1_def rx2_def)
  have lenr: "r1 + Suc n \<le> length rx2" "length rx2 = PACKET_BUFFER_LEN" "Suc (rx_write_ptr st1) = r1 + Suc n"
    using s1 by (auto simp: r1_def rx2_def)
  have tx: "length (tx_buffer st) = PACKET_BUFFER_LEN"
    using inv by (simp add: packet_inv_def)
  show ?thesis
  proof (cases "bytes_left st > 1")
    case True
    then have "dec (window st) (length (window st)) = (- 2, bytes_left st, [])"
      using inv by (auto simp: packet_inv_def)
    then have w: "dec (window st @ [b]) (length (window st @ [b])) = (- 2, bytes_left st - 1, [])"
      using waiting_more [of "window st" "bytes_left st" "[]" "[b]"] True by simp
    then have r: "w' = window st @ [b]" "bl = bytes_left st - 1" "out = []"
      using run win_run_of_waiting by auto
    let ?st' = "st1\<lparr>rx_buffer := rx2, rx_write_ptr := Suc (rx_write_ptr st1),
      bytes_left := bytes_left st - 1\<rparr>"
    have "packet_process_byte b st = Some (?st', [])"
      using True n put s1 by (simp add: packet_process_byte_def Let_def n_def [symmetric] st1_def [symmetric])
    moreover have "window ?st' = window st @ [b]"
      using slice lenr by (simp add: window_def r1_def)
    moreover have "packet_inv ?st'"
    proof -
      have "length (rx_buffer ?st') = PACKET_BUFFER_LEN" "length (tx_buffer ?st') = PACKET_BUFFER_LEN"
        using lenr(2) tx s1(8) by simp_all
      moreover have "rx_read_ptr ?st' \<le> rx_write_ptr ?st'" "rx_write_ptr ?st' \<le> PACKET_BUFFER_LEN"
        using s1(2,3) by auto
      moreover have "dec (window ?st') (length (window ?st')) = (- 2, bytes_left ?st', [])"
        using w \<open>window ?st' = window st @ [b]\<close> by simp
      ultimately show ?thesis
        unfolding packet_inv_def by blast
    qed
    ultimately show ?thesis
      using r s1 by (intro exI [of _ ?st']) simp
  next
    case False
    let ?m = "length w'"
    have loop: "decode_loop rx2 r1 (Suc n) [] = Some (r1 + Suc n - ?m, ?m, bl, out)"
        and m: "?m \<le> Suc n" and w': "w' = take ?m (drop (r1 + Suc n - ?m) rx2)"
      using decode_loop_win_run [OF lenr(1), of "[]", unfolded slice run] by auto
    let ?st' = "if ?m = 0
      then st1\<lparr>rx_buffer := rx2, rx_read_ptr := 0, rx_write_ptr := 0, bytes_left := bl\<rparr>
      else st1\<lparr>rx_buffer := rx2, rx_write_ptr := Suc (rx_write_ptr st1),
                rx_read_ptr := r1 + Suc n - ?m, bytes_left := bl\<rparr>"
    have "packet_process_byte b st = Some (?st', if process_func st then out else [])"
      using False n put s1 loop
      by (simp add: packet_process_byte_def Let_def n_def [symmetric] st1_def [symmetric]
          r1_def [symmetric])
    moreover have "window ?st' = w'"
      using w' m lenr by (cases "?m = 0") (simp_all add: window_def)
    moreover have "packet_inv ?st'"
    proof -
      have "length (rx_buffer ?st') = PACKET_BUFFER_LEN" "length (tx_buffer ?st') = PACKET_BUFFER_LEN"
          "rx_read_ptr ?st' \<le> rx_write_ptr ?st'" "rx_write_ptr ?st' \<le> PACKET_BUFFER_LEN"
        using lenr m tx s1 by simp_all
      moreover have "dec (window ?st') (length (window ?st')) = (- 2, bytes_left ?st', [])"
        using win_run_waits [OF run] \<open>window ?st' = w'\<close> by simp
      ultimately show ?thesis
        unfolding packet_inv_def by blast
    qed
    moreover have "bytes_left ?st' = bl" "process_func ?st' = process_func st"
        "send_func ?st' = send_func st" "tx_buffer ?st' = tx_buffer st"
      using s1 by simp_all
    ultimately show ?thesis
      by blast
  qed
qed

section \<open>Streams of bytes\<close>

text \<open>Decisions of the decoder are final: more bytes do not change them.\<close>

lemma dec_more: "dec w n = r \<Longrightarrow> fst r \<noteq> - 2 \<Longrightarrow> n \<le> m \<Longrightarrow> dec w m = r"
  by (auto simp: dec_def split: if_splits)

text \<open>So decoding as the bytes come in and decoding all of them at once agree.\<close>

lemma win_run_append:
  "win_run w = (w', bl, out) \<Longrightarrow>
   win_run (w @ e) = (case win_run (w' @ e) of (w2, bl2, out2) \<Rightarrow> (w2, bl2, out @ out2))"
proof (induction w arbitrary: out rule: win_run.induct)
  case (1 w)
  obtain res bl1 o1 where d: "dec w (length w) = (res, bl1, o1)"
    by (cases "dec w (length w)")
  show ?case
  proof (cases "res = - 2")
    case True
    then show ?thesis
      using "1.prems" d by (auto simp: win_run.simps [of w] split: prod.splits)
  next
    case False
    define k where "k = (if res > 0 then nat res else 1)"
    have k: "k \<le> length w"
      using False dec_cases [OF d] by (auto simp: k_def Suc_le_eq)
    have de: "dec (w @ e) (length (w @ e)) = (res, bl1, o1)"
      using dec_more [of "w @ e" "length w" "(res, bl1, o1)"] d False by (simp add: dec_append)
    obtain o2 where r2: "win_run (drop k w) = (w', bl, o2)" and out: "out = o1 @ o2"
      using "1.prems" d False by (auto simp: win_run.simps [of w] k_def split: prod.splits)
    have "win_run (drop k w @ e) = (case win_run (w' @ e) of (w2, bl2, out2) \<Rightarrow> (w2, bl2, o2 @ out2))"
      using "1.IH" [OF d [symmetric] refl False] r2 by (simp add: k_def)
    then show ?thesis
      using de False k out by (auto simp: win_run.simps [of "w @ e"] k_def split: prod.splits)
  qed
qed

text \<open>
  What a user of the framing layer relies on: a byte consumer that implements the window
  machine. Everything below is proved once from this contract.
\<close>

locale framed_stream =
  fixes process :: "u8 \<Rightarrow> 's \<Rightarrow> ('s \<times> bytes list) option"
    and win :: "'s \<Rightarrow> bytes"
    and ok :: "'s \<Rightarrow> bool"
  assumes process_step: "ok s \<Longrightarrow> win_run (win s @ [b]) = (w, bl, out) \<Longrightarrow>
      \<exists>s'. process b s = Some (s', out) \<and> ok s' \<and> win s' = w"
    and win_waits: "ok s \<Longrightarrow> \<exists>bl. win_run (win s) = (win s, bl, [])"
begin

primrec feed :: "bytes \<Rightarrow> 's \<Rightarrow> ('s \<times> bytes list) option" where
  "feed [] s = Some (s, [])"
| "feed (b # bs) s = (case process b s of None \<Rightarrow> None
     | Some (s1, o1) \<Rightarrow> (case feed bs s1 of None \<Rightarrow> None | Some (s2, o2) \<Rightarrow> Some (s2, o1 @ o2)))"

lemma feed_run:
  assumes "ok s"
  shows "\<exists>s' bl out. feed bs s = Some (s', out) \<and> ok s' \<and> win_run (win s @ bs) = (win s', bl, out)"
  using assms
proof (induction bs arbitrary: s)
  case Nil
  then show ?case using win_waits by fastforce
next
  case (Cons b bs)
  obtain w bl o1 where r: "win_run (win s @ [b]) = (w, bl, o1)"
    by (cases "win_run (win s @ [b])")
  obtain s1 where s1: "process b s = Some (s1, o1)" "ok s1" "win s1 = w"
    using process_step [OF Cons.prems r] by blast
  obtain s2 bl2 o2 where s2: "feed bs s1 = Some (s2, o2)" "ok s2" "win_run (w @ bs) = (win s2, bl2, o2)"
    using Cons.IH [OF s1(2)] s1(3) by auto
  then show ?case
    using s1 win_run_append [OF r, of bs] by auto
qed

end

lemma packet_process_byte_step:
  assumes "packet_inv s \<and> process_func s" and "win_run (window s @ [b]) = (w, bl, out)"
  shows "\<exists>s'. packet_process_byte b s = Some (s', out) \<and> (packet_inv s' \<and> process_func s') \<and> window s' = w"
  using packet_process_byte_refines [of s b w bl out] assms by auto

lemma window_waits: "packet_inv s \<Longrightarrow> \<exists>bl. win_run (window s) = (window s, bl, [])"
  by (auto simp: packet_inv_def dest: win_run_of_waiting) (simp add: win_run.simps [of "[]"] dec_def)

interpretation pk: framed_stream packet_process_byte window "\<lambda>s. packet_inv s \<and> process_func s"
proof unfold_locales
  show "\<exists>s'. packet_process_byte b s = Some (s', out) \<and> (packet_inv s' \<and> process_func s') \<and> window s' = w"
    if "packet_inv s \<and> process_func s" "win_run (window s @ [b]) = (w, bl, out)" for s b w bl out
    using that by (rule packet_process_byte_step)
  show "\<exists>bl. win_run (window s) = (window s, bl, [])" if "packet_inv s \<and> process_func s" for s
    using that by (blast intro: window_waits)
qed

lemma packet_process_bytes_feed: "packet_process_bytes bs s = pk.feed bs s"
proof (induction bs arbitrary: s)
  case (Cons b bs)
  then show ?case
    by (cases "packet_process_byte b s") (auto split: option.splits)
qed simp

section \<open>Frames\<close>

definition frame_end :: "bytes \<Rightarrow> bytes" where
  "frame_end p = [byte_of 8 (crc16 p), byte_of 0 (crc16 p), 3]"

definition frame :: "bytes \<Rightarrow> bytes" where
  "frame p = packet_header (length p) @ p @ frame_end p"

definition payload_ok :: "bytes \<Rightarrow> bool" where
  "payload_ok p \<longleftrightarrow> 1 \<le> length p \<and> length p \<le> PACKET_MAX_PL_LEN"

text \<open>The frames the receiver accepts: the sender's, and one more, a payload of 255 bytes behind
  the two byte length.\<close>

definition is_frame :: "bytes \<Rightarrow> bytes \<Rightarrow> bool" where
  "is_frame f p \<longleftrightarrow> payload_ok p \<and>
     (f = frame p \<or> length p = 255 \<and> f = [3, 0, 255] @ p @ frame_end p)"

lemma length_header: "length p \<le> PACKET_MAX_PL_LEN \<Longrightarrow>
  length (packet_header (length p)) = (if length p \<le> 255 then 2 else 3)"
  by (auto simp: packet_header_def PACKET_MAX_PL_LEN_def)

lemma packet_send_frame:
  assumes "packet_inv st" and "payload_ok p"
  shows "\<exists>st'. packet_send_packet p st = Some (st', if send_func st then Some (frame p) else None)
     \<and> packet_inv st' \<and> window st' = window st \<and> bytes_left st' = bytes_left st
     \<and> process_func st' = process_func st \<and> send_func st' = send_func st"
proof -
  have len: "length (frame p) \<le> length (tx_buffer st)"
    using assms length_header [of p]
    by (auto simp: frame_def frame_end_def payload_ok_def packet_inv_def PACKET_BUFFER_LEN_def)
  have w: "write_bytes (tx_buffer st) 0 (packet_header (length p) @ p @ frame_end p)
      = Some (frame p @ drop (length (frame p)) (tx_buffer st), length (frame p))"
    using len by (simp add: write_bytes_def frame_def)
  have "packet_send_packet p st =
    Some (st\<lparr>tx_buffer := frame p @ drop (length (frame p)) (tx_buffer st)\<rparr>,
          if send_func st then Some (frame p) else None)"
    using assms(2) w
    by (cases "p = []") (simp_all add: packet_send_packet_def payload_ok_def Let_def put_byte_eq
        write_bytes_append_k frame_end_def)
  moreover have "length (frame p @ drop (length (frame p)) (tx_buffer st)) = PACKET_BUFFER_LEN"
    using len assms(1) by (simp add: packet_inv_def)
  ultimately show ?thesis
    using assms(1) by (auto simp: packet_inv_def window_def)
qed

lemma nat_of_len8: "n \<le> 255 \<Longrightarrow> unat (word_of_nat n :: u8) = n"
  by (simp add: unat_byte_of_nat)

lemma nat_of_len16:
  "n < 65536 \<Longrightarrow> unat (word_of_nat (drop_bit 8 n) :: u8) * 256 + unat (word_of_nat (n AND 0xFF) :: u8) = n"
proof -
  assume n: "n < 65536"
  have "n div 256 < 256"
    using n by simp
  then show ?thesis
    by (simp add: unat_byte_of_nat drop_bit_eq_div nat_and_ff)
qed

lemma frame_end_join:
  "frame_end p = [hi, lo, 3] \<longleftrightarrow> crc16 p = push_bit 8 (ucast hi) OR ucast lo"
  by (auto simp: frame_end_def word_simps)

lemma three_bytes: "k + 2 < length w \<Longrightarrow> take 3 (drop k w) = [w ! k, w ! (k + 1), w ! (k + 2)]"
  by (rule nth_equalityI) (auto simp: less_Suc_eq numeral_3_eq_3)

lemma take_frame:
  assumes "a + n + 3 \<le> length w"
  shows "take (a + n + 3) w = take a w @ take n (drop a w) @ [w ! (a + n), w ! (a + n + 1), w ! (a + n + 2)]"
proof -
  have "take (a + n + 3) w = take (a + n) w @ take 3 (drop (a + n) w)"
    by (simp add: take_add)
  then show ?thesis
    using assms three_bytes [of "a + n" w] by (simp add: take_add)
qed

text \<open>Whatever the decoder delivers was framed: it sits at the start of the window, complete and
  with a matching checksum.\<close>

lemma dec_delivers_frame:
  assumes d: "dec w n = (res, bl, out)" and "0 < res" and n: "n \<le> length w"
  shows "\<exists>p. out = [p] \<and> is_frame (take (nat res) w) p"
proof -
  have h: "0 < n" "w ! 0 = 2 \<or> w ! 0 = 3" "win_min w \<le> win_len w" "win_len w \<le> PACKET_MAX_PL_LEN"
      "win_len w + win_start w + 3 \<le> n" "win_ok w"
      and r: "res = int (win_len w + win_start w + 3)" "out = [win_payload w]"
    using d \<open>0 < res\<close> by (auto simp: dec_def split: if_splits)
  define p where "p = win_payload w"
  have lp: "length p = win_len w"
    using h n by (simp add: p_def win_payload_def)
  have fe: "[w ! (win_start w + win_len w), w ! (win_start w + win_len w + 1),
      w ! (win_start w + win_len w + 2)] = frame_end p"
    using h(6) frame_end_join [of p "w ! (win_start w + win_len w)" "w ! (win_start w + win_len w + 1)"]
    by (simp add: win_ok_def p_def)
  have split: "take (nat res) w = take (win_start w) w @ p @ frame_end p"
  proof -
    have "nat res = win_start w + win_len w + 3"
      using r by linarith
    then show ?thesis
      using take_frame [of "win_start w" "win_len w" w] h n fe
      by (simp only: p_def win_payload_def)
  qed
  have ok: "payload_ok p"
    using h lp by (simp add: payload_ok_def win_min_def split: if_splits)
  have "is_frame (take (nat res) w) p"
  proof (cases "w ! 0 = 2")
    case True
    then have "take (win_start w) w = [2, word_of_nat (length p)]"
      using h n lp by (cases w; cases "tl w") (auto simp: win_start_def win_len_def)
    moreover have "length p \<le> 255"
      using lp True by (simp add: win_len_def)
    ultimately show ?thesis
      using ok split by (simp add: is_frame_def frame_def packet_header_def)
  next
    case False
    then have w0: "w ! 0 = 3" and l: "win_len w = unat (w ! 1) * 256 + unat (w ! 2)" "win_start w = 3"
      using h by (auto simp: win_len_def win_start_def)
    have head: "take (win_start w) w = [3, w ! 1, w ! 2]"
      using three_bytes [of 0 w] h n l w0 by (simp add: numeral_2_eq_2)
    have bytes: "w ! 1 = word_of_nat (drop_bit 8 (length p))" "w ! 2 = word_of_nat (length p AND 0xFF)"
      using lp l by (simp_all add: drop_bit_eq_div nat_and_ff)
    show ?thesis
    proof (cases "length p = 255")
      case True
      then show ?thesis
        using ok split head bytes by (simp add: is_frame_def drop_bit_eq_div)
    next
      case False
      then have "length p > 255"
        using h lp w0 by (simp add: win_min_def)
      then show ?thesis
        using ok split head bytes
        by (simp add: is_frame_def frame_def packet_header_def payload_ok_def PACKET_MAX_PL_LEN_def)
    qed
  qed
  then show ?thesis
    using r p_def by blast
qed

lemma dec_frame:
  assumes "payload_ok p"
  shows "dec (frame p @ rest) (length (frame p @ rest)) = (int (length (frame p)), 0, [p])"
proof (cases "length p \<le> 255")
  case True
  define w where "w = frame p @ rest"
  have w: "w = [2, word_of_nat (length p)] @ p @ frame_end p @ rest"
    using True by (simp add: w_def frame_def packet_header_def)
  have l: "win_len w = length p" "win_start w = 2" "win_min w = 1"
    using True by (simp_all add: w win_len_def win_start_def win_min_def nat_of_len8)
  have "win_payload w = p" "win_ok w"
    using frame_end_join [of p "byte_of 8 (crc16 p)" "byte_of 0 (crc16 p)"]
    by (simp_all add: win_payload_def win_ok_def l) (simp_all add: w nth_append frame_end_def)
  moreover have "length (frame p) = length p + 5"
    using True by (simp add: frame_def packet_header_def frame_end_def)
  moreover have "w ! 0 = 2" "length w = length p + 5 + length rest"
    by (simp_all add: w frame_end_def)
  ultimately show ?thesis
    using assms True l unfolding w_def [symmetric]
    by (cases "p = []") (simp_all add: dec_def payload_ok_def)
next
  case False
  define w where "w = frame p @ rest"
  have le: "length p \<le> 512"
    using assms by (simp add: payload_ok_def PACKET_MAX_PL_LEN_def)
  have w: "w = [3, word_of_nat (drop_bit 8 (length p)), word_of_nat (length p AND 0xFF)]
      @ p @ frame_end p @ rest"
    using False le by (simp add: w_def frame_def packet_header_def)
  have l: "win_len w = length p" "win_start w = 3" "win_min w = 255"
    using nat_of_len16 [of "length p"] le by (simp_all add: w win_len_def win_start_def win_min_def)
  have "win_payload w = p" "win_ok w"
    using frame_end_join [of p "byte_of 8 (crc16 p)" "byte_of 0 (crc16 p)"]
    by (simp_all add: win_payload_def win_ok_def l) (simp_all add: w nth_append frame_end_def)
  moreover have "length (frame p) = length p + 6"
    using False le by (simp add: frame_def packet_header_def frame_end_def)
  moreover have "w ! 0 = 3" "length w = length p + 6 + length rest"
    by (simp_all add: w frame_end_def)
  ultimately show ?thesis
    using assms False l unfolding w_def [symmetric] by (simp add: dec_def payload_ok_def)
qed

lemma win_run_frames:
  "(\<forall>p \<in> set ps. payload_ok p) \<Longrightarrow> win_run (concat (map frame ps)) = ([], 1, ps)"
proof (induction ps)
  case Nil
  show ?case by (simp add: win_run.simps [of "[]"] dec_def)
next
  case (Cons p ps)
  let ?r = "concat (map frame ps)"
  have "0 < length (frame p)"
    by (simp add: frame_def frame_end_def)
  then show ?case
    using dec_frame [of p ?r] Cons by (simp add: win_run.simps [of "frame p @ ?r"])
qed

lemma win_run_sound:
  "win_run w = (w', bl, out) \<Longrightarrow> p \<in> set out \<Longrightarrow> \<exists>pre f post. w = pre @ f @ post \<and> is_frame f p"
proof (induction w arbitrary: out rule: win_run.induct)
  case (1 w)
  obtain res bl1 o1 where d: "dec w (length w) = (res, bl1, o1)"
    by (cases "dec w (length w)")
  show ?case
  proof (cases "res = - 2")
    case True
    then show ?thesis
      using "1.prems" d by (auto simp: win_run.simps [of w])
  next
    case False
    define k where "k = (if res > 0 then nat res else 1)"
    obtain o2 where r2: "win_run (drop k w) = (w', bl, o2)" and out: "out = o1 @ o2"
      using "1.prems" d False by (auto simp: win_run.simps [of w] k_def split: prod.splits)
    show ?thesis
    proof (cases "p \<in> set o1")
      case True
      then have "0 < res"
        using dec_cases [OF d] False by auto
      then obtain q where "o1 = [q]" "is_frame (take (nat res) w) q"
        using dec_delivers_frame [OF d] by auto
      then show ?thesis
        using True by (intro exI [of _ "[]"] exI [of _ "take (nat res) w"] exI [of _ "drop (nat res) w"]) auto
    next
      case False
      then have "p \<in> set o2"
        using "1.prems"(2) out by simp
      then obtain pre f post where f: "drop k w = pre @ f @ post" "is_frame f p"
        using "1.IH" [OF d [symmetric] refl \<open>res \<noteq> - 2\<close> r2 [unfolded k_def]] k_def by auto
      have "w = (take k w @ pre) @ f @ post"
        using f(1) append_take_drop_id [of k w] by simp
      then show ?thesis
        using f(2) by blast
    qed
  qed
qed

text \<open>The window left behind starts with a start byte, so bytes that are none flush it.\<close>

lemma waiting_head: "dec w (length w) = (- 2, bl, out) \<Longrightarrow> w \<noteq> [] \<Longrightarrow> hd w = 2 \<or> hd w = 3"
  by (cases w) (auto simp: dec_def split: if_splits)

lemma win_run_suffix: "win_run w = (w', bl, out) \<Longrightarrow> \<exists>pre. w = pre @ w'"
proof (induction w arbitrary: out rule: win_run.induct)
  case (1 w)
  obtain res bl1 o1 where d: "dec w (length w) = (res, bl1, o1)"
    by (cases "dec w (length w)")
  show ?case
  proof (cases "res = - 2")
    case True
    then show ?thesis
      using "1.prems" d by (auto simp: win_run.simps [of w])
  next
    case False
    define k where "k = (if res > 0 then nat res else 1)"
    obtain o2 where r2: "win_run (drop k w) = (w', bl, o2)"
      using "1.prems" d False by (auto simp: win_run.simps [of w] k_def split: prod.splits)
    then obtain pre where "drop k w = pre @ w'"
      using "1.IH" [OF d [symmetric] refl False] by (auto simp: k_def)
    then show ?thesis
      by (metis append.assoc append_take_drop_id)
  qed
qed

lemma win_run_flush:
  assumes "win_run (w @ replicate (PACKET_MAX_PL_LEN + 6) 0) = (w', bl, out)"
  shows "w' = []"
proof (rule ccontr)
  assume ne: "w' \<noteq> []"
  have wait: "dec w' (length w') = (- 2, bl, [])"
    by (rule win_run_waits [OF assms])
  then have short: "length w' \<le> PACKET_MAX_PL_LEN + 5"
    using waiting_bounds by fastforce
  obtain pre where pre: "w @ replicate (PACKET_MAX_PL_LEN + 6) 0 = pre @ w'"
    using win_run_suffix [OF assms] by blast
  have "length w \<le> length pre"
    using arg_cong [OF pre, of length] short by simp
  then have "w' = replicate (PACKET_MAX_PL_LEN + 6 - (length pre - length w)) 0"
    using arg_cong [OF pre, of "drop (length pre)"] by simp
  then have "hd w' = 0"
    using ne by (metis hd_replicate replicate_empty)
  then show False
    using waiting_head [OF wait ne] by simp
qed

text \<open>Several payloads sent one after the other, as the bytes on the wire.\<close>

fun packet_send_all :: "bytes list \<Rightarrow> packet_state \<Rightarrow> (packet_state \<times> bytes) option" where
  "packet_send_all [] st = Some (st, [])"
| "packet_send_all (p # ps) st = do {
     (st, sent) \<leftarrow> packet_send_packet p st;
     (st, wire) \<leftarrow> packet_send_all ps st;
     Some (st, (case sent of None \<Rightarrow> [] | Some f \<Rightarrow> f) @ wire)
   }"

lemma packet_send_all_frames:
  assumes "packet_inv st" "send_func st" "\<forall>p \<in> set ps. payload_ok p"
  shows "\<exists>st'. packet_send_all ps st = Some (st', concat (map frame ps)) \<and> packet_inv st'"
  using assms
proof (induction ps arbitrary: st)
  case (Cons p ps)
  obtain st1 where s1: "packet_send_packet p st = Some (st1, Some (frame p))" "packet_inv st1" "send_func st1"
    using packet_send_frame [of st p] Cons.prems by auto
  obtain st2 where s2: "packet_send_all ps st1 = Some (st2, concat (map frame ps))" "packet_inv st2"
    using Cons.IH [OF s1(2,3)] Cons.prems by auto
  show ?case
    using s1 s2 by simp
qed simp

section \<open>Properties\<close>

text \<open>C1. Round trip: any list of payloads of 1 to 512 bytes, sent through one packet state and fed
  byte by byte to a receiver whose window is empty, is handed to the callback payload by
  payload, in order, nothing else is delivered, no access leaves a buffer, and the receiver is
  empty again.\<close>

theorem packet_roundtrip:
  assumes "packet_inv tx" and "send_func tx" and "packet_inv rx" and "process_func rx"
    and "window rx = []" and "\<forall>p \<in> set ps. 1 \<le> length p \<and> length p \<le> 512"
  shows "\<exists>tx' wire rx'. packet_send_all ps tx = Some (tx', wire) \<and>
    packet_process_bytes wire rx = Some (rx', ps) \<and> packet_inv rx' \<and> window rx' = []"
proof -
  have ok: "\<forall>p \<in> set ps. payload_ok p"
    using assms(6) by (simp add: payload_ok_def PACKET_MAX_PL_LEN_def)
  obtain tx' where "packet_send_all ps tx = Some (tx', concat (map frame ps))"
    using packet_send_all_frames [OF assms(1,2) ok] by blast
  moreover obtain rx' where "packet_process_bytes (concat (map frame ps)) rx = Some (rx', ps)"
      "packet_inv rx'" "window rx' = []"
    using pk.feed_run [of rx "concat (map frame ps)"] assms win_run_frames [OF ok]
    by (auto simp: packet_process_bytes_feed)
  ultimately show ?thesis by blast
qed

theorem packet_roundtrip_witness:
  "\<exists>tx' wire rx'. packet_send_all [[4, 2], [3]] (packet_init True True) = Some (tx', wire) \<and>
    packet_process_bytes wire (packet_init True True) = Some (rx', [[4, 2], [3]]) \<and>
    packet_inv rx' \<and> window rx' = []"
  by (rule packet_roundtrip) (simp_all add: packet_inv_init)

text \<open>C2. Soundness on any input: from any consistent receiver, whatever bytes arrive, processing
  never accesses memory outside the buffer and never spins, the receiver stays consistent, and
  every payload delivered was framed in the received bytes (start byte, length, matching CRC-16
  and stop byte, as one contiguous run).\<close>

theorem packet_process_bytes_sound:
  assumes "packet_inv st" and "process_func st"
  shows "\<exists>st' out. packet_process_bytes bs st = Some (st', out) \<and> packet_inv st' \<and>
    (\<forall>p \<in> set out. \<exists>pre f post. window st @ bs = pre @ f @ post \<and> is_frame f p)"
proof -
  obtain st' bl out where r: "packet_process_bytes bs st = Some (st', out)" "packet_inv st'"
      "win_run (window st @ bs) = (window st', bl, out)"
    using pk.feed_run [of st bs] assms by (auto simp: packet_process_bytes_feed)
  have "\<forall>p \<in> set out. \<exists>pre f post. window st @ bs = pre @ f @ post \<and> is_frame f p"
    using win_run_sound [OF r(3)] by blast
  then show ?thesis
    using r by blast
qed

theorem packet_process_bytes_sound_witness:
  "\<exists>st' out. packet_process_bytes [2, 1] (packet_init False True) = Some (st', out) \<and> packet_inv st' \<and>
    (\<forall>p \<in> set out. \<exists>pre f post. window (packet_init False True) @ [2, 1] = pre @ f @ post \<and> is_frame f p)"
  by (rule packet_process_bytes_sound) (simp_all add: packet_inv_init)

text \<open>C3. The countdown in \<open>bytes_left\<close> and the two pointers are a pure optimisation: processing
  bytes delivers exactly what a decoder without them delivers, one that keeps the undecoded bytes
  and tries all of them afresh at every offset.\<close>

theorem packet_process_bytes_equiv:
  assumes "packet_inv st" and "process_func st"
  shows "\<exists>st' bl. packet_process_bytes bs st =
      Some (st', snd (snd (win_run (window st @ bs)))) \<and> win_run (window st @ bs) =
      (window st', bl, snd (snd (win_run (window st @ bs))))"
  using pk.feed_run [of st bs] assms by (auto simp: packet_process_bytes_feed)

theorem packet_process_bytes_equiv_witness:
  "\<exists>st' bl. packet_process_bytes [3, 3] (packet_init False True) =
      Some (st', snd (snd (win_run (window (packet_init False True) @ [3, 3])))) \<and>
      win_run (window (packet_init False True) @ [3, 3]) =
      (window st', bl, snd (snd (win_run (window (packet_init False True) @ [3, 3]))))"
  by (rule packet_process_bytes_equiv) (simp_all add: packet_inv_init)

text \<open>C4. Recovery: whatever was received before (half a packet, noise), 518 zero bytes empty the
  receiver, and all packets that follow are delivered, in order, and nothing else.\<close>

theorem packet_resynchronises:
  assumes "packet_inv st" and "process_func st" and "\<forall>p \<in> set ps. 1 \<le> length p \<and> length p \<le> 512"
  shows "\<exists>st1 st2 out. packet_process_bytes (replicate 518 0) st = Some (st1, out) \<and> window st1 = [] \<and>
    packet_process_bytes (concat (map frame ps)) st1 = Some (st2, ps) \<and> window st2 = []"
proof -
  obtain st1 bl out where r: "packet_process_bytes (replicate 518 0) st = Some (st1, out)"
      "packet_inv st1" "process_func st1" "win_run (window st @ replicate 518 0) = (window st1, bl, out)"
    using pk.feed_run [of st "replicate 518 0"] assms by (auto simp: packet_process_bytes_feed)
  then have e: "window st1 = []"
    using win_run_flush [of "window st"] by (simp add: PACKET_MAX_PL_LEN_def)
  have ok: "\<forall>p \<in> set ps. payload_ok p"
    using assms(3) by (simp add: payload_ok_def PACKET_MAX_PL_LEN_def)
  obtain st2 where "packet_process_bytes (concat (map frame ps)) st1 = Some (st2, ps)" "window st2 = []"
    using pk.feed_run [of st1 "concat (map frame ps)"] r e win_run_frames [OF ok] by (auto simp: packet_process_bytes_feed)
  then show ?thesis
    using r e by blast
qed

theorem packet_resynchronises_witness:
  "\<exists>st1 st2 out. packet_process_bytes (replicate 518 0) (packet_init True True) = Some (st1, out) \<and>
    window st1 = [] \<and> packet_process_bytes (concat (map frame [[7], [8, 9]])) st1 = Some (st2, [[7], [8, 9]]) \<and> window st2 = []"
  by (rule packet_resynchronises) (simp_all add: packet_inv_init)

text \<open>A packet is sent exactly when its length is between 1 and 512, always inside the transmit
  buffer, as start byte, big-endian length, payload, CRC-16 and stop byte; other lengths send
  nothing and change nothing.\<close>

theorem packet_send_packet_frame:
  assumes "length (tx_buffer st) = PACKET_BUFFER_LEN" and "send_func st"
  shows "if 1 \<le> length p \<and> length p \<le> 512
    then \<exists>tx. packet_send_packet p st = Some (st\<lparr>tx_buffer := tx\<rparr>, Some
      ((if length p \<le> 255 then [2, word_of_nat (length p)]
        else [3, word_of_nat (length p div 256), word_of_nat (length p mod 256)])
       @ p @ [byte_of 8 (crc16 p), byte_of 0 (crc16 p), 3]))
    else packet_send_packet p st = Some (st, None)"
proof (cases "1 \<le> length p \<and> length p \<le> 512")
  case True
  have len: "length (frame p) \<le> length (tx_buffer st)"
    using assms True length_header [of p]
    by (auto simp: frame_def frame_end_def PACKET_BUFFER_LEN_def PACKET_MAX_PL_LEN_def)
  have w: "write_bytes (tx_buffer st) 0 (packet_header (length p) @ p @ frame_end p)
      = Some (frame p @ drop (length (frame p)) (tx_buffer st), length (frame p))"
    using len by (simp add: write_bytes_def frame_def)
  have "packet_send_packet p st =
    Some (st\<lparr>tx_buffer := frame p @ drop (length (frame p)) (tx_buffer st)\<rparr>, Some (frame p))"
    using True w assms
    by (cases "p = []") (simp_all add: packet_send_packet_def PACKET_MAX_PL_LEN_def Let_def put_byte_eq
        write_bytes_append_k frame_end_def)
  then show ?thesis
    using True by (auto simp: frame_def frame_end_def packet_header_def drop_bit_eq_div nat_and_ff)
qed (auto simp: packet_send_packet_def PACKET_MAX_PL_LEN_def Suc_le_eq)

theorem packet_send_packet_frame_witness:
  "\<exists>tx. packet_send_packet [9] (packet_init True False) = Some ((packet_init True False)\<lparr>tx_buffer := tx\<rparr>, Some
      ([2, word_of_nat (length [9 :: u8])] @ [9] @ [byte_of 8 (crc16 [9]), byte_of 0 (crc16 [9]), 3]))"
  using packet_send_packet_frame [of "packet_init True False" "[9]"]
  by simp

text \<open>The receiver accepts a 255 byte payload behind the two byte length as well, although its
  comment says that a packet that fits the one byte length has to use it: the check there is
  \<open>len < 255\<close>. Two different frames deliver the same payload.\<close>

theorem packet_255_two_encodings:
  assumes "packet_inv st" and "process_func st" and "window st = []" and "length p = 255"
  shows "frame p \<noteq> [3, 0, 255] @ p @ frame_end p \<and>
    (\<forall>f \<in> {frame p, [3, 0, 255] @ p @ frame_end p}.
       \<exists>st'. packet_process_bytes f st = Some (st', [p]) \<and> window st' = [])"
proof -
  let ?g = "[3, 0, 255] @ p @ frame_end p"
  define w where "w = ?g"
  have l: "win_len w = 255" "win_start w = 3" "win_min w = 255" "w ! 0 = 3" "length w = 261"
    by (simp_all add: w_def win_len_def win_start_def win_min_def frame_end_def assms)
  have "win_payload w = p" "win_ok w"
    using frame_end_join [of p "byte_of 8 (crc16 p)" "byte_of 0 (crc16 p)"] assms(4)
    by (simp_all add: win_payload_def win_ok_def l) (simp_all add: w_def nth_append frame_end_def)
  then have "dec w (length w) = (261, 0, [p])"
    using l by (simp add: dec_def PACKET_MAX_PL_LEN_def)
  then have g: "win_run ?g = ([], 1, [p])"
    using l unfolding w_def [symmetric]
    by (simp add: win_run.simps [of w] win_run.simps [of "[]"]) (simp add: dec_def)
  have f: "win_run (frame p) = ([], 1, [p])"
    using win_run_frames [of "[p]"] assms by (simp add: payload_ok_def PACKET_MAX_PL_LEN_def)
  have "\<exists>st'. packet_process_bytes f st = Some (st', [p]) \<and> window st' = []"
    if "win_run f = ([], 1, [p])" for f
    using pk.feed_run [of st f] assms that by (auto simp: packet_process_bytes_feed)
  then have "\<forall>f \<in> {frame p, ?g}. \<exists>st'. packet_process_bytes f st = Some (st', [p]) \<and> window st' = []"
    using f g by blast
  moreover have "frame p \<noteq> ?g"
    using assms(4) by (simp add: frame_def packet_header_def)
  ultimately show ?thesis
    by blast
qed

theorem packet_255_two_encodings_witness:
  "\<exists>st'. packet_process_bytes ([3, 0, 255] @ replicate 255 0 @ frame_end (replicate 255 0)) (packet_init True True)
     = Some (st', [replicate 255 0]) \<and> window st' = []"
  using packet_255_two_encodings [of "packet_init True True" "replicate 255 0"]
  by (simp add: packet_inv_init del: packet_process_bytes.simps append_Cons)

end
