(* ===== verification/Float32.thy ===== *)
theory Float32
  imports Buffer "HOL-Library.Log_Nat"
begin

text \<open>
  Single and double precision arithmetic as the code uses it (the firmware is compiled with
  \<^verbatim>\<open>-fsingle-precision-constant\<close>) and the float serialisers of \<^verbatim>\<open>util/buffer.c\<close>.
  A finite float is a rational number; every operation rounds its exact result to 24 bits,
  to nearest with ties to even, gradually underflowing at the exponent -126 (53 bits and -1022 for
  a double). The values of
  the code stay far below the largest float, so that infinities and NaN do not occur in the
  model. Converting to an integer truncates and saturates, as the conversion instruction of the
  processor does.
\<close>

section \<open>Rounding\<close>

type_synonym float32 = rat

text \<open>The exponent of a positive number: \<open>2 ^ fexp x \<le> x < 2 ^ (fexp x + 1)\<close>.\<close>

definition fexp :: "rat \<Rightarrow> int" where
  "fexp x = (let (n, d) = quotient_of x; k = bitlen n - bitlen d in if x < 2 powi k then k - 1 else k)"

definition round_even :: "rat \<Rightarrow> int" where
  "round_even x =
     (let f = \<lfloor>x\<rfloor>; r = x - of_int f in
      if r < 1 / 2 then f else if 1 / 2 < r then f + 1 else if even f then f else f + 1)"

text \<open>The distance of neighbouring floats around \<open>x\<close>.\<close>

definition ulp :: "rat \<Rightarrow> rat" where
  "ulp x = 2 powi (max (fexp \<bar>x\<bar>) (- 126) - 23)"

definition rnd :: "rat \<Rightarrow> float32" where
  "rnd x = (if x = 0 then 0 else of_int (round_even (x / ulp x)) * ulp x)"

definition f_of_int :: "int \<Rightarrow> float32" where "f_of_int i = rnd (of_int i)"
definition fmul :: "float32 \<Rightarrow> float32 \<Rightarrow> float32" where "fmul a b = rnd (a * b)"
definition fdiv :: "float32 \<Rightarrow> float32 \<Rightarrow> float32" where "fdiv a b = rnd (a / b)"
definition fadd :: "float32 \<Rightarrow> float32 \<Rightarrow> float32" where "fadd a b = rnd (a + b)"
definition fsub :: "float32 \<Rightarrow> float32 \<Rightarrow> float32" where "fsub a b = rnd (a - b)"

definition trunc :: "rat \<Rightarrow> int" where
  "trunc x = (if x < 0 then - \<lfloor>- x\<rfloor> else \<lfloor>x\<rfloor>)"

definition to_int32 :: "float32 \<Rightarrow> u32" where
  "to_int32 x = word_of_int (min (max (trunc x) (- (2 ^ 31))) (2 ^ 31 - 1))"

definition to_uint32 :: "float32 \<Rightarrow> u32" where
  "to_uint32 x = word_of_int (min (max (trunc x) 0) (2 ^ 32 - 1))"

definition to_int16 :: "float32 \<Rightarrow> u16" where
  "to_int16 x = ucast (to_int32 x)"

section \<open>The serialisers\<close>

definition buffer_append_float16 :: "bytes \<Rightarrow> float32 \<Rightarrow> float32 \<Rightarrow> nat \<Rightarrow> (bytes \<times> nat) option" where
  "buffer_append_float16 buffer number scale index = buffer_append_int16 buffer (to_int16 (fmul number scale)) index"

definition buffer_append_float32 :: "bytes \<Rightarrow> float32 \<Rightarrow> float32 \<Rightarrow> nat \<Rightarrow> (bytes \<times> nat) option" where
  "buffer_append_float32 buffer number scale index = buffer_append_int32 buffer (to_int32 (fmul number scale)) index"

definition buffer_get_float16 :: "bytes \<Rightarrow> float32 \<Rightarrow> nat \<Rightarrow> (float32 \<times> nat) option" where
  "buffer_get_float16 buffer scale index = do {
     (v, index) \<leftarrow> buffer_get_int16 buffer index;
     Some (fdiv (f_of_int (sint v)) scale, index)
   }"

definition buffer_get_float32 :: "bytes \<Rightarrow> float32 \<Rightarrow> nat \<Rightarrow> (float32 \<times> nat) option" where
  "buffer_get_float32 buffer scale index = do {
     (v, index) \<leftarrow> buffer_get_int32 buffer index;
     Some (fdiv (f_of_int (sint v)) scale, index)
   }"

text \<open>\<open>frexpf\<close>: a number as a significand in [0.5, 1) and an exponent.\<close>

definition frexpf :: "float32 \<Rightarrow> float32 \<times> int" where
  "frexpf x = (if x = 0 then (0, 0) else (let e = fexp \<bar>x\<bar> + 1 in (x / 2 powi e, e)))"

definition ldexpf :: "float32 \<Rightarrow> int \<Rightarrow> float32" where
  "ldexpf x e = rnd (x * 2 powi e)"

definition buffer_append_float32_auto :: "bytes \<Rightarrow> float32 \<Rightarrow> nat \<Rightarrow> (bytes \<times> nat) option" where
  "buffer_append_float32_auto buffer number index =
     (let number = (if \<bar>number\<bar> < rnd (15 / 10 ^ 39) then 0 else number);
          (sig, e) = frexpf number;
          sig_abs = \<bar>sig\<bar>;
          (sig_i, e) = (if sig_abs \<ge> 1 / 2 then (to_uint32 (fmul (fmul (fsub sig_abs (1 / 2)) 2) 8388608), e + 126)
                        else (0, e));
          res = push_bit 23 (word_of_int e AND 0xFF) OR (sig_i AND 0x7FFFFF);
          res = (if sig < 0 then res OR push_bit 31 1 else res)
      in buffer_append_uint32 buffer res index)"

definition buffer_get_float32_auto :: "bytes \<Rightarrow> nat \<Rightarrow> (float32 \<times> nat) option" where
  "buffer_get_float32_auto buffer index = do {
     (res, index) \<leftarrow> buffer_get_uint32 buffer index;
     let e = uint (drop_bit 23 res AND 0xFF);
     let sig_i = res AND 0x7FFFFF;
     let neg = (res AND push_bit 31 1 \<noteq> 0);
     let (sig, e) = (if e \<noteq> 0 \<or> sig_i \<noteq> 0
       then (fadd (fdiv (f_of_int (uint sig_i)) 16777216) (1 / 2), e - 126) else (0, e));
     let sig = (if neg then - sig else sig);
     Some (ldexpf sig e, index)
   }"

section \<open>Double precision\<close>

type_synonym float64 = rat

definition ulp64 :: "rat \<Rightarrow> rat" where
  "ulp64 x = 2 powi (max (fexp \<bar>x\<bar>) (- 1022) - 52)"

definition rnd64 :: "rat \<Rightarrow> float64" where
  "rnd64 x = (if x = 0 then 0 else of_int (round_even (x / ulp64 x)) * ulp64 x)"

definition to_int64 :: "float64 \<Rightarrow> u64" where
  "to_int64 x = word_of_int (min (max (trunc x) (- (2 ^ 63))) (2 ^ 63 - 1))"

definition buffer_append_double64 :: "bytes \<Rightarrow> float64 \<Rightarrow> float64 \<Rightarrow> nat \<Rightarrow> (bytes \<times> nat) option" where
  "buffer_append_double64 buffer number scale index =
     buffer_append_int64 buffer (to_int64 (rnd64 (number * scale))) index"

definition buffer_get_double64 :: "bytes \<Rightarrow> float64 \<Rightarrow> nat \<Rightarrow> (float64 \<times> nat) option" where
  "buffer_get_double64 buffer scale index = do {
     (v, index) \<leftarrow> buffer_get_int64 buffer index;
     Some (rnd64 (rnd64 (of_int (sint v)) / scale), index)
   }"

text \<open>A double as the nearest float and the remaining error, both self-scaled.\<close>

definition buffer_append_float64_auto :: "bytes \<Rightarrow> float64 \<Rightarrow> nat \<Rightarrow> (bytes \<times> nat) option" where
  "buffer_append_float64_auto buffer number index =
     (let n = rnd number;
          err = rnd (rnd64 (number - n))
      in do {
        (buffer, index) \<leftarrow> buffer_append_float32_auto buffer n index;
        buffer_append_float32_auto buffer err index
      })"

definition buffer_get_float64_auto :: "bytes \<Rightarrow> nat \<Rightarrow> (float64 \<times> nat) option" where
  "buffer_get_float64_auto buffer index = do {
     (n, index) \<leftarrow> buffer_get_float32_auto buffer index;
     (err, index) \<leftarrow> buffer_get_float32_auto buffer index;
     Some (rnd64 (n + err), index)
   }"

section \<open>Facts about rounding\<close>

lemma two_powi_pos [simp]: "0 < (2 :: rat) powi e"
  by simp

lemma fexp_bounds:
  assumes "0 < x"
  shows "2 powi fexp x \<le> x" and "x < 2 powi (fexp x + 1)"
proof -
  obtain n d where q: "quotient_of x = (n, d)" by (cases "quotient_of x")
  have d: "0 < d" and x: "x = of_int n / of_int d"
    using quotient_of_denom_pos [OF q] quotient_of_div [OF q] by simp_all
  have n: "0 < n" using assms d by (simp add: x zero_less_divide_iff)
  have b: "(2 :: rat) powi (bitlen k - 1) \<le> of_int k" "of_int k < (2 :: rat) powi bitlen k" if "0 < k" for k :: int
  proof -
    have "2 ^ nat (bitlen k - 1) \<le> k" "k < 2 ^ nat (bitlen k)" "0 < bitlen k"
      using bitlen_bounds [OF that] bitlen_nonneg [of k] that
      by (auto simp: bitlen_alt_def)
    moreover from this have "(2 :: rat) ^ nat (bitlen k - 1) \<le> of_int k" "of_int k < (2 :: rat) ^ nat (bitlen k)"
      by (metis of_int_le_iff of_int_numeral of_int_power, metis of_int_less_iff of_int_numeral of_int_power)
    ultimately show "(2 :: rat) powi (bitlen k - 1) \<le> of_int k" "of_int k < (2 :: rat) powi bitlen k"
      by (simp_all add: power_int_def)
  qed
  define k where "k = bitlen n - bitlen d"
  have "2 powi (k - 1) \<le> x"
  proof -
    have "(2 :: rat) powi (k - 1) * of_int d \<le> 2 powi (k - 1) * 2 powi bitlen d"
      using b(2) [OF d] by (intro mult_left_mono) auto
    also have "\<dots> = 2 powi (bitlen n - 1)" by (simp add: k_def flip: power_int_add)
    also have "\<dots> \<le> of_int n" by (rule b(1) [OF n])
    finally show ?thesis using d by (simp add: x pos_le_divide_eq)
  qed
  moreover have "x < 2 powi (k + 1)"
  proof -
    have "of_int n < (2 :: rat) powi bitlen n" by (rule b(2) [OF n])
    also have "\<dots> = 2 powi (k + 1) * 2 powi (bitlen d - 1)" by (simp add: k_def flip: power_int_add)
    also have "\<dots> \<le> 2 powi (k + 1) * of_int d" using b(1) [OF d] by (intro mult_left_mono) auto
    finally show ?thesis using d by (simp add: x pos_divide_less_eq)
  qed
  ultimately show "2 powi fexp x \<le> x" "x < 2 powi (fexp x + 1)"
    by (auto simp: fexp_def q k_def [symmetric])
qed

lemma fexp_unique:
  assumes "2 powi e \<le> x" and "x < 2 powi (e + 1)"
  shows "fexp x = e"
proof -
  have "0 < x" using assms(1) two_powi_pos [of e] by linarith
  note f = fexp_bounds [OF this]
  have "(2 :: rat) powi e < 2 powi (fexp x + 1)" "(2 :: rat) powi fexp x < 2 powi (e + 1)"
    using assms f by linarith+
  then have "\<not> fexp x + 1 \<le> e" "\<not> e + 1 \<le> fexp x"
    using power_int_increasing [of "fexp x + 1" e "2 :: rat"] power_int_increasing [of "e + 1" "fexp x" "2 :: rat"] by auto
  then show ?thesis by simp
qed

lemma round_even_int [simp]: "round_even (of_int i) = i"
  by (simp add: round_even_def)

lemma round_even_error: "\<bar>of_int (round_even x) - x\<bar> \<le> 1 / 2"
proof -
  have "of_int \<lfloor>x\<rfloor> \<le> x" "x < of_int \<lfloor>x\<rfloor> + 1" using floor_correct [of x] by simp_all
  then show ?thesis by (auto simp: round_even_def Let_def abs_le_iff)
qed

lemma ulp_pos [simp]: "0 < ulp x" "ulp x \<noteq> 0" "0 \<le> ulp x"
  by (simp_all add: ulp_def)

lemma rnd_error: "\<bar>rnd x - x\<bar> \<le> ulp x / 2"
proof (cases "x = 0")
  case False
  have "rnd x - x = (of_int (round_even (x / ulp x)) - x / ulp x) * ulp x"
    using False by (simp add: rnd_def field_simps)
  then have "\<bar>rnd x - x\<bar> = \<bar>of_int (round_even (x / ulp x)) - x / ulp x\<bar> * ulp x"
    by (simp only: abs_mult abs_of_pos [OF ulp_pos(1)])
  also have "\<dots> \<le> 1 / 2 * ulp x"
    by (intro mult_right_mono round_even_error order_less_imp_le ulp_pos(1))
  finally show ?thesis by simp
qed (simp add: rnd_def)

lemma rnd_rel: "\<bar>rnd x - x\<bar> \<le> \<bar>x\<bar> / 2 ^ 24 + 1 / 2 ^ 150"
proof (cases "x = 0")
  case False
  then have "2 powi fexp \<bar>x\<bar> \<le> \<bar>x\<bar>" using fexp_bounds(1) [of "\<bar>x\<bar>"] by simp
  moreover have "ulp x \<le> 2 powi fexp \<bar>x\<bar> / 2 ^ 23 + 1 / 2 ^ 149"
  proof (cases "- 126 \<le> fexp \<bar>x\<bar>")
    case True
    then show ?thesis by (simp add: ulp_def power_int_diff)
  next
    case False
    then have "max (fexp \<bar>x\<bar>) (- 126) - 23 = - 149" by simp
    then have u: "ulp x = 1 / 2 ^ 149"
      by (simp only: ulp_def power_int_minus power_int_numeral inverse_eq_divide)
    have "0 \<le> (2 :: rat) powi fexp \<bar>x\<bar> / 2 ^ 23" by (intro divide_nonneg_nonneg) simp_all
    then show ?thesis by (simp only: u le_add_same_cancel2)
  qed
  ultimately have "ulp x / 2 \<le> \<bar>x\<bar> / 2 ^ 24 + 1 / 2 ^ 150" by simp
  then show ?thesis
    using rnd_error [of x] by (rule order_trans [rotated])
qed (simp add: rnd_def)

text \<open>A number with at most 24 significant bits above the subnormal range is a float.\<close>

lemma rnd_exact:
  assumes "x = of_int i * 2 powi k" and "\<bar>i\<bar> < 2 ^ 24" and "- 149 \<le> k"
  shows "rnd x = x"
proof (cases "x = 0")
  case False
  let ?e = "max (fexp \<bar>x\<bar>) (- 126) - 23"
  have "2 powi fexp \<bar>x\<bar> \<le> \<bar>x\<bar>" using fexp_bounds(1) [of "\<bar>x\<bar>"] False by simp
  also have "\<bar>x\<bar> < 2 ^ 24 * 2 powi k"
  proof -
    have "(of_int \<bar>i\<bar> :: rat) < 2 ^ 24" using assms(2) by (metis of_int_less_iff of_int_numeral of_int_power)
    then show ?thesis by (simp add: assms(1) abs_mult)
  qed
  also have "\<dots> = 2 powi (k + 24)" by (simp add: power_int_add)
  finally have "\<not> k + 24 \<le> fexp \<bar>x\<bar>"
    using power_int_increasing [of "k + 24" "fexp \<bar>x\<bar>" "2 :: rat"] by auto
  then have e: "?e \<le> k" using assms(3) by simp
  have "x / ulp x = of_int i * (2 powi k / 2 powi ?e)" by (simp add: ulp_def assms(1))
  also have "(2 :: rat) powi k / 2 powi ?e = 2 powi (k - ?e)" by (simp add: power_int_diff)
  also have "\<dots> = 2 ^ nat (k - ?e)" using e by (simp add: power_int_def)
  finally have "x / ulp x = of_int (i * 2 ^ nat (k - ?e))" by simp
  then show ?thesis
    using False ulp_pos [of x] by (metis nonzero_eq_divide_eq rnd_def round_even_int)
qed (simp add: rnd_def)

lemma rnd_int: "\<bar>i\<bar> < 2 ^ 24 \<Longrightarrow> rnd (of_int i) = of_int i"
  by (rule rnd_exact [where k = 0]) simp_all

lemma rnd_zero [simp]: "rnd 0 = 0"
  by (simp add: rnd_def)

text \<open>The normal floats: 24 bit significand, exponent from -126 to 127.\<close>

definition normal :: "rat \<Rightarrow> bool" where
  "normal x = (\<exists>i k. x = of_int i * 2 powi k \<and> 2 ^ 23 \<le> \<bar>i\<bar> \<and> \<bar>i\<bar> < 2 ^ 24 \<and> - 149 \<le> k \<and> k \<le> 104)"

section \<open>Scaled values\<close>

lemma trunc_error: "\<bar>of_int (trunc x) - x\<bar> \<le> 1" and trunc_le: "of_int \<bar>trunc x\<bar> \<le> \<bar>x\<bar>"
proof -
  have f: "of_int \<lfloor>y\<rfloor> \<le> y" "y < of_int \<lfloor>y\<rfloor> + 1" "0 \<le> y \<Longrightarrow> 0 \<le> (of_int \<lfloor>y\<rfloor> :: rat)" for y :: rat
    using floor_correct [of y] by simp_all
  show "\<bar>of_int (trunc x) - x\<bar> \<le> 1" "of_int \<bar>trunc x\<bar> \<le> \<bar>x\<bar>"
    using f [of x] f [of "- x"] unfolding trunc_def of_int_abs
    by (cases "x < 0"; simp only: if_True if_False of_int_minus; linarith)+
qed

text \<open>What comes back of a value that was scaled, truncated and divided again.\<close>

lemma scaled_error:
  assumes s: "1 / 2 ^ 20 \<le> s" "s \<le> 2 ^ 40" and y: "\<bar>n * s\<bar> \<le> 2 ^ 31"
  defines "t \<equiv> trunc (fmul n s)"
  shows "\<bar>fdiv (f_of_int t) s - n\<bar> \<le> (101 / 100 + \<bar>n * s\<bar> / 2 ^ 21) / s"
proof -
  have s0: "0 < s" using s(1) by (rule order_less_le_trans [rotated]) simp
  define y p q where "y = n * s" and "p = rnd (n * s)" and "q = rnd (of_int t)"
  define e :: rat where "e = 1 / 2 ^ 150"
  note bounds = rnd_rel [folded e_def]
  have 1: "\<bar>p - y\<bar> \<le> \<bar>y\<bar> / 2 ^ 24 + e" unfolding p_def y_def by (rule bounds)
  have 2: "\<bar>of_int t - p\<bar> \<le> 1" "\<bar>of_int t\<bar> \<le> \<bar>p\<bar>"
    using trunc_error [of p] trunc_le [of p] by (simp_all add: t_def p_def fmul_def)
  have 3: "\<bar>q - of_int t\<bar> \<le> \<bar>of_int t\<bar> / 2 ^ 24 + e" unfolding q_def by (rule bounds)
  have "\<bar>rnd (q / s) - q / s\<bar> \<le> \<bar>q / s\<bar> / 2 ^ 24 + e" by (rule bounds)
  then have "\<bar>rnd (q / s) - q / s\<bar> * s \<le> (\<bar>q / s\<bar> / 2 ^ 24 + e) * s"
    using s0 by (intro mult_right_mono) auto
  then have 4: "\<bar>rnd (q / s) * s - q\<bar> \<le> \<bar>q\<bar> / 2 ^ 24 + e * s"
  proof -
    have "rnd (q / s) * s - q = (rnd (q / s) - q / s) * s" using s0 by (simp add: left_diff_distrib)
    then have "\<bar>rnd (q / s) * s - q\<bar> = \<bar>rnd (q / s) - q / s\<bar> * s" using s0 by (simp only: abs_mult abs_of_pos)
    also have "\<dots> \<le> (\<bar>q / s\<bar> / 2 ^ 24 + e) * s" by fact
    also have "\<dots> = \<bar>q\<bar> / 2 ^ 24 + e * s" using s0 by (simp add: abs_divide distrib_right)
    finally show ?thesis .
  qed
  have es: "e * s \<le> e * 2 ^ 40" "0 \<le> e" using s(2) s0 by (simp_all add: e_def)
  have small: "e * 2 ^ 40 \<le> 1 / 1000000" "e \<le> 1 / 1000000" by (simp_all add: e_def)
  have c: "(2 :: rat) ^ 24 = 16777216" "(2 :: rat) ^ 21 = 2097152" "(2 :: rat) ^ 40 = 1099511627776" by simp_all
  have "\<bar>p\<bar> \<le> 2 * \<bar>y\<bar> + 1 / 1000000" using 1 small(2) unfolding c by linarith
  moreover from this have "\<bar>q\<bar> \<le> 3 * \<bar>y\<bar> + 1 / 100000" using 2(2) 3 small(2) unfolding c by linarith
  ultimately have "\<bar>rnd (q / s) * s - y\<bar> \<le> 101 / 100 + \<bar>y\<bar> / 2 ^ 21"
    using 1 2 3 4 es small unfolding c by linarith
  then have "\<bar>(rnd (q / s) - n) * s\<bar> \<le> 101 / 100 + \<bar>n * s\<bar> / 2 ^ 21"
    by (simp add: left_diff_distrib y_def)
  then have "\<bar>rnd (q / s) - n\<bar> * s \<le> 101 / 100 + \<bar>n * s\<bar> / 2 ^ 21"
    using s0 by (simp add: abs_mult)
  then show ?thesis
    using s0 by (simp add: fdiv_def f_of_int_def q_def pos_le_divide_eq)
qed

section \<open>The self-scaling format\<close>

lemma frexpf_normal:
  assumes "x = of_int i * 2 powi k" and "2 ^ 23 \<le> \<bar>i\<bar>" and "\<bar>i\<bar> < 2 ^ 24"
  shows "frexpf x = (of_int i / 2 ^ 24, k + 24)"
proof -
  have i: "(2 :: rat) ^ 23 \<le> of_int \<bar>i\<bar>" "of_int \<bar>i\<bar> < (2 :: rat) ^ 24"
    using assms(2,3) by (metis of_int_le_iff of_int_numeral of_int_power, metis of_int_less_iff of_int_numeral of_int_power)
  have x: "\<bar>x\<bar> = of_int \<bar>i\<bar> * 2 powi k" by (simp add: assms(1) abs_mult)
  have "fexp \<bar>x\<bar> = k + 23"
  proof (rule fexp_unique)
    have "2 powi (k + 23) = (2 :: rat) ^ 23 * 2 powi k" by (simp add: power_int_add)
    also have "\<dots> \<le> \<bar>x\<bar>" unfolding x using i(1) by (intro mult_right_mono) auto
    finally show "2 powi (k + 23) \<le> \<bar>x\<bar>" .
    have "\<bar>x\<bar> < 2 ^ 24 * 2 powi k" unfolding x using i(2) by (intro mult_strict_right_mono) auto
    also have "\<dots> = 2 powi (k + 23 + 1)" by (simp add: power_int_add)
    finally show "\<bar>x\<bar> < 2 powi (k + 23 + 1)" .
  qed
  moreover have "x \<noteq> 0" using assms(1,2) by auto
  moreover have "x / 2 powi (24 + k) = of_int i / 2 ^ 24" by (simp add: assms(1) power_int_add)
  ultimately show ?thesis by (simp add: frexpf_def Let_def add.commute)
qed

lemma neg_scaled: "(of_int i * 2 powi k :: rat) < 0 \<longleftrightarrow> i < 0"
  using mult_less_cancel_right_pos [OF two_powi_pos, of "of_int i" k 0] by simp

lemma rnd_scaled: "0 \<le> m \<Longrightarrow> m < 2 ^ 24 \<Longrightarrow> n \<le> 149 \<Longrightarrow> rnd (of_int m / 2 ^ n) = of_int m / 2 ^ n"
  by (rule rnd_exact [of _ m "- int n"]) (simp_all add: power_int_minus divide_inverse)

lemma auto_fields:
  fixes m :: int
  assumes "0 \<le> m" and "m < 2 ^ 23" and "1 \<le> E" and "E \<le> 254"
  defines "w \<equiv> push_bit 23 (word_of_int E AND 0xFF) OR (word_of_int m AND 0x7FFFFF) :: u32"
  shows "uint (drop_bit 23 w AND 0xFF) = E" and "uint (w AND 0x7FFFFF) = m" and "w AND push_bit 31 1 = 0"
    and "uint (drop_bit 23 (w OR push_bit 31 1) AND 0xFF) = E" and "uint ((w OR push_bit 31 1) AND 0x7FFFFF) = m"
    and "(w OR push_bit 31 1) AND push_bit 31 1 \<noteq> 0"
proof -
  have M: "(0xFF :: u32) = mask 8" "(0x7FFFFF :: u32) = mask 23" by (simp_all add: mask_eq_exp_minus_1)
  define h where "h = push_bit 31 (1 :: u32)"
  have h: "bit h n \<longleftrightarrow> n = 31" for n
    unfolding h_def bit_push_bit_iff bit_1_iff by auto
  have b: "drop_bit 23 w AND 0xFF = take_bit 8 (word_of_int E)" "w AND 0x7FFFFF = take_bit 23 (word_of_int m)"
      "drop_bit 23 (w OR h) AND 0xFF = take_bit 8 (word_of_int E)"
      "(w OR h) AND 0x7FFFFF = take_bit 23 (word_of_int m)"
    unfolding w_def M by (rule bit_word_eqI; auto simp: bit_simps h dest: bit_imp_le_length)+
  have "uint (take_bit 8 (word_of_int E :: u32)) = E" "uint (take_bit 23 (word_of_int m :: u32)) = m"
    using assms(1-4) by (simp_all add: unsigned_take_bit_eq unsigned_of_int take_bit_int_eq_self)
  then show "uint (drop_bit 23 w AND 0xFF) = E" "uint (w AND 0x7FFFFF) = m"
    "uint (drop_bit 23 (w OR push_bit 31 1) AND 0xFF) = E" "uint ((w OR push_bit 31 1) AND 0x7FFFFF) = m"
    by (simp_all only: h_def [symmetric] b)
  show "w AND push_bit 31 1 = 0"
    unfolding w_def M h_def [symmetric] by (rule bit_word_eqI) (auto simp: bit_simps h dest: bit_imp_le_length)
  have "bit ((w OR h) AND h) 31" by (simp add: bit_simps h)
  then show "(w OR push_bit 31 1) AND push_bit 31 1 \<noteq> 0"
    unfolding h_def [symmetric] by (metis bit_0_eq bot_apply bot_bool_def)
qed

definition auto_word :: "float32 \<Rightarrow> u32" where
  "auto_word number =
     (let number = (if \<bar>number\<bar> < rnd (15 / 10 ^ 39) then 0 else number);
          (sig, e) = frexpf number;
          sig_abs = \<bar>sig\<bar>;
          (sig_i, e) = (if sig_abs \<ge> 1 / 2 then (to_uint32 (fmul (fmul (fsub sig_abs (1 / 2)) 2) 8388608), e + 126)
                        else (0, e));
          res = push_bit 23 (word_of_int e AND 0xFF) OR (sig_i AND 0x7FFFFF)
      in if sig < 0 then res OR push_bit 31 1 else res)"

lemma append_auto_write: "buffer_append_float32_auto buf x i = write_bytes buf i (be32 (auto_word x))"
  by (simp add: buffer_append_float32_auto_def auto_word_def Let_def case_prod_beta buf_simps)

text \<open>The word a normal number is stored as: its exponent, its significand without the
  leading bit, its sign.\<close>

lemma auto_word_normal:
  fixes i k :: int
  assumes "x = of_int i * 2 powi k" and "2 ^ 23 \<le> \<bar>i\<bar>" and "\<bar>i\<bar> < 2 ^ 24" and "rnd (15 / 10 ^ 39) \<le> \<bar>x\<bar>"
  defines "w \<equiv> push_bit 23 (word_of_int (k + 150) AND 0xFF) OR (word_of_int (\<bar>i\<bar> - 2 ^ 23) AND 0x7FFFFF) :: u32"
  shows "auto_word x = (if x < 0 then w OR push_bit 31 1 else w)"
proof -
  define m where "m = \<bar>i\<bar> - 2 ^ 23"
  define sig a b c :: rat where "sig = of_int i / 2 ^ 24" and "a = of_int \<bar>i\<bar> / 2 ^ 24"
    and "b = of_int m / 2 ^ 24" and "c = of_int m / 2 ^ 23"
  have m: "0 \<le> m" "m < 2 ^ 24" using assms(2,3) by (simp_all add: m_def)
  have f: "frexpf x = (sig, k + 24)" unfolding sig_def by (rule frexpf_normal [OF assms(1-3)])
  have sa: "\<bar>sig\<bar> = a" by (simp add: sig_def a_def abs_divide)
  have "(of_int (2 ^ 23) :: rat) \<le> of_int \<bar>i\<bar>" using assms(2) by (simp only: of_int_le_iff)
  then have h: "1 / 2 \<le> a" by (simp add: a_def)
  have e: "a - 1 / 2 = b" "b * 2 = c" "c * 8388608 = of_int m"
    by (simp_all add: a_def b_def c_def m_def diff_divide_distrib)
  have 1: "fsub a (1 / 2) = b" "fmul b 2 = c"
    unfolding fsub_def fmul_def e unfolding b_def c_def by (rule rnd_scaled [OF m]; simp)+
  have 3: "fmul c 8388608 = of_int m"
    unfolding fmul_def e by (rule rnd_int) (use m in simp)
  have "trunc (of_int m) = m" using m(1) by (simp add: trunc_def)
  then have 4: "to_uint32 (of_int m) = word_of_int m" using m by (simp add: to_uint32_def min_def max_def)
  have "sig < 0 \<longleftrightarrow> x < 0" by (simp only: assms(1) neg_scaled) (simp add: sig_def divide_less_0_iff)
  moreover have "k + 24 + 126 = k + 150" by simp
  moreover have "\<not> \<bar>x\<bar> < rnd (15 / 10 ^ 39)" using assms(4) by (simp only: not_less)
  ultimately show ?thesis
    unfolding auto_word_def w_def m_def [symmetric]
    by (simp only: Let_def f case_prod_conv sa h 1 3 4 if_True if_False refl simp_thms)
qed

lemma get_auto_word:
  assumes "buffer_get_uint32 buf n = Some (w, n')" and "uint (drop_bit 23 w AND 0xFF) = E" and "uint (w AND 0x7FFFFF) = m"
    and "1 \<le> E" and "E \<le> 254" and "0 \<le> m" and "m < 2 ^ 23"
  shows "buffer_get_float32_auto buf n =
    Some ((if w AND push_bit 31 1 \<noteq> 0 then - 1 else 1) * of_int (m + 2 ^ 23) * 2 powi (E - 150), n')"
proof -
  have 1: "f_of_int m = of_int m" using rnd_int [of m] assms(6,7) by (simp add: f_of_int_def)
  define A :: rat where "A = of_int m / 2 ^ 24"
  have 2: "fdiv (of_int m) 16777216 = A"
    using rnd_scaled [of m 24] assms(6,7) by (simp add: fdiv_def A_def)
  have e: "A + 1 / 2 = of_int (m + 2 ^ 23) / 2 ^ 24" by (simp add: add_divide_distrib A_def)
  have 3: "fadd A (1 / 2) = of_int (m + 2 ^ 23) / 2 ^ 24"
    unfolding fadd_def e by (rule rnd_scaled) (use assms(6,7) in simp_all)
  have 4: "ldexpf (of_int j / 2 ^ 24) (E - 126) = of_int j * 2 powi (E - 150)" if "\<bar>j\<bar> < 2 ^ 24" for j
  proof -
    have "(2 :: rat) powi (E - 126) = 2 powi (E - 150) * 2 ^ 24" by (simp add: power_int_diff)
    then have e: "(of_int j / 2 ^ 24 * 2 powi (E - 126) :: rat) = of_int j * 2 powi (E - 150)" by simp
    show ?thesis unfolding ldexpf_def e by (rule rnd_exact [OF refl that]) (use assms(4) in simp)
  qed
  define j where "j = m + 2 ^ 23"
  define J :: rat where "J = of_int j / 2 ^ 24"
  have j: "\<bar>j\<bar> < 2 ^ 24" "\<bar>- j\<bar> < 2 ^ 24" using assms(6,7) by (simp_all add: j_def)
  have "- J = of_int (- j) / 2 ^ 24" by (simp add: J_def)
  then have 5: "ldexpf J (E - 126) = of_int j * 2 powi (E - 150)" "ldexpf (- J) (E - 126) = - (of_int j * 2 powi (E - 150))"
    using 4 [OF j(1)] 4 [OF j(2)] by (simp_all add: J_def)
  note 6 = 3 [folded j_def, folded J_def]
  show ?thesis
    unfolding j_def [symmetric]
    using assms(1-4) 5 by (simp add: buffer_get_float32_auto_def Let_def 1 2 6)
qed

lemma tiny: "15 / 10 ^ 39 \<le> (1 / 100 :: rat)" "0 \<le> (15 / 10 ^ 39 :: rat)" "1 / 2 ^ 150 \<le> (1 / 100 :: rat)"
proof -
  have "(10 :: rat) ^ 4 \<le> 10 ^ 39" "(2 :: rat) ^ 7 \<le> 2 ^ 150" by (rule power_increasing; simp)+
  moreover have "(15 :: rat) / 10 ^ 4 \<le> 1 / 100" "(1 :: rat) / 2 ^ 7 \<le> 1 / 100" by simp_all
  ultimately show "15 / 10 ^ 39 \<le> (1 / 100 :: rat)" "1 / 2 ^ 150 \<le> (1 / 100 :: rat)"
    by (meson divide_left_mono order_trans zero_le_one zero_le_numeral zero_less_numeral zero_less_power mult_pos_pos)+
qed (rule divide_nonneg_nonneg; simp)

section \<open>Properties\<close>

text \<open>C11. The self-scaling format is exact: every normal float of magnitude at least 1.5e-38, written
  by \<open>buffer_append_float32_auto\<close> anywhere in a buffer, is read back unchanged.\<close>

theorem buffer_float32_auto_roundtrip:
  assumes "normal x" and "rnd (15 / 10 ^ 39) \<le> \<bar>x\<bar>" and "length pre + 4 \<le> length buf" and "pre = take (length pre) buf"
  shows "\<exists>buf'. buffer_append_float32_auto buf x (length pre) = Some (buf', length pre + 4) \<and>
    buffer_get_float32_auto buf' (length pre) = Some (x, length pre + 4)"
proof -
  obtain i k where x: "x = of_int i * 2 powi k" and i: "2 ^ 23 \<le> \<bar>i\<bar>" "\<bar>i\<bar> < 2 ^ 24" and k: "- 149 \<le> k" "k \<le> 104"
    using assms(1) unfolding normal_def by blast
  let ?m = "\<bar>i\<bar> - 2 ^ 23" and ?buf = "pre @ be32 (auto_word x) @ drop (length pre + 4) buf"
  have m: "0 \<le> ?m" "?m < 2 ^ 23" using i by simp_all
  have E: "1 \<le> k + 150" "k + 150 \<le> 254" using k by simp_all
  note w = auto_word_normal [OF x i assms(2)] and f = auto_fields [OF m E]
  have s: "i < 0 \<longleftrightarrow> x < 0" by (simp only: x neg_scaled)
  have "uint (drop_bit 23 (auto_word x) AND 0xFF) = k + 150" "uint (auto_word x AND 0x7FFFFF) = ?m"
      "auto_word x AND push_bit 31 1 \<noteq> 0 \<longleftrightarrow> x < 0"
    unfolding w by (cases "x < 0"; simp only: if_True if_False f simp_thms)+
  note g = get_auto_word [OF get32_be(2) this(1,2) E m, unfolded this(3)]
  have "(if x < 0 then - 1 else 1) * of_int (?m + 2 ^ 23) * 2 powi (k + 150 - 150) = x"
    unfolding s [symmetric] by (cases "i < 0") (simp_all add: x)
  then have "buffer_get_float32_auto ?buf (length pre) = Some (x, length pre + 4)"
    using g [of pre "drop (length pre + 4) buf"] by simp
  moreover have "buffer_append_float32_auto buf x (length pre) = Some (?buf, length pre + 4)"
    using assms(3,4) by (simp add: append_auto_write write_bytes_def)
  ultimately show ?thesis by blast
qed

theorem buffer_float32_auto_roundtrip_witness:
  "\<exists>buf'. buffer_append_float32_auto (replicate 6 0) (- 3 / 4) 1 = Some (buf', 5) \<and>
     buffer_get_float32_auto buf' 1 = Some (- 3 / 4, 5)"
proof -
  have e: "(- 3 / 4 :: rat) = of_int (- 12582912) * 2 powi (- 24)"
    by (simp only: power_int_minus power_int_numeral inverse_eq_divide) simp
  have "normal (- 3 / 4)"
    unfolding normal_def by (rule exI [of _ "- 12582912"], rule exI [of _ "- 24"], intro conjI, rule e) simp_all
  moreover have "rnd (15 / 10 ^ 39) \<le> \<bar>- 3 / 4\<bar>"
  proof -
    define z e :: rat where "z = 15 / 10 ^ 39" and "e = 1 / 2 ^ 150"
    have "z \<le> 1 / 100" "0 \<le> z" "e \<le> 1 / 100" unfolding z_def e_def by (fact tiny)+
    moreover have "\<bar>rnd z - z\<bar> \<le> \<bar>z\<bar> / 2 ^ 24 + e" unfolding e_def by (rule rnd_rel)
    moreover have "\<bar>z\<bar> / 2 ^ 24 \<le> \<bar>z\<bar>" by simp
    ultimately have "rnd z \<le> 3 / 4" by linarith
    then show ?thesis unfolding z_def by simp
  qed
  ultimately show ?thesis
    using buffer_float32_auto_roundtrip [of "- 3 / 4" "[0]" "replicate 6 0"] by simp
qed

text \<open>The scaled formats lose little more than one unit of the last place: a float that fits,
  written with a scale by \<open>buffer_append_float16\<close> or \<open>buffer_append_float32\<close> and read with the
  same scale, comes back with an error below (1.01 + |n s| / 2 ^ 21) / s, all roundings included.\<close>

theorem buffer_scaled_error:
  assumes "1 / 2 ^ 20 \<le> s" and "s \<le> 2 ^ 40" and "\<bar>fmul n s\<bar> < 2 ^ 15" and "\<bar>n * s\<bar> \<le> 2 ^ 31"
  shows "\<exists>buf16 buf32 v w. buffer_append_float16 [0, 0] n s 0 = Some (buf16, 2) \<and> buffer_get_float16 buf16 s 0 = Some (v, 2) \<and>
    buffer_append_float32 [0, 0, 0, 0] n s 0 = Some (buf32, 4) \<and> buffer_get_float32 buf32 s 0 = Some (w, 4) \<and>
    \<bar>v - n\<bar> \<le> (101 / 100 + \<bar>n * s\<bar> / 2 ^ 21) / s \<and> w = v"
proof -
  let ?t = "trunc (fmul n s)"
  have "of_int \<bar>?t\<bar> < (of_int (2 ^ 15) :: rat)" using trunc_le [of "fmul n s"] assms(3) by simp
  then have t: "\<bar>?t\<bar> < 2 ^ 15" by (simp only: of_int_less_iff)
  have i32: "to_int32 (fmul n s) = word_of_int ?t" using t by (auto simp: to_int32_def min_def max_def)
  have "sint (word_of_int ?t :: u32) = ?t" "sint (ucast (word_of_int ?t :: u32) :: u16) = ?t"
    using t by (simp_all add: signed_of_int signed_ucast_eq unsigned_of_int signed_take_bit_take_bit signed_take_bit_int_eq_self)
  then show ?thesis
    using scaled_error [OF assms(1,2,4)] get16_be(1) [of "[]" "to_int16 (fmul n s)" "[]"]
      get32_be(1) [of "[]" "to_int32 (fmul n s)" "[]"]
    by (simp add: buffer_append_float16_def buffer_append_float32_def buffer_get_float16_def buffer_get_float32_def
        buf_simps write_bytes_def i32 to_int16_def)
qed

theorem buffer_scaled_error_witness:
  "\<exists>buf16 buf32 v w. buffer_append_float16 [0, 0] (1 / 8) 1000 0 = Some (buf16, 2) \<and> buffer_get_float16 buf16 1000 0 = Some (v, 2) \<and>
    buffer_append_float32 [0, 0, 0, 0] (1 / 8) 1000 0 = Some (buf32, 4) \<and> buffer_get_float32 buf32 1000 0 = Some (w, 4) \<and>
    \<bar>v - 1 / 8\<bar> \<le> (101 / 100 + \<bar>1 / 8 * 1000\<bar> / 2 ^ 21) / 1000 \<and> w = v"
proof (rule buffer_scaled_error)
  have "fmul (1 / 8) 1000 = 125" using rnd_int [of 125] by (simp add: fmul_def)
  then show "\<bar>fmul (1 / 8) 1000\<bar> < 2 ^ 15" by simp
qed simp_all

end
