(* ===== verification/Mempools.thy ===== *)
theory Mempools
  imports Prelude
begin

text \<open>
  The fixed pools of configuration buffers of \<^verbatim>\<open>util/mempools.c\<close>, and its packet buffers. Both
  pools, of \<open>mc_configuration\<close> and of \<open>app_configuration\<close>, are one datatype with the
  contents as a type parameter: \<open>slots\<close> is the array of containers and \<open>highest\<close> the high-water
  mark. A pointer to a configuration is the index of its slot, the null pointer is \<open>None\<close>.
\<close>

section \<open>The code\<close>

record 'a container =
  is_taken :: bool
  conf :: 'a

record 'a pool =
  slots :: "'a container list"
  highest :: nat

definition MEMPOOLS_MCCONF_NUM :: nat where "MEMPOOLS_MCCONF_NUM = 10"
definition MEMPOOLS_APPCONF_NUM :: nat where "MEMPOOLS_APPCONF_NUM = 3"

definition new_pool :: "nat \<Rightarrow> 'a \<Rightarrow> 'a pool" where
  "new_pool n z = \<lparr>slots = replicate n \<lparr>is_taken = False, conf = z\<rparr>, highest = 0\<rparr>"

text \<open>The search loop: from slot \<open>i\<close> on, \<open>n\<close> slots are left.\<close>

fun alloc_from :: "nat \<Rightarrow> nat \<Rightarrow> 'a pool \<Rightarrow> nat option \<times> 'a pool" where
  "alloc_from 0 i p = (None, p\<lparr>highest := Suc (highest p)\<rparr>)"
| "alloc_from (Suc n) i p =
     (let p1 = (if i > highest p then p\<lparr>highest := i\<rparr> else p) in
      if \<not> is_taken (slots p1 ! i)
      then (Some i, p1\<lparr>slots := (slots p1)[i := (slots p1 ! i)\<lparr>is_taken := True\<rparr>]\<rparr>)
      else alloc_from n (Suc i) p1)"

definition mempools_alloc_mcconf :: "'a pool \<Rightarrow> nat option \<times> 'a pool" where
  "mempools_alloc_mcconf p = alloc_from MEMPOOLS_MCCONF_NUM 0 p"

definition mempools_alloc_appconf :: "'a pool \<Rightarrow> nat option \<times> 'a pool" where
  "mempools_alloc_appconf p = alloc_from MEMPOOLS_APPCONF_NUM 0 p"

text \<open>Freeing looks for the slot whose address is given; a pointer to no slot changes nothing.\<close>

fun free_from :: "nat \<Rightarrow> nat \<Rightarrow> nat option \<Rightarrow> 'a pool \<Rightarrow> 'a pool" where
  "free_from 0 i c p = p"
| "free_from (Suc n) i c p =
     (if c = Some i then p\<lparr>slots := (slots p)[i := (slots p ! i)\<lparr>is_taken := False\<rparr>]\<rparr>
      else free_from n (Suc i) c p)"

definition mempools_free_mcconf :: "nat option \<Rightarrow> 'a pool \<Rightarrow> 'a pool" where
  "mempools_free_mcconf c p = free_from MEMPOOLS_MCCONF_NUM 0 c p"

definition mempools_free_appconf :: "nat option \<Rightarrow> 'a pool \<Rightarrow> 'a pool" where
  "mempools_free_appconf c p = free_from MEMPOOLS_APPCONF_NUM 0 c p"

definition mempools_mcconf_highest :: "'a pool \<Rightarrow> nat" where "mempools_mcconf_highest p = highest p"
definition mempools_appconf_highest :: "'a pool \<Rightarrow> nat" where "mempools_appconf_highest p = highest p"

fun count_taken :: "nat \<Rightarrow> nat \<Rightarrow> nat \<Rightarrow> 'a pool \<Rightarrow> nat" where
  "count_taken 0 i res p = res"
| "count_taken (Suc n) i res p = count_taken n (Suc i) (if is_taken (slots p ! i) then Suc res else res) p"

definition mempools_mcconf_allocated_num :: "'a pool \<Rightarrow> nat" where
  "mempools_mcconf_allocated_num p = count_taken MEMPOOLS_MCCONF_NUM 0 0 p"

definition mempools_appconf_allocated_num :: "'a pool \<Rightarrow> nat" where
  "mempools_appconf_allocated_num p = count_taken MEMPOOLS_APPCONF_NUM 0 0 p"

text \<open>The content behind a pointer, and writing it.\<close>

definition conf_at :: "'a pool \<Rightarrow> nat \<Rightarrow> 'a" where "conf_at p i = conf (slots p ! i)"

definition set_conf :: "nat \<Rightarrow> 'a \<Rightarrow> 'a pool \<Rightarrow> 'a pool" where
  "set_conf i c p = p\<lparr>slots := (slots p)[i := (slots p ! i)\<lparr>conf := c\<rparr>]\<rparr>"

subsection \<open>Packet buffers\<close>

text \<open>Each of the two packet buffers is guarded by a mutex: getting one waits for it
  (\<open>None\<close>: the caller blocks), freeing one releases the mutex of the buffer it is given.\<close>

datatype packet_buffer = Packet_buffer | Lbm_packet_buffer | Other_buffer

record buffer_locks =
  packet_locked :: bool
  lbm_locked :: bool

definition mempools_init :: "buffer_locks" where
  "mempools_init = \<lparr>packet_locked = False, lbm_locked = False\<rparr>"

definition mempools_get_packet_buffer :: "buffer_locks \<Rightarrow> (packet_buffer \<times> buffer_locks) option" where
  "mempools_get_packet_buffer l =
     (if packet_locked l then None else Some (Packet_buffer, l\<lparr>packet_locked := True\<rparr>))"

definition mempools_get_lbm_packet_buffer :: "buffer_locks \<Rightarrow> (packet_buffer \<times> buffer_locks) option" where
  "mempools_get_lbm_packet_buffer l =
     (if lbm_locked l then None else Some (Lbm_packet_buffer, l\<lparr>lbm_locked := True\<rparr>))"

definition mempools_free_packet_buffer :: "packet_buffer \<Rightarrow> buffer_locks \<Rightarrow> buffer_locks" where
  "mempools_free_packet_buffer b l =
     (if b = Packet_buffer then l\<lparr>packet_locked := False\<rparr>
      else if b = Lbm_packet_buffer then l\<lparr>lbm_locked := False\<rparr> else l)"

section \<open>What an allocator promises\<close>

text \<open>The slots in use, the abstract value of a pool.\<close>

definition taken :: "'a pool \<Rightarrow> nat set" where
  "taken p = {i. i < length (slots p) \<and> is_taken (slots p ! i)}"

lemma alloc_from_spec:
  assumes "alloc_from n i p = (r, p')" and "i + n = length (slots p)" and "\<forall>j < i. is_taken (slots p ! j)"
  shows "length (slots p') = length (slots p) \<and> (\<forall>k. conf_at p' k = conf_at p k) \<and>
    (case r of Some j \<Rightarrow> j < length (slots p) \<and> j \<notin> taken p \<and> {..<j} \<subseteq> taken p \<and> taken p' = insert j (taken p)
     | None \<Rightarrow> taken p = {..<length (slots p)} \<and> taken p' = taken p)"
  using assms
proof (induction n arbitrary: i p)
  case 0
  then show ?case by (auto simp: taken_def conf_at_def)
next
  case (Suc n)
  define p1 where "p1 = (if i > highest p then p\<lparr>highest := i\<rparr> else p)"
  have p1: "slots p1 = slots p" "taken p1 = taken p" by (simp_all add: p1_def taken_def)
  have e: "alloc_from (Suc n) i p = (if \<not> is_taken (slots p1 ! i)
      then (Some i, p1\<lparr>slots := (slots p1)[i := (slots p1 ! i)\<lparr>is_taken := True\<rparr>]\<rparr>) else alloc_from n (Suc i) p1)"
    by (simp add: Let_def p1_def)
  have i: "i < length (slots p)" using Suc.prems(2) by simp
  show ?case
  proof (cases "is_taken (slots p ! i)")
    case True
    then have "alloc_from n (Suc i) p1 = (r, p')" using Suc.prems(1) by (simp only: e p1 if_False not_True_eq_False simp_thms)
    from Suc.IH [OF this] show ?thesis
      using Suc.prems(2,3) True by (auto simp: p1 less_Suc_eq conf_at_def split: option.splits)
  next
    case False
    then have "r = Some i" "p' = p1\<lparr>slots := (slots p)[i := (slots p ! i)\<lparr>is_taken := True\<rparr>]\<rparr>"
      using Suc.prems(1) by (auto simp only: e p1 if_True not_False_eq_True simp_thms prod.inject)
    then show ?thesis
      using Suc.prems(3) False i by (auto simp: taken_def conf_at_def nth_list_update)
  qed
qed

lemma free_from_spec:
  "j < i + n \<Longrightarrow> i \<le> j \<Longrightarrow>
   free_from n i (Some j) p = p\<lparr>slots := (slots p)[j := (slots p ! j)\<lparr>is_taken := False\<rparr>]\<rparr>"
  by (induction n arbitrary: i) (auto simp: le_Suc_eq)

lemma free_from_null: "free_from n i None p = p"
  by (induction n arbitrary: i) simp_all

lemma count_taken_spec:
  "i + n = length (slots p) \<Longrightarrow> count_taken n i res p = res + card (taken p \<inter> {i..})"
proof (induction n arbitrary: i res)
  case 0
  then have "taken p \<inter> {i..} = {}" by (auto simp: taken_def)
  then show ?case by simp
next
  case (Suc n)
  have "finite (taken p \<inter> {Suc i..})" by (simp add: taken_def)
  moreover have "taken p \<inter> {i..} = (if is_taken (slots p ! i) then insert i (taken p \<inter> {Suc i..}) else taken p \<inter> {Suc i..})"
    by (rule set_eqI) (use Suc.prems in \<open>auto simp: taken_def Suc_le_eq order_le_less\<close>)
  ultimately show ?case using Suc by simp
qed

text \<open>A history of allocations (\<open>None\<close>) and releases (\<open>Some i\<close>: of the pointer with index \<open>i\<close> in
  \<open>owned\<close>). \<open>owned\<close> are the pointers that were handed out and not given back; a client gives
  back only what it owns.\<close>

fun history :: "('p \<Rightarrow> nat option \<times> 'p) \<Rightarrow> (nat option \<Rightarrow> 'p \<Rightarrow> 'p) \<Rightarrow> nat option list \<Rightarrow> 'p \<times> nat list \<Rightarrow> ('p \<times> nat list) option" where
  "history alloc release [] (p, owned) = Some (p, owned)"
| "history alloc release (None # ops) (p, owned) =
     (case alloc p of (None, p') \<Rightarrow> history alloc release ops (p', owned)
      | (Some j, p') \<Rightarrow> history alloc release ops (p', j # owned))"
| "history alloc release (Some i # ops) (p, owned) =
     (if i < length owned then history alloc release ops (release (Some (owned ! i)) p, remove1 (owned ! i) owned) else None)"

text \<open>The contract of a pool, as its clients use it: \<open>ok\<close> is the invariant, \<open>used\<close> the slots that
  are handed out, \<open>cap\<close> the number of slots.\<close>

locale allocator =
  fixes ok :: "'p \<Rightarrow> bool" and used :: "'p \<Rightarrow> nat set" and cap :: nat
    and alloc :: "'p \<Rightarrow> nat option \<times> 'p" and release :: "nat option \<Rightarrow> 'p \<Rightarrow> 'p"
    and get :: "'p \<Rightarrow> nat \<Rightarrow> 'c" and put :: "nat \<Rightarrow> 'c \<Rightarrow> 'p \<Rightarrow> 'p"
  assumes used_cap: "ok p \<Longrightarrow> used p \<subseteq> {..<cap}"
    and alloc_ok: "ok p \<Longrightarrow> alloc p = (r, p') \<Longrightarrow> ok p'"
    and alloc_Some: "ok p \<Longrightarrow> alloc p = (Some j, p') \<Longrightarrow> j < cap \<and> j \<notin> used p \<and> used p' = insert j (used p)"
    and alloc_None: "ok p \<Longrightarrow> alloc p = (None, p') \<Longrightarrow> used p = {..<cap} \<and> used p' = used p"
    and alloc_get: "ok p \<Longrightarrow> alloc p = (r, p') \<Longrightarrow> get p' k = get p k"
    and release_ok: "ok p \<Longrightarrow> j < cap \<Longrightarrow> ok (release (Some j) p) \<and> used (release (Some j) p) = used p - {j}"
    and release_get: "ok p \<Longrightarrow> get (release q p) k = get p k"
    and set_ok: "ok p \<Longrightarrow> j < cap \<Longrightarrow> ok (put j c p) \<and> used (put j c p) = used p"
    and set_get: "ok p \<Longrightarrow> j < cap \<Longrightarrow> get (put j c p) k = (if k = j then c else get p k)"
begin

lemma alloc_iff: "ok p \<Longrightarrow> alloc p = (r, p') \<Longrightarrow> r \<noteq> None \<longleftrightarrow> card (used p) < cap"
proof (cases r)
  case (Some j)
  assume a: "ok p" "alloc p = (r, p')"
  then have "used p \<subseteq> {..<cap}" "j < cap" "j \<notin> used p" using used_cap alloc_Some Some by blast+
  then have "used p \<subset> {..<cap}" by blast
  then show ?thesis using Some psubset_card_mono [of "{..<cap}" "used p"] by simp
qed (use alloc_None in auto)

text \<open>The pattern of every client: take a buffer, fill it, use it, give it back. Nothing of the
  pool changes but the scratch buffer.\<close>

lemma borrow:
  assumes "ok p" and "alloc p = (Some j, p')"
  shows "ok (release (Some j) (put j c p'))" and "used (release (Some j) (put j c p')) = used p"
    and "get (put j c p') j = c" and "k \<noteq> j \<Longrightarrow> get (release (Some j) (put j c p')) k = get p k"
  using assms alloc_ok alloc_Some alloc_get release_ok release_get set_ok set_get by auto

lemma history_owned:
  assumes "ok p" and "distinct owned" and "set owned = used p" and "history alloc release ops (p, owned) = Some (p', owned')"
  shows "ok p' \<and> distinct owned' \<and> set owned' = used p'"
  using assms
proof (induction ops arbitrary: p owned)
  case (Cons op ops)
  show ?case
  proof (cases op)
    case op: None
    obtain r p1 where r: "alloc p = (r, p1)" by (cases "alloc p")
    have ok: "ok p1" by (rule alloc_ok [OF Cons.prems(1) r])
    show ?thesis
    proof (cases r)
      case None
      then show ?thesis using Cons.IH [OF ok] Cons.prems r op alloc_None [of p p1] by simp
    next
      case (Some j)
      then show ?thesis using Cons.IH [OF ok, of "j # owned"] Cons.prems r op alloc_Some [of p j p1] by simp
    qed
  next
    case (Some i)
    then have i: "i < length owned" using Cons.prems(4) by (simp split: if_splits)
    then have "owned ! i < cap" using nth_mem [OF i] Cons.prems(1,3) used_cap [of p] by auto
    then show ?thesis
      using Cons.IH [of "release (Some (owned ! i)) p" "remove1 (owned ! i) owned"] Cons.prems Some i
        release_ok [of p "owned ! i"] by (simp add: set_remove1_eq)
  qed
qed simp

end

definition pool_ok :: "nat \<Rightarrow> 'a pool \<Rightarrow> bool" where
  "pool_ok n p = (length (slots p) = n)"

lemma free_from_taken:
  "pool_ok n p \<Longrightarrow> j < n \<Longrightarrow> taken (free_from n 0 (Some j) p) = taken p - {j}"
  by (auto simp: free_from_spec pool_ok_def taken_def nth_list_update split: if_splits)

lemma upd_sel:
  "conf ((xs[j := (xs ! j)\<lparr>is_taken := t\<rparr>]) ! k) = conf (xs ! k)"
  "is_taken ((xs[j := (xs ! j)\<lparr>conf := c\<rparr>]) ! k) = is_taken (xs ! k)"
proof -
  have "conf ((xs[j := (xs ! j)\<lparr>is_taken := t\<rparr>]) ! k) = conf (xs ! k) \<and>
    is_taken ((xs[j := (xs ! j)\<lparr>conf := c\<rparr>]) ! k) = is_taken (xs ! k)"
  proof (cases "j < length xs")
    case True
    then show ?thesis by (cases "j = k") simp_all
  qed (simp add: list_update_beyond)
  then show "conf ((xs[j := (xs ! j)\<lparr>is_taken := t\<rparr>]) ! k) = conf (xs ! k)"
    "is_taken ((xs[j := (xs ! j)\<lparr>conf := c\<rparr>]) ! k) = is_taken (xs ! k)" by blast+
qed

lemma free_from_conf: "conf_at (free_from n i c p) k = conf_at p k"
  by (induction n arbitrary: i) (auto simp: conf_at_def upd_sel)

lemma free_from_ok: "pool_ok n p \<Longrightarrow> pool_ok n (free_from m i c p)"
  by (induction m arbitrary: i) (auto simp: pool_ok_def)

lemma set_conf_facts:
  "pool_ok n p \<Longrightarrow> pool_ok n (set_conf j c p)" "taken (set_conf j c p) = taken p"
  "pool_ok n p \<Longrightarrow> j < n \<Longrightarrow> conf_at (set_conf j c p) k = (if k = j then c else conf_at p k)"
  by (auto simp: pool_ok_def set_conf_def taken_def conf_at_def nth_list_update upd_sel)

lemma alloc_from_facts:
  assumes "pool_ok n p" and "alloc_from n 0 p = (r, p')"
  shows "pool_ok n p'" and "conf_at p' k = conf_at p k"
    and "r = Some j \<Longrightarrow> j < n \<and> j \<notin> taken p \<and> taken p' = insert j (taken p)"
    and "r = None \<Longrightarrow> taken p = {..<n} \<and> taken p' = taken p"
  using alloc_from_spec [OF assms(2)] assms(1) by (auto simp: pool_ok_def)

lemmas pool_facts = free_from_taken free_from_conf free_from_ok set_conf_facts alloc_from_facts

interpretation mcconf: allocator "pool_ok MEMPOOLS_MCCONF_NUM" taken MEMPOOLS_MCCONF_NUM
    mempools_alloc_mcconf mempools_free_mcconf conf_at set_conf
  by unfold_locales
    (auto simp: mempools_alloc_mcconf_def mempools_free_mcconf_def pool_facts, auto simp: taken_def pool_ok_def)

interpretation appconf: allocator "pool_ok MEMPOOLS_APPCONF_NUM" taken MEMPOOLS_APPCONF_NUM
    mempools_alloc_appconf mempools_free_appconf conf_at set_conf
  by unfold_locales
    (auto simp: mempools_alloc_appconf_def mempools_free_appconf_def pool_facts, auto simp: taken_def pool_ok_def)

text \<open>The shared memory accesses of an allocation, one by one: the flag is read in one step and
  set in the next, with no lock in between.\<close>

datatype alloc_pc = Looking nat | Found nat | Got "nat option"

fun alloc_step :: "nat \<Rightarrow> alloc_pc \<Rightarrow> 'a pool \<Rightarrow> alloc_pc \<times> 'a pool" where
  "alloc_step n (Looking i) p =
     (if i < n then
        (let p1 = (if i > highest p then p\<lparr>highest := i\<rparr> else p)
         in (if \<not> is_taken (slots p1 ! i) then Found i else Looking (Suc i), p1))
      else (Got None, p\<lparr>highest := Suc (highest p)\<rparr>))"
| "alloc_step n (Found i) p = (Got (Some i), p\<lparr>slots := (slots p)[i := (slots p ! i)\<lparr>is_taken := True\<rparr>]\<rparr>)"
| "alloc_step n (Got r) p = (Got r, p)"

text \<open>Two threads; \<open>True\<close> in the schedule is a step of the first one.\<close>

fun alloc_interleaved :: "nat \<Rightarrow> bool list \<Rightarrow> alloc_pc \<Rightarrow> alloc_pc \<Rightarrow> 'a pool \<Rightarrow> alloc_pc \<times> alloc_pc \<times> 'a pool" where
  "alloc_interleaved n [] a b p = (a, b, p)"
| "alloc_interleaved n (True # w) a b p = (let (a', p') = alloc_step n a p in alloc_interleaved n w a' b p')"
| "alloc_interleaved n (False # w) a b p = (let (b', p') = alloc_step n b p in alloc_interleaved n w a b' p')"

lemma alloc_steps_alone:
  "alloc_from m i p = (r, p') \<Longrightarrow> m + i = n \<Longrightarrow>
   alloc_interleaved n (replicate (m + 2) True) (Looking i) b p = (Got r, b, p')"
proof (induction m i p rule: alloc_from.induct)
  case (1 i p)
  then show ?case by (auto simp: numeral_2_eq_2)
next
  case (2 m i p)
  have stay: "alloc_interleaved n (replicate k True) (Got q) b x = (Got q, b, x)" for k q and x :: "'a pool"
    by (induction k) simp_all
  show ?case
    using 2 by (auto simp: Let_def stay split: if_splits)
qed

section \<open>Properties\<close>

text \<open>C12. Whatever sequence of allocations and releases runs on the pool of motor configurations, no
  buffer is handed out twice, the reported number of allocated buffers is the number of pointers
  handed out and not given back, and an allocation fails only when all of them are.\<close>

theorem mempools_exclusive:
  assumes "history mempools_alloc_mcconf mempools_free_mcconf ops (new_pool MEMPOOLS_MCCONF_NUM z, []) = Some (p, owned)"
  shows "distinct owned \<and> mempools_mcconf_allocated_num p = length owned \<and>
    (case mempools_alloc_mcconf p of
       (None, p') \<Rightarrow> length owned = MEMPOOLS_MCCONF_NUM \<and> mempools_mcconf_allocated_num p' = length owned
     | (Some j, p') \<Rightarrow> j < MEMPOOLS_MCCONF_NUM \<and> j \<notin> set owned \<and> mempools_mcconf_allocated_num p' = length owned + 1)"
proof -
  have new: "pool_ok MEMPOOLS_MCCONF_NUM (new_pool MEMPOOLS_MCCONF_NUM z)" "taken (new_pool MEMPOOLS_MCCONF_NUM z) = {}"
    by (simp_all add: pool_ok_def new_pool_def taken_def)
  have p: "pool_ok MEMPOOLS_MCCONF_NUM p" "distinct owned" "set owned = taken p"
    using mcconf.history_owned [OF new(1) _ _ assms] new(2) by simp_all
  have num: "mempools_mcconf_allocated_num q = card (taken q)" if "pool_ok MEMPOOLS_MCCONF_NUM q" for q
    using that count_taken_spec [of 0 MEMPOOLS_MCCONF_NUM q 0] by (simp add: mempools_mcconf_allocated_num_def pool_ok_def)
  obtain r p' where r: "mempools_alloc_mcconf p = (r, p')" by (cases "mempools_alloc_mcconf p")
  have card: "length owned = card (taken p)" using p by (metis distinct_card)
  have "pool_ok MEMPOOLS_MCCONF_NUM p'" by (rule mcconf.alloc_ok [OF p(1) r])
  then show ?thesis
    using num [OF p(1)] num [of p'] card p r mcconf.alloc_Some [OF p(1), of _ p'] mcconf.alloc_None [OF p(1), of p']
    by (cases r) (simp_all add: taken_def)
qed

theorem mempools_exclusive_witness:
  "case history mempools_alloc_mcconf mempools_free_mcconf [None, None, Some 1, None] (new_pool MEMPOOLS_MCCONF_NUM (0 :: nat), []) of
     Some (p, owned) \<Rightarrow> owned = [0, 1] \<and> mempools_mcconf_allocated_num p = 2 | None \<Rightarrow> False"
proof -
  obtain p where h: "history mempools_alloc_mcconf mempools_free_mcconf [None, None, Some 1, None]
      (new_pool MEMPOOLS_MCCONF_NUM (0 :: nat), []) = Some (p, [0, 1])"
    by (simp add: mempools_alloc_mcconf_def mempools_free_mcconf_def new_pool_def MEMPOOLS_MCCONF_NUM_def
        numeral_eq_Suc)
  show ?thesis using mempools_exclusive [OF h] by (simp only: h option.case prod.case) simp
qed

text \<open>Reading the flag and setting it are two accesses, and no lock is held: a thread that is
  preempted between them gets the same buffer as the one that ran in between. Alone, the steps are
  exactly the allocation above (\<open>alloc_steps_alone\<close>).\<close>

theorem mempools_alloc_race:
  "\<exists>p. alloc_interleaved MEMPOOLS_MCCONF_NUM [True, False, False, True] (Looking 0) (Looking 0) (new_pool MEMPOOLS_MCCONF_NUM z)
     = (Got (Some 0), Got (Some 0), p)"
  by (simp add: new_pool_def MEMPOOLS_MCCONF_NUM_def numeral_eq_Suc)

end
