(* ===== verification/Can_State.thy ===== *)
theory Can_State
  imports Packet Float32 Mempools
begin

text \<open>
  The state of the CAN interface, \<^verbatim>\<open>comm/comm_can.c\<close>, with the operations that concern the state
  alone: initialisation, bit timing, the tables of received status messages and their getters. The
  model is that of a board with one CAN peripheral and one motor (\<^verbatim>\<open>HW_CAN2_DEV\<close> and
  \<^verbatim>\<open>HW_HAS_DUAL_MOTORS\<close> undefined, as for the xESC). What the module calls in other parts of the
  firmware and in the operating system is recorded, in order, in the field \<open>calls\<close>; what it
  reads from them is a record of inputs.
\<close>

section \<open>Packet identifiers\<close>

text \<open>\<^verbatim>\<open>CAN_PACKET_ID\<close> of \<^verbatim>\<open>datatypes.h\<close>: bits 8 and up of an extended identifier.\<close>

abbreviation (input) CAN_PACKET_SET_DUTY :: u32 where "CAN_PACKET_SET_DUTY \<equiv> 0"
abbreviation (input) CAN_PACKET_SET_CURRENT :: u32 where "CAN_PACKET_SET_CURRENT \<equiv> 1"
abbreviation (input) CAN_PACKET_SET_CURRENT_BRAKE :: u32 where "CAN_PACKET_SET_CURRENT_BRAKE \<equiv> 2"
abbreviation (input) CAN_PACKET_SET_RPM :: u32 where "CAN_PACKET_SET_RPM \<equiv> 3"
abbreviation (input) CAN_PACKET_SET_POS :: u32 where "CAN_PACKET_SET_POS \<equiv> 4"
abbreviation (input) CAN_PACKET_FILL_RX_BUFFER :: u32 where "CAN_PACKET_FILL_RX_BUFFER \<equiv> 5"
abbreviation (input) CAN_PACKET_FILL_RX_BUFFER_LONG :: u32 where "CAN_PACKET_FILL_RX_BUFFER_LONG \<equiv> 6"
abbreviation (input) CAN_PACKET_PROCESS_RX_BUFFER :: u32 where "CAN_PACKET_PROCESS_RX_BUFFER \<equiv> 7"
abbreviation (input) CAN_PACKET_PROCESS_SHORT_BUFFER :: u32 where "CAN_PACKET_PROCESS_SHORT_BUFFER \<equiv> 8"
abbreviation (input) CAN_PACKET_STATUS :: u32 where "CAN_PACKET_STATUS \<equiv> 9"
abbreviation (input) CAN_PACKET_SET_CURRENT_REL :: u32 where "CAN_PACKET_SET_CURRENT_REL \<equiv> 10"
abbreviation (input) CAN_PACKET_SET_CURRENT_BRAKE_REL :: u32 where "CAN_PACKET_SET_CURRENT_BRAKE_REL \<equiv> 11"
abbreviation (input) CAN_PACKET_SET_CURRENT_HANDBRAKE :: u32 where "CAN_PACKET_SET_CURRENT_HANDBRAKE \<equiv> 12"
abbreviation (input) CAN_PACKET_SET_CURRENT_HANDBRAKE_REL :: u32 where "CAN_PACKET_SET_CURRENT_HANDBRAKE_REL \<equiv> 13"
abbreviation (input) CAN_PACKET_STATUS_2 :: u32 where "CAN_PACKET_STATUS_2 \<equiv> 14"
abbreviation (input) CAN_PACKET_STATUS_3 :: u32 where "CAN_PACKET_STATUS_3 \<equiv> 15"
abbreviation (input) CAN_PACKET_STATUS_4 :: u32 where "CAN_PACKET_STATUS_4 \<equiv> 16"
abbreviation (input) CAN_PACKET_PING :: u32 where "CAN_PACKET_PING \<equiv> 17"
abbreviation (input) CAN_PACKET_PONG :: u32 where "CAN_PACKET_PONG \<equiv> 18"
abbreviation (input) CAN_PACKET_DETECT_APPLY_ALL_FOC :: u32 where "CAN_PACKET_DETECT_APPLY_ALL_FOC \<equiv> 19"
abbreviation (input) CAN_PACKET_DETECT_APPLY_ALL_FOC_RES :: u32 where "CAN_PACKET_DETECT_APPLY_ALL_FOC_RES \<equiv> 20"
abbreviation (input) CAN_PACKET_CONF_CURRENT_LIMITS :: u32 where "CAN_PACKET_CONF_CURRENT_LIMITS \<equiv> 21"
abbreviation (input) CAN_PACKET_CONF_STORE_CURRENT_LIMITS :: u32 where "CAN_PACKET_CONF_STORE_CURRENT_LIMITS \<equiv> 22"
abbreviation (input) CAN_PACKET_CONF_CURRENT_LIMITS_IN :: u32 where "CAN_PACKET_CONF_CURRENT_LIMITS_IN \<equiv> 23"
abbreviation (input) CAN_PACKET_CONF_STORE_CURRENT_LIMITS_IN :: u32 where "CAN_PACKET_CONF_STORE_CURRENT_LIMITS_IN \<equiv> 24"
abbreviation (input) CAN_PACKET_CONF_FOC_ERPMS :: u32 where "CAN_PACKET_CONF_FOC_ERPMS \<equiv> 25"
abbreviation (input) CAN_PACKET_CONF_STORE_FOC_ERPMS :: u32 where "CAN_PACKET_CONF_STORE_FOC_ERPMS \<equiv> 26"
abbreviation (input) CAN_PACKET_STATUS_5 :: u32 where "CAN_PACKET_STATUS_5 \<equiv> 27"
abbreviation (input) CAN_PACKET_POLL_TS5700N8501_STATUS :: u32 where "CAN_PACKET_POLL_TS5700N8501_STATUS \<equiv> 28"
abbreviation (input) CAN_PACKET_CONF_BATTERY_CUT :: u32 where "CAN_PACKET_CONF_BATTERY_CUT \<equiv> 29"
abbreviation (input) CAN_PACKET_CONF_STORE_BATTERY_CUT :: u32 where "CAN_PACKET_CONF_STORE_BATTERY_CUT \<equiv> 30"
abbreviation (input) CAN_PACKET_SHUTDOWN :: u32 where "CAN_PACKET_SHUTDOWN \<equiv> 31"
abbreviation (input) CAN_PACKET_IO_BOARD_ADC_1_TO_4 :: u32 where "CAN_PACKET_IO_BOARD_ADC_1_TO_4 \<equiv> 32"
abbreviation (input) CAN_PACKET_IO_BOARD_ADC_5_TO_8 :: u32 where "CAN_PACKET_IO_BOARD_ADC_5_TO_8 \<equiv> 33"
abbreviation (input) CAN_PACKET_IO_BOARD_DIGITAL_IN :: u32 where "CAN_PACKET_IO_BOARD_DIGITAL_IN \<equiv> 35"
abbreviation (input) CAN_PACKET_IO_BOARD_SET_OUTPUT_DIGITAL :: u32 where "CAN_PACKET_IO_BOARD_SET_OUTPUT_DIGITAL \<equiv> 36"
abbreviation (input) CAN_PACKET_IO_BOARD_SET_OUTPUT_PWM :: u32 where "CAN_PACKET_IO_BOARD_SET_OUTPUT_PWM \<equiv> 37"
abbreviation (input) CAN_PACKET_PSW_STAT :: u32 where "CAN_PACKET_PSW_STAT \<equiv> 46"
abbreviation (input) CAN_PACKET_PSW_SWITCH :: u32 where "CAN_PACKET_PSW_SWITCH \<equiv> 47"
abbreviation (input) CAN_PACKET_UPDATE_PID_POS_OFFSET :: u32 where "CAN_PACKET_UPDATE_PID_POS_OFFSET \<equiv> 55"
abbreviation (input) CAN_PACKET_POLL_ROTOR_POS :: u32 where "CAN_PACKET_POLL_ROTOR_POS \<equiv> 56"
abbreviation (input) CAN_PACKET_STATUS_6 :: u32 where "CAN_PACKET_STATUS_6 \<equiv> 58"
abbreviation (input) CAN_PACKET_GNSS_TIME :: u32 where "CAN_PACKET_GNSS_TIME \<equiv> 59"
abbreviation (input) CAN_PACKET_GNSS_LAT :: u32 where "CAN_PACKET_GNSS_LAT \<equiv> 60"
abbreviation (input) CAN_PACKET_GNSS_LON :: u32 where "CAN_PACKET_GNSS_LON \<equiv> 61"
abbreviation (input) CAN_PACKET_GNSS_ALT_SPEED_HDOP :: u32 where "CAN_PACKET_GNSS_ALT_SPEED_HDOP \<equiv> 62"
abbreviation (input) CAN_PACKET_UPDATE_BAUD :: u32 where "CAN_PACKET_UPDATE_BAUD \<equiv> 63"

section \<open>Data\<close>

definition RX_FRAMES_SIZE :: nat where "RX_FRAMES_SIZE = 50"
definition RX_BUFFER_NUM :: nat where "RX_BUFFER_NUM = 3"
definition RX_BUFFER_SIZE :: nat where "RX_BUFFER_SIZE = PACKET_MAX_PL_LEN"
definition CAN_STATUS_MSGS_TO_STORE :: nat where "CAN_STATUS_MSGS_TO_STORE = 10"

text \<open>A received frame: \<open>frame_ide\<close> tells an extended identifier from a standard one;
  \<open>frame_data\<close> is \<^verbatim>\<open>data8\<close>, the eight bytes of the data registers of the peripheral, of which the
  first \<open>frame_dlc\<close> came with the frame.\<close>

record frame =
  frame_ide :: bool
  frame_eid :: u32
  frame_dlc :: nat
  frame_data :: bytes

text \<open>Every kind of status message has the sender's id, -1 for an empty entry, and the time it
  arrived, followed by its own values.\<close>

record 'a stat =
  st_id :: int
  st_time :: u32
  st_val :: 'a

record status_1 = rpm :: float32 current :: float32 duty :: float32
record status_2 = amp_hours :: float32 amp_hours_charged :: float32
record status_3 = watt_hours :: float32 watt_hours_charged :: float32
record status_4 = temp_fet :: float32 temp_motor :: float32 current_in :: float32 pid_pos_now :: float32
record status_5 = v_in :: float32 tacho_value :: u32
record status_6 = adc_1 :: float32 adc_2 :: float32 adc_3 :: float32 ppm :: float32
record psw = psw_v_in :: float32 psw_v_out :: float32 psw_temp :: float32
  is_out_on :: bool is_pch_on :: bool is_dsc_on :: bool

type_synonym can_status_msg = "status_1 stat"
type_synonym can_status_msg_2 = "status_2 stat"
type_synonym can_status_msg_3 = "status_3 stat"
type_synonym can_status_msg_4 = "status_4 stat"
type_synonym can_status_msg_5 = "status_5 stat"
type_synonym can_status_msg_6 = "status_6 stat"
type_synonym io_board_adc_values = "float32 list stat"
type_synonym io_board_digial_inputs = "u64 stat"
type_synonym psw_status = "psw stat"

record gnss_data =
  lat :: float64
  lon :: float64
  height :: float32
  speed :: float32
  hdop :: float32
  ms_today :: u32
  yy :: u16
  mo :: u8
  dd :: u8
  last_update :: u32

text \<open>The parts of the configurations that the module reads and writes; the remaining members are
  \<open>mc_other\<close> and \<open>app_other\<close>.\<close>

record mc_configuration =
  l_current_min :: float32
  l_current_max :: float32
  l_in_current_min :: float32
  l_in_current_max :: float32
  foc_openloop_rpm :: float32
  foc_sl_erpm :: float32
  l_battery_cut_start :: float32
  l_battery_cut_end :: float32
  mc_other :: bytes

datatype can_mode = CAN_MODE_VESC | CAN_MODE_UAVCAN | CAN_MODE_COMM_BRIDGE | CAN_MODE_UNUSED

datatype can_baud =
  CAN_BAUD_125K | CAN_BAUD_250K | CAN_BAUD_500K | CAN_BAUD_1M | CAN_BAUD_10K | CAN_BAUD_20K
| CAN_BAUD_50K | CAN_BAUD_75K | CAN_BAUD_100K | CAN_BAUD_INVALID

record app_configuration =
  controller_id :: u8
  can_mode :: can_mode
  can_baud_rate :: can_baud
  can_status_rate_1 :: u32
  can_status_msgs_r1 :: u8
  can_status_rate_2 :: u32
  can_status_msgs_r2 :: u8
  app_other :: bytes

text \<open>The calls into other modules, with their arguments. A packet given to the command processor
  carries whether replies go back over CAN (\<open>send_packet_wrapper\<close>) or nowhere.\<close>

datatype call =
  Can_start u32 | Can_stop | Sleep_ms int | Sleep_ticks nat
| Transmit_eid u32 bytes | Transmit_sid u32 bytes
| Mc_set_duty float32 | Mc_set_current float32 | Mc_set_current_off_delay float32
| Mc_set_brake_current float32 | Mc_set_pid_speed float32 | Mc_set_pid_pos float32
| Mc_set_current_rel float32 | Mc_set_brake_current_rel float32
| Mc_set_handbrake float32 | Mc_set_handbrake_rel float32
| Mc_update_pid_pos_offset float32 bool
| Mc_set_configuration mc_configuration | Store_mc_configuration mc_configuration bool
| App_set_configuration app_configuration | Store_app_configuration app_configuration
| Timeout_reset | Feed_wdt | Signal_process | Signal_ping
| Commands_process_packet bytes bool | Commands_send_packet_can_last bytes
| Commands_fwd_can_frame frame | Detect_apply_all_foc float32
| Sid_callback frame | Eid_callback frame | Lispif_process_can frame
| Select_motor_thread nat

record can =
  app_conf :: app_configuration
  mc_conf :: mc_configuration
  app_pool :: "app_configuration pool"
  mc_pool :: "mc_configuration pool"
  stat_msgs :: "can_status_msg list"
  stat_msgs_2 :: "can_status_msg_2 list"
  stat_msgs_3 :: "can_status_msg_3 list"
  stat_msgs_4 :: "can_status_msg_4 list"
  stat_msgs_5 :: "can_status_msg_5 list"
  stat_msgs_6 :: "can_status_msg_6 list"
  io_board_adc_1_4 :: "io_board_adc_values list"
  io_board_adc_5_8 :: "io_board_adc_values list"
  io_board_digital_in :: "io_board_digial_inputs list"
  psw_stat :: "psw_status list"
  gnss :: gnss_data
  detect_all_foc_res :: bytes
  detect_all_foc_res_index :: nat
  rx_bufs :: "bytes list"
  rx_buffer_offset :: "int list"
  rx_buffer_last_id :: u32
  rx_buffer_response_type :: u32
  rx_frames :: "frame list"
  frame_read :: nat
  frame_write :: nat
  ping_tp :: bool
  ping_hw_last :: u8
  ping_hw_last_id :: int
  can_init_done :: bool
  cancfg_btr :: u32
  sid_callback :: "(frame \<Rightarrow> bool) option"
  eid_callback :: "(frame \<Rightarrow> bool) option"
  calls :: "call list"

definition emit :: "call \<Rightarrow> can \<Rightarrow> can" where
  "emit c s = s\<lparr>calls := calls s @ [c]\<rparr>"

section \<open>Bit timing\<close>

definition CAN_BTR :: "nat \<Rightarrow> nat \<Rightarrow> nat \<Rightarrow> u32" where
  "CAN_BTR ts2 ts1 brp =
     push_bit 24 3 OR push_bit 20 (word_of_nat ts2) OR push_bit 16 (word_of_nat ts1) OR word_of_nat brp"

definition set_timing :: "nat \<Rightarrow> nat \<Rightarrow> nat \<Rightarrow> can \<Rightarrow> can" where
  "set_timing brp ts1 ts2 s =
     (let brp = brp AND 0b1111111111;
          ts1 = ts1 AND 0b1111;
          ts2 = ts2 AND 0b111;
          s = s\<lparr>cancfg_btr := CAN_BTR ts2 ts1 brp\<rparr>
      in emit (Can_start (cancfg_btr s)) (emit Can_stop s))"

definition comm_can_kbits_to_baud :: "int \<Rightarrow> can_baud" where
  "comm_can_kbits_to_baud kbits =
     (if kbits = 125 then CAN_BAUD_125K
      else if kbits = 250 then CAN_BAUD_250K
      else if kbits = 500 then CAN_BAUD_500K
      else if kbits = 1000 then CAN_BAUD_1M
      else if kbits = 10 then CAN_BAUD_10K
      else if kbits = 20 then CAN_BAUD_20K
      else if kbits = 50 then CAN_BAUD_50K
      else if kbits = 75 then CAN_BAUD_75K
      else if kbits = 100 then CAN_BAUD_100K
      else CAN_BAUD_INVALID)"

definition comm_can_set_baud :: "can_baud \<Rightarrow> int \<Rightarrow> can \<Rightarrow> can" where
  "comm_can_set_baud baud delay_msec s =
     (if baud = CAN_BAUD_INVALID then s
      else let s = (if delay_msec > 0 then emit (Sleep_ms delay_msec) (emit Can_stop s) else s)
      in case baud of
           CAN_BAUD_125K \<Rightarrow> set_timing 15 14 4 s
         | CAN_BAUD_250K \<Rightarrow> set_timing 7 14 4 s
         | CAN_BAUD_500K \<Rightarrow> set_timing 5 9 2 s
         | CAN_BAUD_1M \<Rightarrow> set_timing 2 9 2 s
         | CAN_BAUD_10K \<Rightarrow> set_timing 299 10 1 s
         | CAN_BAUD_20K \<Rightarrow> set_timing 149 10 1 s
         | CAN_BAUD_50K \<Rightarrow> set_timing 59 10 1 s
         | CAN_BAUD_75K \<Rightarrow> set_timing 39 10 1 s
         | CAN_BAUD_100K \<Rightarrow> set_timing 29 10 1 s
         | CAN_BAUD_INVALID \<Rightarrow> s)"

section \<open>Initialisation\<close>

text \<open>The static variables after start-up; the configurations are those the other modules hold.\<close>

definition can_boot :: "app_configuration \<Rightarrow> mc_configuration \<Rightarrow> can" where
  "can_boot app mc =
     \<lparr>app_conf = app, mc_conf = mc,
      app_pool = new_pool MEMPOOLS_APPCONF_NUM app, mc_pool = new_pool MEMPOOLS_MCCONF_NUM mc,
      stat_msgs = replicate CAN_STATUS_MSGS_TO_STORE \<lparr>st_id = 0, st_time = 0, st_val = \<lparr>rpm = 0, current = 0, duty = 0\<rparr>\<rparr>,
      stat_msgs_2 = replicate CAN_STATUS_MSGS_TO_STORE \<lparr>st_id = 0, st_time = 0, st_val = \<lparr>amp_hours = 0, amp_hours_charged = 0\<rparr>\<rparr>,
      stat_msgs_3 = replicate CAN_STATUS_MSGS_TO_STORE \<lparr>st_id = 0, st_time = 0, st_val = \<lparr>watt_hours = 0, watt_hours_charged = 0\<rparr>\<rparr>,
      stat_msgs_4 = replicate CAN_STATUS_MSGS_TO_STORE
        \<lparr>st_id = 0, st_time = 0, st_val = \<lparr>temp_fet = 0, temp_motor = 0, current_in = 0, pid_pos_now = 0\<rparr>\<rparr>,
      stat_msgs_5 = replicate CAN_STATUS_MSGS_TO_STORE \<lparr>st_id = 0, st_time = 0, st_val = \<lparr>v_in = 0, tacho_value = 0\<rparr>\<rparr>,
      stat_msgs_6 = replicate CAN_STATUS_MSGS_TO_STORE
        \<lparr>st_id = 0, st_time = 0, st_val = \<lparr>adc_1 = 0, adc_2 = 0, adc_3 = 0, ppm = 0\<rparr>\<rparr>,
      io_board_adc_1_4 = replicate CAN_STATUS_MSGS_TO_STORE \<lparr>st_id = 0, st_time = 0, st_val = replicate 4 0\<rparr>,
      io_board_adc_5_8 = replicate CAN_STATUS_MSGS_TO_STORE \<lparr>st_id = 0, st_time = 0, st_val = replicate 4 0\<rparr>,
      io_board_digital_in = replicate CAN_STATUS_MSGS_TO_STORE \<lparr>st_id = 0, st_time = 0, st_val = 0\<rparr>,
      psw_stat = replicate CAN_STATUS_MSGS_TO_STORE
        \<lparr>st_id = 0, st_time = 0, st_val = \<lparr>psw_v_in = 0, psw_v_out = 0, psw_temp = 0,
          is_out_on = False, is_pch_on = False, is_dsc_on = False\<rparr>\<rparr>,
      gnss = \<lparr>lat = 0, lon = 0, height = 0, speed = 0, hdop = 0, ms_today = 0, yy = 0, mo = 0, dd = 0, last_update = 0\<rparr>,
      detect_all_foc_res = replicate 50 0, detect_all_foc_res_index = 0,
      rx_bufs = replicate RX_BUFFER_NUM (replicate RX_BUFFER_SIZE 0), rx_buffer_offset = replicate RX_BUFFER_NUM 0,
      rx_buffer_last_id = 0, rx_buffer_response_type = 1,
      rx_frames = replicate RX_FRAMES_SIZE \<lparr>frame_ide = False, frame_eid = 0, frame_dlc = 0, frame_data = replicate 8 0\<rparr>,
      frame_read = 0, frame_write = 0,
      ping_tp = False, ping_hw_last = 0, ping_hw_last_id = - 1,
      can_init_done = False, cancfg_btr = CAN_BTR 2 9 5,
      sid_callback = None, eid_callback = None, calls = []\<rparr>"

definition clear_id :: "'a stat \<Rightarrow> 'a stat" where "clear_id m = m\<lparr>st_id := - 1\<rparr>"

definition comm_can_init :: "can \<Rightarrow> can" where
  "comm_can_init s =
     (let s = s\<lparr>stat_msgs := map clear_id (stat_msgs s), stat_msgs_2 := map clear_id (stat_msgs_2 s),
                stat_msgs_3 := map clear_id (stat_msgs_3 s), stat_msgs_4 := map clear_id (stat_msgs_4 s),
                stat_msgs_5 := map clear_id (stat_msgs_5 s), stat_msgs_6 := map clear_id (stat_msgs_6 s),
                io_board_adc_1_4 := map clear_id (io_board_adc_1_4 s), io_board_adc_5_8 := map clear_id (io_board_adc_5_8 s),
                io_board_digital_in := map clear_id (io_board_digital_in s), psw_stat := map clear_id (psw_stat s)\<rparr>;
          s = s\<lparr>rx_frames := replicate RX_FRAMES_SIZE \<lparr>frame_ide = False, frame_eid = 0, frame_dlc = 0, frame_data = replicate 8 0\<rparr>,
                frame_read := 0, frame_write := 0\<rparr>;
          s = emit (Can_start (cancfg_btr s)) s
      in s\<lparr>can_init_done := True\<rparr>)"

text \<open>A concrete controller with id 5 for the examples.\<close>

definition app0 :: app_configuration where
  "app0 = \<lparr>controller_id = 5, can_mode = CAN_MODE_VESC, can_baud_rate = CAN_BAUD_500K, can_status_rate_1 = 50,
     can_status_msgs_r1 = 1, can_status_rate_2 = 5, can_status_msgs_r2 = 0, app_other = []\<rparr>"

definition mc0 :: mc_configuration where
  "mc0 = \<lparr>l_current_min = -60, l_current_max = 60, l_in_current_min = -60, l_in_current_max = 60,
     foc_openloop_rpm = 1500, foc_sl_erpm = 2500, l_battery_cut_start = 10, l_battery_cut_end = 8, mc_other = []\<rparr>"

abbreviation can0 :: can where
  "can0 \<equiv> comm_can_init (can_boot app0 mc0)"

text \<open>The callbacks that see every frame first; each tells whether it used the frame.\<close>

definition comm_can_set_sid_rx_callback :: "(frame \<Rightarrow> bool) option \<Rightarrow> can \<Rightarrow> can" where
  "comm_can_set_sid_rx_callback p_func s = s\<lparr>sid_callback := p_func\<rparr>"

definition comm_can_set_eid_rx_callback :: "(frame \<Rightarrow> bool) option \<Rightarrow> can \<Rightarrow> can" where
  "comm_can_set_eid_rx_callback p_func s = s\<lparr>eid_callback := p_func\<rparr>"

section \<open>Tables of status messages\<close>

text \<open>Looking up by index: a null pointer (\<open>Some None\<close>) from the end of the table on, a pointer
  outside the table (\<open>None\<close>) for a negative index.\<close>

definition table_index :: "'a stat list \<Rightarrow> int \<Rightarrow> 'a stat option option" where
  "table_index tab index =
     (if index < int CAN_STATUS_MSGS_TO_STORE
      then (if 0 \<le> index then Some (Some (tab ! nat index)) else None) else Some None)"

text \<open>The search loop of the getters by id, from the first entry on.\<close>

fun table_id :: "'a stat list \<Rightarrow> int \<Rightarrow> 'a stat option" where
  "table_id [] i = None"
| "table_id (m # ms) i = (if st_id m = i then Some m else table_id ms i)"

text \<open>The search loop of the receiver: the first entry of the sender or the first empty one is
  overwritten. \<open>f\<close> reads the values from the frame; it may keep parts of the old ones.\<close>

fun table_store :: "int \<Rightarrow> u32 \<Rightarrow> ('a \<Rightarrow> 'a option) \<Rightarrow> 'a stat list \<Rightarrow> 'a stat list option" where
  "table_store i time f [] = Some []"
| "table_store i time f (m # ms) =
     (if st_id m = i \<or> st_id m = - 1
      then do { v \<leftarrow> f (st_val m); Some (\<lparr>st_id = i, st_time = time, st_val = v\<rparr> # ms) }
      else do { ms' \<leftarrow> table_store i time f ms; Some (m # ms') })"

definition comm_can_get_status_msg_index :: "can \<Rightarrow> int \<Rightarrow> can_status_msg option option" where
  "comm_can_get_status_msg_index s index = table_index (stat_msgs s) index"
definition comm_can_get_status_msg_id :: "can \<Rightarrow> int \<Rightarrow> can_status_msg option" where
  "comm_can_get_status_msg_id s i = table_id (stat_msgs s) i"
definition comm_can_get_status_msg_2_index :: "can \<Rightarrow> int \<Rightarrow> can_status_msg_2 option option" where
  "comm_can_get_status_msg_2_index s index = table_index (stat_msgs_2 s) index"
definition comm_can_get_status_msg_2_id :: "can \<Rightarrow> int \<Rightarrow> can_status_msg_2 option" where
  "comm_can_get_status_msg_2_id s i = table_id (stat_msgs_2 s) i"
definition comm_can_get_status_msg_3_index :: "can \<Rightarrow> int \<Rightarrow> can_status_msg_3 option option" where
  "comm_can_get_status_msg_3_index s index = table_index (stat_msgs_3 s) index"
definition comm_can_get_status_msg_3_id :: "can \<Rightarrow> int \<Rightarrow> can_status_msg_3 option" where
  "comm_can_get_status_msg_3_id s i = table_id (stat_msgs_3 s) i"
definition comm_can_get_status_msg_4_index :: "can \<Rightarrow> int \<Rightarrow> can_status_msg_4 option option" where
  "comm_can_get_status_msg_4_index s index = table_index (stat_msgs_4 s) index"
definition comm_can_get_status_msg_4_id :: "can \<Rightarrow> int \<Rightarrow> can_status_msg_4 option" where
  "comm_can_get_status_msg_4_id s i = table_id (stat_msgs_4 s) i"
definition comm_can_get_status_msg_5_index :: "can \<Rightarrow> int \<Rightarrow> can_status_msg_5 option option" where
  "comm_can_get_status_msg_5_index s index = table_index (stat_msgs_5 s) index"
definition comm_can_get_status_msg_5_id :: "can \<Rightarrow> int \<Rightarrow> can_status_msg_5 option" where
  "comm_can_get_status_msg_5_id s i = table_id (stat_msgs_5 s) i"
definition comm_can_get_status_msg_6_index :: "can \<Rightarrow> int \<Rightarrow> can_status_msg_6 option option" where
  "comm_can_get_status_msg_6_index s index = table_index (stat_msgs_6 s) index"
definition comm_can_get_status_msg_6_id :: "can \<Rightarrow> int \<Rightarrow> can_status_msg_6 option" where
  "comm_can_get_status_msg_6_id s i = table_id (stat_msgs_6 s) i"

text \<open>The tables of the IO boards: an unused entry is not returned by index, and the id 255 stands for
  the first board.\<close>

definition table_index_used :: "'a stat list \<Rightarrow> int \<Rightarrow> 'a stat option option" where
  "table_index_used tab index =
     (if index < int CAN_STATUS_MSGS_TO_STORE
      then (if 0 \<le> index then Some (if 0 \<le> st_id (tab ! nat index) then Some (tab ! nat index) else None) else None)
      else Some None)"

definition table_id_any :: "'a stat list \<Rightarrow> int \<Rightarrow> 'a stat option" where
  "table_id_any tab i = (if i = 255 \<and> 0 \<le> st_id (tab ! 0) then Some (tab ! 0) else table_id tab i)"

definition comm_can_get_io_board_adc_1_4_index :: "can \<Rightarrow> int \<Rightarrow> io_board_adc_values option option" where
  "comm_can_get_io_board_adc_1_4_index s index = table_index_used (io_board_adc_1_4 s) index"
definition comm_can_get_io_board_adc_1_4_id :: "can \<Rightarrow> int \<Rightarrow> io_board_adc_values option" where
  "comm_can_get_io_board_adc_1_4_id s i = table_id_any (io_board_adc_1_4 s) i"
definition comm_can_get_io_board_adc_5_8_index :: "can \<Rightarrow> int \<Rightarrow> io_board_adc_values option option" where
  "comm_can_get_io_board_adc_5_8_index s index = table_index_used (io_board_adc_5_8 s) index"
definition comm_can_get_io_board_adc_5_8_id :: "can \<Rightarrow> int \<Rightarrow> io_board_adc_values option" where
  "comm_can_get_io_board_adc_5_8_id s i = table_id_any (io_board_adc_5_8 s) i"
definition comm_can_get_io_board_digital_in_index :: "can \<Rightarrow> int \<Rightarrow> io_board_digial_inputs option option" where
  "comm_can_get_io_board_digital_in_index s index = table_index (io_board_digital_in s) index"
definition comm_can_get_io_board_digital_in_id :: "can \<Rightarrow> int \<Rightarrow> io_board_digial_inputs option" where
  "comm_can_get_io_board_digital_in_id s i = table_id_any (io_board_digital_in s) i"
definition comm_can_get_psw_status_index :: "can \<Rightarrow> int \<Rightarrow> psw_status option option" where
  "comm_can_get_psw_status_index s index = table_index (psw_stat s) index"
definition comm_can_get_psw_status_id :: "can \<Rightarrow> int \<Rightarrow> psw_status option" where
  "comm_can_get_psw_status_id s i = table_id (psw_stat s) i"

section \<open>Results of the remote motor detection\<close>

definition comm_can_detect_all_foc_res :: "can \<Rightarrow> nat \<Rightarrow> int option" where
  "comm_can_detect_all_foc_res s index =
     (if index < detect_all_foc_res_index s
      then map_option sint (get_byte (detect_all_foc_res s) (detect_all_foc_res_index s))
      else Some (- 999))"

definition comm_can_detect_all_foc_res_size :: "can \<Rightarrow> nat" where
  "comm_can_detect_all_foc_res_size s = detect_all_foc_res_index s"

definition comm_can_detect_all_foc_res_clear :: "can \<Rightarrow> can" where
  "comm_can_detect_all_foc_res_clear s = s\<lparr>detect_all_foc_res_index := 0\<rparr>"

section \<open>Facts\<close>

lemma emit_simps [simp]:
  "calls (emit c s) = calls s @ [c]" "cancfg_btr (emit c s) = cancfg_btr s" "can_init_done (emit c s) = can_init_done s"
  by (simp_all add: emit_def)

text \<open>The senders of a sequence of messages in the order in which they first appear, and the last
  message of each.\<close>

definition first_seen :: "(int \<times> u32 \<times> 'a) list \<Rightarrow> int list" where
  "first_seen ms = rev (remdups (rev (map fst ms)))"

definition store_all :: "(int \<times> u32 \<times> 'a) list \<Rightarrow> 'a stat list \<Rightarrow> 'a stat list option" where
  "store_all ms tab = fold (\<lambda>(i, t, v) r. Option.bind r (table_store i t (\<lambda>_. Some v))) ms (Some tab)"

lemma first_seen_snoc:
  "first_seen (ms @ [(i, t, v)]) = (if i \<in> fst ` set ms then first_seen ms else first_seen ms @ [i])"
  by (simp add: first_seen_def)

lemma set_first_seen [simp]: "set (first_seen ms) = fst ` set ms"
  by (simp add: first_seen_def)

lemma distinct_first_seen [simp]: "distinct (first_seen ms)"
  by (simp add: first_seen_def)

lemma table_id_cleared: "0 \<le> i \<Longrightarrow> table_id (map clear_id tab) i = None"
  by (induction tab) (auto simp: clear_id_def)

lemma table_id_None: "table_id tab i = None \<longleftrightarrow> i \<notin> set (map st_id tab)"
  by (induction tab) auto

text \<open>Storing, by what the table of ids looks like: the used ones, then the empty ones.\<close>

lemma table_store_used:
  assumes "map st_id tab = us @ replicate n (- 1)" and "i \<in> set us" and "- 1 \<notin> set us"
  shows "\<exists>tab'. table_store i t (\<lambda>_. Some v) tab = Some tab' \<and> map st_id tab' = us @ replicate n (- 1) \<and>
    (\<forall>k. table_id tab' k = (if k = i then Some \<lparr>st_id = i, st_time = t, st_val = v\<rparr> else table_id tab k))"
  using assms
proof (induction tab arbitrary: us)
  case (Cons m tab)
  then obtain u us' where us: "us = u # us'" "st_id m = u" "map st_id tab = us' @ replicate n (- 1)"
    by (cases us) auto
  show ?case
  proof (cases "u = i")
    case False
    then have "i \<in> set us'" "- 1 \<notin> set us'" "u \<noteq> - 1" using Cons.prems(2,3) us(1) by auto
    then show ?thesis using Cons.IH [OF us(3)] us(1,2) False by auto
  qed (use us in auto)
qed simp

lemma table_store_free:
  assumes "map st_id tab = us @ replicate (Suc n) (- 1)" and "i \<notin> set us" and "- 1 \<notin> set us" and "0 \<le> i"
  shows "\<exists>tab'. table_store i t (\<lambda>_. Some v) tab = Some tab' \<and> map st_id tab' = us @ i # replicate n (- 1) \<and>
    (\<forall>k. 0 \<le> k \<longrightarrow> table_id tab' k = (if k = i then Some \<lparr>st_id = i, st_time = t, st_val = v\<rparr> else table_id tab k))"
  using assms
proof (induction tab arbitrary: us)
  case (Cons m tab)
  show ?case
  proof (cases us)
    case Nil
    then show ?thesis using Cons.prems by auto
  next
    case (Cons u us')
    then have "map st_id tab = us' @ replicate (Suc n) (- 1)" "i \<notin> set us'" "- 1 \<notin> set us'" "st_id m = u" "u \<noteq> i" "u \<noteq> - 1"
      using Cons.prems by auto
    then show ?thesis using Cons.IH [of us'] Cons.prems(4) Cons by auto
  qed
qed simp

lemma table_store_full:
  "i \<notin> set (map st_id tab) \<Longrightarrow> - 1 \<notin> set (map st_id tab) \<Longrightarrow> table_store i t f tab = Some tab"
  by (induction tab) auto

lemma length_table_store: "table_store i t f tab = Some tab' \<Longrightarrow> length tab' = length tab"
  by (induction tab arbitrary: tab') (auto split: if_splits bind_splits)

section \<open>Properties\<close>

text \<open>Every bit rate the interface can be switched to by name is set exactly: the bit timing
  register then holds a prescaler and two segments with
  42 MHz / ((brp + 1) (ts1 + ts2 + 3)) equal to the requested rate and the sample point in the
  second half of the bit; any other number of kilobits leaves the interface as it is.\<close>

theorem comm_can_set_baud_exact:
  "let s' = comm_can_set_baud (comm_can_kbits_to_baud kbits) delay s; w = cancfg_btr s';
       brp = uint (w AND 0x3FF); ts1 = uint (drop_bit 16 w AND 0xF); ts2 = uint (drop_bit 20 w AND 0x7)
   in if comm_can_kbits_to_baud kbits = CAN_BAUD_INVALID
      then s' = s \<and> kbits \<notin> {10, 20, 50, 75, 100, 125, 250, 500, 1000}
      else kbits * 1000 * ((brp + 1) * (ts1 + ts2 + 3)) = 42000000 \<and> ts2 < ts1 \<and> last (calls s') = Can_start w"
  by (cases "comm_can_kbits_to_baud kbits")
    (simp_all add: Let_def comm_can_set_baud_def set_timing_def CAN_BTR_def comm_can_kbits_to_baud_def split: if_splits)

text \<open>C18. A status table holds, for the first ten senders it hears of, the last message of each: a lookup by
  id finds it, and finds nothing for any other id, however many messages arrive in whatever order.\<close>

theorem status_table_last_message:
  assumes "length tab = CAN_STATUS_MSGS_TO_STORE" and "\<forall>m \<in> set ms. 0 \<le> fst m"
  shows "\<exists>tab'. store_all ms (map clear_id tab) = Some tab' \<and> length tab' = CAN_STATUS_MSGS_TO_STORE \<and>
    (\<forall>i \<ge> 0. table_id tab' i =
      (if i \<in> set (take CAN_STATUS_MSGS_TO_STORE (first_seen ms))
       then map_option (\<lambda>(t, v). \<lparr>st_id = i, st_time = t, st_val = v\<rparr>) (map_of (rev ms) i) else None))"
proof -
  define N where "N = CAN_STATUS_MSGS_TO_STORE"
  have "\<exists>tab'. store_all ms (map clear_id tab) = Some tab' \<and>
    map st_id tab' = take N (first_seen ms) @ replicate (N - length (first_seen ms)) (- 1) \<and>
    (\<forall>i \<ge> 0. table_id tab' i = (if i \<in> set (take N (first_seen ms))
       then map_option (\<lambda>(t, v). \<lparr>st_id = i, st_time = t, st_val = v\<rparr>) (map_of (rev ms) i) else None))"
    using assms(2)
  proof (induction ms rule: rev_induct)
    case Nil
    have "map st_id (map clear_id tab) = replicate (length tab) (- 1)" by (induction tab) (auto simp: clear_id_def)
    then show ?case using assms(1) by (simp add: store_all_def first_seen_def table_id_cleared N_def)
  next
    case (snoc m ms)
    obtain i t v where m: "m = (i, t, v)" by (cases m)
    have i: "0 \<le> i" "\<forall>m \<in> set ms. 0 \<le> fst m" using snoc.prems m by auto
    then have neg: "- 1 \<notin> set (take N (first_seen ms))" by (fastforce dest: in_set_takeD)
    obtain tab1 where tab1: "store_all ms (map clear_id tab) = Some tab1"
      "map st_id tab1 = take N (first_seen ms) @ replicate (N - length (first_seen ms)) (- 1)"
      "\<forall>i \<ge> 0. table_id tab1 i = (if i \<in> set (take N (first_seen ms))
       then map_option (\<lambda>(t, v). \<lparr>st_id = i, st_time = t, st_val = v\<rparr>) (map_of (rev ms) i) else None)"
      using snoc.IH i(2) by blast
    have step: "store_all (ms @ [m]) (map clear_id tab) = table_store i t (\<lambda>_. Some v) tab1"
      using tab1(1) by (simp add: store_all_def m)
    consider (old) "i \<in> set (take N (first_seen ms))"
      | (new) "i \<notin> fst ` set ms" "length (first_seen ms) < N"
      | (full) "i \<notin> set (take N (first_seen ms))" "N \<le> length (first_seen ms)"
      by (metis linorder_not_less set_first_seen take_all less_imp_le)
    then show ?case
    proof cases
      case old
      then have e: "first_seen (ms @ [m]) = first_seen ms"
        by (auto simp: m first_seen_snoc dest: in_set_takeD)
      show ?thesis unfolding step e using table_store_used [OF tab1(2) old neg, of t v] old tab1(3) by (auto simp: m)
    next
      case new
      then have "N - length (first_seen ms) = Suc (N - Suc (length (first_seen ms)))" by simp
      then have "\<exists>tab'. table_store i t (\<lambda>_. Some v) tab1 = Some tab' \<and>
          map st_id tab' = take N (first_seen ms) @ i # replicate (N - Suc (length (first_seen ms))) (- 1) \<and>
          (\<forall>k. 0 \<le> k \<longrightarrow> table_id tab' k = (if k = i then Some \<lparr>st_id = i, st_time = t, st_val = v\<rparr> else table_id tab1 k))"
        using new(1) neg i(1) tab1(2) by (intro table_store_free) (auto dest: in_set_takeD)
      moreover have "take N (first_seen (ms @ [m])) = first_seen ms @ [i]" "take N (first_seen ms) = first_seen ms"
        "length (first_seen (ms @ [m])) = Suc (length (first_seen ms))"
        using new by (simp_all add: m first_seen_snoc)
      ultimately show ?thesis unfolding step using tab1(3) by (auto simp: m)
    next
      case full
      then have "first_seen (ms @ [m]) = first_seen ms \<or> first_seen (ms @ [m]) = first_seen ms @ [i]"
        by (simp add: m first_seen_snoc)
      then have e: "take N (first_seen (ms @ [m])) = take N (first_seen ms)" "N - length (first_seen (ms @ [m])) = 0"
        using full(2) by auto
      have "map st_id tab1 = take N (first_seen ms)" using tab1(2) full(2) by simp
      then have "table_store i t (\<lambda>_. Some v) tab1 = Some tab1" using full(1) neg by (intro table_store_full) auto
      then show ?thesis unfolding step e using tab1(2,3) full by (auto simp: m)
    qed
  qed
  then obtain tab' where t: "store_all ms (map clear_id tab) = Some tab'"
    "map st_id tab' = take N (first_seen ms) @ replicate (N - length (first_seen ms)) (- 1)"
    "\<forall>i \<ge> 0. table_id tab' i = (if i \<in> set (take N (first_seen ms))
       then map_option (\<lambda>(t, v). \<lparr>st_id = i, st_time = t, st_val = v\<rparr>) (map_of (rev ms) i) else None)" by blast
  have "length tab' = N" using arg_cong [OF t(2), of length] by simp
  then show ?thesis using t by (auto simp: N_def)
qed

theorem status_table_last_message_witness:
  "\<exists>tab'. store_all [(7, 1, True), (9, 2, False), (7, 3, False)] (map clear_id (replicate 10 \<lparr>st_id = 0, st_time = 0, st_val = False\<rparr>)) = Some tab'
     \<and> table_id tab' 7 = Some \<lparr>st_id = 7, st_time = 3, st_val = False\<rparr> \<and> table_id tab' 5 = None"
proof -
  let ?tab = "replicate 10 \<lparr>st_id = 0, st_time = 0, st_val = False\<rparr>"
  have "length ?tab = CAN_STATUS_MSGS_TO_STORE" by (simp add: CAN_STATUS_MSGS_TO_STORE_def)
  moreover define ms :: "(int \<times> u32 \<times> bool) list" where "ms = [(7, 1, True), (9, 2, False), (7, 3, False)]"
  moreover have "\<forall>m \<in> set ms. 0 \<le> fst m" by (simp add: ms_def)
  ultimately obtain tab' where t: "store_all ms (map clear_id ?tab) = Some tab'"
      "\<forall>i \<ge> 0. table_id tab' i = (if i \<in> set (take CAN_STATUS_MSGS_TO_STORE (first_seen ms))
       then map_option (\<lambda>(t, v). \<lparr>st_id = i, st_time = t, st_val = v\<rparr>) (map_of (rev ms) i) else None)"
    using status_table_last_message [of ?tab ms] by blast
  have "first_seen ms = [7, 9]" by (simp add: ms_def first_seen_def)
  then have "table_id tab' 7 = Some \<lparr>st_id = 7, st_time = 3, st_val = False\<rparr>" "table_id tab' 5 = None"
    using t(2) by (simp_all add: ms_def CAN_STATUS_MSGS_TO_STORE_def)
  then show ?thesis using t(1) by (auto simp: ms_def)
qed

text \<open>The detection results are read at the write index instead of the index asked for.\<close>

theorem comm_can_detect_all_foc_res_wrong:
  "\<exists>s. detect_all_foc_res s ! 0 = 1 \<and> detect_all_foc_res_index s = 1 \<and> length (detect_all_foc_res s) = 50 \<and>
     comm_can_detect_all_foc_res s 0 = Some 0"
  by (rule exI [of _ "(can_boot app0 mc0)\<lparr>detect_all_foc_res := 1 # replicate 49 0, detect_all_foc_res_index := 1\<rparr>"])
    (simp add: comm_can_detect_all_foc_res_def get_byte_def)

end
