(* ===== verification/Can_Send.thy ===== *)
theory Can_Send
  imports Can_State
begin

text \<open>
  The sending half of \<^verbatim>\<open>comm/comm_can.c\<close>: transmitting a frame, the commands to other controllers, the
  fragmentation of packets, and the periodic status messages. A local buffer of the code is a
  byte list of the same size; what it holds before the first write is not sent. The result
  of the driver, which every sender ignores, is an argument of the two transmit functions.
\<close>

section \<open>Frames\<close>

definition MSG_OK :: int where "MSG_OK = 0"
definition MSG_TIMEOUT :: int where "MSG_TIMEOUT = - 1"
definition MSG_RESET :: int where "MSG_RESET = - 2"

text \<open>The identifier of a frame to the controller \<open>i\<close>: \<open>i | (cmd << 8)\<close>.\<close>

definition eid_of :: "u32 \<Rightarrow> u32 \<Rightarrow> u32" where
  "eid_of cmd i = i OR push_bit 8 cmd"

text \<open>The identifier fields of a frame have 29 and 11 bits.\<close>

definition comm_can_transmit_eid_replace :: "int \<Rightarrow> u32 \<Rightarrow> bytes \<Rightarrow> nat \<Rightarrow> can \<Rightarrow> (int \<times> can) option" where
  "comm_can_transmit_eid_replace driver_ret i data len s =
     (let len = (if len > 8 then 8 else len) in
      if \<not> can_init_done s then Some (MSG_RESET, s)
      else if length data < len then None
      else Some (driver_ret, emit (Transmit_eid (take_bit 29 i) (take len data)) s))"

definition comm_can_transmit_eid :: "int \<Rightarrow> u32 \<Rightarrow> bytes \<Rightarrow> nat \<Rightarrow> can \<Rightarrow> (int \<times> can) option" where
  "comm_can_transmit_eid driver_ret i data len s = comm_can_transmit_eid_replace driver_ret i data len s"

definition comm_can_transmit_eid_if :: "int \<Rightarrow> u32 \<Rightarrow> bytes \<Rightarrow> nat \<Rightarrow> can \<Rightarrow> (int \<times> can) option" where
  "comm_can_transmit_eid_if driver_ret i data len s = comm_can_transmit_eid_replace driver_ret i data len s"

definition comm_can_transmit_sid :: "int \<Rightarrow> u32 \<Rightarrow> bytes \<Rightarrow> nat \<Rightarrow> can \<Rightarrow> (int \<times> can) option" where
  "comm_can_transmit_sid driver_ret i data len s =
     (let len = (if len > 8 then 8 else len) in
      if \<not> can_init_done s then Some (MSG_RESET, s)
      else if length data < len then None
      else Some (driver_ret, emit (Transmit_sid (take_bit 11 i) (take len data)) s))"

text \<open>What the senders use of it.\<close>

definition transmit :: "u32 \<Rightarrow> bytes \<Rightarrow> nat \<Rightarrow> can \<Rightarrow> can option" where
  "transmit i data len s = map_option snd (comm_can_transmit_eid_replace MSG_OK i data len s)"

section \<open>Packets\<close>

text \<open>The loop over the fragments with one byte of offset; its result is \<open>end_a\<close>.\<close>

function send_fill :: "u8 \<Rightarrow> bytes \<Rightarrow> nat \<Rightarrow> nat \<Rightarrow> can \<Rightarrow> (nat \<times> can) option" where
  "send_fill cid data i end_a s =
     (if i < length data then
        (if i > 255 then Some (end_a, s)
         else let send_len = (if i + 7 \<le> length data then 7 else length data - i) in do {
           s \<leftarrow> transmit (eid_of CAN_PACKET_FILL_RX_BUFFER (ucast cid))
                  (word_of_nat i # take send_len (drop i data)) (send_len + 1) s;
           send_fill cid data (i + 7) (i + 7) s
         })
      else Some (end_a, s))"
  by pat_completeness auto
termination by (relation "measure (\<lambda>(cid, data, i, end_a, s). length data - i)") auto

declare send_fill.simps [simp del]

text \<open>The loop over the fragments with two bytes of offset.\<close>

function send_fill_long :: "u8 \<Rightarrow> bytes \<Rightarrow> nat \<Rightarrow> can \<Rightarrow> can option" where
  "send_fill_long cid data i s =
     (if i < length data then
        let send_len = (if i + 6 \<le> length data then 6 else length data - i) in do {
          s \<leftarrow> transmit (eid_of CAN_PACKET_FILL_RX_BUFFER_LONG (ucast cid))
                 (word_of_nat (drop_bit 8 i) # word_of_nat (i AND 0xFF) # take send_len (drop i data)) (send_len + 2) s;
          send_fill_long cid data (i + 6) s
        }
      else Some s)"
  by pat_completeness auto
termination by (relation "measure (\<lambda>(cid, data, i, s). length data - i)") auto

declare send_fill_long.simps [simp del]

definition comm_can_send_buffer :: "u8 \<Rightarrow> bytes \<Rightarrow> u8 \<Rightarrow> can \<Rightarrow> can option" where
  "comm_can_send_buffer cid data send s =
     (let len = length data; own = controller_id (app_conf s) in
      if len \<le> 6 then
        transmit (eid_of CAN_PACKET_PROCESS_SHORT_BUFFER (ucast cid)) (own # send # data) (2 + len) s
      else do {
        (end_a, s) \<leftarrow> send_fill cid data 0 0 s;
        s \<leftarrow> send_fill_long cid data end_a s;
        let crc = crc16 data;
        transmit (eid_of CAN_PACKET_PROCESS_RX_BUFFER (ucast cid))
          [own, send, word_of_nat (drop_bit 8 len), word_of_nat (len AND 0xFF), byte_of 8 crc, byte_of 0 crc] 6 s
      })"

section \<open>Commands\<close>

definition comm_can_set_duty :: "u8 \<Rightarrow> float32 \<Rightarrow> can \<Rightarrow> can option" where
  "comm_can_set_duty cid d s = do {
     (buffer, send_index) \<leftarrow> buffer_append_int32 (replicate 4 0) (to_int32 (fmul d 100000)) 0;
     transmit (eid_of CAN_PACKET_SET_DUTY (ucast cid)) buffer send_index s
   }"

definition comm_can_set_current :: "u8 \<Rightarrow> float32 \<Rightarrow> can \<Rightarrow> can option" where
  "comm_can_set_current cid cur s = do {
     (buffer, send_index) \<leftarrow> buffer_append_int32 (replicate 4 0) (to_int32 (fmul cur 1000)) 0;
     transmit (eid_of CAN_PACKET_SET_CURRENT (ucast cid)) buffer send_index s
   }"

definition comm_can_set_current_off_delay :: "u8 \<Rightarrow> float32 \<Rightarrow> float32 \<Rightarrow> can \<Rightarrow> can option" where
  "comm_can_set_current_off_delay cid cur off_delay s = do {
     (buffer, send_index) \<leftarrow> buffer_append_int32 (replicate 6 0) (to_int32 (fmul cur 1000)) 0;
     (buffer, send_index) \<leftarrow> buffer_append_float16 buffer off_delay 1000 send_index;
     transmit (eid_of CAN_PACKET_SET_CURRENT (ucast cid)) buffer send_index s
   }"

definition comm_can_set_current_brake :: "u8 \<Rightarrow> float32 \<Rightarrow> can \<Rightarrow> can option" where
  "comm_can_set_current_brake cid cur s = do {
     (buffer, send_index) \<leftarrow> buffer_append_int32 (replicate 4 0) (to_int32 (fmul cur 1000)) 0;
     transmit (eid_of CAN_PACKET_SET_CURRENT_BRAKE (ucast cid)) buffer send_index s
   }"

definition comm_can_set_rpm :: "u8 \<Rightarrow> float32 \<Rightarrow> can \<Rightarrow> can option" where
  "comm_can_set_rpm cid r s = do {
     (buffer, send_index) \<leftarrow> buffer_append_int32 (replicate 4 0) (to_int32 r) 0;
     transmit (eid_of CAN_PACKET_SET_RPM (ucast cid)) buffer send_index s
   }"

definition comm_can_set_pos :: "u8 \<Rightarrow> float32 \<Rightarrow> can \<Rightarrow> can option" where
  "comm_can_set_pos cid pos s = do {
     (buffer, send_index) \<leftarrow> buffer_append_int32 (replicate 4 0) (to_int32 (fmul pos 1000000)) 0;
     transmit (eid_of CAN_PACKET_SET_POS (ucast cid)) buffer send_index s
   }"

definition comm_can_set_current_rel :: "u8 \<Rightarrow> float32 \<Rightarrow> can \<Rightarrow> can option" where
  "comm_can_set_current_rel cid current_rel s = do {
     (buffer, send_index) \<leftarrow> buffer_append_float32 (replicate 4 0) current_rel 100000 0;
     transmit (eid_of CAN_PACKET_SET_CURRENT_REL (ucast cid)) buffer send_index s
   }"

definition comm_can_set_current_rel_off_delay :: "u8 \<Rightarrow> float32 \<Rightarrow> float32 \<Rightarrow> can \<Rightarrow> can option" where
  "comm_can_set_current_rel_off_delay cid current_rel off_delay s = do {
     (buffer, send_index) \<leftarrow> buffer_append_float32 (replicate 6 0) current_rel 100000 0;
     (buffer, send_index) \<leftarrow> buffer_append_float16 buffer off_delay 1000 send_index;
     transmit (eid_of CAN_PACKET_SET_CURRENT_REL (ucast cid)) buffer send_index s
   }"

definition comm_can_set_current_brake_rel :: "u8 \<Rightarrow> float32 \<Rightarrow> can \<Rightarrow> can option" where
  "comm_can_set_current_brake_rel cid current_rel s = do {
     (buffer, send_index) \<leftarrow> buffer_append_float32 (replicate 4 0) current_rel 100000 0;
     transmit (eid_of CAN_PACKET_SET_CURRENT_BRAKE_REL (ucast cid)) buffer send_index s
   }"

definition comm_can_set_handbrake :: "u8 \<Rightarrow> float32 \<Rightarrow> can \<Rightarrow> can option" where
  "comm_can_set_handbrake cid cur s = do {
     (buffer, send_index) \<leftarrow> buffer_append_float32 (replicate 4 0) cur 1000 0;
     transmit (eid_of CAN_PACKET_SET_CURRENT_HANDBRAKE (ucast cid)) buffer send_index s
   }"

definition comm_can_set_handbrake_rel :: "u8 \<Rightarrow> float32 \<Rightarrow> can \<Rightarrow> can option" where
  "comm_can_set_handbrake_rel cid current_rel s = do {
     (buffer, send_index) \<leftarrow> buffer_append_float32 (replicate 4 0) current_rel 100000 0;
     transmit (eid_of CAN_PACKET_SET_CURRENT_HANDBRAKE_REL (ucast cid)) buffer send_index s
   }"

definition comm_can_detect_apply_all_foc :: "u8 \<Rightarrow> bool \<Rightarrow> float32 \<Rightarrow> can \<Rightarrow> can option" where
  "comm_can_detect_apply_all_foc cid activate_status_msgs max_power_loss s = do {
     (buffer, send_index) \<leftarrow> put_byte (replicate 6 0) 0 (controller_id (app_conf s));
     (buffer, send_index) \<leftarrow> put_byte buffer send_index (if activate_status_msgs then 1 else 0);
     (buffer, send_index) \<leftarrow> buffer_append_float32 buffer max_power_loss 1000 send_index;
     transmit (eid_of CAN_PACKET_DETECT_APPLY_ALL_FOC (ucast cid)) buffer send_index s
   }"

text \<open>The four functions that send two limits have one shape.\<close>

definition send_pair :: "u32 \<Rightarrow> u8 \<Rightarrow> float32 \<Rightarrow> float32 \<Rightarrow> can \<Rightarrow> can option" where
  "send_pair cmd cid a b s = do {
     (buffer, send_index) \<leftarrow> buffer_append_float32 (replicate 8 0) a 1000 0;
     (buffer, send_index) \<leftarrow> buffer_append_float32 buffer b 1000 send_index;
     transmit (eid_of cmd (ucast cid)) buffer send_index s
   }"

definition comm_can_conf_current_limits :: "u8 \<Rightarrow> bool \<Rightarrow> float32 \<Rightarrow> float32 \<Rightarrow> can \<Rightarrow> can option" where
  "comm_can_conf_current_limits cid store mi ma s =
     send_pair (if store then CAN_PACKET_CONF_STORE_CURRENT_LIMITS else CAN_PACKET_CONF_CURRENT_LIMITS) cid mi ma s"

definition comm_can_conf_current_limits_in :: "u8 \<Rightarrow> bool \<Rightarrow> float32 \<Rightarrow> float32 \<Rightarrow> can \<Rightarrow> can option" where
  "comm_can_conf_current_limits_in cid store mi ma s =
     send_pair (if store then CAN_PACKET_CONF_STORE_CURRENT_LIMITS_IN else CAN_PACKET_CONF_CURRENT_LIMITS_IN) cid mi ma s"

definition comm_can_conf_foc_erpms :: "u8 \<Rightarrow> bool \<Rightarrow> float32 \<Rightarrow> float32 \<Rightarrow> can \<Rightarrow> can option" where
  "comm_can_conf_foc_erpms cid store openloop_rpm sl_erpm s =
     send_pair (if store then CAN_PACKET_CONF_STORE_FOC_ERPMS else CAN_PACKET_CONF_FOC_ERPMS) cid openloop_rpm sl_erpm s"

definition comm_can_conf_battery_cut :: "u8 \<Rightarrow> bool \<Rightarrow> float32 \<Rightarrow> float32 \<Rightarrow> can \<Rightarrow> can option" where
  "comm_can_conf_battery_cut cid store cut_start cut_end s =
     send_pair (if store then CAN_PACKET_CONF_STORE_BATTERY_CUT else CAN_PACKET_CONF_BATTERY_CUT) cid cut_start cut_end s"

definition comm_can_shutdown :: "u8 \<Rightarrow> can \<Rightarrow> can option" where
  "comm_can_shutdown cid s = transmit (eid_of CAN_PACKET_SHUTDOWN (ucast cid)) (replicate 8 0) 0 s"

definition comm_can_send_update_baud :: "int \<Rightarrow> int \<Rightarrow> can \<Rightarrow> can option" where
  "comm_can_send_update_baud kbits delay_msec s = do {
     (buffer, send_index) \<leftarrow> buffer_append_int16 (replicate 8 0) (word_of_int kbits) 0;
     (buffer, send_index) \<leftarrow> buffer_append_int16 buffer (word_of_int delay_msec) send_index;
     transmit (eid_of CAN_PACKET_UPDATE_BAUD 255) buffer send_index s
   }"

definition comm_can_io_board_set_output_digital :: "int \<Rightarrow> int \<Rightarrow> bool \<Rightarrow> can \<Rightarrow> can option" where
  "comm_can_io_board_set_output_digital i channel on s = do {
     (buffer, send_index) \<leftarrow> put_byte (replicate 8 0) 0 (word_of_int channel);
     (buffer, send_index) \<leftarrow> put_byte buffer send_index 1;
     (buffer, send_index) \<leftarrow> put_byte buffer send_index (if on then 1 else 0);
     transmit (eid_of CAN_PACKET_IO_BOARD_SET_OUTPUT_DIGITAL (word_of_int i)) buffer send_index s
   }"

definition comm_can_io_board_set_output_pwm :: "int \<Rightarrow> int \<Rightarrow> float32 \<Rightarrow> can \<Rightarrow> can option" where
  "comm_can_io_board_set_output_pwm i channel d s = do {
     (buffer, send_index) \<leftarrow> put_byte (replicate 8 0) 0 (word_of_int channel);
     (buffer, send_index) \<leftarrow> buffer_append_float16 buffer d 1000 send_index;
     transmit (eid_of CAN_PACKET_IO_BOARD_SET_OUTPUT_PWM (word_of_int i)) buffer send_index s
   }"

definition comm_can_psw_switch :: "int \<Rightarrow> bool \<Rightarrow> bool \<Rightarrow> can \<Rightarrow> can option" where
  "comm_can_psw_switch i is_on plot s = do {
     (buffer, send_index) \<leftarrow> put_byte (replicate 8 0) 0 (if is_on then 1 else 0);
     (buffer, send_index) \<leftarrow> put_byte buffer send_index (if plot then 1 else 0);
     transmit (eid_of CAN_PACKET_PSW_SWITCH (word_of_int i)) buffer send_index s
   }"

definition comm_can_update_pid_pos_offset :: "int \<Rightarrow> float32 \<Rightarrow> bool \<Rightarrow> can \<Rightarrow> can option" where
  "comm_can_update_pid_pos_offset i angle_now store s = do {
     (buffer, send_index) \<leftarrow> buffer_append_float32 (replicate 8 0) angle_now 10000 0;
     (buffer, send_index) \<leftarrow> put_byte buffer send_index (if store then 1 else 0);
     transmit (eid_of CAN_PACKET_UPDATE_PID_POS_OFFSET (word_of_int i)) buffer send_index s
   }"

text \<open>A ping: the part up to the wait for the reply, and the part after it, given whether the event
  arrived within the 10 ms. The first returns whether the wait is entered, the second the
  hardware type, or nothing when there was no reply.\<close>

definition comm_can_ping_send :: "u8 \<Rightarrow> can \<Rightarrow> (bool \<times> can) option" where
  "comm_can_ping_send cid s =
     (if can_mode (app_conf s) \<noteq> CAN_MODE_VESC then Some (False, s)
      else do {
        let s = s\<lparr>ping_tp := True, ping_hw_last_id := uint cid\<rparr>;
        s \<leftarrow> transmit (eid_of CAN_PACKET_PING (ucast cid)) [controller_id (app_conf s)] 1 s;
        Some (True, s)
      })"

definition comm_can_ping_wait :: "bool \<Rightarrow> can \<Rightarrow> u8 option \<times> can" where
  "comm_can_ping_wait signalled s =
     (if signalled then Some (ping_hw_last s) else None, s\<lparr>ping_tp := False\<rparr>)"

section \<open>Status messages\<close>

text \<open>What the status messages report, as the motor interface and the ADC return it.\<close>

record motor_values =
  mc_rpm :: float32
  tot_current_filtered :: float32
  duty_cycle_now :: float32
  mc_amp_hours :: float32
  mc_amp_hours_charged :: float32
  mc_watt_hours :: float32
  mc_watt_hours_charged :: float32
  temp_fet_filtered :: float32
  temp_motor_filtered :: float32
  tot_current_in_filtered :: float32
  mc_pid_pos_now :: float32
  tachometer_value :: u32
  input_voltage_filtered :: float32
  adc_ext :: float32
  adc_ext2 :: float32
  adc_ext3 :: float32
  servo_0 :: float32

definition comm_can_send_status1 :: "motor_values \<Rightarrow> u8 \<Rightarrow> can \<Rightarrow> can option" where
  "comm_can_send_status1 v i s = do {
     (buffer, send_index) \<leftarrow> buffer_append_int32 (replicate 8 0) (to_int32 (mc_rpm v)) 0;
     (buffer, send_index) \<leftarrow> buffer_append_int16 buffer (to_int16 (fmul (tot_current_filtered v) 10)) send_index;
     (buffer, send_index) \<leftarrow> buffer_append_int16 buffer (to_int16 (fmul (duty_cycle_now v) 1000)) send_index;
     transmit (eid_of CAN_PACKET_STATUS (ucast i)) buffer send_index s
   }"

definition comm_can_send_status2 :: "motor_values \<Rightarrow> u8 \<Rightarrow> can \<Rightarrow> can option" where
  "comm_can_send_status2 v i s = do {
     (buffer, send_index) \<leftarrow> buffer_append_int32 (replicate 8 0) (to_int32 (fmul (mc_amp_hours v) 10000)) 0;
     (buffer, send_index) \<leftarrow> buffer_append_int32 buffer (to_int32 (fmul (mc_amp_hours_charged v) 10000)) send_index;
     transmit (eid_of CAN_PACKET_STATUS_2 (ucast i)) buffer send_index s
   }"

definition comm_can_send_status3 :: "motor_values \<Rightarrow> u8 \<Rightarrow> can \<Rightarrow> can option" where
  "comm_can_send_status3 v i s = do {
     (buffer, send_index) \<leftarrow> buffer_append_int32 (replicate 8 0) (to_int32 (fmul (mc_watt_hours v) 10000)) 0;
     (buffer, send_index) \<leftarrow> buffer_append_int32 buffer (to_int32 (fmul (mc_watt_hours_charged v) 10000)) send_index;
     transmit (eid_of CAN_PACKET_STATUS_3 (ucast i)) buffer send_index s
   }"

definition comm_can_send_status4 :: "motor_values \<Rightarrow> u8 \<Rightarrow> can \<Rightarrow> can option" where
  "comm_can_send_status4 v i s = do {
     (buffer, send_index) \<leftarrow> buffer_append_int16 (replicate 8 0) (to_int16 (fmul (temp_fet_filtered v) 10)) 0;
     (buffer, send_index) \<leftarrow> buffer_append_int16 buffer (to_int16 (fmul (temp_motor_filtered v) 10)) send_index;
     (buffer, send_index) \<leftarrow> buffer_append_int16 buffer (to_int16 (fmul (tot_current_in_filtered v) 10)) send_index;
     (buffer, send_index) \<leftarrow> buffer_append_int16 buffer (to_int16 (fmul (mc_pid_pos_now v) 50)) send_index;
     transmit (eid_of CAN_PACKET_STATUS_4 (ucast i)) buffer send_index s
   }"

definition comm_can_send_status5 :: "motor_values \<Rightarrow> u8 \<Rightarrow> can \<Rightarrow> can option" where
  "comm_can_send_status5 v i s = do {
     (buffer, send_index) \<leftarrow> buffer_append_int32 (replicate 8 0) (tachometer_value v) 0;
     (buffer, send_index) \<leftarrow> buffer_append_int16 buffer (to_int16 (fmul (input_voltage_filtered v) 10)) send_index;
     (buffer, send_index) \<leftarrow> buffer_append_int16 buffer 0 send_index;
     transmit (eid_of CAN_PACKET_STATUS_5 (ucast i)) buffer send_index s
   }"

definition comm_can_send_status6 :: "motor_values \<Rightarrow> u8 \<Rightarrow> can \<Rightarrow> can option" where
  "comm_can_send_status6 v i s = do {
     (buffer, send_index) \<leftarrow> buffer_append_float16 (replicate 8 0) (adc_ext v) 1000 0;
     (buffer, send_index) \<leftarrow> buffer_append_float16 buffer (adc_ext2 v) 1000 send_index;
     (buffer, send_index) \<leftarrow> buffer_append_float16 buffer (adc_ext3 v) 1000 send_index;
     (buffer, send_index) \<leftarrow> buffer_append_float16 buffer (servo_0 v) 1000 send_index;
     transmit (eid_of CAN_PACKET_STATUS_6 (ucast i)) buffer send_index s
   }"

text \<open>Each bit of \<open>msgs\<close> turns one of the messages on.\<close>

definition send_can_status :: "motor_values \<Rightarrow> u8 \<Rightarrow> u8 \<Rightarrow> can \<Rightarrow> can option" where
  "send_can_status v msgs i s = do {
     s \<leftarrow> (if bit msgs 0 then comm_can_send_status1 v i (emit (Select_motor_thread 1) s) else Some s);
     s \<leftarrow> (if bit msgs 1 then comm_can_send_status2 v i (emit (Select_motor_thread 1) s) else Some s);
     s \<leftarrow> (if bit msgs 2 then comm_can_send_status3 v i (emit (Select_motor_thread 1) s) else Some s);
     s \<leftarrow> (if bit msgs 3 then comm_can_send_status4 v i (emit (Select_motor_thread 1) s) else Some s);
     s \<leftarrow> (if bit msgs 4 then comm_can_send_status5 v i (emit (Select_motor_thread 1) s) else Some s);
     (if bit msgs 5 then comm_can_send_status6 v i (emit (Select_motor_thread 1) s) else Some s)
   }"

definition CH_CFG_ST_FREQUENCY :: nat where "CH_CFG_ST_FREQUENCY = 10000"

text \<open>One round of a status thread: the messages, then the waiting, which is 10 ms at a time as long
  as the configured rate is zero (\<open>rates\<close> are the rates read in the rounds of that wait, the last
  of which is not zero).\<close>

fun status_wait :: "u32 list \<Rightarrow> can \<Rightarrow> can option" where
  "status_wait [] s = None"
| "status_wait (rate # rates) s =
     (if rate = 0 then status_wait rates (emit (Sleep_ms 10) s)
      else let sleep_time = CH_CFG_ST_FREQUENCY div unat rate;
               sleep_time = (if sleep_time = 0 then 1 else sleep_time)
      in Some (emit (Sleep_ticks sleep_time) s))"

definition cancom_status_thread :: "motor_values \<Rightarrow> u32 list \<Rightarrow> can \<Rightarrow> can option" where
  "cancom_status_thread v rates s = do {
     s \<leftarrow> (if can_mode (app_conf s) = CAN_MODE_VESC
           then send_can_status v (can_status_msgs_r1 (app_conf s)) (controller_id (app_conf s)) s else Some s);
     status_wait (can_status_rate_1 (app_conf s) # rates) s
   }"

definition cancom_status_thread_2 :: "motor_values \<Rightarrow> u32 list \<Rightarrow> can \<Rightarrow> can option" where
  "cancom_status_thread_2 v rates s = do {
     s \<leftarrow> (if can_mode (app_conf s) = CAN_MODE_VESC
           then send_can_status v (can_status_msgs_r2 (app_conf s)) (controller_id (app_conf s)) s else Some s);
     status_wait (can_status_rate_2 (app_conf s) # rates) s
   }"

section \<open>Facts\<close>

lemma transmit_Some:
  "can_init_done s \<Longrightarrow> len \<le> 8 \<Longrightarrow> len \<le> length data \<Longrightarrow>
   transmit i data len s = Some (emit (Transmit_eid (take_bit 29 i) (take len data)) s)"
  by (simp add: transmit_def comm_can_transmit_eid_replace_def)

lemma take_bit_eid [simp]:
  assumes "take_bit 21 cmd = cmd"
  shows "take_bit 29 (eid_of cmd (ucast (i :: u8))) = eid_of cmd (ucast i)"
proof (rule bit_word_eqI)
  fix n
  have "bit cmd k \<longleftrightarrow> k < 21 \<and> bit cmd k" for k
    using bit_take_bit_iff [of 21 cmd k] assms by simp
  from this [of "n - 8"] show "bit (take_bit 29 (eid_of cmd (ucast i))) n = bit (eid_of cmd (ucast i)) n"
    by (auto simp: eid_of_def bit_simps dest: bit_imp_le_length)
qed

lemma eid_id [simp]: "(ucast (eid_of cmd (ucast (i :: u8))) :: u8) = i"
  by (rule bit_word_eqI) (auto simp: eid_of_def bit_simps dest: bit_imp_le_length)

lemma eid_cmd [simp]:
  assumes "take_bit 21 cmd = cmd"
  shows "drop_bit 8 (eid_of cmd (ucast (i :: u8))) = cmd"
proof (rule bit_word_eqI)
  fix n
  have "bit cmd n \<longleftrightarrow> n < 21 \<and> bit cmd n"
    using bit_take_bit_iff [of 21 cmd n] assms by simp
  then show "bit (drop_bit 8 (eid_of cmd (ucast i))) n = bit cmd n"
    by (auto simp: eid_of_def bit_simps dest: bit_imp_le_length)
qed

end
