(* ===== verification/Can_Recv.thy ===== *)
theory Can_Recv
  imports Can_Send
begin

text \<open>
  The receiving half of \<^verbatim>\<open>comm/comm_can.c\<close>: the ring of received frames, the thread that dispatches
  them, and \<open>decode_msg\<close>, with one definition per case of its two switches that does more
  than pass a value on. \<open>data8\<close> are the eight bytes of the frame, \<open>len\<close> is its length. A
  read or write outside an array, a negative length given to \<open>memcpy\<close> and the use of a null pointer
  are \<open>None\<close>.
\<close>

section \<open>Inputs\<close>

text \<open>What decoding reads from other modules: the time, the result of the motor detection, the
  encoder, and the id of the second motor (used only for frames that stay inside a dual
  motor controller).\<close>

record inputs =
  system_time :: u32
  detect_foc :: "float32 \<Rightarrow> int"
  ts5700n8501_raw_status :: bytes
  encoder_deg :: float32
  second_motor_id :: u8

section \<open>Frames addressed to this controller\<close>

text \<open>The search for a reassembly buffer whose next offset is the given one.\<close>

fun find_offset :: "int list \<Rightarrow> nat \<Rightarrow> int \<Rightarrow> nat option" where
  "find_offset [] i ofs = None"
| "find_offset (x # xs) i ofs = (if x = ofs then Some i else find_offset xs (Suc i) ofs)"

definition choose_buffer :: "int list \<Rightarrow> int \<Rightarrow> nat option" where
  "choose_buffer offsets ofs =
     (case find_offset offsets 0 ofs of
        Some i \<Rightarrow> Some i
      | None \<Rightarrow> if ofs = 0 then Some 0 else None)"

text \<open>\<open>memcpy(rx_buffer[i] + offset, src, len)\<close> and the new offset of the buffer.\<close>

definition fill_buffer :: "nat \<Rightarrow> int \<Rightarrow> bytes \<Rightarrow> int \<Rightarrow> can \<Rightarrow> can option" where
  "fill_buffer i ofs src len s =
     (if len < 0 \<or> int (length src) < len \<or> length (rx_bufs s) \<le> i then None
      else do {
        (b, _) \<leftarrow> write_bytes (rx_bufs s ! i) (nat ofs) (take (nat len) src);
        Some (s\<lparr>rx_bufs := (rx_bufs s)[i := b], rx_buffer_offset := (rx_buffer_offset s)[i := ofs + len]\<rparr>)
      })"

definition fill_rx_buffer :: "bytes \<Rightarrow> int \<Rightarrow> can \<Rightarrow> can option" where
  "fill_rx_buffer data8 len s = do {
     b0 \<leftarrow> get_byte data8 0;
     let ofs = uint b0;
     let data8 = drop 1 data8;
     let len = len - 1;
     (case choose_buffer (rx_buffer_offset s) ofs of
        None \<Rightarrow> Some s
      | Some buf_ind \<Rightarrow> fill_buffer buf_ind ofs data8 len s)
   }"

definition fill_rx_buffer_long :: "bytes \<Rightarrow> int \<Rightarrow> can \<Rightarrow> can option" where
  "fill_rx_buffer_long data8 len s = do {
     b0 \<leftarrow> get_byte data8 0;
     b1 \<leftarrow> get_byte data8 1;
     let ofs = sint (push_bit 8 (ucast b0) OR ucast b1 :: u32);
     let data8 = drop 2 data8;
     let len = len - 2;
     (case choose_buffer (rx_buffer_offset s) ofs of
        None \<Rightarrow> Some s
      | Some buf_ind \<Rightarrow>
          (if ofs + len \<le> int RX_BUFFER_SIZE then fill_buffer buf_ind ofs data8 len s else Some s))
   }"

definition boot_command :: "u8 \<Rightarrow> bool" where
  "boot_command c = (c \<in> {1, 2, 3, 81, 73})"

text \<open>Handing a packet on, for the three values of \<open>commands_send\<close> that mean something.\<close>

definition hand_over :: "u8 \<Rightarrow> bytes \<Rightarrow> can \<Rightarrow> can" where
  "hand_over commands_send packet s =
     (if commands_send = 0 \<or> commands_send = 3 then emit (Commands_process_packet packet True) s
      else if commands_send = 1 then emit (Commands_send_packet_can_last packet) s
      else if commands_send = 2 then emit (Commands_process_packet packet False) s
      else s)"

text \<open>The sender to reply to, and how.\<close>

definition set_reply :: "u8 \<Rightarrow> u8 \<Rightarrow> can \<Rightarrow> can" where
  "set_reply last_id commands_send s =
     (let s = (if commands_send = 0 \<or> commands_send = 3 then s\<lparr>rx_buffer_last_id := ucast last_id\<rparr> else s)
      in s\<lparr>rx_buffer_response_type := (if commands_send = 3 then 0 else 1)\<rparr>)"

definition process_rx_buffer :: "bytes \<Rightarrow> bool \<Rightarrow> can \<Rightarrow> can option" where
  "process_rx_buffer data8 is_replaced s = do {
     last_id \<leftarrow> get_byte data8 0;
     commands_send \<leftarrow> get_byte data8 1;
     let s = set_reply last_id commands_send s;
     b2 \<leftarrow> get_byte data8 2;
     b3 \<leftarrow> get_byte data8 3;
     let rxbuf_len = unat (push_bit 8 (ucast b2) OR ucast b3 :: u32);
     (if rxbuf_len > RX_BUFFER_SIZE then Some s
      else case find_offset (rx_buffer_offset s) 0 (int rxbuf_len) of
        None \<Rightarrow> Some (s\<lparr>rx_buffer_offset := map (\<lambda>_. 0) (rx_buffer_offset s)\<rparr>)
      | Some buf_ind \<Rightarrow> do {
          let s = s\<lparr>rx_buffer_offset := (rx_buffer_offset s)[buf_ind := 0]\<rparr>;
          crc_high \<leftarrow> get_byte data8 4;
          crc_low \<leftarrow> get_byte data8 5;
          let buf = rx_bufs s ! buf_ind;
          first \<leftarrow> get_byte buf 0;
          let packet = take rxbuf_len buf;
          (if crc16 packet = push_bit 8 (ucast crc_high) OR ucast crc_low
           then (if is_replaced \<and> boot_command first then Some s
                 else Some (hand_over commands_send packet s))
           else Some s)
        })
   }"

definition process_short_buffer :: "bytes \<Rightarrow> int \<Rightarrow> bool \<Rightarrow> can \<Rightarrow> can option" where
  "process_short_buffer data8 len is_replaced s = do {
     last_id \<leftarrow> get_byte data8 0;
     commands_send \<leftarrow> get_byte data8 1;
     let s = set_reply last_id commands_send s;
     first \<leftarrow> get_byte data8 2;
     (if is_replaced \<and> boot_command first then Some s
      else if commands_send \<notin> {0, 1, 2, 3} then Some s
      else if len - 2 < 0 \<or> int (length data8) < len then None
      else Some (hand_over commands_send (take (nat (len - 2)) (drop 2 data8)) s))
   }"

text \<open>Changing the application configuration through a buffer of the pool.\<close>

definition activate_status_msgs :: "can \<Rightarrow> can option" where
  "activate_status_msgs s =
     (case mempools_alloc_appconf (app_pool s) of
        (None, _) \<Rightarrow> None
      | (Some appconf, p) \<Rightarrow>
          let s = s\<lparr>app_pool := set_conf appconf (app_conf s) p\<rparr>;
              c = conf_at (app_pool s) appconf;
              s = (if can_status_msgs_r1 c \<noteq> 0b00001111
                   then let c = c\<lparr>can_status_msgs_r1 := 0b00001111\<rparr>;
                            s = s\<lparr>app_pool := set_conf appconf c (app_pool s)\<rparr>;
                            s = emit (Store_app_configuration c) s;
                            s = emit (App_set_configuration c) s
                        in s\<lparr>app_conf := c\<rparr>
                   else s)
          in Some (s\<lparr>app_pool := mempools_free_appconf (Some appconf) (app_pool s)\<rparr>))"

definition detect_apply_all_foc :: "inputs \<Rightarrow> bytes \<Rightarrow> bool \<Rightarrow> can \<Rightarrow> can option" where
  "detect_apply_all_foc e data8 is_replaced s =
     (if is_replaced then Some s
      else do {
        activate_status \<leftarrow> get_byte data8 1;
        (max_power_loss, ind) \<leftarrow> buffer_get_float32 data8 1000 2;
        let s = emit (Detect_apply_all_foc max_power_loss) s;
        let res = detect_foc e max_power_loss;
        s \<leftarrow> (if res \<ge> 0 \<and> activate_status \<noteq> 0 then activate_status_msgs s else Some s);
        b0 \<leftarrow> get_byte data8 0;
        transmit (eid_of CAN_PACKET_DETECT_APPLY_ALL_FOC_RES (ucast b0)) [word_of_int res] 1 s
      })"

definition store_detect_res :: "bytes \<Rightarrow> bool \<Rightarrow> can \<Rightarrow> can option" where
  "store_detect_res data8 is_replaced s =
     (if is_replaced then Some s
      else do {
        b0 \<leftarrow> get_byte data8 0;
        (res, ind) \<leftarrow> put_byte (detect_all_foc_res s) (detect_all_foc_res_index s) b0;
        Some (s\<lparr>detect_all_foc_res := res, detect_all_foc_res_index := ind mod 50\<rparr>)
      })"

text \<open>The four pairs of cases that change two members of the motor configuration, given by how they are
  read and written.\<close>

definition conf_pair ::
  "(mc_configuration \<Rightarrow> float32 \<times> float32) \<Rightarrow> (float32 \<Rightarrow> float32 \<Rightarrow> mc_configuration \<Rightarrow> mc_configuration) \<Rightarrow>
   bool \<Rightarrow> bytes \<Rightarrow> can \<Rightarrow> can option" where
  "conf_pair get upd store data8 s = do {
     (a, ind) \<leftarrow> buffer_get_float32 data8 1000 0;
     (b, ind) \<leftarrow> buffer_get_float32 data8 1000 ind;
     (case mempools_alloc_mcconf (mc_pool s) of
        (None, _) \<Rightarrow> None
      | (Some mcconf, p) \<Rightarrow>
          let s = s\<lparr>mc_pool := set_conf mcconf (mc_conf s) p\<rparr>;
              c = conf_at (mc_pool s) mcconf;
              s = (if get c \<noteq> (a, b)
                   then let c = upd a b c;
                            s = s\<lparr>mc_pool := set_conf mcconf c (mc_pool s)\<rparr>;
                            s = (if store then emit (Store_mc_configuration c False) s else s);
                            s = emit (Mc_set_configuration c) s
                        in s\<lparr>mc_conf := c\<rparr>
                   else s)
          in Some (s\<lparr>mc_pool := mempools_free_mcconf (Some mcconf) (mc_pool s)\<rparr>))
   }"

definition conf_current_limits :: "bool \<Rightarrow> bytes \<Rightarrow> can \<Rightarrow> can option" where
  "conf_current_limits = conf_pair (\<lambda>c. (l_current_min c, l_current_max c))
     (\<lambda>a b c. c\<lparr>l_current_min := a, l_current_max := b\<rparr>)"

definition conf_current_limits_in :: "bool \<Rightarrow> bytes \<Rightarrow> can \<Rightarrow> can option" where
  "conf_current_limits_in = conf_pair (\<lambda>c. (l_in_current_min c, l_in_current_max c))
     (\<lambda>a b c. c\<lparr>l_in_current_min := a, l_in_current_max := b\<rparr>)"

definition conf_foc_erpms :: "bool \<Rightarrow> bytes \<Rightarrow> can \<Rightarrow> can option" where
  "conf_foc_erpms = conf_pair (\<lambda>c. (foc_openloop_rpm c, foc_sl_erpm c))
     (\<lambda>a b c. c\<lparr>foc_openloop_rpm := a, foc_sl_erpm := b\<rparr>)"

definition conf_battery_cut :: "bool \<Rightarrow> bytes \<Rightarrow> can \<Rightarrow> can option" where
  "conf_battery_cut = conf_pair (\<lambda>c. (l_battery_cut_start c, l_battery_cut_end c))
     (\<lambda>a b c. c\<lparr>l_battery_cut_start := a, l_battery_cut_end := b\<rparr>)"

text \<open>A case that reads one value, passes it on and resets the timeout.\<close>

definition set_value :: "bytes \<Rightarrow> float32 \<Rightarrow> (float32 \<Rightarrow> call) \<Rightarrow> can \<Rightarrow> can option" where
  "set_value data8 scale c s = do {
     (x, ind) \<leftarrow> buffer_get_float32 data8 scale 0;
     Some (emit Timeout_reset (emit (c x) s))
   }"

definition recv_set_current :: "bytes \<Rightarrow> int \<Rightarrow> can \<Rightarrow> can option" where
  "recv_set_current data8 len s = do {
     (s, ind) \<leftarrow> (if len \<ge> 6
        then do { (d, ind) \<leftarrow> buffer_get_float16 data8 1000 0; Some (emit (Mc_set_current_off_delay d) s, ind) }
        else Some (s, 0));
     (x, ind) \<leftarrow> buffer_get_float32 data8 1000 ind;
     Some (emit Timeout_reset (emit (Mc_set_current x) s))
   }"

definition recv_set_current_rel :: "bytes \<Rightarrow> int \<Rightarrow> can \<Rightarrow> can option" where
  "recv_set_current_rel data8 len s = do {
     (x, ind) \<leftarrow> buffer_get_float32 data8 100000 0;
     let s = emit (Mc_set_current_rel x) s;
     s \<leftarrow> (if len \<ge> 6
        then do { (d, ind) \<leftarrow> buffer_get_float16 data8 1000 ind; Some (emit (Mc_set_current_off_delay d) s) }
        else Some s);
     Some (emit Timeout_reset s)
   }"

definition recv_ping :: "inputs \<Rightarrow> u8 \<Rightarrow> bytes \<Rightarrow> bool \<Rightarrow> can \<Rightarrow> can option" where
  "recv_ping e i data8 is_replaced s = do {
     b0 \<leftarrow> get_byte data8 0;
     transmit (eid_of CAN_PACKET_PONG (ucast b0)) [if is_replaced then second_motor_id e else i, 0] 2 s
   }"

definition recv_pong :: "bytes \<Rightarrow> int \<Rightarrow> can \<Rightarrow> can option" where
  "recv_pong data8 len s = do {
     b0 \<leftarrow> get_byte data8 0;
     (if ping_tp s \<and> ping_hw_last_id s = uint b0
      then do {
        hw \<leftarrow> (if len \<ge> 2 then get_byte data8 1 else Some 0);
        Some (emit Signal_ping (s\<lparr>ping_hw_last := hw\<rparr>))
      }
      else Some s)
   }"

definition recv_update_pid_pos_offset :: "bytes \<Rightarrow> can \<Rightarrow> can option" where
  "recv_update_pid_pos_offset data8 s = do {
     (angle_now, ind) \<leftarrow> buffer_get_float32 data8 10000 0;
     store \<leftarrow> get_byte data8 ind;
     Some (emit (Mc_update_pid_pos_offset angle_now (store \<noteq> 0)) s)
   }"

definition recv_poll_rotor_pos :: "inputs \<Rightarrow> can \<Rightarrow> can option" where
  "recv_poll_rotor_pos e s = do {
     (buffer, index) \<leftarrow> buffer_append_int32 (replicate 4 0) (to_int32 (fmul (encoder_deg e) 100000)) 0;
     transmit (eid_of CAN_PACKET_POLL_ROTOR_POS (ucast (controller_id (app_conf s)))) buffer 4 s
   }"

text \<open>The first switch.\<close>

definition decode_addressed :: "inputs \<Rightarrow> u8 \<Rightarrow> u32 \<Rightarrow> bytes \<Rightarrow> int \<Rightarrow> bool \<Rightarrow> can \<Rightarrow> can option" where
  "decode_addressed e i cmd data8 len is_replaced s =
     (if cmd = CAN_PACKET_SET_DUTY then set_value data8 100000 Mc_set_duty s
      else if cmd = CAN_PACKET_SET_CURRENT then recv_set_current data8 len s
      else if cmd = CAN_PACKET_SET_CURRENT_BRAKE then set_value data8 1000 Mc_set_brake_current s
      else if cmd = CAN_PACKET_SET_RPM then set_value data8 1 Mc_set_pid_speed s
      else if cmd = CAN_PACKET_SET_POS then set_value data8 1000000 Mc_set_pid_pos s
      else if cmd = CAN_PACKET_FILL_RX_BUFFER then fill_rx_buffer data8 len s
      else if cmd = CAN_PACKET_FILL_RX_BUFFER_LONG then fill_rx_buffer_long data8 len s
      else if cmd = CAN_PACKET_PROCESS_RX_BUFFER then process_rx_buffer data8 is_replaced s
      else if cmd = CAN_PACKET_PROCESS_SHORT_BUFFER then process_short_buffer data8 len is_replaced s
      else if cmd = CAN_PACKET_SET_CURRENT_REL then recv_set_current_rel data8 len s
      else if cmd = CAN_PACKET_SET_CURRENT_BRAKE_REL then set_value data8 100000 Mc_set_brake_current_rel s
      else if cmd = CAN_PACKET_SET_CURRENT_HANDBRAKE then set_value data8 1000 Mc_set_handbrake s
      else if cmd = CAN_PACKET_SET_CURRENT_HANDBRAKE_REL then set_value data8 100000 Mc_set_handbrake_rel s
      else if cmd = CAN_PACKET_PING then recv_ping e i data8 is_replaced s
      else if cmd = CAN_PACKET_PONG then recv_pong data8 len s
      else if cmd = CAN_PACKET_DETECT_APPLY_ALL_FOC then detect_apply_all_foc e data8 is_replaced s
      else if cmd = CAN_PACKET_DETECT_APPLY_ALL_FOC_RES then store_detect_res data8 is_replaced s
      else if cmd = CAN_PACKET_CONF_CURRENT_LIMITS \<or> cmd = CAN_PACKET_CONF_STORE_CURRENT_LIMITS
        then conf_current_limits (cmd = CAN_PACKET_CONF_STORE_CURRENT_LIMITS) data8 s
      else if cmd = CAN_PACKET_CONF_CURRENT_LIMITS_IN \<or> cmd = CAN_PACKET_CONF_STORE_CURRENT_LIMITS_IN
        then conf_current_limits_in (cmd = CAN_PACKET_CONF_STORE_CURRENT_LIMITS_IN) data8 s
      else if cmd = CAN_PACKET_CONF_FOC_ERPMS \<or> cmd = CAN_PACKET_CONF_STORE_FOC_ERPMS
        then conf_foc_erpms (cmd = CAN_PACKET_CONF_STORE_FOC_ERPMS) data8 s
      else if cmd = CAN_PACKET_POLL_TS5700N8501_STATUS
        then transmit (eid_of CAN_PACKET_POLL_TS5700N8501_STATUS (ucast (controller_id (app_conf s))))
               (ts5700n8501_raw_status e) 8 s
      else if cmd = CAN_PACKET_CONF_BATTERY_CUT \<or> cmd = CAN_PACKET_CONF_STORE_BATTERY_CUT
        then conf_battery_cut (cmd = CAN_PACKET_CONF_STORE_BATTERY_CUT) data8 s
      else if cmd = CAN_PACKET_SHUTDOWN then Some s
      else if cmd = CAN_PACKET_UPDATE_PID_POS_OFFSET then recv_update_pid_pos_offset data8 s
      else if cmd = CAN_PACKET_POLL_ROTOR_POS then recv_poll_rotor_pos e s
      else Some s)"

section \<open>Frames for everyone\<close>

definition recv_status :: "inputs \<Rightarrow> u8 \<Rightarrow> bytes \<Rightarrow> can \<Rightarrow> can option" where
  "recv_status e i data8 s = do {
     tab \<leftarrow> table_store (uint i) (system_time e) (\<lambda>_. do {
       (r, ind) \<leftarrow> buffer_get_int32 data8 0;
       (c, ind) \<leftarrow> buffer_get_int16 data8 ind;
       (d, ind) \<leftarrow> buffer_get_int16 data8 ind;
       Some \<lparr>rpm = f_of_int (sint r), current = fdiv (f_of_int (sint c)) 10, duty = fdiv (f_of_int (sint d)) 1000\<rparr>
     }) (stat_msgs s);
     Some (s\<lparr>stat_msgs := tab\<rparr>)
   }"

definition recv_status_2 :: "inputs \<Rightarrow> u8 \<Rightarrow> bytes \<Rightarrow> can \<Rightarrow> can option" where
  "recv_status_2 e i data8 s = do {
     tab \<leftarrow> table_store (uint i) (system_time e) (\<lambda>_. do {
       (a, ind) \<leftarrow> buffer_get_int32 data8 0;
       (b, ind) \<leftarrow> buffer_get_int32 data8 ind;
       Some \<lparr>amp_hours = fdiv (f_of_int (sint a)) 10000, amp_hours_charged = fdiv (f_of_int (sint b)) 10000\<rparr>
     }) (stat_msgs_2 s);
     Some (s\<lparr>stat_msgs_2 := tab\<rparr>)
   }"

definition recv_status_3 :: "inputs \<Rightarrow> u8 \<Rightarrow> bytes \<Rightarrow> can \<Rightarrow> can option" where
  "recv_status_3 e i data8 s = do {
     tab \<leftarrow> table_store (uint i) (system_time e) (\<lambda>_. do {
       (a, ind) \<leftarrow> buffer_get_int32 data8 0;
       (b, ind) \<leftarrow> buffer_get_int32 data8 ind;
       Some \<lparr>watt_hours = fdiv (f_of_int (sint a)) 10000, watt_hours_charged = fdiv (f_of_int (sint b)) 10000\<rparr>
     }) (stat_msgs_3 s);
     Some (s\<lparr>stat_msgs_3 := tab\<rparr>)
   }"

definition recv_status_4 :: "inputs \<Rightarrow> u8 \<Rightarrow> bytes \<Rightarrow> can \<Rightarrow> can option" where
  "recv_status_4 e i data8 s = do {
     tab \<leftarrow> table_store (uint i) (system_time e) (\<lambda>_. do {
       (a, ind) \<leftarrow> buffer_get_int16 data8 0;
       (b, ind) \<leftarrow> buffer_get_int16 data8 ind;
       (c, ind) \<leftarrow> buffer_get_int16 data8 ind;
       (d, ind) \<leftarrow> buffer_get_int16 data8 ind;
       Some \<lparr>temp_fet = fdiv (f_of_int (sint a)) 10, temp_motor = fdiv (f_of_int (sint b)) 10,
             current_in = fdiv (f_of_int (sint c)) 10, pid_pos_now = fdiv (f_of_int (sint d)) 50\<rparr>
     }) (stat_msgs_4 s);
     Some (s\<lparr>stat_msgs_4 := tab\<rparr>)
   }"

definition recv_status_5 :: "inputs \<Rightarrow> u8 \<Rightarrow> bytes \<Rightarrow> can \<Rightarrow> can option" where
  "recv_status_5 e i data8 s = do {
     tab \<leftarrow> table_store (uint i) (system_time e) (\<lambda>_. do {
       (a, ind) \<leftarrow> buffer_get_int32 data8 0;
       (b, ind) \<leftarrow> buffer_get_int16 data8 ind;
       Some \<lparr>v_in = fdiv (f_of_int (sint b)) 10, tacho_value = a\<rparr>
     }) (stat_msgs_5 s);
     Some (s\<lparr>stat_msgs_5 := tab\<rparr>)
   }"

definition recv_status_6 :: "inputs \<Rightarrow> u8 \<Rightarrow> bytes \<Rightarrow> can \<Rightarrow> can option" where
  "recv_status_6 e i data8 s = do {
     tab \<leftarrow> table_store (uint i) (system_time e) (\<lambda>_. do {
       (a, ind) \<leftarrow> buffer_get_float16 data8 1000 0;
       (b, ind) \<leftarrow> buffer_get_float16 data8 1000 ind;
       (c, ind) \<leftarrow> buffer_get_float16 data8 1000 ind;
       (d, ind) \<leftarrow> buffer_get_float16 data8 1000 ind;
       Some \<lparr>adc_1 = a, adc_2 = b, adc_3 = c, ppm = d\<rparr>
     }) (stat_msgs_6 s);
     Some (s\<lparr>stat_msgs_6 := tab\<rparr>)
   }"

text \<open>The loop over the ADC values of a frame: as many as its length holds, the others keep their
  values. The index grows by two in every round (\<open>buffer_get_float16\<close>), so that \<open>fuel\<close> rounds for
  a length of \<open>fuel\<close> bytes are more than enough.\<close>

fun adc_loop :: "nat \<Rightarrow> bytes \<Rightarrow> int \<Rightarrow> nat \<Rightarrow> nat \<Rightarrow> float32 list \<Rightarrow> float32 list option" where
  "adc_loop 0 data8 len ind j vs = (if int ind < len then None else Some vs)"
| "adc_loop (Suc fuel) data8 len ind j vs =
     (if int ind < len then do {
        (v, ind) \<leftarrow> buffer_get_float16 data8 100 ind;
        (if j < length vs then adc_loop fuel data8 len ind (Suc j) (vs[j := v]) else None)
      } else Some vs)"

definition recv_io_board_adc_1_4 :: "inputs \<Rightarrow> u8 \<Rightarrow> bytes \<Rightarrow> int \<Rightarrow> can \<Rightarrow> can option" where
  "recv_io_board_adc_1_4 e i data8 len s = do {
     tab \<leftarrow> table_store (uint i) (system_time e) (adc_loop (nat len) data8 len 0 0) (io_board_adc_1_4 s);
     Some (s\<lparr>io_board_adc_1_4 := tab\<rparr>)
   }"

definition recv_io_board_adc_5_8 :: "inputs \<Rightarrow> u8 \<Rightarrow> bytes \<Rightarrow> int \<Rightarrow> can \<Rightarrow> can option" where
  "recv_io_board_adc_5_8 e i data8 len s = do {
     tab \<leftarrow> table_store (uint i) (system_time e) (adc_loop (nat len) data8 len 0 0) (io_board_adc_5_8 s);
     Some (s\<lparr>io_board_adc_5_8 := tab\<rparr>)
   }"

fun digital_loop :: "nat \<Rightarrow> bytes \<Rightarrow> nat \<Rightarrow> u64 \<Rightarrow> u64 option" where
  "digital_loop 0 data8 ind w = Some w"
| "digital_loop (Suc n) data8 ind w = do {
     b \<leftarrow> get_byte data8 ind;
     digital_loop n data8 (Suc ind) (w OR push_bit (ind * 8) (ucast b))
   }"

definition recv_io_board_digital_in :: "inputs \<Rightarrow> u8 \<Rightarrow> bytes \<Rightarrow> int \<Rightarrow> can \<Rightarrow> can option" where
  "recv_io_board_digital_in e i data8 len s = do {
     tab \<leftarrow> table_store (uint i) (system_time e) (\<lambda>_. digital_loop (nat len) data8 0 0) (io_board_digital_in s);
     Some (s\<lparr>io_board_digital_in := tab\<rparr>)
   }"

definition recv_psw_stat :: "inputs \<Rightarrow> u8 \<Rightarrow> bytes \<Rightarrow> can \<Rightarrow> can option" where
  "recv_psw_stat e i data8 s = do {
     tab \<leftarrow> table_store (uint i) (system_time e) (\<lambda>_. do {
       (a, ind) \<leftarrow> buffer_get_float16 data8 10 0;
       (b, ind) \<leftarrow> buffer_get_float16 data8 10 ind;
       (c, ind) \<leftarrow> buffer_get_float16 data8 10 ind;
       flags \<leftarrow> get_byte data8 ind;
       Some \<lparr>psw_v_in = a, psw_v_out = b, psw_temp = c,
             is_out_on = bit flags 0, is_pch_on = bit flags 1, is_dsc_on = bit flags 2\<rparr>
     }) (psw_stat s);
     Some (s\<lparr>psw_stat := tab\<rparr>)
   }"

definition recv_gnss_time :: "inputs \<Rightarrow> bytes \<Rightarrow> can \<Rightarrow> can option" where
  "recv_gnss_time e data8 s = do {
     (t, ind) \<leftarrow> buffer_get_int32 data8 0;
     (y, ind) \<leftarrow> buffer_get_int16 data8 ind;
     m \<leftarrow> get_byte data8 ind;
     d \<leftarrow> get_byte data8 (ind + 1);
     Some (s\<lparr>gnss := (gnss s)\<lparr>ms_today := t, yy := y, mo := m, dd := d, last_update := system_time e\<rparr>\<rparr>)
   }"

definition recv_gnss_lat :: "inputs \<Rightarrow> bytes \<Rightarrow> can \<Rightarrow> can option" where
  "recv_gnss_lat e data8 s = do {
     (tmp, ind) \<leftarrow> buffer_get_double64 data8 (10 ^ 16) 0;
     Some (s\<lparr>gnss := (gnss s)\<lparr>lat := tmp, last_update := system_time e\<rparr>\<rparr>)
   }"

definition recv_gnss_lon :: "inputs \<Rightarrow> bytes \<Rightarrow> can \<Rightarrow> can option" where
  "recv_gnss_lon e data8 s = do {
     (tmp, ind) \<leftarrow> buffer_get_double64 data8 (10 ^ 16) 0;
     Some (s\<lparr>gnss := (gnss s)\<lparr>lon := tmp, last_update := system_time e\<rparr>\<rparr>)
   }"

definition recv_gnss_alt_speed_hdop :: "inputs \<Rightarrow> bytes \<Rightarrow> can \<Rightarrow> can option" where
  "recv_gnss_alt_speed_hdop e data8 s = do {
     (h, ind) \<leftarrow> buffer_get_float32_auto data8 0;
     (v, ind) \<leftarrow> buffer_get_float16 data8 100 ind;
     (d, ind) \<leftarrow> buffer_get_float16 data8 100 ind;
     Some (s\<lparr>gnss := (gnss s)\<lparr>height := h, speed := v, hdop := d, last_update := system_time e\<rparr>\<rparr>)
   }"

definition recv_update_baud :: "bytes \<Rightarrow> can \<Rightarrow> can option" where
  "recv_update_baud data8 s = do {
     (k, ind) \<leftarrow> buffer_get_int16 data8 0;
     (d, ind) \<leftarrow> buffer_get_int16 data8 ind;
     let baud = comm_can_kbits_to_baud (sint k);
     (if baud \<noteq> CAN_BAUD_INVALID
      then let s = comm_can_set_baud baud (sint d) s;
               s = s\<lparr>app_conf := (app_conf s)\<lparr>can_baud_rate := baud\<rparr>\<rparr>
           in Some (emit (Store_app_configuration (app_conf s)) s)
      else Some s)
   }"

text \<open>The second switch.\<close>

definition decode_broadcast :: "inputs \<Rightarrow> u8 \<Rightarrow> u32 \<Rightarrow> bytes \<Rightarrow> int \<Rightarrow> can \<Rightarrow> can option" where
  "decode_broadcast e i cmd data8 len s =
     (if cmd = CAN_PACKET_STATUS then recv_status e i data8 s
      else if cmd = CAN_PACKET_STATUS_2 then recv_status_2 e i data8 s
      else if cmd = CAN_PACKET_STATUS_3 then recv_status_3 e i data8 s
      else if cmd = CAN_PACKET_STATUS_4 then recv_status_4 e i data8 s
      else if cmd = CAN_PACKET_STATUS_5 then recv_status_5 e i data8 s
      else if cmd = CAN_PACKET_STATUS_6 then recv_status_6 e i data8 s
      else if cmd = CAN_PACKET_IO_BOARD_ADC_1_TO_4 then recv_io_board_adc_1_4 e i data8 len s
      else if cmd = CAN_PACKET_IO_BOARD_ADC_5_TO_8 then recv_io_board_adc_5_8 e i data8 len s
      else if cmd = CAN_PACKET_IO_BOARD_DIGITAL_IN then recv_io_board_digital_in e i data8 len s
      else if cmd = CAN_PACKET_PSW_STAT then recv_psw_stat e i data8 s
      else if cmd = CAN_PACKET_GNSS_TIME then recv_gnss_time e data8 s
      else if cmd = CAN_PACKET_GNSS_LAT then recv_gnss_lat e data8 s
      else if cmd = CAN_PACKET_GNSS_LON then recv_gnss_lon e data8 s
      else if cmd = CAN_PACKET_GNSS_ALT_SPEED_HDOP then recv_gnss_alt_speed_hdop e data8 s
      else if cmd = CAN_PACKET_UPDATE_BAUD then recv_update_baud data8 s
      else Some s)"

definition decode_msg :: "inputs \<Rightarrow> u32 \<Rightarrow> bytes \<Rightarrow> int \<Rightarrow> bool \<Rightarrow> can \<Rightarrow> can option" where
  "decode_msg e eid data8 len is_replaced s =
     (let i = ucast eid :: u8;
          cmd = drop_bit 8 eid;
          id1 = controller_id (app_conf s)
      in do {
        s \<leftarrow> (if i = 255 \<or> i = id1 then decode_addressed e i cmd data8 len is_replaced s else Some s);
        decode_broadcast e i cmd data8 len s
      })"

section \<open>The ring of received frames\<close>

text \<open>The reader stores a frame and wakes the processing thread; nothing checks for room.\<close>

definition store_rx_frame :: "frame \<Rightarrow> can \<Rightarrow> can option" where
  "store_rx_frame f s =
     (if frame_write s < length (rx_frames s) then
        (let w = frame_write s + 1;
             s = s\<lparr>rx_frames := (rx_frames s)[frame_write s := f],
                   frame_write := (if w = RX_FRAMES_SIZE then 0 else w)\<rparr>
         in Some (emit Signal_process s))
      else None)"

text \<open>One round of the reading thread: \<open>frames\<close> are what the driver returns until it is empty; the wait
  for the receive event timed out when there are none.\<close>

fun store_rx_frames :: "frame list \<Rightarrow> can \<Rightarrow> can option" where
  "store_rx_frames [] s = Some s"
| "store_rx_frames (f # fs) s = do { s \<leftarrow> store_rx_frame f s; store_rx_frames fs s }"

definition cancom_read_thread :: "frame list \<Rightarrow> can \<Rightarrow> can option" where
  "cancom_read_thread frames s = store_rx_frames frames (emit Feed_wdt s)"

definition comm_can_get_rx_frame :: "nat \<Rightarrow> can \<Rightarrow> (frame option \<times> can) option" where
  "comm_can_get_rx_frame interface s =
     (if interface \<noteq> 2 \<and> frame_read s \<noteq> frame_write s then
        (if frame_read s < length (rx_frames s) then
           (let r = frame_read s + 1
            in Some (Some (rx_frames s ! frame_read s), s\<lparr>frame_read := (if r = RX_FRAMES_SIZE then 0 else r)\<rparr>))
         else None)
      else Some (None, s))"

text \<open>Dispatching one frame: first to the callback of its kind, if there is one.\<close>

definition callback :: "frame \<Rightarrow> can \<Rightarrow> bool \<times> can" where
  "callback f s =
     (if frame_ide f then
        (case eid_callback s of None \<Rightarrow> (False, s) | Some p \<Rightarrow> (p f, emit (Eid_callback f) s))
      else
        (case sid_callback s of None \<Rightarrow> (False, s) | Some p \<Rightarrow> (p f, emit (Sid_callback f) s)))"

definition bridge_frame :: "frame \<Rightarrow> can \<Rightarrow> can" where
  "bridge_frame f s =
     (let s = (if can_mode (app_conf s) = CAN_MODE_COMM_BRIDGE then emit (Commands_fwd_can_frame f) s else s);
          (used, s) = callback f s
      in if \<not> used then emit (Lispif_process_can f) s else s)"

text \<open>\<open>bms\<close> tells whether the battery monitor module consumes the frame.\<close>

definition vesc_frame :: "inputs \<Rightarrow> (frame \<Rightarrow> bool) \<Rightarrow> frame \<Rightarrow> can \<Rightarrow> can option" where
  "vesc_frame e bms f s =
     (let (used, s) = callback f s in
      if used \<or> bms f then Some s
      else if frame_ide f then do {
        s \<leftarrow> decode_msg e (frame_eid f) (frame_data f) (int (frame_dlc f)) False s;
        Some (emit (Lispif_process_can f) s)
      }
      else Some (emit (Lispif_process_can f) s))"

text \<open>One round of the processing thread, after it was woken: the frames in the ring, of which there are
  at most \<open>RX_FRAMES_SIZE\<close>, which bounds the rounds of the loop.\<close>

fun process_frames :: "nat \<Rightarrow> inputs \<Rightarrow> (frame \<Rightarrow> bool) \<Rightarrow> bool \<Rightarrow> can \<Rightarrow> can option" where
  "process_frames 0 e bms bridge s = Some s"
| "process_frames (Suc n) e bms bridge s =
     (case comm_can_get_rx_frame 0 s of
        None \<Rightarrow> None
      | Some (None, s) \<Rightarrow> Some s
      | Some (Some f, s) \<Rightarrow> do {
          s \<leftarrow> (if bridge then Some (bridge_frame f s) else vesc_frame e bms f s);
          process_frames n e bms bridge s
        })"

definition cancom_process_thread :: "inputs \<Rightarrow> (frame \<Rightarrow> bool) \<Rightarrow> can \<Rightarrow> can option" where
  "cancom_process_thread e bms s =
     (if can_mode (app_conf s) = CAN_MODE_UAVCAN then Some s
      else if can_mode (app_conf s) = CAN_MODE_COMM_BRIDGE \<or> can_mode (app_conf s) = CAN_MODE_UNUSED
        then process_frames RX_FRAMES_SIZE e bms True s
      else process_frames RX_FRAMES_SIZE e bms False s)"

text \<open>The reply function given to the command processor.\<close>

definition send_packet_wrapper :: "bytes \<Rightarrow> can \<Rightarrow> can option" where
  "send_packet_wrapper data s =
     comm_can_send_buffer (ucast (rx_buffer_last_id s)) data (ucast (rx_buffer_response_type s)) s"

end
