(* ===== verification/Can_Safe.thy ===== *)
theory Can_Safe
  imports Can_Recv
begin

text \<open>
  Memory safety of the receiving half of \<^verbatim>\<open>comm/comm_can.c\<close>: the invariant of its state, and that
  every frame whose length is what its kind needs is decoded without leaving an array and keeps the
  invariant. The three kinds of frames whose length is not checked are the exception.
\<close>

section \<open>Results that satisfy a predicate\<close>

text \<open>\<open>sat P r\<close>: the computation \<open>r\<close> does not fail and its result satisfies \<open>P\<close>. The rules follow the
  structure of the code.\<close>

named_theorems sat_rules "what the parts of a computation establish"

definition sat :: "('a \<Rightarrow> bool) \<Rightarrow> 'a option \<Rightarrow> bool" where
  "sat P r = (\<exists>x. r = Some x \<and> P x)"

lemma sat_Some [simp]: "sat P (Some x) = P x"
  by (simp add: sat_def)

lemma sat_bind: "sat Q r \<Longrightarrow> (\<And>x. Q x \<Longrightarrow> sat P (f x)) \<Longrightarrow> sat P (Option.bind r f)"
  by (auto simp: sat_def)

lemma sat_if: "(c \<Longrightarrow> sat P a) \<Longrightarrow> (\<not> c \<Longrightarrow> sat P b) \<Longrightarrow> sat P (if c then a else b)"
  by simp

lemma sat_mono: "sat P r \<Longrightarrow> (\<And>x. P x \<Longrightarrow> Q x) \<Longrightarrow> sat Q r"
  by (auto simp: sat_def)

lemma sat_get_byte: "i < length buf \<Longrightarrow> sat (\<lambda>_. True) (get_byte buf i)"
  by (simp add: sat_def get_byte_def)

lemma sat_get16: "i + 2 \<le> length buf \<Longrightarrow> sat (\<lambda>(v, j). j = i + 2) (buffer_get_int16 buf i)"
  by (simp add: sat_def buffer_get_int16_def get_byte_Some)

lemma sat_get32: "i + 4 \<le> length buf \<Longrightarrow> sat (\<lambda>(v, j). j = i + 4) (buffer_get_int32 buf i)"
  by (simp add: sat_def buffer_get_int32_def get_byte_Some)

lemma sat_getu32: "i + 4 \<le> length buf \<Longrightarrow> sat (\<lambda>(v, j). j = i + 4) (buffer_get_uint32 buf i)"
  by (simp add: sat_def buffer_get_uint32_def get_byte_Some)

lemma sat_get64: "i + 8 \<le> length buf \<Longrightarrow> sat (\<lambda>(v, j). j = i + 8) (buffer_get_int64 buf i)"
  by (simp add: sat_def buffer_get_int64_def get_byte_Some)

lemma sat_float16: "i + 2 \<le> length buf \<Longrightarrow> sat (\<lambda>(v, j). j = i + 2) (buffer_get_float16 buf scale i)"
  unfolding buffer_get_float16_def by (rule sat_bind [OF sat_get16]) auto

lemma sat_float32: "i + 4 \<le> length buf \<Longrightarrow> sat (\<lambda>(v, j). j = i + 4) (buffer_get_float32 buf scale i)"
  unfolding buffer_get_float32_def by (rule sat_bind [OF sat_get32]) auto

lemma sat_double64: "i + 8 \<le> length buf \<Longrightarrow> sat (\<lambda>(v, j). j = i + 8) (buffer_get_double64 buf scale i)"
  unfolding buffer_get_double64_def by (rule sat_bind [OF sat_get64]) auto

lemma sat_float32_auto: "i + 4 \<le> length buf \<Longrightarrow> sat (\<lambda>(v, j). j = i + 4) (buffer_get_float32_auto buf i)"
  unfolding buffer_get_float32_auto_def by (rule sat_bind [OF sat_getu32]) (auto simp: Let_def split: prod.splits)

lemmas sat_reads = sat_get_byte sat_get16 sat_get32 sat_get64 sat_float16 sat_float32 sat_double64 sat_float32_auto

lemma sat_table_store:
  "(\<And>v. Q v \<Longrightarrow> sat Q (f v)) \<Longrightarrow> \<forall>m \<in> set tab. Q (st_val m) \<Longrightarrow>
   sat (\<lambda>tab'. length tab' = length tab \<and> (\<forall>m \<in> set tab'. Q (st_val m))) (table_store i t f tab)"
proof (induction tab)
  case (Cons m tab)
  obtain v where "f (st_val m) = Some v" "Q v" using Cons.prems by (auto simp: sat_def)
  then show ?case using Cons by (auto simp: sat_def)
qed simp

section \<open>The invariant\<close>

definition can_ok :: "can \<Rightarrow> bool" where
  "can_ok s \<longleftrightarrow>
     length (rx_bufs s) = RX_BUFFER_NUM \<and> (\<forall>b \<in> set (rx_bufs s). length b = RX_BUFFER_SIZE) \<and>
     length (rx_buffer_offset s) = RX_BUFFER_NUM \<and> (\<forall>x \<in> set (rx_buffer_offset s). 0 \<le> x \<and> x \<le> int RX_BUFFER_SIZE) \<and>
     length (detect_all_foc_res s) = 50 \<and> detect_all_foc_res_index s < 50 \<and>
     length (rx_frames s) = RX_FRAMES_SIZE \<and> frame_read s < RX_FRAMES_SIZE \<and> frame_write s < RX_FRAMES_SIZE \<and>
     length (stat_msgs s) = CAN_STATUS_MSGS_TO_STORE \<and> length (stat_msgs_2 s) = CAN_STATUS_MSGS_TO_STORE \<and>
     length (stat_msgs_3 s) = CAN_STATUS_MSGS_TO_STORE \<and> length (stat_msgs_4 s) = CAN_STATUS_MSGS_TO_STORE \<and>
     length (stat_msgs_5 s) = CAN_STATUS_MSGS_TO_STORE \<and> length (stat_msgs_6 s) = CAN_STATUS_MSGS_TO_STORE \<and>
     length (io_board_adc_1_4 s) = CAN_STATUS_MSGS_TO_STORE \<and> (\<forall>m \<in> set (io_board_adc_1_4 s). length (st_val m) = 4) \<and>
     length (io_board_adc_5_8 s) = CAN_STATUS_MSGS_TO_STORE \<and> (\<forall>m \<in> set (io_board_adc_5_8 s). length (st_val m) = 4) \<and>
     length (io_board_digital_in s) = CAN_STATUS_MSGS_TO_STORE \<and> length (psw_stat s) = CAN_STATUS_MSGS_TO_STORE \<and>
     pool_ok MEMPOOLS_MCCONF_NUM (mc_pool s) \<and> pool_ok MEMPOOLS_APPCONF_NUM (app_pool s)"

text \<open>What the outside provides: a raw encoder status of eight bytes, and a free buffer in each pool.\<close>

definition world_ok :: "inputs \<Rightarrow> can \<Rightarrow> bool" where
  "world_ok e s \<longleftrightarrow> 8 \<le> length (ts5700n8501_raw_status e) \<and>
     card (taken (mc_pool s)) < MEMPOOLS_MCCONF_NUM \<and> card (taken (app_pool s)) < MEMPOOLS_APPCONF_NUM"

text \<open>The lengths that decoding relies on without checking them.\<close>

definition long_enough :: "u32 \<Rightarrow> int \<Rightarrow> bool" where
  "long_enough cmd len \<longleftrightarrow>
     (cmd = CAN_PACKET_FILL_RX_BUFFER \<longrightarrow> 1 \<le> len) \<and> (cmd = CAN_PACKET_FILL_RX_BUFFER_LONG \<longrightarrow> 2 \<le> len) \<and>
     (cmd = CAN_PACKET_PROCESS_SHORT_BUFFER \<longrightarrow> 2 \<le> len)"

text \<open>The invariant together with what decoding leaves alone: the buffers in use and the ring.\<close>

definition good :: "can \<Rightarrow> can \<Rightarrow> bool" where
  "good s s' \<longleftrightarrow> can_ok s' \<and> taken (mc_pool s') = taken (mc_pool s) \<and> taken (app_pool s') = taken (app_pool s) \<and>
     rx_frames s' = rx_frames s \<and> frame_read s' = frame_read s \<and> frame_write s' = frame_write s"

lemma good_emit [simp]: "good s (emit c s') = good s s'" "can_ok (emit c s) = can_ok s"
  "app_pool (emit c s) = app_pool s" "mc_pool (emit c s) = mc_pool s"
  by (simp_all add: good_def can_ok_def emit_def)

lemma good_refl: "can_ok s \<Longrightarrow> good s s"
  by (simp add: good_def)

lemma good_trans: "good s s' \<Longrightarrow> good s' s'' \<Longrightarrow> good s s''"
  by (simp add: good_def)

lemma sat_transmit: "good s s' \<Longrightarrow> len \<le> length data \<Longrightarrow> sat (good s) (transmit i data len s')"
  by (auto simp: transmit_def comm_can_transmit_eid_replace_def)

section \<open>The cases\<close>

lemma sat_fill_buffer:
  assumes "can_ok s" and "i < RX_BUFFER_NUM" and "0 \<le> ofs" and "0 \<le> len" and "len \<le> int (length src)"
    and "ofs + len \<le> int RX_BUFFER_SIZE"
  shows "sat (good s) (fill_buffer i ofs src len s)"
proof -
  have b: "length (rx_bufs s ! i) = RX_BUFFER_SIZE" and "i < length (rx_bufs s)"
    using assms(1,2) by (auto simp: can_ok_def)
  then have "nat ofs + length (take (nat len) src) \<le> length (rx_bufs s ! i)" using assms(3-6) by simp
  then show ?thesis
    using assms b by (auto simp: fill_buffer_def write_bytes_def good_def can_ok_def dest!: set_update_subset_insert [THEN subsetD])
qed

lemma find_offset_Some: "find_offset xs k ofs = Some i \<Longrightarrow> k \<le> i \<and> i < k + length xs \<and> xs ! (i - k) = ofs"
  by (induction xs arbitrary: k) (fastforce simp: nth_Cons' split: if_splits)+

lemma choose_buffer_Some: "choose_buffer xs ofs = Some i \<Longrightarrow> xs \<noteq> [] \<Longrightarrow> i < length xs"
  by (auto simp: choose_buffer_def dest: find_offset_Some split: option.splits if_splits)

lemma choose_buffer_lt: "can_ok s \<Longrightarrow> choose_buffer (rx_buffer_offset s) ofs = Some i \<Longrightarrow> i < RX_BUFFER_NUM"
  using choose_buffer_Some [of "rx_buffer_offset s" ofs i]
  by (cases "rx_buffer_offset s") (auto simp: can_ok_def RX_BUFFER_NUM_def)

lemma sint_small:
  assumes "unat (w :: u32) < 2147483648"
  shows "sint w = int (unat w)"
proof -
  define n where "n = int (unat w)"
  have n: "0 \<le> n" "n < 2147483648" using assms unfolding n_def by linarith+
  then have "signed_take_bit 31 n = n" by (intro signed_take_bit_int_eq_self) simp_all
  then show ?thesis by (simp add: sint_uint n_def)
qed

lemma sint_join32: "0 \<le> sint (push_bit 8 (ucast (a :: u8)) OR ucast (b :: u8) :: u32)"
    "sint (push_bit 8 (ucast (a :: u8)) OR ucast (b :: u8) :: u32) = int (unat a * 256 + unat b)"
proof -
  let ?w = "push_bit 8 (ucast a) OR ucast b :: u32"
  have "unat a \<le> 255" "unat b \<le> 255" by simp_all
  then have "unat ?w < 2147483648" unfolding unat_join32 by linarith
  from sint_small [OF this] show "0 \<le> sint ?w" "sint ?w = int (unat a * 256 + unat b)"
    unfolding unat_join32 by (simp_all only: of_nat_0_le_iff)
qed

lemma sat_fill_rx_buffer:
  assumes "can_ok s" and "length data = 8" and "1 \<le> len" and "len \<le> 8"
  shows "sat (good s) (fill_rx_buffer data len s)"
proof -
  have "0 \<le> uint (data ! 0)" "uint (data ! 0) < 256" using uint_lt2p [of "data ! 0"] by simp_all
  moreover note choose_buffer_lt [OF assms(1)]
  ultimately show ?thesis
    using assms by (auto simp: fill_rx_buffer_def get_byte_Some Let_def good_refl RX_BUFFER_SIZE_def PACKET_MAX_PL_LEN_def
        intro!: sat_fill_buffer split: option.splits)
qed

lemma sat_fill_rx_buffer_long:
  assumes "can_ok s" and "length data = 8" and "2 \<le> len" and "len \<le> 8"
  shows "sat (good s) (fill_rx_buffer_long data len s)"
proof -
  let ?w = "push_bit 8 (ucast (data ! 0)) OR ucast (data ! 1) :: u32"
  have "0 \<le> sint ?w" by (rule sint_join32)
  moreover note choose_buffer_lt [OF assms(1)]
  ultimately show ?thesis
    using assms by (auto simp: fill_rx_buffer_long_def get_byte_Some Let_def good_refl
        intro!: sat_fill_buffer split: option.splits)
qed

lemma good_simps [simp]:
  "good s (s'\<lparr>rx_buffer_last_id := a\<rparr>) = good s s'" "good s (s'\<lparr>rx_buffer_response_type := b\<rparr>) = good s s'"
  "good s (s'\<lparr>ping_hw_last := c\<rparr>) = good s s'" "good s (s'\<lparr>gnss := d\<rparr>) = good s s'"
  "good s (s'\<lparr>mc_conf := f\<rparr>) = good s s'" "good s (s'\<lparr>app_conf := g\<rparr>) = good s s'"
  "good s (s'\<lparr>cancfg_btr := h\<rparr>) = good s s'"
  by (simp_all add: good_def can_ok_def)

lemma good_set_reply [simp]: "good s (set_reply i c s') = good s s'"
  by (simp add: set_reply_def)

lemma good_hand_over [simp]: "good s (hand_over c p s') = good s s'"
  by (simp add: hand_over_def)

lemma set_reply_bufs [simp]:
  "rx_bufs (set_reply i c s) = rx_bufs s" "rx_buffer_offset (set_reply i c s) = rx_buffer_offset s"
  by (simp_all add: set_reply_def)

lemma good_offsets:
  assumes "good s s'" and "length xs = RX_BUFFER_NUM" and "\<forall>x \<in> set xs. 0 \<le> x \<and> x \<le> int RX_BUFFER_SIZE"
  shows "good s (s'\<lparr>rx_buffer_offset := xs\<rparr>)"
  using assms by (auto simp: good_def can_ok_def)

lemma sat_process_rx_buffer:
  assumes ok: "can_ok s" and "length data = 8"
  shows "sat (good s) (process_rx_buffer data r s)"
proof -
  have n: "length (rx_buffer_offset s) = RX_BUFFER_NUM" "length (rx_bufs s) = RX_BUFFER_NUM"
    and offs: "\<forall>x \<in> set (rx_buffer_offset s). 0 \<le> x \<and> x \<le> int RX_BUFFER_SIZE" using ok by (auto simp: can_ok_def)
  have 1: "good s ((set_reply a c s)\<lparr>rx_buffer_offset := map (\<lambda>_. 0) (rx_buffer_offset s)\<rparr>)" for a c
    using n by (intro good_offsets) (auto simp: good_refl ok RX_BUFFER_SIZE_def PACKET_MAX_PL_LEN_def)
  have 2: "good s ((set_reply a c s)\<lparr>rx_buffer_offset := (rx_buffer_offset s)[i := 0]\<rparr>)" for a c i
    using n offs by (intro good_offsets) (auto simp: good_refl ok dest!: set_update_subset_insert [THEN subsetD])
  have 3: "0 < length (rx_bufs s ! i)" if "find_offset (rx_buffer_offset s) 0 x = Some i" for i x
  proof -
    have "i < length (rx_bufs s)" using find_offset_Some [OF that] n by simp
    then have "length (rx_bufs s ! i) = RX_BUFFER_SIZE" using ok by (simp add: can_ok_def)
    then show ?thesis by (simp add: RX_BUFFER_SIZE_def PACKET_MAX_PL_LEN_def)
  qed
  show ?thesis
    using assms by (auto simp: process_rx_buffer_def get_byte_Some Let_def good_refl 1 2 3 dest: 3 split: option.splits)
qed

lemma sat_process_short_buffer:
  "can_ok s \<Longrightarrow> length data = 8 \<Longrightarrow> 2 \<le> len \<Longrightarrow> len \<le> 8 \<Longrightarrow> sat (good s) (process_short_buffer data len r s)"
  by (simp add: process_short_buffer_def get_byte_Some Let_def good_refl)

lemma sat_set_value: "can_ok s \<Longrightarrow> length data = 8 \<Longrightarrow> sat (good s) (set_value data scale c s)"
  unfolding set_value_def by (rule sat_bind [OF sat_float32]) (auto simp: good_refl)

lemma sat_set_current: "can_ok s \<Longrightarrow> length data = 8 \<Longrightarrow> sat (good s) (recv_set_current data len s)"
  unfolding recv_set_current_def
  by (rule sat_bind [where Q = "\<lambda>(s', i). good s s' \<and> i + 4 \<le> 8"],
      auto intro!: sat_bind [OF sat_float16] simp: good_refl,
      rule sat_bind [OF sat_float32], auto)

lemma sat_set_current_rel: "can_ok s \<Longrightarrow> length data = 8 \<Longrightarrow> sat (good s) (recv_set_current_rel data len s)"
  unfolding recv_set_current_rel_def Let_def
  by (rule sat_bind [OF sat_float32])
    (auto simp: good_refl Option.bind_assoc split_def intro!: sat_bind [OF sat_float16])

lemma sat_ping: "can_ok s \<Longrightarrow> length data = 8 \<Longrightarrow> sat (good s) (recv_ping e i data r s)"
  by (simp add: recv_ping_def get_byte_Some sat_transmit good_refl)

lemma sat_pong: "can_ok s \<Longrightarrow> length data = 8 \<Longrightarrow> sat (good s) (recv_pong data len s)"
  by (simp add: recv_pong_def get_byte_Some good_refl)

lemma sat_update_pid: "can_ok s \<Longrightarrow> length data = 8 \<Longrightarrow> sat (good s) (recv_update_pid_pos_offset data s)"
  unfolding recv_update_pid_pos_offset_def
  by (rule sat_bind [OF sat_float32]) (auto simp: good_refl get_byte_Some)

lemma sat_poll_rotor: "can_ok s \<Longrightarrow> sat (good s) (recv_poll_rotor_pos e s)"
  by (simp add: recv_poll_rotor_pos_def buf_simps write_bytes_def sat_transmit good_refl)

lemma sat_store_detect_res: "can_ok s \<Longrightarrow> length data = 8 \<Longrightarrow> sat (good s) (store_detect_res data r s)"
  by (auto simp: store_detect_res_def get_byte_Some put_byte_def good_def can_ok_def)

text \<open>Borrowing a configuration buffer: the contract of the pools, \<open>mcconf.borrow\<close> and \<open>appconf.borrow\<close>,
  gives the two facts that the client needs.\<close>

lemma alloc_mcconf:
  assumes "can_ok s" and "card (taken (mc_pool s)) < MEMPOOLS_MCCONF_NUM"
  obtains j p where "mempools_alloc_mcconf (mc_pool s) = (Some j, p)" and "pool_ok MEMPOOLS_MCCONF_NUM p"
    and "\<And>c. conf_at (set_conf j c p) j = c" and "j < MEMPOOLS_MCCONF_NUM"
    and "\<And>c. pool_ok MEMPOOLS_MCCONF_NUM (mempools_free_mcconf (Some j) (set_conf j c p))"
    and "\<And>c. taken (mempools_free_mcconf (Some j) (set_conf j c p)) = taken (mc_pool s)"
proof -
  have ok: "pool_ok MEMPOOLS_MCCONF_NUM (mc_pool s)" using assms(1) by (simp add: can_ok_def)
  obtain r p where r: "mempools_alloc_mcconf (mc_pool s) = (r, p)" by (cases "mempools_alloc_mcconf (mc_pool s)")
  then obtain j where j: "r = Some j" using mcconf.alloc_iff [OF ok r] assms(2) by blast
  note b = mcconf.borrow [OF ok r [unfolded j]]
  show ?thesis
    using that [OF r [unfolded j] mcconf.alloc_ok [OF ok r] b(3) _ b(1) b(2)] mcconf.alloc_Some [OF ok r [unfolded j]] by blast
qed

lemma alloc_appconf:
  assumes "can_ok s" and "card (taken (app_pool s)) < MEMPOOLS_APPCONF_NUM"
  obtains j p where "mempools_alloc_appconf (app_pool s) = (Some j, p)" and "pool_ok MEMPOOLS_APPCONF_NUM p"
    and "\<And>c. conf_at (set_conf j c p) j = c" and "j < MEMPOOLS_APPCONF_NUM"
    and "\<And>c. pool_ok MEMPOOLS_APPCONF_NUM (mempools_free_appconf (Some j) (set_conf j c p))"
    and "\<And>c. taken (mempools_free_appconf (Some j) (set_conf j c p)) = taken (app_pool s)"
proof -
  have ok: "pool_ok MEMPOOLS_APPCONF_NUM (app_pool s)" using assms(1) by (simp add: can_ok_def)
  obtain r p where r: "mempools_alloc_appconf (app_pool s) = (r, p)" by (cases "mempools_alloc_appconf (app_pool s)")
  then obtain j where j: "r = Some j" using appconf.alloc_iff [OF ok r] assms(2) by blast
  note b = appconf.borrow [OF ok r [unfolded j]]
  show ?thesis
    using that [OF r [unfolded j] appconf.alloc_ok [OF ok r] b(3) _ b(1) b(2)] appconf.alloc_Some [OF ok r [unfolded j]] by blast
qed

lemma set_conf_twice: "set_conf j d (set_conf j c p) = set_conf j d p"
  by (cases "j < length (slots p)") (simp_all add: set_conf_def list_update_beyond)

lemma good_pools:
  "good s s' \<Longrightarrow> pool_ok MEMPOOLS_MCCONF_NUM p \<Longrightarrow> taken p = taken (mc_pool s) \<Longrightarrow> good s (s'\<lparr>mc_pool := p\<rparr>)"
  "good s s' \<Longrightarrow> pool_ok MEMPOOLS_APPCONF_NUM q \<Longrightarrow> taken q = taken (app_pool s) \<Longrightarrow> good s (s'\<lparr>app_pool := q\<rparr>)"
  by (auto simp: good_def can_ok_def)

lemma pool_updates [simp]:
  "s\<lparr>mc_pool := p, mc_pool := q\<rparr> = s\<lparr>mc_pool := q\<rparr>" "(emit c s)\<lparr>mc_pool := q\<rparr> = emit c (s\<lparr>mc_pool := q\<rparr>)"
  "(emit c s)\<lparr>mc_conf := d\<rparr> = emit c (s\<lparr>mc_conf := d\<rparr>)" "s\<lparr>mc_conf := d, mc_pool := p\<rparr> = s\<lparr>mc_pool := p, mc_conf := d\<rparr>"
  "(emit c s)\<lparr>app_pool := r\<rparr> = emit c (s\<lparr>app_pool := r\<rparr>)"
  "(emit c s)\<lparr>app_conf := b\<rparr> = emit c (s\<lparr>app_conf := b\<rparr>)" "s\<lparr>app_conf := b, app_pool := r\<rparr> = s\<lparr>app_pool := r, app_conf := b\<rparr>"
  by (simp_all add: emit_def)

lemma sat_conf_pair:
  assumes "can_ok s" and "world_ok e s" and "length data = 8"
  shows "sat (good s) (conf_pair get upd store data s)"
proof -
  obtain j p where a: "mempools_alloc_mcconf (mc_pool s) = (Some j, p)" "\<And>c. conf_at (set_conf j c p) j = c"
    "\<And>c. pool_ok MEMPOOLS_MCCONF_NUM (mempools_free_mcconf (Some j) (set_conf j c p))"
    "\<And>c. taken (mempools_free_mcconf (Some j) (set_conf j c p)) = taken (mc_pool s)"
    using alloc_mcconf [OF assms(1)] assms(2) by (metis world_ok_def)
  have g: "good s (s\<lparr>mc_pool := mempools_free_mcconf (Some j) (set_conf j c p)\<rparr>)" for c
    by (rule good_pools(1) [OF good_refl [OF assms(1)] a(3,4)])
  show ?thesis
    unfolding conf_pair_def a(1)
    by (rule sat_bind [OF sat_float32], simp add: assms(3), clarsimp, rule sat_bind [OF sat_float32], simp add: assms(3))
      (auto simp: Let_def a(2) set_conf_twice g)
qed

lemma sat_activate:
  assumes "can_ok s" and "good s0 s" and "card (taken (app_pool s)) < MEMPOOLS_APPCONF_NUM"
  shows "sat (good s0) (activate_status_msgs s)"
proof -
  obtain j p where a: "mempools_alloc_appconf (app_pool s) = (Some j, p)" "\<And>c. conf_at (set_conf j c p) j = c"
    "\<And>c. pool_ok MEMPOOLS_APPCONF_NUM (mempools_free_appconf (Some j) (set_conf j c p))"
    "\<And>c. taken (mempools_free_appconf (Some j) (set_conf j c p)) = taken (app_pool s)"
    using alloc_appconf [OF assms(1,3)] by metis
  have "taken (app_pool s) = taken (app_pool s0)" using assms(2) by (simp add: good_def)
  then have g: "good s0 (s\<lparr>app_pool := mempools_free_appconf (Some j) (set_conf j c p)\<rparr>)" for c
    by (intro good_pools(2) [OF assms(2) a(3)]) (simp add: a(4))
  show ?thesis
    unfolding activate_status_msgs_def a(1) by (auto simp: Let_def a(2) set_conf_twice g)
qed

lemma sat_detect_apply:
  assumes "can_ok s" and "world_ok e s" and "length data = 8"
  shows "sat (good s) (detect_apply_all_foc e data r s)"
proof -
  have 1: "sat (good s) (if detect_foc e m \<ge> 0 \<and> b \<noteq> 0 then activate_status_msgs (emit c s) else Some (emit c s))" for m b c
    using assms(1,2) by (auto simp: good_refl world_ok_def intro!: sat_activate)
  show ?thesis
    unfolding detect_apply_all_foc_def using assms(1,3)
    by (auto simp: good_refl get_byte_Some Let_def intro!: sat_bind [OF sat_float32] sat_bind [OF 1] sat_transmit)
qed

section \<open>Broadcast cases\<close>

lemma good_tables:
  "can_ok s \<Longrightarrow> length t1 = length (stat_msgs s) \<Longrightarrow> good s (s\<lparr>stat_msgs := t1\<rparr>)"
  "can_ok s \<Longrightarrow> length t2 = length (stat_msgs_2 s) \<Longrightarrow> good s (s\<lparr>stat_msgs_2 := t2\<rparr>)"
  "can_ok s \<Longrightarrow> length t3 = length (stat_msgs_3 s) \<Longrightarrow> good s (s\<lparr>stat_msgs_3 := t3\<rparr>)"
  "can_ok s \<Longrightarrow> length t4 = length (stat_msgs_4 s) \<Longrightarrow> good s (s\<lparr>stat_msgs_4 := t4\<rparr>)"
  "can_ok s \<Longrightarrow> length t5 = length (stat_msgs_5 s) \<Longrightarrow> good s (s\<lparr>stat_msgs_5 := t5\<rparr>)"
  "can_ok s \<Longrightarrow> length t6 = length (stat_msgs_6 s) \<Longrightarrow> good s (s\<lparr>stat_msgs_6 := t6\<rparr>)"
  "can_ok s \<Longrightarrow> length t7 = length (io_board_adc_1_4 s) \<Longrightarrow> \<forall>m \<in> set t7. length (st_val m) = 4 \<Longrightarrow> good s (s\<lparr>io_board_adc_1_4 := t7\<rparr>)"
  "can_ok s \<Longrightarrow> length t8 = length (io_board_adc_5_8 s) \<Longrightarrow> \<forall>m \<in> set t8. length (st_val m) = 4 \<Longrightarrow> good s (s\<lparr>io_board_adc_5_8 := t8\<rparr>)"
  "can_ok s \<Longrightarrow> length t9 = length (io_board_digital_in s) \<Longrightarrow> good s (s\<lparr>io_board_digital_in := t9\<rparr>)"
  "can_ok s \<Longrightarrow> length t10 = length (psw_stat s) \<Longrightarrow> good s (s\<lparr>psw_stat := t10\<rparr>)"
  by (simp_all add: good_def can_ok_def)

lemmas sat_table = sat_bind [OF sat_table_store [where Q = "\<lambda>_. True"]]

lemma sat_adc_loop:
  assumes "length data = 8" and "len \<le> 8"
  shows "length vs = 4 \<Longrightarrow> ind = 2 * j \<Longrightarrow> len \<le> int (ind + fuel) \<Longrightarrow> sat (\<lambda>vs. length vs = 4) (adc_loop fuel data len ind j vs)"
proof (induction fuel arbitrary: ind j vs)
  case (Suc fuel)
  have "sat (\<lambda>vs. length vs = 4) (Option.bind (buffer_get_float16 data 100 ind)
      (\<lambda>(v, ind). if j < length vs then adc_loop fuel data len ind (Suc j) (vs[j := v]) else None))" if "int ind < len"
    by (rule sat_bind [OF sat_float16]) (use that Suc assms in \<open>auto intro!: Suc.IH\<close>)
  then show ?case using Suc.prems by simp
qed simp

lemma sat_digital_loop: "ind + n \<le> length data \<Longrightarrow> sat (\<lambda>_. True) (digital_loop n data ind w)"
  by (induction n arbitrary: ind w) (simp_all add: get_byte_Some)

lemma good_set_baud [simp]: "good s (comm_can_set_baud b d s') = good s s'"
  by (cases b) (simp_all add: comm_can_set_baud_def set_timing_def Let_def)

lemma sat_broadcast:
  assumes "can_ok s" and "length data = 8" and "len \<le> 8"
  shows "sat (good s) (decode_broadcast e i cmd data len s)"
proof -
  note ok = assms(1) and d = assms(2)
  have 1: "sat (good s) (recv_status e i data s)" "sat (good s) (recv_status_5 e i data s)"
    unfolding recv_status_def recv_status_5_def
    by (rule sat_table; auto intro!: good_tables ok sat_bind [OF sat_get32] sat_bind [OF sat_get16] simp: d)+
  have 2: "sat (good s) (recv_status_2 e i data s)" "sat (good s) (recv_status_3 e i data s)"
    unfolding recv_status_2_def recv_status_3_def
    by (rule sat_table; auto intro!: good_tables ok sat_bind [OF sat_get32] simp: d)+
  have 3: "sat (good s) (recv_status_4 e i data s)" "sat (good s) (recv_status_6 e i data s)" "sat (good s) (recv_psw_stat e i data s)"
    unfolding recv_status_4_def recv_status_6_def recv_psw_stat_def
    by (rule sat_table; auto intro!: good_tables ok sat_bind [OF sat_get16] sat_bind [OF sat_float16] simp: d get_byte_Some)+
  have 4: "sat (good s) (recv_io_board_adc_1_4 e i data len s)" "sat (good s) (recv_io_board_adc_5_8 e i data len s)"
    unfolding recv_io_board_adc_1_4_def recv_io_board_adc_5_8_def
    by (rule sat_bind [OF sat_table_store [where Q = "\<lambda>vs. length vs = 4"]];
        use ok d assms(3) in \<open>auto intro!: sat_adc_loop good_tables simp: can_ok_def\<close>)+
  have 5: "sat (good s) (recv_io_board_digital_in e i data len s)"
    unfolding recv_io_board_digital_in_def
    by (rule sat_table; use ok d assms(3) in \<open>auto intro!: sat_digital_loop good_tables\<close>)
  have 6: "sat (good s) (recv_gnss_time e data s)"
    unfolding recv_gnss_time_def
    by (rule sat_bind [OF sat_get32], simp add: d, clarsimp, rule sat_bind [OF sat_get16])
      (auto simp: d get_byte_Some good_refl ok)
  have 7: "sat (good s) (recv_gnss_lat e data s)" "sat (good s) (recv_gnss_lon e data s)"
    unfolding recv_gnss_lat_def recv_gnss_lon_def
    by (rule sat_bind [OF sat_double64]; auto simp: d good_refl ok)+
  have 8: "sat (good s) (recv_gnss_alt_speed_hdop e data s)"
    unfolding recv_gnss_alt_speed_hdop_def
    by (rule sat_bind [OF sat_float32_auto]) (auto intro!: sat_bind [OF sat_float16] simp: d good_refl ok)
  have 9: "sat (good s) (recv_update_baud data s)"
    unfolding recv_update_baud_def
    by (rule sat_bind [OF sat_get16]) (auto intro!: sat_bind [OF sat_get16] simp: d good_refl ok Let_def)
  show ?thesis
    unfolding decode_broadcast_def by (intro sat_if 1 2 3 4 5 6 7 8 9) (simp add: good_refl ok)
qed

lemma sat_addressed:
  assumes "can_ok s" and "world_ok e s" and "length data = 8" and "len \<le> 8" and "long_enough cmd len"
  shows "sat (good s) (decode_addressed e i cmd data len r s)"
proof -
  note ok = assms(1) and d = assms(3)
  have conf: "sat (good s) (conf_current_limits st data s)" "sat (good s) (conf_current_limits_in st data s)"
    "sat (good s) (conf_foc_erpms st data s)" "sat (good s) (conf_battery_cut st data s)" for st
    unfolding conf_current_limits_def conf_current_limits_in_def conf_foc_erpms_def conf_battery_cut_def
    by (rule sat_conf_pair [OF ok assms(2) d])+
  have ts: "sat (good s) (transmit k (ts5700n8501_raw_status e) 8 s)" for k
    using assms(2) by (intro sat_transmit good_refl ok) (simp add: world_ok_def)
  note cases = sat_set_value sat_set_current sat_fill_rx_buffer sat_fill_rx_buffer_long sat_process_rx_buffer
    sat_process_short_buffer sat_set_current_rel sat_ping sat_pong sat_store_detect_res sat_update_pid sat_poll_rotor
  show ?thesis
    unfolding decode_addressed_def
    by (intro sat_if cases conf ts sat_detect_apply ok d assms(2,4))
      (use assms(5) in \<open>simp_all add: long_enough_def good_refl ok\<close>)
qed

lemma sat_decode_msg:
  assumes "can_ok s" and "world_ok e s" and "length data = 8" and "len \<le> 8" and "long_enough (drop_bit 8 eid) len"
  shows "sat (good s) (decode_msg e eid data len r s)"
proof -
  have 1: "sat (good s) (if c then decode_addressed e i (drop_bit 8 eid) data len r s else Some s)" for c i
    by (intro sat_if sat_addressed assms) (simp add: good_refl assms)
  show ?thesis
    unfolding decode_msg_def Let_def
    by (rule sat_bind [OF 1], rule sat_mono [OF sat_broadcast]) (auto simp: good_def assms)
qed

section \<open>The threads\<close>

text \<open>A frame of which decoding reads no byte that it does not have room for.\<close>

definition frame_ok :: "frame \<Rightarrow> bool" where
  "frame_ok f \<longleftrightarrow> length (frame_data f) = 8 \<and> frame_dlc f \<le> 8 \<and>
     (frame_ide f \<longrightarrow> long_enough (drop_bit 8 (frame_eid f)) (int (frame_dlc f)))"

text \<open>The frames waiting in the ring.\<close>

definition ring_len :: "can \<Rightarrow> nat" where
  "ring_len s = (frame_write s + RX_FRAMES_SIZE - frame_read s) mod RX_FRAMES_SIZE"

lemma ring_len_lt: "ring_len s < RX_FRAMES_SIZE"
  by (simp add: ring_len_def RX_FRAMES_SIZE_def)

lemma ring_len_0:
  "frame_read s < RX_FRAMES_SIZE \<Longrightarrow> frame_write s < RX_FRAMES_SIZE \<Longrightarrow> ring_len s = 0 \<longleftrightarrow> frame_read s = frame_write s"
  by (cases "frame_read s \<le> frame_write s") (auto simp: ring_len_def RX_FRAMES_SIZE_def mod_if)

definition ring_ok :: "can \<Rightarrow> bool" where
  "ring_ok s \<longleftrightarrow> can_ok s \<and> (\<forall>f \<in> set (rx_frames s). frame_ok f)"

lemma ball_update: "\<forall>x \<in> set xs. P x \<Longrightarrow> P y \<Longrightarrow> \<forall>x \<in> set (xs[i := y]). P x"
  using set_update_subset_insert [of xs i y] by blast

definition ring_inv :: "can \<Rightarrow> can \<Rightarrow> bool" where
  "ring_inv s s' \<longleftrightarrow> ring_ok s' \<and> app_pool s' = app_pool s \<and> mc_pool s' = mc_pool s"

lemma sat_store_rx_frame:
  assumes "ring_ok s" and "frame_ok f"
  shows "sat (ring_inv s) (store_rx_frame f s)"
proof -
  define w where "w = (if frame_write s + 1 = RX_FRAMES_SIZE then 0 else frame_write s + 1)"
  let ?s = "s\<lparr>rx_frames := (rx_frames s)[frame_write s := f], frame_write := w\<rparr>"
  have lt: "frame_write s < RX_FRAMES_SIZE" "length (rx_frames s) = RX_FRAMES_SIZE"
    using assms(1) by (simp_all add: ring_ok_def can_ok_def)
  then have "w < RX_FRAMES_SIZE" by (auto simp: w_def RX_FRAMES_SIZE_def)
  moreover have "\<forall>x \<in> set ((rx_frames s)[frame_write s := f]). frame_ok x"
    by (rule ball_update) (use assms in \<open>simp_all add: ring_ok_def\<close>)
  ultimately have "ring_ok ?s" using assms(1) by (simp add: ring_ok_def can_ok_def)
  then have "ring_inv s (emit Signal_process ?s)" by (simp add: ring_inv_def ring_ok_def emit_def can_ok_def)
  moreover have "store_rx_frame f s = Some (emit Signal_process ?s)"
    using lt by (simp add: store_rx_frame_def w_def Let_def)
  ultimately show ?thesis by simp
qed

lemma ring_inv_trans: "ring_inv s s1 \<Longrightarrow> ring_inv s1 s2 \<Longrightarrow> ring_inv s s2"
  by (simp add: ring_inv_def)

lemma sat_store_rx_frames:
  "ring_ok s \<Longrightarrow> \<forall>f \<in> set fs. frame_ok f \<Longrightarrow> sat (ring_inv s) (store_rx_frames fs s)"
proof (induction fs arbitrary: s)
  case (Cons f fs)
  have "sat (ring_inv s) (store_rx_frames fs s1)" if "ring_inv s s1" for s1
  proof (rule sat_mono)
    show "sat (ring_inv s1) (store_rx_frames fs s1)"
      using Cons.IH [of s1] Cons.prems(2) that by (simp add: ring_inv_def [of s])
  qed (rule ring_inv_trans [OF that])
  then have "sat (ring_inv s) (Option.bind (store_rx_frame f s) (store_rx_frames fs))"
    using Cons.prems by (intro sat_bind [OF sat_store_rx_frame]) simp_all
  then show ?case by simp
qed (simp add: ring_inv_def)

lemma callback_good: "callback f s = (u, s') \<Longrightarrow> good s0 s \<Longrightarrow> good s0 s'"
  by (auto simp: callback_def split: if_splits option.splits)

lemma good_bridge_frame: "good s0 s \<Longrightarrow> good s0 (bridge_frame f s)"
  by (auto simp: bridge_frame_def Let_def intro: callback_good split: prod.splits)

lemma world_ok_good: "good s0 s \<Longrightarrow> world_ok e s0 \<Longrightarrow> world_ok e s"
  by (simp add: good_def world_ok_def)

lemma sat_vesc_frame:
  assumes "good s0 s" and "world_ok e s0" and "frame_ok f"
  shows "sat (good s0) (vesc_frame e bms f s)"
proof -
  obtain u s1 where cb: "callback f s = (u, s1)" by (cases "callback f s")
  note g = callback_good [OF cb assms(1)]
  have "sat (good s0) (decode_msg e (frame_eid f) (frame_data f) (int (frame_dlc f)) False s1)" if "frame_ide f"
  proof (rule sat_mono)
    show "sat (good s1) (decode_msg e (frame_eid f) (frame_data f) (int (frame_dlc f)) False s1)"
      using that assms(3) g world_ok_good [OF g assms(2)] by (intro sat_decode_msg) (auto simp: frame_ok_def good_def)
  qed (rule good_trans [OF g])
  then show ?thesis using g by (auto simp: vesc_frame_def cb intro!: sat_bind)
qed

text \<open>After a round of the processing thread the ring is empty: fewer frames wait in it than the rounds
  of the loop.\<close>

lemma sat_process_frames:
  "ring_ok s \<Longrightarrow> world_ok e s \<Longrightarrow> ring_len s < n \<Longrightarrow>
   sat (\<lambda>s'. ring_ok s' \<and> taken (mc_pool s') = taken (mc_pool s) \<and> taken (app_pool s') = taken (app_pool s) \<and>
     frame_read s' = frame_write s') (process_frames n e bms b s)"
proof (induction n arbitrary: s)
  case (Suc n)
  have ptr: "frame_read s < RX_FRAMES_SIZE" "frame_write s < RX_FRAMES_SIZE" "length (rx_frames s) = RX_FRAMES_SIZE"
    using Suc.prems(1) by (simp_all add: ring_ok_def can_ok_def)
  show ?case
  proof (cases "frame_read s = frame_write s")
    case True
    then show ?thesis using Suc.prems by (simp add: comm_can_get_rx_frame_def)
  next
    case False
    define r where "r = (if frame_read s + 1 = RX_FRAMES_SIZE then 0 else frame_read s + 1)"
    define f where "f = rx_frames s ! frame_read s"
    let ?s = "s\<lparr>frame_read := r\<rparr>"
    have get: "comm_can_get_rx_frame 0 s = Some (Some f, ?s)"
      using False ptr by (simp add: comm_can_get_rx_frame_def r_def f_def Let_def)
    have r: "r < RX_FRAMES_SIZE" "ring_len ?s = ring_len s - 1" "0 < ring_len s"
      using False ptr by (auto simp: ring_len_def r_def RX_FRAMES_SIZE_def mod_if split: if_splits)
    have "f \<in> set (rx_frames s)" using ptr by (simp add: f_def)
    then have f: "frame_ok f" using Suc.prems(1) by (simp add: ring_ok_def)
    have ok: "can_ok ?s" using Suc.prems(1) r(1) by (simp add: ring_ok_def can_ok_def)
    have w: "world_ok e ?s" using Suc.prems(2) by (simp add: world_ok_def)
    have step: "sat (good ?s) (if b then Some (bridge_frame f ?s) else vesc_frame e bms f ?s)"
      using good_bridge_frame [OF good_refl [OF ok]] sat_vesc_frame [OF good_refl [OF ok] w f] by simp
    have rest: "sat (\<lambda>s'. ring_ok s' \<and> taken (mc_pool s') = taken (mc_pool s) \<and> taken (app_pool s') = taken (app_pool s) \<and>
        frame_read s' = frame_write s') (process_frames n e bms b s1)" if g: "good ?s s1" for s1
    proof -
      have "ring_ok s1" using g Suc.prems(1) by (simp add: good_def ring_ok_def)
      moreover have "world_ok e s1" by (rule world_ok_good [OF g w])
      moreover have "ring_len s1 = ring_len ?s" using g by (simp add: good_def ring_len_def)
      then have "ring_len s1 < n" using r Suc.prems(3) by simp
      ultimately show ?thesis using Suc.IH [of s1] g by (simp add: good_def)
    qed
    show ?thesis using sat_bind [OF step rest] by (simp add: get)
  qed
qed simp

section \<open>Runs of the module\<close>

text \<open>The states that the module can get into: after the initialisation, rounds of the reading thread
  and of the processing thread in any order, the first with frames of sufficient length.\<close>

inductive can_reach :: "can \<Rightarrow> bool" where
  init: "can_reach (comm_can_init (can_boot app mc))"
| receive: "can_reach s \<Longrightarrow> \<forall>f \<in> set fs. frame_ok f \<Longrightarrow> cancom_read_thread fs s = Some s' \<Longrightarrow> can_reach s'"
| dispatch: "can_reach s \<Longrightarrow> 8 \<le> length (ts5700n8501_raw_status e) \<Longrightarrow> cancom_process_thread e bms s = Some s' \<Longrightarrow> can_reach s'"

definition can_inv :: "can \<Rightarrow> bool" where
  "can_inv s \<longleftrightarrow> ring_ok s \<and> taken (mc_pool s) = {} \<and> taken (app_pool s) = {}"

lemma taken_new_pool [simp]: "taken (new_pool n z) = {}"
  by (simp add: taken_def new_pool_def)

lemma count_taken_none: "pool_ok n p \<Longrightarrow> taken p = {} \<Longrightarrow> count_taken n 0 0 p = 0"
  using count_taken_spec [of 0 n p 0] by (simp add: pool_ok_def)

lemma pool_ok_new [simp]: "pool_ok n (new_pool n z)"
  by (simp add: pool_ok_def new_pool_def)

lemma can_inv_init: "can_inv (comm_can_init (can_boot app mc))"
proof -
  have "long_enough 0 0" by (simp add: long_enough_def)
  then show ?thesis
    by (simp add: can_inv_def ring_ok_def can_ok_def comm_can_init_def can_boot_def Let_def emit_def frame_ok_def
        RX_BUFFER_NUM_def RX_FRAMES_SIZE_def CAN_STATUS_MSGS_TO_STORE_def clear_id_def
        RX_BUFFER_SIZE_def PACKET_MAX_PL_LEN_def)
qed

lemma can_inv_receive:
  assumes "can_inv s" and "\<forall>f \<in> set fs. frame_ok f"
  shows "sat can_inv (cancom_read_thread fs s)"
proof -
  have "ring_ok (emit Feed_wdt s)" using assms(1) by (simp add: can_inv_def ring_ok_def) (simp add: emit_def)
  from sat_store_rx_frames [OF this assms(2)] show ?thesis
    unfolding cancom_read_thread_def by (rule sat_mono) (use assms(1) in \<open>simp add: can_inv_def ring_inv_def\<close>)
qed

lemma can_inv_dispatch:
  assumes "can_inv s" and "8 \<le> length (ts5700n8501_raw_status e)"
  shows "sat (\<lambda>s'. can_inv s' \<and> (can_mode (app_conf s) \<noteq> CAN_MODE_UAVCAN \<longrightarrow> frame_read s' = frame_write s'))
    (cancom_process_thread e bms s)"
proof -
  have "world_ok e s" using assms by (simp add: can_inv_def world_ok_def MEMPOOLS_MCCONF_NUM_def MEMPOOLS_APPCONF_NUM_def)
  note round = sat_process_frames [OF _ this ring_len_lt, of bms]
  have "sat (\<lambda>s'. can_inv s' \<and> frame_read s' = frame_write s') (process_frames RX_FRAMES_SIZE e bms b s)" for b
    by (rule sat_mono [OF round]) (use assms(1) in \<open>auto simp: can_inv_def\<close>)
  then show ?thesis using assms(1) by (cases "can_mode (app_conf s)") (simp_all add: cancom_process_thread_def)
qed

lemma can_reach_inv: "can_reach s \<Longrightarrow> can_inv s"
proof (induction rule: can_reach.induct)
  case (receive s fs s')
  then show ?case using can_inv_receive [of s fs] by (simp add: sat_def)
next
  case (dispatch s e bms s')
  then show ?case using can_inv_dispatch [of s e bms] by (simp add: sat_def)
qed (rule can_inv_init)

section \<open>Properties\<close>

text \<open>C15. In every state the module can reach, whatever frames of sufficient length arrive are stored and
  processed without an access outside an array, the invariant of the state holds afterwards, no
  configuration buffer stays allocated, and the ring of received frames has been emptied.\<close>

theorem can_never_faults:
  assumes "can_reach s" and "\<forall>f \<in> set fs. frame_ok f" and "8 \<le> length (ts5700n8501_raw_status e)"
  shows "\<exists>s1 s2. cancom_read_thread fs s = Some s1 \<and> cancom_process_thread e bms s1 = Some s2 \<and> can_ok s2 \<and>
    mempools_mcconf_allocated_num (mc_pool s2) = 0 \<and> mempools_appconf_allocated_num (app_pool s2) = 0 \<and>
    (can_mode (app_conf s1) \<noteq> CAN_MODE_UAVCAN \<longrightarrow> frame_read s2 = frame_write s2)"
proof -
  obtain s1 where s1: "cancom_read_thread fs s = Some s1" "can_inv s1"
    using can_inv_receive [OF can_reach_inv [OF assms(1)] assms(2)] by (auto simp: sat_def)
  obtain s2 where s2: "cancom_process_thread e bms s1 = Some s2" "can_inv s2"
    "can_mode (app_conf s1) \<noteq> CAN_MODE_UAVCAN \<longrightarrow> frame_read s2 = frame_write s2"
    using can_inv_dispatch [OF s1(2) assms(3), of bms] by (auto simp: sat_def)
  have "can_ok s2" "pool_ok MEMPOOLS_MCCONF_NUM (mc_pool s2)" "pool_ok MEMPOOLS_APPCONF_NUM (app_pool s2)"
    using s2(2) by (simp_all add: can_inv_def ring_ok_def can_ok_def)
  then show ?thesis
    using s1(1) s2 count_taken_none [of _ "mc_pool s2"] count_taken_none [of _ "app_pool s2"]
    by (auto simp: can_inv_def mempools_mcconf_allocated_num_def mempools_appconf_allocated_num_def)
qed

theorem can_never_faults_witness:
  "\<exists>s1 s2. cancom_read_thread [\<lparr>frame_ide = True, frame_eid = 0x900, frame_dlc = 8, frame_data = replicate 8 1\<rparr>]
       can0 = Some s1 \<and>
     cancom_process_thread \<lparr>system_time = 7, detect_foc = (\<lambda>_. 0), ts5700n8501_raw_status = replicate 8 0,
       encoder_deg = 0, second_motor_id = 1\<rparr> (\<lambda>_. False) s1 = Some s2 \<and> can_ok s2 \<and>
     mempools_mcconf_allocated_num (mc_pool s2) = 0 \<and> mempools_appconf_allocated_num (app_pool s2) = 0 \<and>
     (can_mode (app_conf s1) \<noteq> CAN_MODE_UAVCAN \<longrightarrow> frame_read s2 = frame_write s2)"
  by (rule can_never_faults [OF can_reach.init]) (simp_all add: frame_ok_def long_enough_def)

text \<open>The length of a frame is not checked where decoding depends on it: a fragment with fewer
  bytes than its header makes the length of a copy negative, and a packet of one frame with
  less than two bytes makes the length of the packet negative, whatever the state of the
  controller that is addressed.\<close>

theorem can_short_frames_fault:
  assumes "can_ok s" and "i = controller_id (app_conf s) \<or> i = 255" and "length data = 6" and "len < 2"
  shows "decode_msg e (eid_of CAN_PACKET_FILL_RX_BUFFER (ucast i)) (0 # 0 # data) 0 False s = None \<and>
    decode_msg e (eid_of CAN_PACKET_FILL_RX_BUFFER_LONG (ucast i)) (0 # 0 # data) len False s = None \<and>
    decode_msg e (eid_of CAN_PACKET_PROCESS_SHORT_BUFFER (ucast i)) (0 # 0 # data) len False s = None"
proof -
  have eid: "drop_bit 8 (eid_of 5 (ucast i)) = 5" "drop_bit 8 (eid_of 6 (ucast i)) = 6" "drop_bit 8 (eid_of 8 (ucast i)) = 8"
    by (rule eid_cmd; simp)+
  have "\<exists>k. choose_buffer (rx_buffer_offset s) 0 = Some k" by (auto simp: choose_buffer_def split: option.splits)
  then have fill: "fill_rx_buffer (0 # 0 # data) 0 s = None" "fill_rx_buffer_long (0 # 0 # data) len s = None"
    using assms(4) by (auto simp: fill_rx_buffer_def fill_rx_buffer_long_def get_byte_def fill_buffer_def Let_def
        RX_BUFFER_SIZE_def PACKET_MAX_PL_LEN_def)
  have short: "process_short_buffer (0 # 0 # data) len False s = None"
    using assms(3,4) by (simp add: process_short_buffer_def get_byte_def Let_def)
  show ?thesis
    using assms(2) fill short by (auto simp: decode_msg_def Let_def eid decode_addressed_def)
qed

theorem can_short_frames_fault_witness:
  "decode_msg e (eid_of CAN_PACKET_FILL_RX_BUFFER 255) (replicate 8 0) 0 False can0 = None"
proof -
  have "can_ok can0" using can_inv_init by (simp add: can_inv_def ring_ok_def)
  moreover have "(0 :: u8) # 0 # replicate 6 0 = replicate 8 0" by (simp add: numeral_eq_Suc)
  ultimately show ?thesis
    using can_short_frames_fault [of "can0" 255 "replicate 6 0" 0 e] by simp
qed

end
