(* ===== verification/Can_Link.thy ===== *)
theory Can_Link
  imports Can_Safe
begin

text \<open>
  Two controllers on the bus: what one sends with \<^verbatim>\<open>comm_can_send_buffer\<close>, with the command functions
  and with the status functions, and what the other makes of it in \<open>decode_msg\<close>. A frame that is
  transmitted arrives with the same identifier and data; the bytes of the data register behind
  the data are arbitrary.
\<close>

section \<open>The bus\<close>

fun delivers :: "call \<Rightarrow> frame \<Rightarrow> bool" where
  "delivers (Transmit_eid i d) f =
     (frame_ide f \<and> frame_eid f = i \<and> frame_dlc f = length d \<and> length (frame_data f) = 8 \<and> take (length d) (frame_data f) = d)"
| "delivers _ f = False"

lemma delivers_data:
  "delivers (Transmit_eid i d) f \<Longrightarrow> \<exists>z. frame_data f = d @ z \<and> frame_dlc f = length d \<and> frame_eid f = i"
  by (metis append_take_drop_id delivers.simps(1))

fun decode_frames :: "inputs \<Rightarrow> frame list \<Rightarrow> can \<Rightarrow> can option" where
  "decode_frames e [] s = Some s"
| "decode_frames e (f # fs) s =
     Option.bind (decode_msg e (frame_eid f) (frame_data f) (int (frame_dlc f)) False s) (decode_frames e fs)"

lemma decode_frames_append:
  "decode_frames e (fs @ gs) s = Option.bind (decode_frames e fs s) (decode_frames e gs)"
proof (induction fs arbitrary: s)
  case (Cons f fs)
  then have "decode_frames e (fs @ gs) = (\<lambda>s. Option.bind (decode_frames e fs s) (decode_frames e gs))" by (rule ext)
  then show ?case by (simp add: Option.bind_assoc)
qed simp

definition emits :: "call list \<Rightarrow> can \<Rightarrow> can" where
  "emits cs s = s\<lparr>calls := calls s @ cs\<rparr>"

lemma emits_simps [simp]:
  "emits [] s = s" "emit c (emits cs s) = emits (cs @ [c]) s" "emits ds (emits cs s) = emits (cs @ ds) s"
  "calls (emits cs s) = calls s @ cs" "can_init_done (emits cs s) = can_init_done s" "app_conf (emits cs s) = app_conf s"
  by (simp_all add: emits_def emit_def)

lemma emit_emits: "emit c s = emits [c] s"
  by (simp add: emits_def emit_def)

lemma emits_inj [simp]: "emits cs s = emits ds s \<longleftrightarrow> cs = ds"
  by (metis emits_simps(4) same_append_eq)

lemma transmit_emits:
  "can_init_done s \<Longrightarrow> len \<le> 8 \<Longrightarrow> len \<le> length data \<Longrightarrow> take_bit 21 cmd = cmd \<Longrightarrow>
   transmit (eid_of cmd (ucast (i :: u8))) data len s = Some (emits [Transmit_eid (eid_of cmd (ucast i)) (take len data)] s)"
  by (simp add: transmit_Some emit_emits)

text \<open>What decoding does with a frame for the controller itself.\<close>

lemma decode_own:
  assumes "frame_eid f = eid_of cmd (ucast i)" and "take_bit 21 cmd = cmd" and "controller_id (app_conf r) = i"
    and "decode_broadcast e i cmd (frame_data f) len = Some"
  shows "decode_msg e (frame_eid f) (frame_data f) len False r = decode_addressed e i cmd (frame_data f) len False r"
  using assms by (simp add: decode_msg_def Let_def)

lemma no_broadcast: "decode_broadcast e i 5 d len = Some" "decode_broadcast e i 6 d len = Some"
    "decode_broadcast e i 7 d len = Some" "decode_broadcast e i 8 d len = Some"
  by (simp_all add: decode_broadcast_def fun_eq_iff)

section \<open>Reassembly\<close>

text \<open>The receiver has collected the first \<open>n\<close> bytes of a packet in its first buffer.\<close>

definition collected :: "u8 \<Rightarrow> bytes \<Rightarrow> can \<Rightarrow> nat \<Rightarrow> can \<Rightarrow> bool" where
  "collected i data r0 n r \<longleftrightarrow> can_ok r \<and> controller_id (app_conf r) = i \<and> n \<le> length data \<and>
     (\<exists>bufs. r = r0\<lparr>rx_bufs := bufs, rx_buffer_offset := [int n, 0, 0]\<rparr> \<and> take n (bufs ! 0) = take n data)"

lemma choose_first: "choose_buffer [x, 0, 0] x = Some 0"
  by (simp add: choose_buffer_def)

lemma fill_collects:
  assumes "collected i data r0 n r" and "take m src = take m (drop n data)" and "n + m \<le> length data"
    and "length data \<le> RX_BUFFER_SIZE" and "m \<le> length src"
  shows "sat (collected i data r0 (n + m)) (fill_buffer 0 (int n) src (int m) r)"
proof -
  obtain bufs where r: "r = r0\<lparr>rx_bufs := bufs, rx_buffer_offset := [int n, 0, 0]\<rparr>" and t: "take n (bufs ! 0) = take n data"
    using assms(1) by (auto simp: collected_def)
  have ok: "can_ok r" and i: "controller_id (app_conf r) = i" using assms(1) by (simp_all add: collected_def)
  then have b: "0 < length bufs" "length (bufs ! 0) = RX_BUFFER_SIZE" by (auto simp: can_ok_def r RX_BUFFER_NUM_def)
  let ?b = "take n (bufs ! 0) @ take m src @ drop (n + m) (bufs ! 0)"
  let ?r = "r0\<lparr>rx_bufs := bufs[0 := ?b], rx_buffer_offset := [int (n + m), 0, 0]\<rparr>"
  have "fill_buffer 0 (int n) src (int m) r = Some ?r"
    using b assms(3-5) by (simp add: fill_buffer_def write_bytes_def r min_def)
  moreover have "take (n + m) ?b = take (n + m) data"
  proof -
    have "length (take n (bufs ! 0)) = n" "length (take m src) = m" using b(2) assms(3-5) by simp_all
    then have "take (n + m) ?b = take n (bufs ! 0) @ take m src" by simp
    then show ?thesis using assms(2) t by (simp add: take_add)
  qed
  moreover have "can_ok ?r"
  proof -
    have "sat (good r) (fill_buffer 0 (int n) src (int m) r)"
      using assms(3-5) by (intro sat_fill_buffer ok) (simp_all add: RX_BUFFER_NUM_def)
    then show ?thesis using calculation(1) by (simp add: good_def)
  qed
  ultimately show ?thesis using i b(1) assms(3) by (auto simp: collected_def r)
qed

lemma recv_fill:
  assumes c: "collected i data r0 n r" and "n \<le> 255" and "n + m \<le> length data" and "m \<le> 7" and "length data \<le> RX_BUFFER_SIZE"
    and f: "delivers (Transmit_eid (eid_of CAN_PACKET_FILL_RX_BUFFER (ucast i)) (word_of_nat n # take m (drop n data))) f"
  shows "sat (collected i data r0 (n + m)) (decode_msg e (frame_eid f) (frame_data f) (int (frame_dlc f)) False r)"
proof -
  let ?d = "frame_data f"
  have "length (take m (drop n data)) = m" using assms(3) by simp
  then have d: "length ?d = 8" "frame_dlc f = Suc m" "take (Suc m) ?d = word_of_nat n # take m (drop n data)"
    using f by (simp_all del: length_take)
  have b: "?d ! 0 = word_of_nat n" "take m (drop 1 ?d) = take m (drop n data)"
    using d by (cases ?d; simp)+
  have "uint (word_of_nat n :: u8) = int n" using assms(2) by (simp add: unsigned_of_nat take_bit_nat_def)
  then have "decode_msg e (frame_eid f) ?d (int (frame_dlc f)) False r = fill_buffer 0 (int n) (drop 1 ?d) (int m) r"
    using c f d(2) b(1) d(1)
    by (subst decode_own [where cmd = 5 and i = i])
      (auto simp: collected_def no_broadcast decode_addressed_def fill_rx_buffer_def get_byte_Some Let_def choose_first)
  then show ?thesis using fill_collects [OF c b(2) assms(3,5)] d(1) assms(4) by simp
qed

lemma recv_fill_long:
  assumes c: "collected i data r0 n r" and "n + m \<le> length data" and "m \<le> 6" and "length data \<le> RX_BUFFER_SIZE"
    and f: "delivers (Transmit_eid (eid_of CAN_PACKET_FILL_RX_BUFFER_LONG (ucast i))
        (word_of_nat (drop_bit 8 n) # word_of_nat (n AND 0xFF) # take m (drop n data))) f"
  shows "sat (collected i data r0 (n + m)) (decode_msg e (frame_eid f) (frame_data f) (int (frame_dlc f)) False r)"
proof -
  let ?d = "frame_data f"
  have d: "length ?d = 8" "frame_dlc f = Suc (Suc m)"
    "take (Suc (Suc m)) ?d = word_of_nat (drop_bit 8 n) # word_of_nat (n AND 0xFF) # take m (drop n data)"
  proof -
    have "length (take m (drop n data)) = m" using assms(2) by simp
    then show "length ?d = 8" "frame_dlc f = Suc (Suc m)"
      "take (Suc (Suc m)) ?d = word_of_nat (drop_bit 8 n) # word_of_nat (n AND 0xFF) # take m (drop n data)"
      using f by (simp_all del: length_take)
  qed
  obtain x y z where xyz: "?d = x # y # z"
  proof (cases ?d)
    case (Cons x xs)
    then show ?thesis using d(1) that by (cases xs) auto
  qed (use d(1) in simp)
  have b: "x = word_of_nat (drop_bit 8 n)" "y = word_of_nat (n AND 0xFF)" "take m z = take m (drop n data)"
    using d(3) by (simp_all add: xyz)
  have n: "n \<le> 512" using assms(2,4) by (simp add: RX_BUFFER_SIZE_def PACKET_MAX_PL_LEN_def)
  then have "n div 256 < 256" by (simp add: div_less_iff_less_mult)
  then have "unat x = n div 256" "unat y = n mod 256"
    by (simp_all add: b unat_byte_of_nat nat_and_ff drop_bit_eq_div)
  then have "unat x * 256 + unat y = n" by simp
  then have "sint (push_bit 8 (ucast x) OR ucast y :: u32) = int n" by (simp only: sint_join32(2))
  then have "decode_msg e (frame_eid f) ?d (int (frame_dlc f)) False r = fill_buffer 0 (int n) z (int m) r"
    using c f d(2) assms(2,4)
    by (subst decode_own [where cmd = 6 and i = i])
      (auto simp: collected_def no_broadcast decode_addressed_def fill_rx_buffer_long_def get_byte_def Let_def choose_first xyz)
  then show ?thesis using fill_collects [OF c b(3) assms(2,4)] d(1) assms(3) by (simp add: xyz)
qed

text \<open>The two loops of the sender against the receiver.\<close>

lemma send_fill_delivers:
  assumes "can_init_done s" and "length data \<le> RX_BUFFER_SIZE"
  shows "\<exists>a cs. send_fill i data n n s = Some (a, emits cs s) \<and> n \<le> a \<and>
    (\<forall>r fs. collected i data r0 (min n (length data)) r \<longrightarrow> list_all2 delivers cs fs \<longrightarrow>
       sat (collected i data r0 (min a (length data))) (decode_frames e fs r))"
  using assms(1)
proof (induction "length data - n" arbitrary: n s rule: less_induct)
  case less
  show ?case
  proof (cases "n < length data \<and> n \<le> 255")
    case False
    then have "send_fill i data n n s = Some (n, emits [] s)" by (subst send_fill.simps) auto
    then show ?thesis by (intro exI [of _ n] exI [of _ "[]"]) auto
  next
    case True
    define m where "m = (if n + 7 \<le> length data then 7 else length data - n)"
    have m: "m \<le> 7" "n + m = min (n + 7) (length data)" using True by (auto simp: m_def)
    let ?T = "Transmit_eid (eid_of 5 (ucast i)) (word_of_nat n # take m (drop n data))"
    have tr: "transmit (eid_of 5 (ucast i)) (word_of_nat n # take m (drop n data)) (m + 1) s = Some (emits [?T] s)"
      using m less.prems by (subst transmit_emits) simp_all
    obtain a cs where IH: "send_fill i data (n + 7) (n + 7) (emits [?T] s) = Some (a, emits cs (emits [?T] s))" "n + 7 \<le> a"
      "\<forall>r fs. collected i data r0 (min (n + 7) (length data)) r \<longrightarrow> list_all2 delivers cs fs \<longrightarrow>
        sat (collected i data r0 (min a (length data))) (decode_frames e fs r)"
    proof -
      have "length data - (n + 7) < length data - n" "can_init_done (emits [?T] s)" using True less.prems by auto
      from less.hyps [OF this] show ?thesis using that by blast
    qed
    have "send_fill i data n n s = Some (a, emits (?T # cs) s)"
      using True IH(1) tr by (subst send_fill.simps) (simp add: m_def [symmetric])
    moreover have "sat (collected i data r0 (min a (length data))) (decode_frames e fs r)"
      if col: "collected i data r0 (min n (length data)) r" and dl: "list_all2 delivers (?T # cs) fs" for r fs
    proof -
      obtain f fs' where fs: "fs = f # fs'" "delivers ?T f" "list_all2 delivers cs fs'" using dl by (cases fs) auto
      have "collected i data r0 n r" using col True by (simp add: min_def split: if_splits)
      then have "sat (collected i data r0 (n + m)) (decode_msg e (frame_eid f) (frame_data f) (int (frame_dlc f)) False r)"
        using True m fs(2) assms(2) by (intro recv_fill) simp_all
      then show ?thesis unfolding fs(1) decode_frames.simps m(2) by (rule sat_bind) (use IH(3) fs(3) in blast)
    qed
    ultimately show ?thesis using IH(2) by (intro exI [of _ a] exI [of _ "?T # cs"]) auto
  qed
qed

lemma send_fill_long_delivers:
  assumes "can_init_done s" and "length data \<le> RX_BUFFER_SIZE"
  shows "\<exists>cs. send_fill_long i data n s = Some (emits cs s) \<and>
    (\<forall>r fs. collected i data r0 (min n (length data)) r \<longrightarrow> list_all2 delivers cs fs \<longrightarrow>
       sat (collected i data r0 (length data)) (decode_frames e fs r))"
  using assms(1)
proof (induction "length data - n" arbitrary: n s rule: less_induct)
  case less
  show ?case
  proof (cases "n < length data")
    case False
    then have "send_fill_long i data n s = Some (emits [] s)" by (subst send_fill_long.simps) auto
    then show ?thesis using False by (intro exI [of _ "[]"]) (auto simp: min_def)
  next
    case True
    define m where "m = (if n + 6 \<le> length data then 6 else length data - n)"
    have m: "m \<le> 6" "n + m = min (n + 6) (length data)" using True by (auto simp: m_def)
    let ?d = "word_of_nat (drop_bit 8 n) # word_of_nat (n AND 0xFF) # take m (drop n data)"
    let ?T = "Transmit_eid (eid_of 6 (ucast i)) ?d"
    have tr: "transmit (eid_of 6 (ucast i)) ?d (m + 2) s = Some (emits [?T] s)"
      using m less.prems by (subst transmit_emits) simp_all
    obtain cs where IH: "send_fill_long i data (n + 6) (emits [?T] s) = Some (emits cs (emits [?T] s))"
      "\<forall>r fs. collected i data r0 (min (n + 6) (length data)) r \<longrightarrow> list_all2 delivers cs fs \<longrightarrow>
        sat (collected i data r0 (length data)) (decode_frames e fs r)"
    proof -
      have "length data - (n + 6) < length data - n" "can_init_done (emits [?T] s)" using True less.prems by auto
      from less.hyps [OF this] show ?thesis using that by blast
    qed
    have "send_fill_long i data n s = Some (emits (?T # cs) s)"
      using True IH(1) tr by (subst send_fill_long.simps) (simp add: m_def [symmetric])
    moreover have "sat (collected i data r0 (length data)) (decode_frames e fs r)"
      if col: "collected i data r0 (min n (length data)) r" and dl: "list_all2 delivers (?T # cs) fs" for r fs
    proof -
      obtain f fs' where fs: "fs = f # fs'" "delivers ?T f" "list_all2 delivers cs fs'" using dl by (cases fs) auto
      have "collected i data r0 n r" using col True by (simp add: min_def split: if_splits)
      then have "sat (collected i data r0 (n + m)) (decode_msg e (frame_eid f) (frame_data f) (int (frame_dlc f)) False r)"
        using m fs(2) assms(2) by (intro recv_fill_long) simp_all
      then show ?thesis unfolding fs(1) decode_frames.simps m(2) by (rule sat_bind) (use IH(2) fs(3) in blast)
    qed
    ultimately show ?thesis by (intro exI [of _ "?T # cs"]) auto
  qed
qed

text \<open>The frame that ends a packet.\<close>

lemma recv_process:
  assumes c: "collected i data r0 (length data) r" and "0 < length data" and "length data \<le> RX_BUFFER_SIZE"
    and f: "delivers (Transmit_eid (eid_of CAN_PACKET_PROCESS_RX_BUFFER (ucast i)) [own, send,
        word_of_nat (drop_bit 8 (length data)), word_of_nat (length data AND 0xFF), byte_of 8 (crc16 data), byte_of 0 (crc16 data)]) f"
  shows "\<exists>bufs. decode_msg e (frame_eid f) (frame_data f) (int (frame_dlc f)) False r =
    Some (hand_over send data (set_reply own send (r0\<lparr>rx_bufs := bufs, rx_buffer_offset := [0, 0, 0]\<rparr>)))"
proof -
  let ?d = "frame_data f"
  obtain bufs where r: "r = r0\<lparr>rx_bufs := bufs, rx_buffer_offset := [int (length data), 0, 0]\<rparr>"
    and t: "take (length data) (bufs ! 0) = data" using c by (auto simp: collected_def)
  have b: "0 < length bufs" "length (bufs ! 0) = RX_BUFFER_SIZE" using c by (auto simp: collected_def can_ok_def r RX_BUFFER_NUM_def)
  have d: "length ?d = 8" "take 6 ?d = [own, send, word_of_nat (drop_bit 8 (length data)), word_of_nat (length data AND 0xFF),
      byte_of 8 (crc16 data), byte_of 0 (crc16 data)]" using f by (simp_all add: eval_nat_numeral)
  have nth: "?d ! k = (take 6 ?d) ! k" if "k < 6" for k using that by simp
  have n: "length data \<le> 512" using assms(3) by (simp add: RX_BUFFER_SIZE_def PACKET_MAX_PL_LEN_def)
  then have "length data div 256 < 256" by (simp add: div_less_iff_less_mult)
  then have "unat (word_of_nat (drop_bit 8 (length data)) :: u8) = length data div 256"
    "unat (word_of_nat (length data AND 0xFF) :: u8) = length data mod 256"
    by (simp_all add: unat_byte_of_nat nat_and_ff drop_bit_eq_div)
  then have len: "unat (push_bit 8 (ucast (word_of_nat (drop_bit 8 (length data)) :: u8)) OR
      ucast (word_of_nat (length data AND 0xFF) :: u8) :: u32) = length data"
    unfolding unat_join32 by simp
  have get: "get_byte ?d 0 = Some own" "get_byte ?d 1 = Some send"
    "get_byte ?d 2 = Some (word_of_nat (drop_bit 8 (length data)))" "get_byte ?d 3 = Some (word_of_nat (length data AND 0xFF))"
    "get_byte ?d 4 = Some (byte_of 8 (crc16 data))" "get_byte ?d 5 = Some (byte_of 0 (crc16 data))"
    using nth by (simp_all add: get_byte_def d)
  have first: "\<exists>x. get_byte (bufs ! 0) 0 = Some x"
    using b(2) by (simp add: get_byte_def RX_BUFFER_SIZE_def PACKET_MAX_PL_LEN_def)
  have "decode_msg e (frame_eid f) ?d (int (frame_dlc f)) False r = process_rx_buffer ?d False r"
    using c f by (subst decode_own [where cmd = 7 and i = i]) (auto simp: collected_def no_broadcast decode_addressed_def)
  moreover have "process_rx_buffer ?d False r =
      Some (hand_over send data ((set_reply own send r)\<lparr>rx_buffer_offset := [0, 0, 0]\<rparr>))"
    unfolding process_rx_buffer_def get Option.bind.bind_lunit Let_def len
    using first assms(3) t by (auto simp: r get u16_bytes)
  moreover have "(set_reply own send r)\<lparr>rx_buffer_offset := [0, 0, 0]\<rparr> =
      set_reply own send (r0\<lparr>rx_bufs := bufs, rx_buffer_offset := [0, 0, 0]\<rparr>)"
    by (simp add: set_reply_def r Let_def)
  ultimately show ?thesis by auto
qed

section \<open>A packet from end to end\<close>

text \<open>What the receiver does with a packet, by its send mode, and a receiver between two packets.\<close>

definition handed :: "u8 \<Rightarrow> bytes \<Rightarrow> call list" where
  "handed send data =
     (if send = 0 \<or> send = 3 then [Commands_process_packet data True]
      else if send = 1 then [Commands_send_packet_can_last data]
      else if send = 2 then [Commands_process_packet data False] else [])"

definition listening :: "u8 \<Rightarrow> can \<Rightarrow> bool" where
  "listening i r \<longleftrightarrow> can_ok r \<and> can_init_done r \<and> controller_id (app_conf r) = i \<and> rx_buffer_offset r = [0, 0, 0]"

lemma hand_over_handed: "hand_over send data r = emits (handed send data) r"
  by (simp add: hand_over_def handed_def emit_emits)

lemma set_reply_simps [simp]:
  "calls (set_reply own send r) = calls r" "can_ok (set_reply own send r) = can_ok r" "app_conf (set_reply own send r) = app_conf r"
  "can_init_done (set_reply own send r) = can_init_done r" "rx_buffer_offset (set_reply own send r) = rx_buffer_offset r"
  by (simp_all add: set_reply_def can_ok_def Let_def)

lemma emits_can [simp]:
  "can_ok (emits cs r) = can_ok r" "rx_buffer_offset (emits cs r) = rx_buffer_offset r"
  "rx_buffer_last_id (emits cs r) = rx_buffer_last_id r" "rx_buffer_response_type (emits cs r) = rx_buffer_response_type r"
  by (simp_all add: emits_def can_ok_def)

definition taken_over :: "u8 \<Rightarrow> u8 \<Rightarrow> bytes \<Rightarrow> can \<Rightarrow> can \<Rightarrow> bool" where
  "taken_over own send data r r' \<longleftrightarrow>
     listening (controller_id (app_conf r)) r' \<and> app_conf r' = app_conf r \<and> calls r' = calls r @ handed send data \<and>
     rx_buffer_last_id r' = (if send = 0 \<or> send = 3 then ucast own else rx_buffer_last_id r) \<and>
     rx_buffer_response_type r' = (if send = 3 then 0 else 1)"

lemma taken_overI:
  assumes "listening i r" and "can_ok (r\<lparr>rx_bufs := bufs, rx_buffer_offset := [0, 0, 0]\<rparr>)"
  shows "taken_over own send data r (hand_over send data (set_reply own send (r\<lparr>rx_bufs := bufs, rx_buffer_offset := [0, 0, 0]\<rparr>)))"
  using assms by (simp add: taken_over_def hand_over_handed listening_def) (simp add: set_reply_def Let_def)

lemma recv_short:
  assumes r: "listening i r" and n: "length data \<le> 6" and "send \<in> {0, 1, 2, 3}"
    and f: "delivers (Transmit_eid (eid_of CAN_PACKET_PROCESS_SHORT_BUFFER (ucast i)) (own # send # data)) f"
  shows "sat (taken_over own send data r) (decode_msg e (frame_eid f) (frame_data f) (int (frame_dlc f)) False r)"
proof -
  let ?d = "frame_data f"
  have d: "length ?d = 8" "frame_dlc f = Suc (Suc (length data))" "take (Suc (Suc (length data))) ?d = own # send # data"
    using f by simp_all
  obtain z where z: "?d = own # send # z" "take (length data) z = data" "length z = 6"
    using d(1,3) by (cases ?d; cases "tl ?d") auto
  obtain x where x: "get_byte ?d 2 = Some x" using d(1) by (simp add: get_byte_def)
  have "decode_msg e (frame_eid f) ?d (int (frame_dlc f)) False r = process_short_buffer ?d (int (frame_dlc f)) False r"
    using r f by (subst decode_own [where cmd = 8 and i = i]) (auto simp: listening_def no_broadcast decode_addressed_def)
  also have "\<dots> = Some (hand_over send data (set_reply own send r))"
    using z d(2) n x by (auto simp: process_short_buffer_def get_byte_def Let_def hand_over_def)
  finally have "decode_msg e (frame_eid f) ?d (int (frame_dlc f)) False r =
      Some (hand_over send data (set_reply own send (r\<lparr>rx_bufs := rx_bufs r, rx_buffer_offset := [0, 0, 0]\<rparr>)))"
    using r by (simp add: listening_def) (metis can.surjective can.update_convs(19,20))
  moreover have "can_ok (r\<lparr>rx_bufs := rx_bufs r, rx_buffer_offset := [0, 0, 0]\<rparr>)" using r by (simp add: listening_def can_ok_def RX_BUFFER_NUM_def)
  ultimately show ?thesis using taken_overI [OF r, of "rx_bufs r"] by simp
qed

lemma ucast_byte [simp]: "(ucast (ucast (b :: u8) :: u32) :: u8) = b"
  by (rule bit_word_eqI) (simp add: bit_simps)

lemma packet_delivered:
  assumes "can_init_done s" and "length data \<le> RX_BUFFER_SIZE" and "send \<in> {0, 1, 2, 3}"
  shows "\<exists>cs. comm_can_send_buffer i data send s = Some (emits cs s) \<and>
    (\<forall>r fs. listening i r \<longrightarrow> list_all2 delivers cs fs \<longrightarrow>
       sat (taken_over (controller_id (app_conf s)) send data r) (decode_frames e fs r))"
proof (cases "length data \<le> 6")
  case True
  let ?T = "Transmit_eid (eid_of 8 (ucast i)) (controller_id (app_conf s) # send # data)"
  have "comm_can_send_buffer i data send s = Some (emits [?T] s)"
    using True assms(1) by (simp add: comm_can_send_buffer_def Let_def transmit_emits)
  moreover have "sat (taken_over (controller_id (app_conf s)) send data r) (decode_frames e fs r)"
    if "listening i r" and dl: "list_all2 delivers [?T] fs" for r fs
  proof -
    obtain f where fs: "fs = [f]" "delivers ?T f" using dl by (cases fs) auto
    show ?thesis unfolding fs(1) decode_frames.simps
      by (rule sat_bind [OF recv_short [OF that(1) True assms(3) fs(2)]]) simp
  qed
  ultimately show ?thesis by blast
next
  case False
  let ?P = "Transmit_eid (eid_of 7 (ucast i)) [controller_id (app_conf s), send,
     word_of_nat (drop_bit 8 (length data)), word_of_nat (length data AND 0xFF), byte_of 8 (crc16 data), byte_of 0 (crc16 data)]"
  have ex1: "\<exists>a cs. send_fill i data 0 0 s = Some (a, emits cs s) \<and> 0 \<le> a \<and>
      (\<forall>r fs. collected i data r0 (min 0 (length data)) r \<longrightarrow> list_all2 delivers cs fs \<longrightarrow>
        sat (collected i data r0 (min a (length data))) (decode_frames e fs r))" for r0
    by (rule send_fill_delivers [OF assms(1,2)])
  then obtain a cs where fill: "send_fill i data 0 0 s = Some (a, emits cs s)" by blast
  have rfill: "sat (collected i data r0 (min a (length data))) (decode_frames e fs r)"
    if "collected i data r0 0 r" "list_all2 delivers cs fs" for r0 r fs
  proof -
    obtain a' cs' where "send_fill i data 0 0 s = Some (a', emits cs' s)" and *: "\<forall>r fs. collected i data r0 (min 0 (length data)) r \<longrightarrow>
        list_all2 delivers cs' fs \<longrightarrow> sat (collected i data r0 (min a' (length data))) (decode_frames e fs r)"
      using ex1 by blast
    then have "a' = a" "cs' = cs" using fill by simp_all
    then show ?thesis using * that by simp
  qed
  have ex2: "\<exists>ds. send_fill_long i data a (emits cs s) = Some (emits ds (emits cs s)) \<and>
      (\<forall>r fs. collected i data r0 (min a (length data)) r \<longrightarrow> list_all2 delivers ds fs \<longrightarrow>
        sat (collected i data r0 (length data)) (decode_frames e fs r))" for r0
    by (rule send_fill_long_delivers) (use assms in simp_all)
  then obtain ds where long: "send_fill_long i data a (emits cs s) = Some (emits ds (emits cs s))" by blast
  have rlong: "sat (collected i data r0 (length data)) (decode_frames e fs r)"
    if "collected i data r0 (min a (length data)) r" "list_all2 delivers ds fs" for r0 r fs
  proof -
    obtain ds' where "send_fill_long i data a (emits cs s) = Some (emits ds' (emits cs s))" and
      *: "\<forall>r fs. collected i data r0 (min a (length data)) r \<longrightarrow> list_all2 delivers ds' fs \<longrightarrow>
        sat (collected i data r0 (length data)) (decode_frames e fs r)" using ex2 by blast
    then have "ds' = ds" using long by (simp only: option.inject emits_inj)
    then show ?thesis using * that by simp
  qed
  have "comm_can_send_buffer i data send s = Some (emits (cs @ ds @ [?P]) s)"
    using False fill long assms(1) by (simp add: comm_can_send_buffer_def Let_def transmit_emits)
  moreover have "sat (taken_over (controller_id (app_conf s)) send data r) (decode_frames e fs r)"
    if r: "listening i r" and dl: "list_all2 delivers (cs @ ds @ [?P]) fs" for r fs
  proof -
    obtain us vs f where fs: "fs = us @ vs @ [f]" "list_all2 delivers cs us" "list_all2 delivers ds vs" "delivers ?P f"
      using dl by (auto simp: list_all2_append1 list_all2_Cons1)
    have "collected i data r 0 r"
      using r by (auto simp: collected_def listening_def intro!: exI [of _ "rx_bufs r"])
    note step1 = rfill [OF this fs(2)]
    note step2 = rlong [OF _ fs(3), of r]
    have step3: "sat (taken_over (controller_id (app_conf s)) send data r) (decode_frames e [f] r2)"
      if c: "collected i data r (length data) r2" for r2
    proof -
      obtain bufs where b: "decode_msg e (frame_eid f) (frame_data f) (int (frame_dlc f)) False r2 = Some (hand_over send data
          (set_reply (controller_id (app_conf s)) send (r\<lparr>rx_bufs := bufs, rx_buffer_offset := [0, 0, 0]\<rparr>)))"
        using recv_process [OF c _ assms(2) fs(4)] False by force
      have "sat (good r2) (decode_msg e (frame_eid f) (frame_data f) (int (frame_dlc f)) False r2)"
      proof -
        have "can_ok r2" "controller_id (app_conf r2) = i" using c by (simp_all add: collected_def)
        then show ?thesis
          using fs(4) by (subst decode_own [where cmd = 7 and i = i])
            (auto simp: no_broadcast decode_addressed_def intro: sat_process_rx_buffer)
      qed
      then have "can_ok (r\<lparr>rx_bufs := bufs, rx_buffer_offset := [0, 0, 0]\<rparr>)"
        by (simp add: b hand_over_handed good_def)
      then show ?thesis using taken_overI [OF r] by (simp add: b)
    qed
    show ?thesis unfolding fs(1) decode_frames_append
      by (rule sat_bind [OF step1], rule sat_bind [OF step2 step3])
  qed
  ultimately show ?thesis by blast
qed

fun send_packets :: "u8 \<Rightarrow> (u8 \<times> bytes) list \<Rightarrow> can \<Rightarrow> can option" where
  "send_packets i [] s = Some s"
| "send_packets i ((send, data) # ps) s = Option.bind (comm_can_send_buffer i data send s) (send_packets i ps)"

lemma packets_delivered:
  assumes "can_init_done s" and "\<forall>(send, data) \<in> set ps. length data \<le> RX_BUFFER_SIZE \<and> send \<in> {0, 1, 2, 3}"
  shows "\<exists>cs. send_packets i ps s = Some (emits cs s) \<and>
    (\<forall>r fs. listening i r \<longrightarrow> list_all2 delivers cs fs \<longrightarrow>
       sat (\<lambda>r'. listening i r' \<and> calls r' = calls r @ concat (map (\<lambda>(send, data). handed send data) ps)) (decode_frames e fs r))"
  using assms
proof (induction ps arbitrary: s)
  case Nil
  then show ?case by (intro exI [of _ "[]"]) auto
next
  case (Cons p ps)
  obtain send data where p: "p = (send, data)" by (cases p)
  then obtain cs where cs: "comm_can_send_buffer i data send s = Some (emits cs s)"
    "\<forall>r fs. listening i r \<longrightarrow> list_all2 delivers cs fs \<longrightarrow>
       sat (taken_over (controller_id (app_conf s)) send data r) (decode_frames e fs r)"
    using packet_delivered [of s data send i e] Cons.prems by auto
  obtain ds where ds: "send_packets i ps (emits cs s) = Some (emits ds (emits cs s))"
    "\<forall>r fs. listening i r \<longrightarrow> list_all2 delivers ds fs \<longrightarrow>
       sat (\<lambda>r'. listening i r' \<and> calls r' = calls r @ concat (map (\<lambda>(send, data). handed send data) ps)) (decode_frames e fs r)"
    using Cons.IH [of "emits cs s"] Cons.prems by auto
  have "sat (\<lambda>r'. listening i r' \<and> calls r' = calls r @ concat (map (\<lambda>(send, data). handed send data) (p # ps))) (decode_frames e fs r)"
    if r: "listening i r" and dl: "list_all2 delivers (cs @ ds) fs" for r fs
  proof -
    obtain us vs where fs: "fs = us @ vs" "list_all2 delivers cs us" "list_all2 delivers ds vs"
      using dl by (auto simp: list_all2_append1)
    have first: "sat (taken_over (controller_id (app_conf s)) send data r) (decode_frames e us r)" using cs(2) r fs(2) by blast
    show ?thesis unfolding fs(1) decode_frames_append
    proof (rule sat_bind [OF first])
      fix r1 assume t: "taken_over (controller_id (app_conf s)) send data r r1"
      then have l: "listening i r1" "calls r1 = calls r @ handed send data" using r by (simp_all add: taken_over_def listening_def)
      then have "sat (\<lambda>r'. listening i r' \<and> calls r' = calls r1 @ concat (map (\<lambda>(send, data). handed send data) ps)) (decode_frames e vs r1)"
        using ds(2) fs(3) by blast
      then show "sat (\<lambda>r'. listening i r' \<and> calls r' = calls r @ concat (map (\<lambda>(send, data). handed send data) (p # ps))) (decode_frames e vs r1)"
        by (rule sat_mono) (simp add: l(2) p)
    qed
  qed
  then show ?case using cs(1) ds(1) by (intro exI [of _ "cs @ ds"]) (simp add: p)
qed

section \<open>Commands with a value\<close>

text \<open>The functions that send one value, with the scale and the call they are meant to cause.\<close>

definition value_commands :: "((u8 \<Rightarrow> float32 \<Rightarrow> can \<Rightarrow> can option) \<times> float32 \<times> (float32 \<Rightarrow> call)) list" where
  "value_commands =
     [(comm_can_set_duty, 100000, Mc_set_duty), (comm_can_set_current, 1000, Mc_set_current),
      (comm_can_set_current_brake, 1000, Mc_set_brake_current), (comm_can_set_rpm, 1, Mc_set_pid_speed),
      (comm_can_set_pos, 1000000, Mc_set_pid_pos), (comm_can_set_current_rel, 100000, Mc_set_current_rel),
      (comm_can_set_current_brake_rel, 100000, Mc_set_brake_current_rel),
      (comm_can_set_handbrake, 1000, Mc_set_handbrake), (comm_can_set_handbrake_rel, 100000, Mc_set_handbrake_rel)]"

lemma to_int32_exact:
  assumes "\<bar>y\<bar> \<le> 2 ^ 30" shows "sint (to_int32 (rnd y)) = trunc (rnd y)"
proof -
  let ?t = "trunc (rnd y)"
  define e :: rat where "e = 1 / 2 ^ 150"
  have "e \<le> 1 / 100" unfolding e_def by (fact tiny)
  moreover have "\<bar>rnd y - y\<bar> \<le> \<bar>y\<bar> / 2 ^ 24 + e" unfolding e_def by (rule rnd_rel)
  moreover have "\<bar>y\<bar> / 2 ^ 24 \<le> 64" using assms by simp
  ultimately have "\<bar>rnd y\<bar> < 2 ^ 31 - 1" using assms by simp
  then have "of_int \<bar>?t\<bar> < (of_int (2 ^ 31 - 1) :: rat)" using trunc_le [of "rnd y"] by simp
  then have t: "\<bar>?t\<bar> < 2 ^ 31 - 1" by (simp only: of_int_less_iff)
  then have "- (2 ^ 31) < ?t" "?t < 2 ^ 31 - 1" by (simp_all only: abs_less_iff) simp_all
  then have "to_int32 (rnd y) = word_of_int ?t" "signed_take_bit 31 ?t = ?t"
    by (simp_all add: to_int32_def signed_take_bit_int_eq_self)
  then show ?thesis by (simp add: signed_of_int)
qed

lemma recv_value:
  assumes f: "delivers (Transmit_eid (eid_of cmd (ucast i)) (be32 w)) f" and "take_bit 21 cmd = cmd"
    and "controller_id (app_conf r) = i"
    and "(cmd, scale, c) \<in> {(0, 100000, Mc_set_duty), (1, 1000, Mc_set_current), (2, 1000, Mc_set_brake_current),
      (3, 1, Mc_set_pid_speed), (4, 1000000, Mc_set_pid_pos), (10, 100000, Mc_set_current_rel),
      (11, 100000, Mc_set_brake_current_rel), (12, 1000, Mc_set_handbrake), (13, 100000, Mc_set_handbrake_rel)}"
  shows "decode_msg e (frame_eid f) (frame_data f) (int (frame_dlc f)) False r =
    Some (emits [c (fdiv (f_of_int (sint w)) scale), Timeout_reset] r)"
proof -
  obtain z where z: "frame_data f = be32 w @ z" "frame_dlc f = 4" "frame_eid f = eid_of cmd (ucast i)"
    using delivers_data [OF f] by auto
  have get: "buffer_get_float32 (be32 w @ z) scale 0 = Some (fdiv (f_of_int (sint w)) scale, 4)" for scale
    using get32_be(1) [of "[]" w z] by (simp add: buffer_get_float32_def)
  have "decode_broadcast e i cmd (be32 w @ z) 4 = Some" using assms(4) by (auto simp: decode_broadcast_def fun_eq_iff)
  then have "decode_msg e (frame_eid f) (frame_data f) (int (frame_dlc f)) False r =
      decode_addressed e i cmd (be32 w @ z) 4 False r"
    using decode_own [OF z(3) assms(2,3), of e "int (frame_dlc f)"] by (simp add: z)
  then show ?thesis
    using assms(4) by (auto simp: decode_addressed_def set_value_def recv_set_current_def recv_set_current_rel_def get emit_emits)
qed

lemma send_value:
  assumes "(send, scale, c) \<in> set value_commands" and "can_init_done s" and "rnd x = x"
  obtains cmd where "send i x s = Some (emits [Transmit_eid (eid_of cmd (ucast i)) (be32 (to_int32 (fmul x scale)))] s)"
    and "take_bit 21 cmd = cmd"
    and "(cmd, scale, c) \<in> {(0, 100000, Mc_set_duty), (1, 1000, Mc_set_current), (2, 1000, Mc_set_brake_current),
      (3, 1, Mc_set_pid_speed), (4, 1000000, Mc_set_pid_pos), (10, 100000, Mc_set_current_rel),
      (11, 100000, Mc_set_brake_current_rel), (12, 1000, Mc_set_handbrake), (13, 100000, Mc_set_handbrake_rel)}"
proof -
  note defs = comm_can_set_duty_def comm_can_set_current_def comm_can_set_current_brake_def comm_can_set_rpm_def
    comm_can_set_pos_def comm_can_set_current_rel_def comm_can_set_current_brake_rel_def comm_can_set_handbrake_def
    comm_can_set_handbrake_rel_def buffer_append_float32_def
  have w: "buffer_append_int32 (replicate 4 0) v 0 = Some (be32 v, 4)" for v
    by (simp add: buf_simps write_bytes_def)
  have "fmul x 1 = x" using assms(3) by (simp add: fmul_def)
  then show ?thesis
    using assms(1,2) that by (auto simp: value_commands_def defs w transmit_emits)
qed

section \<open>Properties\<close>

text \<open>C13. Packets of up to 512 bytes, cut into frames by the sender, arrive complete, in order and
  exactly once at a receiver that is between two packets, for every content of the data registers behind
  the data; afterwards it is between two packets again.\<close>

theorem can_packets_roundtrip:
  assumes "can_init_done s" and "\<forall>(send, data) \<in> set ps. length data \<le> RX_BUFFER_SIZE \<and> send \<in> {0, 1, 2, 3}"
    and "can_ok r" and "can_init_done r" and "rx_buffer_offset r = [0, 0, 0]"
  shows "\<exists>s' sent. send_packets (controller_id (app_conf r)) ps s = Some s' \<and> calls s' = calls s @ sent \<and>
    (\<forall>fs. list_all2 delivers sent fs \<longrightarrow>
      (\<exists>r'. decode_frames e fs r = Some r' \<and> can_ok r' \<and> rx_buffer_offset r' = [0, 0, 0] \<and>
        calls r' = calls r @ concat (map (\<lambda>(send, data). handed send data) ps)))"
proof -
  have "listening (controller_id (app_conf r)) r" using assms(3-5) by (simp add: listening_def)
  moreover obtain cs where cs: "send_packets (controller_id (app_conf r)) ps s = Some (emits cs s)"
    "\<forall>r' fs. listening (controller_id (app_conf r)) r' \<longrightarrow> list_all2 delivers cs fs \<longrightarrow>
       sat (\<lambda>r''. listening (controller_id (app_conf r)) r'' \<and>
         calls r'' = calls r' @ concat (map (\<lambda>(send, data). handed send data) ps)) (decode_frames e fs r')"
    using packets_delivered [OF assms(1,2)] by blast
  ultimately show ?thesis
    by (intro exI [of _ "emits cs s"] exI [of _ cs]) (auto simp: sat_def listening_def)
qed

lemma listening_boot: "listening (controller_id app) (comm_can_init (can_boot app mc))"
proof -
  have "can_ok (comm_can_init (can_boot app mc))" using can_inv_init by (simp add: can_inv_def ring_ok_def)
  then show ?thesis
    by (simp add: listening_def comm_can_init_def Let_def can_boot_def emit_def RX_BUFFER_NUM_def numeral_eq_Suc)
qed

theorem can_packets_roundtrip_witness:
  "\<exists>s' sent. send_packets (controller_id app0) [(0, replicate 300 5), (2, [1, 2])] can0 = Some s' \<and>
    calls s' = calls can0 @ sent"
proof -
  have 1: "can_init_done can0" "controller_id (app_conf can0) = controller_id app0" "rx_buffer_offset can0 = [0, 0, 0]"
      "can_ok can0"
    using listening_boot [of app0 mc0] by (simp_all add: listening_def)
  have 3: "\<forall>(send, data) \<in> set [(0, replicate 300 5), (2, [1, 2])]. length data \<le> RX_BUFFER_SIZE \<and> send \<in> {0, 1, 2, 3 :: u8}"
    by (simp add: RX_BUFFER_SIZE_def PACKET_MAX_PL_LEN_def)
  show ?thesis using can_packets_roundtrip [OF 1(1) 3 1(4,1,3)] unfolding 1(2) by blast
qed

text \<open>C14. A request sent with mode 0 or 3 and the reply that the receiver gives to it through
  \<open>send_packet_wrapper\<close>: the reply arrives at the controller that sent the request, where it is
  passed on to the host for mode 0 and processed locally for mode 3.\<close>

theorem can_request_reply:
  assumes "listening i s" and "listening j r" and "length request \<le> RX_BUFFER_SIZE" and "length reply \<le> RX_BUFFER_SIZE"
    and "send = 0 \<or> send = 3"
  shows "\<exists>s1 sent. comm_can_send_buffer j request send s = Some s1 \<and> calls s1 = calls s @ sent \<and>
    (\<forall>fs. list_all2 delivers sent fs \<longrightarrow>
      (\<exists>r1 r2 answer. decode_frames e fs r = Some r1 \<and> calls r1 = calls r @ [Commands_process_packet request True] \<and>
        send_packet_wrapper reply r1 = Some r2 \<and> calls r2 = calls r1 @ answer \<and>
        (\<forall>gs. list_all2 delivers answer gs \<longrightarrow>
          (\<exists>s2. decode_frames e' gs s1 = Some s2 \<and>
            calls s2 = calls s1 @ [if send = 0 then Commands_send_packet_can_last reply else Commands_process_packet reply True]))))"
proof -
  have s: "can_init_done s" "controller_id (app_conf s) = i" and r: "controller_id (app_conf r) = j"
    using assms(1,2) by (simp_all add: listening_def)
  obtain cs where cs: "comm_can_send_buffer j request send s = Some (emits cs s)"
    "\<forall>r fs. listening j r \<longrightarrow> list_all2 delivers cs fs \<longrightarrow> sat (taken_over i send request r) (decode_frames e fs r)"
    using packet_delivered [OF s(1) assms(3), of send j e] assms(5) s(2) by auto
  have l1: "listening i (emits cs s)" using assms(1) by (simp add: listening_def)
  have "\<exists>r1 r2 answer. decode_frames e fs r = Some r1 \<and> calls r1 = calls r @ [Commands_process_packet request True] \<and>
      send_packet_wrapper reply r1 = Some r2 \<and> calls r2 = calls r1 @ answer \<and>
      (\<forall>gs. list_all2 delivers answer gs \<longrightarrow> (\<exists>s2. decode_frames e' gs (emits cs s) = Some s2 \<and>
        calls s2 = calls (emits cs s) @ [if send = 0 then Commands_send_packet_can_last reply else Commands_process_packet reply True]))"
    if fs: "list_all2 delivers cs fs" for fs
  proof -
    obtain r1 where r1: "decode_frames e fs r = Some r1" "taken_over i send request r r1"
      using cs(2) assms(2) fs by (auto simp: sat_def)
    define mode :: u8 where "mode = (if send = 0 then 1 else 0)"
    have r1': "can_init_done r1" "ucast (rx_buffer_last_id r1) = i" "ucast (rx_buffer_response_type r1) = mode"
      "calls r1 = calls r @ [Commands_process_packet request True]"
      using r1(2) assms(5) by (auto simp: taken_over_def listening_def handed_def mode_def)
    have "mode \<in> {0, 1, 2, 3}" by (cases "send = 0") (simp_all add: mode_def)
    then obtain answer where answer: "comm_can_send_buffer i reply mode r1 = Some (emits answer r1)"
      "\<forall>s gs. listening i s \<longrightarrow> list_all2 delivers answer gs \<longrightarrow>
         sat (taken_over (controller_id (app_conf r1)) mode reply s) (decode_frames e' gs s)"
      using packet_delivered [OF r1'(1) assms(4), of mode i e'] by blast
    have "\<exists>s2. decode_frames e' gs (emits cs s) = Some s2 \<and> calls s2 = calls (emits cs s) @
        [if send = 0 then Commands_send_packet_can_last reply else Commands_process_packet reply True]"
      if "list_all2 delivers answer gs" for gs
      using answer(2) l1 that assms(5) by (fastforce simp: sat_def taken_over_def handed_def mode_def)
    then show ?thesis
      using r1(1) r1' answer(1) by (intro exI [of _ r1] exI [of _ "emits answer r1"] exI [of _ answer]) (simp add: send_packet_wrapper_def)
  qed
  then show ?thesis using cs(1) by (intro exI [of _ "emits cs s"] exI [of _ cs]) simp
qed

theorem can_request_reply_witness:
  "\<exists>s1 sent. comm_can_send_buffer 7 (replicate 300 1) 3 can0 = Some s1 \<and> calls s1 = calls can0 @ sent"
proof -
  have i: "listening 5 can0" using listening_boot [of app0 mc0] by (simp add: app0_def)
  have j: "listening 7 (comm_can_init (can_boot (app0\<lparr>controller_id := 7\<rparr>) mc0))"
    using listening_boot [of "app0\<lparr>controller_id := 7\<rparr>" mc0] by simp
  have l: "length (replicate 300 (1 :: u8)) \<le> RX_BUFFER_SIZE" by (simp add: RX_BUFFER_SIZE_def PACKET_MAX_PL_LEN_def)
  show ?thesis using can_request_reply [OF i j l l, of 3] by blast
qed

text \<open>C16. Every command with a value reaches the motor interface of the controller it is sent to, followed
  by a reset of its timeout. The value is off by at most 1.01 units of the command's scale plus
  one part in \<open>2 ^ 21\<close> of itself (a unit and a quarter at 500 A, but about 170 units, that is 0.00017 degrees, for a position of 360
  degrees), if the scaled value is below \<open>2 ^ 30\<close>.\<close>

theorem can_commands_roundtrip:
  assumes "(send, scale, c) \<in> set value_commands" and "rnd x = x" and "\<bar>x * scale\<bar> \<le> 2 ^ 30" and "can_init_done s"
  shows "\<exists>s' T. send (controller_id (app_conf r)) x s = Some s' \<and> calls s' = calls s @ [T] \<and>
    (\<forall>f. delivers T f \<longrightarrow> (\<exists>r' y. decode_msg e (frame_eid f) (frame_data f) (int (frame_dlc f)) False r = Some r' \<and>
       calls r' = calls r @ [c y, Timeout_reset] \<and> \<bar>y - x\<bar> \<le> (101 / 100 + \<bar>x * scale\<bar> / 2 ^ 21) / scale))"
proof -
  let ?i = "controller_id (app_conf r)" and ?w = "to_int32 (fmul x scale)"
  obtain cmd where cmd: "send ?i x s = Some (emits [Transmit_eid (eid_of cmd (ucast ?i)) (be32 ?w)] s)" "take_bit 21 cmd = cmd"
    "(cmd, scale, c) \<in> {(0, 100000, Mc_set_duty), (1, 1000, Mc_set_current), (2, 1000, Mc_set_brake_current),
      (3, 1, Mc_set_pid_speed), (4, 1000000, Mc_set_pid_pos), (10, 100000, Mc_set_current_rel),
      (11, 100000, Mc_set_brake_current_rel), (12, 1000, Mc_set_handbrake), (13, 100000, Mc_set_handbrake_rel)}"
    using send_value [OF assms(1,4,2)] by metis
  have "sint ?w = trunc (fmul x scale)" unfolding fmul_def by (rule to_int32_exact [OF assms(3)])
  moreover have "1 / 2 ^ 20 \<le> scale" "scale \<le> 2 ^ 40" using cmd(3) by auto
  moreover have "\<bar>x * scale\<bar> \<le> 2 ^ 31" using assms(3) by simp
  ultimately have "\<bar>fdiv (f_of_int (sint ?w)) scale - x\<bar> \<le> (101 / 100 + \<bar>x * scale\<bar> / 2 ^ 21) / scale"
    using scaled_error [of scale x] by simp
  then show ?thesis
    using cmd(1) recv_value [OF _ cmd(2) refl cmd(3)] by (intro exI conjI) auto
qed

theorem can_commands_roundtrip_witness:
  "\<exists>s' T. comm_can_set_current (controller_id app0) 10 can0 = Some s' \<and>
     calls s' = calls can0 @ [T]"
proof -
  have "can_init_done can0" by (simp add: comm_can_init_def Let_def)
  moreover have "(comm_can_set_current, 1000, Mc_set_current) \<in> set value_commands" by (simp add: value_commands_def)
  moreover have "rnd 10 = 10" using rnd_int [of 10] by simp
  ultimately show ?thesis
    using can_commands_roundtrip [of comm_can_set_current 1000 Mc_set_current 10 can0 "can_boot app0 mc0"]
    by (simp add: can_boot_def) blast
qed

text \<open>The command that sets a current and its off delay writes the current first, the receiver reads
  the off delay first: for 10 A and half a second the receiver sets no off delay and asks for
  more than 600000 A.\<close>

theorem can_off_delay_swapped:
  assumes "can_init_done s"
  shows "\<exists>s' T x. comm_can_set_current_off_delay (controller_id (app_conf r)) 10 (1 / 2) s = Some s' \<and> calls s' = calls s @ [T] \<and>
    600000 < x \<and> (\<forall>f. delivers T f \<longrightarrow>
      (\<exists>r'. decode_msg e (frame_eid f) (frame_data f) (int (frame_dlc f)) False r = Some r' \<and>
        calls r' = calls r @ [Mc_set_current_off_delay 0, Mc_set_current x, Timeout_reset]))"
proof -
  let ?i = "controller_id (app_conf r)" and ?d = "[0, 0, 0x27, 0x10, 1, 0xF4] :: bytes"
  define x where "x = fdiv (f_of_int 655360500) 1000"
  have m: "fmul 10 1000 = 10000" "fmul (1 / 2) 1000 = 500" using rnd_int [of 10000] rnd_int [of 500] by (simp_all add: fmul_def)
  have i: "to_int32 10000 = 10000" "to_int16 500 = 500" by (simp_all add: to_int16_def to_int32_def trunc_def)
  have "be32 10000 @ be16 500 = ?d" by (simp add: be32_def be16_def byte_of_def)
  then have send: "comm_can_set_current_off_delay ?i 10 (1 / 2) s = Some (emits [Transmit_eid (eid_of 1 (ucast ?i)) ?d] s)"
    using assms by (simp add: comm_can_set_current_off_delay_def buffer_append_float16_def m i buf_simps write_bytes_def transmit_emits)
  have "600000 < x"
  proof -
    define e z :: rat where "e = 1 / 2 ^ 150" and "z = rnd 655360500"
    have "e \<le> 1 / 100" unfolding e_def by (fact tiny)
    moreover have "\<bar>z - 655360500\<bar> \<le> \<bar>655360500\<bar> / 2 ^ 24 + e" unfolding e_def z_def by (rule rnd_rel)
    moreover have "\<bar>rnd (z / 1000) - z / 1000\<bar> \<le> \<bar>z / 1000\<bar> / 2 ^ 24 + e" unfolding e_def by (rule rnd_rel)
    ultimately have "600000 < rnd (z / 1000)" by (simp add: abs_le_iff)
    then show ?thesis by (simp add: x_def fdiv_def f_of_int_def z_def)
  qed
  moreover have "decode_msg e (frame_eid f) (frame_data f) (int (frame_dlc f)) False r =
      Some (emits [Mc_set_current_off_delay 0, Mc_set_current x, Timeout_reset] r)"
    if dl: "delivers (Transmit_eid (eid_of 1 (ucast ?i)) ?d) f" for f
  proof -
    obtain z where z: "frame_data f = ?d @ z" "frame_dlc f = 6" "frame_eid f = eid_of 1 (ucast ?i)"
      using delivers_data [OF dl] by auto
    have "buffer_get_float16 (?d @ z) 1000 0 = Some (0, 2)"
      by (simp add: buffer_get_float16_def buffer_get_int16_def get_byte_def f_of_int_def fdiv_def)
    moreover have "buffer_get_float32 (?d @ z) 1000 2 = Some (x, 6)"
      by (simp add: buffer_get_float32_def buffer_get_int32_def get_byte_def x_def)
    ultimately have "recv_set_current (?d @ z) 6 r = Some (emits [Mc_set_current_off_delay 0, Mc_set_current x, Timeout_reset] r)"
      by (simp add: recv_set_current_def emit_emits)
    moreover have "decode_broadcast e ?i 1 (?d @ z) 6 = Some" by (simp add: decode_broadcast_def fun_eq_iff)
    ultimately show ?thesis
      using decode_own [OF z(3) _ refl, of e "int (frame_dlc f)"] by (simp add: z decode_addressed_def)
  qed
  ultimately show ?thesis using send by (intro exI [of _ x] exI [of _ "emits [Transmit_eid (eid_of 1 (ucast ?i)) ?d] s"]) auto
qed

end
