(* ===== verification/Can_Ring.thy ===== *)
theory Can_Ring
  imports Can_Safe
begin

text \<open>
  The ring between the reading and the processing thread of \<^verbatim>\<open>comm/comm_can.c\<close>: which of the frames
  that arrive between two rounds of the processing thread it gets to see.
\<close>

text \<open>What the loops over \<open>comm_can_get_rx_frame\<close> see, in at most \<open>n\<close> rounds.\<close>

fun take_frames :: "nat \<Rightarrow> can \<Rightarrow> (frame list \<times> can) option" where
  "take_frames 0 s = Some ([], s)"
| "take_frames (Suc n) s =
     (case comm_can_get_rx_frame 0 s of
        None \<Rightarrow> None
      | Some (None, s) \<Rightarrow> Some ([], s)
      | Some (Some f, s) \<Rightarrow> do { (fs, s) \<leftarrow> take_frames n s; Some (f # fs, s) })"

text \<open>The ring has the shape the module relies on.\<close>

definition ring_shape :: "can \<Rightarrow> bool" where
  "ring_shape s \<longleftrightarrow> length (rx_frames s) = RX_FRAMES_SIZE \<and> frame_read s < RX_FRAMES_SIZE \<and> frame_write s < RX_FRAMES_SIZE"

lemma wrap: "w < n \<Longrightarrow> (if w + 1 = n then 0 else w + 1) = (w + 1) mod (n :: nat)"
  by (simp add: mod_if)

lemma store_rx_frame_shape:
  assumes "ring_shape s"
  shows "\<exists>s'. store_rx_frame f s = Some s' \<and> ring_shape s' \<and> rx_frames s' = (rx_frames s)[frame_write s := f] \<and>
    frame_read s' = frame_read s \<and> frame_write s' = (frame_write s + 1) mod RX_FRAMES_SIZE"
  using assms wrap [of "frame_write s" RX_FRAMES_SIZE]
  by (auto simp: store_rx_frame_def ring_shape_def emit_def Let_def RX_FRAMES_SIZE_def)

lemma store_rx_frames_append:
  "store_rx_frames (fs @ gs) s = Option.bind (store_rx_frames fs s) (store_rx_frames gs)"
proof (induction fs arbitrary: s)
  case (Cons f fs)
  then have "store_rx_frames (fs @ gs) = (\<lambda>s. Option.bind (store_rx_frames fs s) (store_rx_frames gs))" by (rule ext)
  then show ?case by (simp add: Option.bind_assoc)
qed simp

text \<open>After \<open>n\<close> frames, the cells behind the old write index hold the last ones of them.\<close>

lemma store_rx_frames_ring:
  assumes "ring_shape s"
  shows "\<exists>s'. store_rx_frames fs s = Some s' \<and> ring_shape s' \<and> frame_read s' = frame_read s \<and>
    frame_write s' = (frame_write s + length fs) mod RX_FRAMES_SIZE \<and>
    (\<forall>j < length fs. length fs \<le> j + RX_FRAMES_SIZE \<longrightarrow> rx_frames s' ! ((frame_write s + j) mod RX_FRAMES_SIZE) = fs ! j)"
proof (induction fs rule: rev_induct)
  case Nil
  then show ?case using assms by (simp add: ring_shape_def)
next
  case (snoc f fs)
  let ?N = "RX_FRAMES_SIZE" and ?n = "length fs" and ?w = "frame_write s"
  obtain s1 where s1: "store_rx_frames fs s = Some s1" "ring_shape s1" "frame_read s1 = frame_read s"
    "frame_write s1 = (?w + ?n) mod ?N"
    "\<And>j. j < ?n \<Longrightarrow> ?n \<le> j + ?N \<Longrightarrow> rx_frames s1 ! ((?w + j) mod ?N) = fs ! j" using snoc.IH by blast
  obtain s2 where s2: "store_rx_frame f s1 = Some s2" "ring_shape s2" "rx_frames s2 = (rx_frames s1)[(?w + ?n) mod ?N := f]"
    "frame_read s2 = frame_read s1" "frame_write s2 = ((?w + ?n) mod ?N + 1) mod ?N"
    using store_rx_frame_shape [OF s1(2), of f] s1(4) by auto
  have N: "0 < ?N" by (simp add: RX_FRAMES_SIZE_def)
  have "rx_frames s2 ! ((?w + j) mod ?N) = (fs @ [f]) ! j" if j: "j < Suc ?n" "Suc ?n \<le> j + ?N" for j
  proof (cases "j = ?n")
    case True
    then show ?thesis using s1(2) N by (simp add: s2(3) ring_shape_def)
  next
    case False
    then have lt: "j < ?n" "?n - j < ?N" using j by simp_all
    have "(?w + j) mod ?N \<noteq> (?w + ?n) mod ?N"
    proof
      assume "(?w + j) mod ?N = (?w + ?n) mod ?N"
      then have "?N dvd (?w + ?n) - (?w + j)" using lt(1) by (intro mod_eq_dvd_iff_nat [THEN iffD1]) simp_all
      then show False using lt by (auto dest: dvd_imp_le)
    qed
    then show ?thesis using s1(5) [of j] lt j by (simp add: s2(3) nth_append)
  qed
  moreover have "frame_write s2 = (?w + Suc ?n) mod ?N" by (simp add: s2(5) mod_simps)
  ultimately show ?case
    using s1 s2 by (auto simp: store_rx_frames_append)
qed

lemma take_frames_ring:
  assumes "ring_shape s" and "frame_write s = (frame_read s + k) mod RX_FRAMES_SIZE" and "k < RX_FRAMES_SIZE" and "k < n"
  shows "\<exists>s'. take_frames n s = Some (map (\<lambda>j. rx_frames s ! ((frame_read s + j) mod RX_FRAMES_SIZE)) [0..<k], s') \<and>
    ring_shape s' \<and> frame_read s' = frame_write s' \<and> frame_write s' = frame_write s"
  using assms
proof (induction k arbitrary: s n)
  case 0
  then have "frame_read s = frame_write s" by (simp add: ring_shape_def)
  then show ?case using 0 by (cases n) (simp_all add: comm_can_get_rx_frame_def)
next
  case (Suc k)
  let ?N = "RX_FRAMES_SIZE" and ?r = "frame_read s"
  obtain n' where n: "n = Suc n'" using Suc.prems(4) by (cases n) auto
  have r: "?r < ?N" "length (rx_frames s) = ?N" using Suc.prems(1) by (simp_all add: ring_shape_def)
  have ne: "?r \<noteq> frame_write s"
    using r(1) Suc.prems(2,3) by (auto simp: RX_FRAMES_SIZE_def mod_if split: if_splits)
  let ?s = "s\<lparr>frame_read := (?r + 1) mod ?N\<rparr>"
  have get: "comm_can_get_rx_frame 0 s = Some (Some (rx_frames s ! ?r), ?s)"
    using ne r wrap [OF r(1)] by (simp add: comm_can_get_rx_frame_def Let_def)
  have shape: "ring_shape ?s" using Suc.prems(1) by (simp add: ring_shape_def RX_FRAMES_SIZE_def)
  have "frame_write ?s = (frame_read ?s + k) mod ?N" using Suc.prems(2) by (simp add: mod_simps)
  then obtain s' where s': "take_frames n' ?s = Some (map (\<lambda>j. rx_frames s ! (((?r + 1) mod ?N + j) mod ?N)) [0..<k], s')"
    "ring_shape s'" "frame_read s' = frame_write s'" "frame_write s' = frame_write s"
    using Suc.IH [OF shape, of n'] Suc.prems(3,4) n by auto
  have "map (\<lambda>j. rx_frames s ! ((?r + j) mod ?N)) [0..<Suc k] =
      rx_frames s ! ?r # map (\<lambda>j. rx_frames s ! (((?r + 1) mod ?N + j) mod ?N)) [0..<k]"
    using r(1) by (simp add: upt_rec [of 0 "Suc k"] map_Suc_upt [symmetric] mod_simps del: upt_Suc)
  then show ?case using s' by (simp add: n get)
qed

section \<open>Property\<close>

text \<open>C17. Up to 49 frames that arrive between two rounds are seen by the processing thread, all of them and
  in order. The fiftieth closes the ring, which then looks empty: of \<open>n\<close> frames only the last
  \<open>n mod 50\<close> are seen.\<close>

theorem can_ring_frames_seen:
  assumes "can_ok s" and "frame_read s = frame_write s"
  shows "\<exists>s1 s2. store_rx_frames fs s = Some s1 \<and>
    take_frames RX_FRAMES_SIZE s1 = Some (drop (length fs - length fs mod RX_FRAMES_SIZE) fs, s2) \<and> frame_read s2 = frame_write s2"
proof -
  let ?N = "RX_FRAMES_SIZE" and ?n = "length fs"
  define k where "k = ?n mod ?N"
  have k: "k < ?N" "k \<le> ?n" "?n < k + ?n div ?N * ?N + 1" by (simp_all add: k_def RX_FRAMES_SIZE_def)
  have "ring_shape s" using assms(1) by (simp add: can_ok_def ring_shape_def)
  then obtain s1 where s1: "store_rx_frames fs s = Some s1" "ring_shape s1" "frame_read s1 = frame_write s"
    "frame_write s1 = (frame_write s + ?n) mod ?N"
    "\<And>j. j < ?n \<Longrightarrow> ?n \<le> j + ?N \<Longrightarrow> rx_frames s1 ! ((frame_write s + j) mod ?N) = fs ! j"
    using store_rx_frames_ring [of s fs] assms(2) by auto
  have w: "(frame_write s + (?n - k + j)) mod ?N = (frame_write s + j) mod ?N" for j
  proof -
    have "?n - k = ?n div ?N * ?N" by (simp add: k_def minus_mod_eq_div_mult)
    then have "frame_write s + (?n - k + j) = (frame_write s + j) + ?n div ?N * ?N" by (simp only: ac_simps)
    then show ?thesis by (simp only: mod_mult_self1)
  qed
  have "frame_write s1 = (frame_read s1 + k) mod ?N" by (simp add: s1(3,4) k_def mod_simps)
  then obtain s2 where s2: "take_frames ?N s1 = Some (map (\<lambda>j. rx_frames s1 ! ((frame_read s1 + j) mod ?N)) [0..<k], s2)"
    "frame_read s2 = frame_write s2" using take_frames_ring [OF s1(2) _ k(1) k(1)] by auto
  have "map (\<lambda>j. rx_frames s1 ! ((frame_read s1 + j) mod ?N)) [0..<k] = drop (?n - k) fs"
  proof (rule nth_equalityI)
    fix j assume "j < length (map (\<lambda>j. rx_frames s1 ! ((frame_read s1 + j) mod ?N)) [0..<k])"
    then have j: "j < k" by simp
    then have "rx_frames s1 ! ((frame_write s + (?n - k + j)) mod ?N) = fs ! (?n - k + j)"
      using k(1,2) by (intro s1(5)) simp_all
    note this [unfolded w]
    then show "map (\<lambda>j. rx_frames s1 ! ((frame_read s1 + j) mod ?N)) [0..<k] ! j = drop (?n - k) fs ! j"
      using j k(2) by (simp add: s1(3))
  qed (use k(2) in simp)
  then show ?thesis using s1(1) s2 by (simp add: k_def)
qed

theorem can_ring_frames_seen_witness:
  "\<exists>s1 s2. store_rx_frames (replicate 50 \<lparr>frame_ide = True, frame_eid = 1, frame_dlc = 0, frame_data = replicate 8 0\<rparr>)
       can0 = Some s1 \<and> take_frames RX_FRAMES_SIZE s1 = Some ([], s2)"
proof -
  let ?s = "can0"
  let ?fs = "replicate 50 \<lparr>frame_ide = True, frame_eid = 1, frame_dlc = 0, frame_data = replicate 8 0\<rparr> :: frame list"
  have "can_ok ?s" using can_inv_init by (simp add: can_inv_def ring_ok_def)
  moreover have "frame_read ?s = frame_write ?s" by (simp add: comm_can_init_def Let_def emit_def)
  ultimately obtain s1 s2 where "store_rx_frames ?fs ?s = Some s1"
    "take_frames RX_FRAMES_SIZE s1 = Some (drop (length ?fs - length ?fs mod RX_FRAMES_SIZE) ?fs, s2)"
    using can_ring_frames_seen [of ?s ?fs] by blast
  moreover have "drop (length ?fs - length ?fs mod RX_FRAMES_SIZE) ?fs = []"
    by (simp only: length_replicate RX_FRAMES_SIZE_def) simp
  ultimately show ?thesis by auto
qed

end
