(* ===== verification/Single.thy ===== *)
theory Single
  imports Float32
begin

text \<open>
  Single precision numbers with infinities and NaN, for the code whose control flow depends on
  divisions by measured values, and the helpers of \<^verbatim>\<open>util/utils_math.h\<close> and
  \<^verbatim>\<open>util/utils_math.c\<close> it uses. Rounding is that of \<open>Float32\<close>; a result of magnitude
  \<open>2 ^ 128\<close> or more is infinite. Zeros have no sign: the divisors of the code that may be zero are
  positive zeros.
\<close>

section \<open>Numbers\<close>

datatype single = Num float32 | Inf bool | NaN

text \<open>\<open>Inf True\<close> is negative.\<close>

definition single_of :: "rat \<Rightarrow> single" where
  "single_of x = (let r = rnd x in if 2 ^ 128 \<le> \<bar>r\<bar> then Inf (r < 0) else Num r)"

fun x_neg :: "single \<Rightarrow> single" where
  "x_neg (Num a) = Num (- a)"
| "x_neg (Inf s) = Inf (\<not> s)"
| "x_neg NaN = NaN"

fun fabsf :: "single \<Rightarrow> single" where
  "fabsf (Num a) = Num \<bar>a\<bar>"
| "fabsf (Inf s) = Inf False"
| "fabsf NaN = NaN"

fun x_add :: "single \<Rightarrow> single \<Rightarrow> single" where
  "x_add (Num a) (Num b) = single_of (a + b)"
| "x_add (Num a) (Inf t) = Inf t"
| "x_add (Inf s) (Num b) = Inf s"
| "x_add (Inf s) (Inf t) = (if s = t then Inf s else NaN)"
| "x_add NaN b = NaN"
| "x_add (Num a) NaN = NaN"
| "x_add (Inf s) NaN = NaN"

definition x_sub :: "single \<Rightarrow> single \<Rightarrow> single" where
  "x_sub a b = x_add a (x_neg b)"

fun x_mul :: "single \<Rightarrow> single \<Rightarrow> single" where
  "x_mul (Num a) (Num b) = single_of (a * b)"
| "x_mul (Num a) (Inf t) = (if a = 0 then NaN else Inf ((a < 0) \<noteq> t))"
| "x_mul (Inf s) (Num b) = (if b = 0 then NaN else Inf (s \<noteq> (b < 0)))"
| "x_mul (Inf s) (Inf t) = Inf (s \<noteq> t)"
| "x_mul NaN b = NaN"
| "x_mul (Num a) NaN = NaN"
| "x_mul (Inf s) NaN = NaN"

fun x_div :: "single \<Rightarrow> single \<Rightarrow> single" where
  "x_div (Num a) (Num b) = (if b = 0 then (if a = 0 then NaN else Inf (a < 0)) else single_of (a / b))"
| "x_div (Num a) (Inf t) = Num 0"
| "x_div (Inf s) (Num b) = Inf (s \<noteq> (b < 0))"
| "x_div (Inf s) (Inf t) = NaN"
| "x_div NaN b = NaN"
| "x_div (Num a) NaN = NaN"
| "x_div (Inf s) NaN = NaN"

text \<open>Comparisons with NaN are false.\<close>

fun x_less :: "single \<Rightarrow> single \<Rightarrow> bool" where
  "x_less (Num a) (Num b) = (a < b)"
| "x_less (Num a) (Inf t) = (\<not> t)"
| "x_less (Inf s) (Num b) = s"
| "x_less (Inf s) (Inf t) = (s \<and> \<not> t)"
| "x_less NaN b = False"
| "x_less (Num a) NaN = False"
| "x_less (Inf s) NaN = False"

definition x_le :: "single \<Rightarrow> single \<Rightarrow> bool" where
  "x_le a b \<longleftrightarrow> x_less a b \<or> (a = b \<and> a \<noteq> NaN)"

text \<open>A constant of the source.\<close>

definition fl :: "rat \<Rightarrow> single" where "fl x = Num (rnd x)"

section \<open>Helpers of the code\<close>

definition UTILS_NAN_ZERO :: "single \<Rightarrow> single" where
  "UTILS_NAN_ZERO x = (if x = NaN then Num 0 else x)"

definition UTILS_LP_FAST :: "single \<Rightarrow> single \<Rightarrow> single \<Rightarrow> single" where
  "UTILS_LP_FAST val sample filter_constant = x_sub val (x_mul filter_constant (x_sub val sample))"

definition SIGN :: "single \<Rightarrow> single" where
  "SIGN x = (if x_less x (Num 0) then Num (- 1) else Num 1)"

definition utils_map :: "single \<Rightarrow> single \<Rightarrow> single \<Rightarrow> single \<Rightarrow> single \<Rightarrow> single" where
  "utils_map x in_min in_max out_min out_max =
     x_add (x_div (x_mul (x_sub x in_min) (x_sub out_max out_min)) (x_sub in_max in_min)) out_min"

definition utils_min_abs :: "single \<Rightarrow> single \<Rightarrow> single" where
  "utils_min_abs va vb = (if x_less (fabsf va) (fabsf vb) then va else vb)"

section \<open>Facts\<close>

text \<open>\<open>fin k x\<close>: a number of magnitude at most \<open>2 ^ k\<close>.\<close>

definition fin :: "nat \<Rightarrow> single \<Rightarrow> bool" where
  "fin k x \<longleftrightarrow> (\<exists>r. x = Num r \<and> \<bar>r\<bar> \<le> 2 ^ k)"

lemma fin_Num [simp]: "fin k (Num r) \<longleftrightarrow> \<bar>r\<bar> \<le> 2 ^ k"
  by (simp add: fin_def)

lemma fin_mono: "fin j x \<Longrightarrow> j \<le> k \<Longrightarrow> fin k x"
  unfolding fin_def by (metis one_le_numeral order_trans power_increasing)

lemma fin_NaN: "fin k x \<Longrightarrow> x \<noteq> NaN"
  by (auto simp: fin_def)

lemma round_even_le: "\<bar>x\<bar> \<le> of_int n \<Longrightarrow> \<bar>round_even x\<bar> \<le> n"
  by (auto simp: round_even_def Let_def abs_le_iff) linarith+

lemma fexp_le:
  assumes "0 < x" and "x \<le> 2 ^ k"
  shows "fexp x \<le> int k"
proof (rule ccontr)
  assume "\<not> fexp x \<le> int k"
  then have "2 powi (int k + 1) \<le> (2 :: rat) powi fexp x" by (intro power_int_increasing) auto
  then have "2 ^ k * 2 \<le> (2 :: rat) powi fexp x" by (simp add: power_int_add)
  moreover have "(0 :: rat) < 2 ^ k" by simp
  ultimately show False using fexp_bounds(1) [OF assms(1)] assms(2) by linarith
qed

text \<open>Rounding does not leave an interval whose ends are powers of two.\<close>

lemma rnd_le_pow:
  assumes "\<bar>x\<bar> \<le> 2 ^ k"
  shows "\<bar>rnd x\<bar> \<le> 2 ^ k"
proof (cases "x = 0")
  case False
  define e where "e = max (fexp \<bar>x\<bar>) (- 126) - 23"
  have u: "ulp x = 2 powi e" by (simp add: ulp_def e_def)
  have le: "e \<le> int k" using fexp_le [of "\<bar>x\<bar>" k] False assms by (simp add: e_def)
  have n: "(2 :: rat) ^ k / 2 powi e = of_int (2 ^ nat (int k - e))"
    using le by (simp add: power_int_diff [symmetric] flip: power_int_of_nat)
  have "\<bar>x\<bar> / 2 powi e \<le> 2 ^ k / 2 powi e" using assms by (intro divide_right_mono) simp_all
  then have "\<bar>x / ulp x\<bar> \<le> of_int (2 ^ nat (int k - e))"
    unfolding n by (simp add: u abs_divide)
  then have "\<bar>round_even (x / ulp x)\<bar> \<le> 2 ^ nat (int k - e)" by (rule round_even_le)
  then have "\<bar>of_int (round_even (x / ulp x))\<bar> \<le> (2 :: rat) ^ k / 2 powi e"
    unfolding n by (metis of_int_abs of_int_le_iff)
  then show ?thesis using False by (simp add: rnd_def u abs_mult pos_le_divide_eq)
qed simp

lemma single_of_fin: "\<bar>x\<bar> \<le> 2 ^ k \<Longrightarrow> k < 128 \<Longrightarrow> single_of x = Num (rnd x) \<and> \<bar>rnd x\<bar> \<le> 2 ^ k"
  using rnd_le_pow [of x k] power_strict_increasing [of k 128 "2 :: rat"]
  by (simp add: single_of_def Let_def)

lemma fin_neg [simp]: "fin k (x_neg x) \<longleftrightarrow> fin k x"
  by (cases x) (simp_all add: fin_def)

lemma fin_abs [simp]: "fin k (fabsf x) \<longleftrightarrow> fin k x"
  by (cases x) (simp_all add: fin_def)

lemma fin_add:
  assumes "fin k a" and "fin k b" and "k < 127"
  shows "fin (Suc k) (x_add a b)"
proof -
  obtain r s where "a = Num r" "b = Num s" "\<bar>r + s\<bar> \<le> 2 ^ Suc k"
    using assms(1,2) abs_triangle_ineq order_trans by (fastforce simp: fin_def)
  then show ?thesis using single_of_fin [of "r + s" "Suc k"] assms(3) by simp
qed

lemma fin_sub: "fin k a \<Longrightarrow> fin k b \<Longrightarrow> k < 127 \<Longrightarrow> fin (Suc k) (x_sub a b)"
  by (simp add: x_sub_def fin_add)

lemma fin_mul:
  assumes "fin j a" and "fin k b" and "j + k < 128"
  shows "fin (j + k) (x_mul a b)"
proof -
  obtain r s where "a = Num r" "b = Num s" "\<bar>r\<bar> \<le> 2 ^ j" "\<bar>s\<bar> \<le> 2 ^ k"
    using assms(1,2) by (auto simp: fin_def)
  moreover from this have "\<bar>r * s\<bar> \<le> 2 ^ (j + k)" by (simp add: abs_mult power_add mult_mono)
  ultimately show ?thesis using single_of_fin [of "r * s" "j + k"] assms(3) by simp
qed

text \<open>A quotient of numbers is no NaN unless both are zero.\<close>

lemma div_NaN: "fin j a \<Longrightarrow> fin k b \<Longrightarrow> b \<noteq> Num 0 \<Longrightarrow> x_div a b \<noteq> NaN"
  by (auto simp: fin_def single_of_def Let_def split: if_splits)

lemma add_NaN: "a \<noteq> NaN \<Longrightarrow> fin k b \<Longrightarrow> x_add a b \<noteq> NaN"
  by (cases a) (auto simp: fin_def single_of_def Let_def split: if_splits)

lemma min_abs_cases: "utils_min_abs a b = a \<or> utils_min_abs a b = b"
  by (simp add: utils_min_abs_def)

lemma min_abs_NaN: "b \<noteq> NaN \<Longrightarrow> utils_min_abs a b \<noteq> NaN"
  by (cases a) (auto simp: utils_min_abs_def)

text \<open>\<open>mag x m\<close>: \<open>x\<close> is a number of magnitude at most \<open>m\<close>.\<close>

definition mag :: "single \<Rightarrow> rat \<Rightarrow> bool" where
  "mag x m \<longleftrightarrow> (\<exists>r. x = Num r \<and> \<bar>r\<bar> \<le> m)"

lemma mag_Num [simp]: "mag (Num r) m \<longleftrightarrow> \<bar>r\<bar> \<le> m"
  by (simp add: mag_def)

lemma mag_fin: "fin k x \<Longrightarrow> mag x (2 ^ k)"
  by (simp add: mag_def fin_def)

lemma mag_min_abs: "mag a m \<Longrightarrow> b \<noteq> NaN \<Longrightarrow> mag (utils_min_abs a b) m"
  by (cases a; cases b) (auto simp: utils_min_abs_def mag_def)

lemma mag_min_abs2: "mag b m \<Longrightarrow> mag (utils_min_abs a b) m"
  by (cases a; cases b) (auto simp: utils_min_abs_def mag_def)

lemma rnd_close: "\<bar>x\<bar> \<le> 2 ^ k \<Longrightarrow> \<bar>rnd x - x\<bar> \<le> 2 ^ k / 2 ^ 24 + 1 / 2 ^ 150"
  using rnd_rel [of x] by (meson add_mono divide_right_mono order_refl order_trans zero_le_numeral zero_le_power)

lemma gap_arith:
  "r1 \<le> v \<Longrightarrow> v \<le> r2 \<Longrightarrow> \<bar>r1 - (a + d)\<bar> \<le> E + e1 \<Longrightarrow> \<bar>r2 - (b - d)\<bar> \<le> E + e1 \<Longrightarrow> e1 + e2 \<le> e3 \<Longrightarrow>
   E + e3 \<le> d \<Longrightarrow> 2 * e2 \<le> b - (a :: rat)"
  by linarith

lemma nonzero_arith:
  "g \<le> \<bar>y\<bar> \<Longrightarrow> \<bar>r - y\<bar> \<le> \<bar>y\<bar> / 2 ^ 24 + e1 \<Longrightarrow> 4 * e1 \<le> g \<Longrightarrow> 0 < g \<Longrightarrow> r \<noteq> (0 :: rat)"
  by (cases "r = 0") auto

text \<open>A value between \<open>a + d\<close> and \<open>b - d\<close>, as the code computes them, separates \<open>a\<close> and \<open>b\<close>.\<close>

lemma guard_gap:
  assumes "\<bar>a\<bar> \<le> 2 ^ k" and "\<bar>b\<bar> \<le> 2 ^ k" and "k < 40" and "0 \<le> d" and "d \<le> 1" and "2 ^ Suc k / 2 ^ 24 + 1 / 2 ^ 99 \<le> d"
    and "\<not> x_less (Num v) (x_add (Num a) (Num d))" and "\<not> x_less (x_sub (Num b) (Num d)) (Num v)"
  shows "x_sub (Num b) (Num a) \<noteq> Num 0 \<and> x_sub (Num a) (Num b) \<noteq> Num 0"
proof -
  have k: "\<bar>a + d\<bar> \<le> 2 ^ Suc k" "\<bar>b - d\<bar> \<le> 2 ^ Suc k" "\<bar>b - a\<bar> \<le> 2 ^ Suc k" "\<bar>a - b\<bar> \<le> 2 ^ Suc k"
    using assms(1-5) one_le_power [of "2 :: rat" k] unfolding abs_le_iff power_Suc by linarith+
  have n: "x_add (Num a) (Num d) = Num (rnd (a + d))" "x_sub (Num b) (Num d) = Num (rnd (b - d))"
    "x_sub (Num b) (Num a) = Num (rnd (b - a))" "x_sub (Num a) (Num b) = Num (rnd (a - b))"
    using k [THEN single_of_fin] assms(3) by (simp_all add: x_sub_def)
  have "rnd (a + d) \<le> v" "v \<le> rnd (b - d)" using assms(7,8) unfolding n by simp_all
  moreover have "\<bar>rnd (a + d) - (a + d)\<bar> \<le> 2 ^ Suc k / 2 ^ 24 + 1 / 2 ^ 150" "\<bar>rnd (b - d) - (b - d)\<bar> \<le> 2 ^ Suc k / 2 ^ 24 + 1 / 2 ^ 150"
    by (rule rnd_close [OF k(1)], rule rnd_close [OF k(2)])
  moreover have "(1 :: rat) / 2 ^ 150 + 1 / 2 ^ 100 \<le> 1 / 2 ^ 99" by simp
  ultimately have gap: "2 * (1 / 2 ^ 100) \<le> b - a" using assms(6) by (rule gap_arith)
  then have "2 * (1 / 2 ^ 100) \<le> \<bar>b - a\<bar>" "2 * (1 / 2 ^ 100) \<le> \<bar>a - b\<bar>" by linarith+
  note this [THEN nonzero_arith, OF rnd_rel]
  then have "rnd (b - a) \<noteq> 0" "rnd (a - b) \<noteq> 0" by simp_all
  then show ?thesis unfolding n by simp
qed

lemma map_number:
  assumes "fin k x" and "fin k a" and "fin k b" and "fin k c" and "fin k e" and "k < 60" and "x_sub b a \<noteq> Num 0"
  shows "utils_map x a b c e \<noteq> NaN"
proof -
  have "fin (Suc k + Suc k) (x_mul (x_sub x a) (x_sub e c))"
    using assms by (intro fin_mul fin_sub) simp_all
  then have "x_div (x_mul (x_sub x a) (x_sub e c)) (x_sub b a) \<noteq> NaN"
    using fin_sub [of k b a] assms by (intro div_NaN) simp_all
  then show ?thesis using add_NaN assms(4) by (simp add: utils_map_def)
qed

lemma rnd_near: "1 / 2 ^ 100 \<le> x \<Longrightarrow> \<bar>rnd x - x\<bar> \<le> x / 100"
  using rnd_rel [of x] by simp

lemma rnd_tenth: "99 / 1000 \<le> rnd (1 / 10)" "rnd (1 / 10) \<le> 101 / 1000"
proof -
  have "\<bar>rnd (1 / 10) - 1 / 10\<bar> \<le> 1 / 10 / 100" by (rule rnd_near) simp
  then show "99 / 1000 \<le> rnd (1 / 10)" "rnd (1 / 10) \<le> 101 / 1000" by linarith+
qed

lemma rnd_thousandth: "99 / 100000 \<le> rnd (1 / 1000)" "rnd (1 / 1000) \<le> 101 / 100000"
proof -
  have "\<bar>rnd (1 / 1000) - 1 / 1000\<bar> \<le> 1 / 1000 / 100" by (rule rnd_near) simp
  then show "99 / 100000 \<le> rnd (1 / 1000)" "rnd (1 / 1000) \<le> 101 / 100000" by linarith+
qed

lemma tenth: "0 \<le> rnd (1 / 10)" "rnd (1 / 10) \<le> 1" "2 ^ Suc 18 / 2 ^ 24 + 1 / 2 ^ 99 \<le> rnd (1 / 10)"
  by (rule order_trans [OF _ rnd_tenth(1)] order_trans [OF rnd_tenth(2)], simp)+

lemma thousandth: "0 \<le> rnd (1 / 1000)" "rnd (1 / 1000) \<le> 1" "2 ^ Suc 10 / 2 ^ 24 + 1 / 2 ^ 99 \<le> rnd (1 / 1000)"
  by (rule order_trans [OF _ rnd_thousandth(1)] order_trans [OF rnd_thousandth(2)], simp)+

lemma mul_sign: "x \<noteq> NaN \<Longrightarrow> x_mul (SIGN y) x \<noteq> NaN"
  by (cases x) (auto simp: SIGN_def single_of_def Let_def split: if_splits)

lemma guard_tenth:
  assumes "fin 18 v" and "fin 18 a" and "fin 18 b"
    and "\<not> x_less v (x_add a (fl (1 / 10)))" and "\<not> x_less (x_sub b (fl (1 / 10))) v"
  shows "x_sub b a \<noteq> Num 0 \<and> x_sub a b \<noteq> Num 0"
proof -
  obtain v' a' b' where "v = Num v'" "a = Num a'" "b = Num b'" "\<bar>a'\<bar> \<le> 2 ^ 18" "\<bar>b'\<bar> \<le> 2 ^ 18"
    using assms(1-3) by (auto simp: fin_def)
  then show ?thesis using guard_gap [OF _ _ _ tenth, of a' b' v'] assms(4,5) by (simp add: fl_def)
qed

lemma map_tenth:
  assumes "fin 18 v" and "fin 18 a" and "fin 18 b"
    and "\<not> x_less v (x_add a (fl (1 / 10)))" and "\<not> x_less (x_sub b (fl (1 / 10))) v"
    and "fin 24 c" and "fin 24 e"
  shows "utils_map v a b c e \<noteq> NaN \<and> utils_map v b a c e \<noteq> NaN"
  using guard_tenth [OF assms(1-5)] map_number [of 24] assms(6,7) assms(1-3) [THEN fin_mono, of 24] by simp

lemma min_abs_zero: "b \<noteq> NaN \<Longrightarrow> fabsf a = Num 0 \<Longrightarrow> fabsf (utils_min_abs a b) = Num 0"
  "fabsf b = Num 0 \<Longrightarrow> fabsf (utils_min_abs a b) = Num 0"
  by (cases a; cases b; auto simp: utils_min_abs_def)+

lemma pick_smaller:
  assumes "l \<noteq> NaN"
  shows "x_le (fabsf (if x_less (fabsf m) (fabsf l) then m else l)) (fabsf l)"
    and "fabsf m = Num 0 \<Longrightarrow> fabsf (if x_less (fabsf m) (fabsf l) then m else l) = Num 0"
  using assms by (cases l; cases m; auto simp: x_le_def)+

end
