(* ===== verification/Bms.thy ===== *)
theory Bms
  imports Single Can_Send
begin

text \<open>
  The battery monitor module, \<^verbatim>\<open>bms.c\<close>: decoding the frames a battery monitor sends over CAN, the
  limits of the input current that follow from them, the commands that concern it and the
  forwarding of its values as frames of this controller. The thresholds of the configuration and the
  limits are single precision numbers with infinities (\<open>Single\<close>), the values of the frames are
  finite. \<open>None\<close> is an access outside an array.
\<close>

section \<open>Data\<close>

abbreviation (input) CAN_PACKET_BMS_V_TOT :: u32 where "CAN_PACKET_BMS_V_TOT \<equiv> 38"
abbreviation (input) CAN_PACKET_BMS_I :: u32 where "CAN_PACKET_BMS_I \<equiv> 39"
abbreviation (input) CAN_PACKET_BMS_AH_WH :: u32 where "CAN_PACKET_BMS_AH_WH \<equiv> 40"
abbreviation (input) CAN_PACKET_BMS_V_CELL :: u32 where "CAN_PACKET_BMS_V_CELL \<equiv> 41"
abbreviation (input) CAN_PACKET_BMS_BAL :: u32 where "CAN_PACKET_BMS_BAL \<equiv> 42"
abbreviation (input) CAN_PACKET_BMS_TEMPS :: u32 where "CAN_PACKET_BMS_TEMPS \<equiv> 43"
abbreviation (input) CAN_PACKET_BMS_HUM :: u32 where "CAN_PACKET_BMS_HUM \<equiv> 44"
abbreviation (input) CAN_PACKET_BMS_SOC_SOH_TEMP_STAT :: u32 where "CAN_PACKET_BMS_SOC_SOH_TEMP_STAT \<equiv> 45"
abbreviation (input) CAN_PACKET_BMS_AH_WH_CHG_TOTAL :: u32 where "CAN_PACKET_BMS_AH_WH_CHG_TOTAL \<equiv> 53"
abbreviation (input) CAN_PACKET_BMS_AH_WH_DIS_TOTAL :: u32 where "CAN_PACKET_BMS_AH_WH_DIS_TOTAL \<equiv> 54"
abbreviation (input) CAN_PACKET_BMS_STATUS_1 :: u32 where "CAN_PACKET_BMS_STATUS_1 \<equiv> 64"
abbreviation (input) CAN_PACKET_BMS_STATUS_2 :: u32 where "CAN_PACKET_BMS_STATUS_2 \<equiv> 65"
abbreviation (input) CAN_PACKET_BMS_STATUS_3 :: u32 where "CAN_PACKET_BMS_STATUS_3 \<equiv> 66"
abbreviation (input) CAN_PACKET_BMS_STATUS_4 :: u32 where "CAN_PACKET_BMS_STATUS_4 \<equiv> 67"
abbreviation (input) CAN_PACKET_BMS_STATUS_5 :: u32 where "CAN_PACKET_BMS_STATUS_5 \<equiv> 68"

definition BMS_MAX_CELLS :: nat where "BMS_MAX_CELLS = 50"
definition BMS_MAX_TEMPS :: nat where "BMS_MAX_TEMPS = 50"
definition BMS_STATUS_LEN :: nat where "BMS_STATUS_LEN = 41"
definition MAX_CAN_AGE_SEC :: float32 where "MAX_CAN_AGE_SEC = 2"

definition COMM_BMS_GET_VALUES :: u8 where "COMM_BMS_GET_VALUES = 96"
definition COMM_BMS_SET_CHARGE_ALLOWED :: u8 where "COMM_BMS_SET_CHARGE_ALLOWED = 97"
definition COMM_BMS_SET_BALANCE_OVERRIDE :: u8 where "COMM_BMS_SET_BALANCE_OVERRIDE = 98"
definition COMM_BMS_RESET_COUNTERS :: u8 where "COMM_BMS_RESET_COUNTERS = 99"
definition COMM_BMS_FORCE_BALANCE :: u8 where "COMM_BMS_FORCE_BALANCE = 100"
definition COMM_BMS_ZERO_CURRENT_OFFSET :: u8 where "COMM_BMS_ZERO_CURRENT_OFFSET = 101"
definition COMM_BMS_FWD_CAN_RX :: u8 where "COMM_BMS_FWD_CAN_RX = 113"

datatype bms_type = BMS_TYPE_NONE | BMS_TYPE_VESC
datatype bms_fwd_can_mode = BMS_FWD_CAN_MODE_DISABLED | BMS_FWD_CAN_MODE_USB_ONLY | BMS_FWD_CAN_MODE_ANY

record bms_config =
  bms_type :: bms_type
  limit_mode :: u8
  t_limit_start :: single
  t_limit_end :: single
  soc_limit_start :: single
  soc_limit_end :: single
  vmin_limit_start :: single
  vmin_limit_end :: single
  vmax_limit_start :: single
  vmax_limit_end :: single
  fwd_can_mode :: bms_fwd_can_mode

record bms_values =
  v_tot :: float32
  v_charge :: float32
  i_in :: float32
  i_in_ic :: float32
  ah_cnt :: float32
  wh_cnt :: float32
  cell_num :: int
  v_cell :: "float32 list"
  bal_state :: "bool list"
  temp_adc_num :: int
  temps_adc :: "float32 list"
  temp_ic :: float32
  temp_hum :: float32
  pressure :: float32
  hum :: float32
  temp_max_cell :: float32
  v_cell_min :: float32
  v_cell_max :: float32
  soc :: float32
  soh :: float32
  can_id :: int
  ah_cnt_chg_total :: float32
  wh_cnt_chg_total :: float32
  ah_cnt_dis_total :: float32
  wh_cnt_dis_total :: float32
  is_charging :: int
  is_balancing :: int
  is_charge_allowed :: int
  data_version :: int
  bms_status :: bytes
  update_time :: u32

record bms_soc_soh_temp_stat =
  stat_id :: int
  stat_rx_time :: u32
  stat_v_cell_min :: float32
  stat_v_cell_max :: float32
  stat_t_cell_max :: float32
  stat_soc :: float32
  stat_soh :: float32
  stat_is_charging :: bool
  stat_is_balancing :: bool
  stat_is_charge_allowed :: bool
  stat_data_version :: int

text \<open>Packets given to the USB interface and to the interface that sent the last command.\<close>

datatype fwd_packet = Comm_usb_send_packet bytes | Commands_send_packet bytes

record bms =
  bms_conf :: bms_config
  m_values :: bms_values
  m_stat_temp_max :: bms_soc_soh_temp_stat
  m_stat_soc_min :: bms_soc_soh_temp_stat
  m_stat_soc_max :: bms_soc_soh_temp_stat
  m_stat_vcell_min :: bms_soc_soh_temp_stat
  m_stat_vcell_max :: bms_soc_soh_temp_stat
  forwarded :: "fwd_packet list"

section \<open>Initialisation\<close>

text \<open>All fields zero but the identifiers.\<close>

definition no_values :: bms_values where
  "no_values =
     \<lparr>v_tot = 0, v_charge = 0, i_in = 0, i_in_ic = 0, ah_cnt = 0, wh_cnt = 0, cell_num = 0,
      v_cell = replicate BMS_MAX_CELLS 0, bal_state = replicate BMS_MAX_CELLS False,
      temp_adc_num = 0, temps_adc = replicate BMS_MAX_TEMPS 0, temp_ic = 0, temp_hum = 0, pressure = 0, hum = 0,
      temp_max_cell = 0, v_cell_min = 0, v_cell_max = 0, soc = 0, soh = 0, can_id = - 1,
      ah_cnt_chg_total = 0, wh_cnt_chg_total = 0, ah_cnt_dis_total = 0, wh_cnt_dis_total = 0,
      is_charging = 0, is_balancing = 0, is_charge_allowed = 0, data_version = 0,
      bms_status = replicate BMS_STATUS_LEN 0, update_time = 0\<rparr>"

definition no_stat :: bms_soc_soh_temp_stat where
  "no_stat =
     \<lparr>stat_id = - 1, stat_rx_time = 0, stat_v_cell_min = 0, stat_v_cell_max = 0, stat_t_cell_max = 0,
      stat_soc = 0, stat_soh = 0, stat_is_charging = False, stat_is_balancing = False,
      stat_is_charge_allowed = False, stat_data_version = 0\<rparr>"

definition bms_init :: "bms_config \<Rightarrow> bms \<Rightarrow> bms" where
  "bms_init cfg s =
     s\<lparr>bms_conf := cfg, m_values := no_values, m_stat_temp_max := no_stat, m_stat_soc_min := no_stat,
       m_stat_soc_max := no_stat, m_stat_vcell_min := no_stat, m_stat_vcell_max := no_stat\<rparr>"

section \<open>Received frames\<close>

text \<open>\<open>UTILS_AGE_S\<close>: the seconds since a time of the system timer, which wraps around.\<close>

definition UTILS_AGE_S :: "u32 \<Rightarrow> u32 \<Rightarrow> float32" where
  "UTILS_AGE_S now t = fdiv (f_of_int (uint (now - t))) (f_of_int (int CH_CFG_ST_FREQUENCY))"

text \<open>Packets of the monitor that are passed on to the host, with the identifier in front.\<close>

definition bms_forward :: "u8 \<Rightarrow> u32 \<Rightarrow> bytes \<Rightarrow> int \<Rightarrow> bms \<Rightarrow> bms option" where
  "bms_forward i cmd data8 len s =
     (if cmd \<in> {CAN_PACKET_BMS_SOC_SOH_TEMP_STAT, CAN_PACKET_BMS_V_TOT, CAN_PACKET_BMS_I, CAN_PACKET_BMS_AH_WH,
                CAN_PACKET_BMS_V_CELL, CAN_PACKET_BMS_BAL, CAN_PACKET_BMS_TEMPS, CAN_PACKET_BMS_HUM} then
        if len < 0 \<or> int (length data8) < len then None else do {
          (fwd_data, fwd_len) \<leftarrow> write_bytes (replicate 11 0) 0
             ([COMM_BMS_FWD_CAN_RX, i, ucast cmd] @ take (nat len) data8);
          Some (case fwd_can_mode (bms_conf s) of
                  BMS_FWD_CAN_MODE_DISABLED \<Rightarrow> s
                | BMS_FWD_CAN_MODE_USB_ONLY \<Rightarrow> s\<lparr>forwarded := forwarded s @ [Comm_usb_send_packet (take fwd_len fwd_data)]\<rparr>
                | BMS_FWD_CAN_MODE_ANY \<Rightarrow> s\<lparr>forwarded := forwarded s @ [Commands_send_packet (take fwd_len fwd_data)]\<rparr>)
        }
      else Some s)"

text \<open>The values are those of one monitor; another one takes over when it has been silent for two
  seconds.\<close>

definition bms_listens :: "u32 \<Rightarrow> u8 \<Rightarrow> bms_values \<Rightarrow> bool" where
  "bms_listens now i v \<longleftrightarrow> uint i = can_id v \<or> UTILS_AGE_S now (update_time v) > MAX_CAN_AGE_SEC"

definition bms_claim :: "u32 \<Rightarrow> u8 \<Rightarrow> bms_values \<Rightarrow> bms_values" where
  "bms_claim now i v = v\<lparr>can_id := uint i, update_time := now\<rparr>"

text \<open>The message with the state of charge, of which the limiting one among all monitors is kept.\<close>

definition get_stat :: "u32 \<Rightarrow> u8 \<Rightarrow> bytes \<Rightarrow> bms_soc_soh_temp_stat option" where
  "get_stat now i data8 = do {
     (cmin, ind) \<leftarrow> buffer_get_float16 data8 1000 0;
     (cmax, ind) \<leftarrow> buffer_get_float16 data8 1000 ind;
     charge \<leftarrow> get_byte data8 ind;
     health \<leftarrow> get_byte data8 (ind + 1);
     t \<leftarrow> get_byte data8 (ind + 2);
     stat \<leftarrow> get_byte data8 (ind + 3);
     Some \<lparr>stat_id = uint i, stat_rx_time = now, stat_v_cell_min = cmin, stat_v_cell_max = cmax,
           stat_t_cell_max = f_of_int (sint t),
           stat_soc = fdiv (f_of_int (uint charge)) 255, stat_soh = fdiv (f_of_int (uint health)) 255,
           stat_is_charging = bit stat 0, stat_is_balancing = bit stat 1, stat_is_charge_allowed = bit stat 2,
           stat_data_version = uint (drop_bit 4 stat AND 0x0F)\<rparr>
   }"

definition values_of_stat :: "u32 \<Rightarrow> u8 \<Rightarrow> bms_soc_soh_temp_stat \<Rightarrow> bms_values \<Rightarrow> bms_values" where
  "values_of_stat now i msg v =
     (bms_claim now i v)
       \<lparr>soc := stat_soc msg, soh := stat_soh msg, temp_max_cell := stat_t_cell_max msg,
        v_cell_min := stat_v_cell_min msg, v_cell_max := stat_v_cell_max msg,
        is_charging := (if stat_is_charging msg then 1 else 0), is_balancing := (if stat_is_balancing msg then 1 else 0),
        is_charge_allowed := (if stat_is_charge_allowed msg then 1 else 0), data_version := stat_data_version msg\<rparr>"

text \<open>\<open>worse old new\<close>: the new message is further on the limiting side.\<close>

definition keep_limiting :: "(bms_soc_soh_temp_stat \<Rightarrow> bms_soc_soh_temp_stat \<Rightarrow> bool) \<Rightarrow> u32 \<Rightarrow>
    bms_soc_soh_temp_stat \<Rightarrow> bms_soc_soh_temp_stat \<Rightarrow> bms_soc_soh_temp_stat" where
  "keep_limiting worse now msg old =
     (if stat_id old < 0 \<or> UTILS_AGE_S now (stat_rx_time old) > MAX_CAN_AGE_SEC \<or> worse old msg then msg
      else if stat_id old = stat_id msg then msg
      else old)"

definition recv_bms_stat :: "u32 \<Rightarrow> u8 \<Rightarrow> bytes \<Rightarrow> bms \<Rightarrow> bms option" where
  "recv_bms_stat now i data8 s = do {
     msg \<leftarrow> get_stat now i data8;
     Some (s\<lparr>m_values := (if bms_listens now i (m_values s) then values_of_stat now i msg (m_values s) else m_values s),
             m_stat_temp_max := keep_limiting (\<lambda>old new. stat_t_cell_max old < stat_t_cell_max new) now msg (m_stat_temp_max s),
             m_stat_soc_min := keep_limiting (\<lambda>old new. stat_soc old > stat_soc new) now msg (m_stat_soc_min s),
             m_stat_soc_max := keep_limiting (\<lambda>old new. stat_soc old < stat_soc new) now msg (m_stat_soc_max s),
             m_stat_vcell_min := keep_limiting (\<lambda>old new. stat_v_cell_min old > stat_v_cell_min new) now msg (m_stat_vcell_min s),
             m_stat_vcell_max := keep_limiting (\<lambda>old new. stat_v_cell_max old < stat_v_cell_max new) now msg (m_stat_vcell_max s)\<rparr>)
   }"

text \<open>The other messages concern only the values of the chosen monitor; \<open>f\<close> reads them.\<close>

definition recv_values :: "u32 \<Rightarrow> u8 \<Rightarrow> (bms_values \<Rightarrow> bms_values option) \<Rightarrow> bms \<Rightarrow> bms option" where
  "recv_values now i f s =
     (if bms_listens now i (m_values s) then do {
        v \<leftarrow> f (bms_claim now i (m_values s));
        Some (s\<lparr>m_values := v\<rparr>)
      } else Some s)"

definition get_two_autos :: "bytes \<Rightarrow> (float32 \<times> float32) option" where
  "get_two_autos data8 = do {
     (a, ind) \<leftarrow> buffer_get_float32_auto data8 0;
     (b, ind) \<leftarrow> buffer_get_float32_auto data8 ind;
     Some (a, b)
   }"

text \<open>The loop that stores the values of a frame from the index \<open>ofs\<close> on. The index grows by two in
  every round, so that \<open>fuel\<close> rounds for a length of \<open>fuel\<close> bytes are more than enough.\<close>

fun values_loop :: "nat \<Rightarrow> bytes \<Rightarrow> int \<Rightarrow> float32 \<Rightarrow> nat \<Rightarrow> nat \<Rightarrow> float32 list \<Rightarrow> float32 list option" where
  "values_loop 0 data8 len scale ind ofs vs = (if int ind < len then None else Some vs)"
| "values_loop (Suc fuel) data8 len scale ind ofs vs =
     (if int ind < len then
        if ofs \<ge> length vs then Some vs
        else do {
          (x, ind) \<leftarrow> buffer_get_float16 data8 scale ind;
          values_loop fuel data8 len scale ind (Suc ofs) (vs[ofs := x])
        }
      else Some vs)"

definition recv_v_cell :: "bytes \<Rightarrow> int \<Rightarrow> bms_values \<Rightarrow> bms_values option" where
  "recv_v_cell data8 len v = do {
     ofs \<leftarrow> get_byte data8 0;
     num \<leftarrow> get_byte data8 1;
     cells \<leftarrow> values_loop (nat len) data8 len 1000 2 (unat ofs) (v_cell v);
     Some (v\<lparr>cell_num := uint num, v_cell := cells\<rparr>)
   }"

definition recv_temps :: "bytes \<Rightarrow> int \<Rightarrow> bms_values \<Rightarrow> bms_values option" where
  "recv_temps data8 len v = do {
     ofs \<leftarrow> get_byte data8 0;
     num \<leftarrow> get_byte data8 1;
     temps \<leftarrow> values_loop (nat len) data8 len 100 2 (unat ofs) (temps_adc v);
     Some (v\<lparr>temp_adc_num := uint num, temps_adc := temps\<rparr>)
   }"

fun bal_loop :: "nat \<Rightarrow> nat \<Rightarrow> u64 \<Rightarrow> bool list \<Rightarrow> bool list" where
  "bal_loop 0 ind w bs = bs"
| "bal_loop (Suc n) ind w bs = bal_loop n (Suc ind) w (bs[ind := bit (drop_bit ind w) 0])"

definition recv_bal :: "bytes \<Rightarrow> bms_values \<Rightarrow> bms_values option" where
  "recv_bal data8 v = do {
     num \<leftarrow> get_byte data8 0;
     (b0, ind) \<leftarrow> buffer_get_uint32 data8 0;
     (b1, ind) \<leftarrow> buffer_get_uint32 data8 ind;
     let word = (push_bit 32 (ucast b0 AND 0x00FFFFFF) OR ucast b1 :: u64);
     Some (v\<lparr>bal_state := bal_loop (min (length (bal_state v)) (unat num)) 0 word (bal_state v)\<rparr>)
   }"

definition recv_hum :: "bytes \<Rightarrow> int \<Rightarrow> bms_values \<Rightarrow> bms_values option" where
  "recv_hum data8 len v = do {
     (th, ind) \<leftarrow> buffer_get_float16 data8 100 0;
     (h, ind) \<leftarrow> buffer_get_float16 data8 100 ind;
     (ti, ind) \<leftarrow> buffer_get_float16 data8 100 ind;
     let v = v\<lparr>temp_hum := th, hum := h, temp_ic := ti\<rparr>;
     if len = 8 then do {
       (p, ind) \<leftarrow> buffer_get_float16 data8 (rnd (1 / 10)) ind;
       Some (v\<lparr>pressure := p\<rparr>)
     } else Some v
   }"

text \<open>The text of the monitor in five parts of eight bytes.\<close>

definition recv_status_part :: "u32 \<Rightarrow> u8 \<Rightarrow> u32 \<Rightarrow> bytes \<Rightarrow> int \<Rightarrow> bms \<Rightarrow> bms option" where
  "recv_status_part now i cmd data8 len s =
     (let v = m_values s in
      if uint i = can_id v \<or> can_id v = - 1 \<or> UTILS_AGE_S now (update_time v) > MAX_CAN_AGE_SEC then
        if len < 0 \<or> int (length data8) < len then None else do {
          (txt, _) \<leftarrow> write_bytes (bms_status v) (unat (cmd - CAN_PACKET_BMS_STATUS_1) * 8) (take (nat len) data8);
          Some (s\<lparr>m_values := (bms_claim now i v)\<lparr>bms_status := txt\<rparr>\<rparr>)
        }
      else Some s)"

definition recv_bms_frame :: "u32 \<Rightarrow> u8 \<Rightarrow> u32 \<Rightarrow> bytes \<Rightarrow> int \<Rightarrow> bms \<Rightarrow> (bool \<times> bms) option" where
  "recv_bms_frame now i cmd data8 len s =
     (let used = map_option (Pair True);
          autos = (\<lambda>upd. recv_values now i (\<lambda>v. map_option (\<lambda>(a, b). upd a b v) (get_two_autos data8)) s)
      in
      if cmd = CAN_PACKET_BMS_SOC_SOH_TEMP_STAT then used (recv_bms_stat now i data8 s)
      else if cmd = CAN_PACKET_BMS_V_TOT then used (autos (\<lambda>a b v. v\<lparr>v_tot := a, v_charge := b\<rparr>))
      else if cmd = CAN_PACKET_BMS_I then used (autos (\<lambda>a b v. v\<lparr>i_in := a, i_in_ic := b\<rparr>))
      else if cmd = CAN_PACKET_BMS_AH_WH then used (autos (\<lambda>a b v. v\<lparr>ah_cnt := a, wh_cnt := b\<rparr>))
      else if cmd = CAN_PACKET_BMS_V_CELL then used (recv_values now i (recv_v_cell data8 len) s)
      else if cmd = CAN_PACKET_BMS_BAL then used (recv_values now i (recv_bal data8) s)
      else if cmd = CAN_PACKET_BMS_TEMPS then used (recv_values now i (recv_temps data8 len) s)
      else if cmd = CAN_PACKET_BMS_HUM then used (recv_values now i (recv_hum data8 len) s)
      else if cmd = CAN_PACKET_BMS_AH_WH_CHG_TOTAL then used (autos (\<lambda>a b v. v\<lparr>ah_cnt_chg_total := a, wh_cnt_chg_total := b\<rparr>))
      else if cmd = CAN_PACKET_BMS_AH_WH_DIS_TOTAL then used (autos (\<lambda>a b v. v\<lparr>ah_cnt_dis_total := a, wh_cnt_dis_total := b\<rparr>))
      else if cmd \<in> {CAN_PACKET_BMS_STATUS_1, CAN_PACKET_BMS_STATUS_2, CAN_PACKET_BMS_STATUS_3,
                     CAN_PACKET_BMS_STATUS_4, CAN_PACKET_BMS_STATUS_5}
        then used (recv_status_part now i cmd data8 len s)
      else Some (False, s))"

definition bms_process_can_frame :: "u32 \<Rightarrow> u32 \<Rightarrow> bytes \<Rightarrow> int \<Rightarrow> bool \<Rightarrow> bms \<Rightarrow> (bool \<times> bms) option" where
  "bms_process_can_frame now frame_id data8 len is_ext s =
     (if bms_type (bms_conf s) = BMS_TYPE_VESC \<and> is_ext then
        let i = ucast frame_id; cmd = drop_bit 8 frame_id in do {
          s \<leftarrow> bms_forward i cmd data8 len s;
          recv_bms_frame now i cmd data8 len s
        }
      else Some (False, s))"

section \<open>Limits\<close>

definition disable_on_timeout :: "u32 \<Rightarrow> bms_soc_soh_temp_stat \<Rightarrow> bms_soc_soh_temp_stat" where
  "disable_on_timeout now stat =
     (if UTILS_AGE_S now (stat_rx_time stat) > MAX_CAN_AGE_SEC then stat\<lparr>stat_id := - 1\<rparr> else stat)"

text \<open>The limits of charging and discharging for the temperature of the warmest cell.\<close>

definition bms_temp_limits :: "bms \<Rightarrow> single \<Rightarrow> single \<Rightarrow> single \<times> single" where
  "bms_temp_limits s i_in_min_conf i_in_max_conf =
     (let cfg = bms_conf s in
      if bit (limit_mode cfg) 0 \<and> stat_id (m_stat_temp_max s) \<ge> 0 then
        let temp = Num (stat_t_cell_max (m_stat_temp_max s)) in
        if x_less temp (x_add (t_limit_start cfg) (fl (1 / 10))) then (i_in_min_conf, i_in_max_conf)
        else if x_less (x_sub (t_limit_end cfg) (fl (1 / 10))) temp then (Num 0, Num 0)
        else
          let maxc = fabsf i_in_max_conf;
              maxc = (if x_less maxc (fabsf i_in_min_conf) then fabsf i_in_min_conf else maxc);
              maxc = utils_map temp (t_limit_start cfg) (t_limit_end cfg) maxc (Num 0)
          in (if x_less maxc (fabsf i_in_min_conf) then x_mul (SIGN i_in_min_conf) maxc else i_in_min_conf,
              if x_less maxc (fabsf i_in_max_conf) then x_mul (SIGN i_in_max_conf) maxc else i_in_max_conf)
      else (i_in_min_conf, i_in_max_conf))"

text \<open>A limit of discharging that falls with a value (state of charge, lowest cell voltage).\<close>

definition bms_low_limit :: "bool \<Rightarrow> single \<Rightarrow> single \<Rightarrow> single \<Rightarrow> single \<Rightarrow> single" where
  "bms_low_limit on v start lim_end i_conf =
     (if on then
        if x_less (x_sub start (fl (1 / 1000))) v then i_conf
        else if x_less v (x_add lim_end (fl (1 / 1000))) then Num 0
        else utils_map v start lim_end i_conf (Num 0)
      else i_conf)"

definition bms_high_limit :: "bool \<Rightarrow> single \<Rightarrow> single \<Rightarrow> single \<Rightarrow> single \<Rightarrow> single" where
  "bms_high_limit on v start lim_end i_conf =
     (if on then
        if x_less v (x_add start (fl (1 / 1000))) then i_conf
        else if x_less (x_sub lim_end (fl (1 / 1000))) v then Num 0
        else utils_map v start lim_end i_conf (Num 0)
      else i_conf)"

definition bms_update_limits :: "u32 \<Rightarrow> single \<Rightarrow> single \<Rightarrow> single \<Rightarrow> single \<Rightarrow> bms \<Rightarrow> (single \<times> single) \<times> bms" where
  "bms_update_limits now lim_min lim_max i_in_min_conf i_in_max_conf s =
     (let s = s\<lparr>m_stat_temp_max := disable_on_timeout now (m_stat_temp_max s),
                m_stat_soc_min := disable_on_timeout now (m_stat_soc_min s),
                m_stat_soc_max := disable_on_timeout now (m_stat_soc_max s),
                m_stat_vcell_min := disable_on_timeout now (m_stat_vcell_min s),
                m_stat_vcell_max := disable_on_timeout now (m_stat_vcell_max s)\<rparr>;
          cfg = bms_conf s;
          (min_temp, max_temp) = bms_temp_limits s i_in_min_conf i_in_max_conf;
          max_soc = bms_low_limit (bit (limit_mode cfg) 1 \<and> stat_id (m_stat_soc_min s) \<ge> 0)
            (Num (stat_soc (m_stat_soc_min s))) (soc_limit_start cfg) (soc_limit_end cfg) i_in_max_conf;
          max_vmin = bms_low_limit (bit (limit_mode cfg) 2 \<and> stat_id (m_stat_vcell_min s) \<ge> 0)
            (Num (stat_v_cell_min (m_stat_vcell_min s))) (vmin_limit_start cfg) (vmin_limit_end cfg) i_in_max_conf;
          min_vmax = bms_high_limit (bit (limit_mode cfg) 3 \<and> stat_id (m_stat_vcell_max s) \<ge> 0)
            (Num (stat_v_cell_max (m_stat_vcell_max s))) (vmax_limit_start cfg) (vmax_limit_end cfg) i_in_min_conf;
          max_bms = utils_min_abs (utils_min_abs (utils_min_abs i_in_max_conf max_temp) max_soc) max_vmin;
          min_bms = utils_min_abs (utils_min_abs i_in_min_conf min_temp) min_vmax
      in ((if x_less (fabsf min_bms) (fabsf lim_min) then min_bms else lim_min,
           if x_less (fabsf max_bms) (fabsf lim_max) then max_bms else lim_max), s))"

end
