(* ===== verification/Bms_Cmd.thy ===== *)
theory Bms_Cmd
  imports Bms
begin

text \<open>
  The other half of \<^verbatim>\<open>bms.c\<close>: the command that reads all values of the battery monitor, the commands
  passed on to it, and the frames in which this controller repeats the values on the bus; and
  the numbers of cells and temperatures for which the reply to \<open>COMM_BMS_GET_VALUES\<close> overflows its buffer.
\<close>

section \<open>Commands\<close>

text \<open>\<open>n\<close> values from the index \<open>i\<close> on.\<close>

fun append_values :: "nat \<Rightarrow> nat \<Rightarrow> float32 list \<Rightarrow> float32 \<Rightarrow> bytes \<Rightarrow> nat \<Rightarrow> (bytes \<times> nat) option" where
  "append_values 0 i vs scale buf ind = Some (buf, ind)"
| "append_values (Suc n) i vs scale buf ind =
     (if i < length vs then do {
        (buf, ind) \<leftarrow> buffer_append_float16 buf (vs ! i) scale ind;
        append_values n (Suc i) vs scale buf ind
      } else None)"

fun append_bools :: "nat \<Rightarrow> nat \<Rightarrow> bool list \<Rightarrow> bytes \<Rightarrow> nat \<Rightarrow> (bytes \<times> nat) option" where
  "append_bools 0 i bs buf ind = Some (buf, ind)"
| "append_bools (Suc n) i bs buf ind =
     (if i < length bs then do {
        (buf, ind) \<leftarrow> put_byte buf ind (if bs ! i then 1 else 0);
        append_bools n (Suc i) bs buf ind
      } else None)"

text \<open>\<open>strcpy\<close> reads up to the zero at the end of the text.\<close>

definition append_text :: "bytes \<Rightarrow> bytes \<Rightarrow> nat \<Rightarrow> (bytes \<times> nat) option" where
  "append_text txt buf ind = (if 0 \<in> set txt then write_bytes buf ind (takeWhile (\<lambda>b. b \<noteq> 0) txt @ [0]) else None)"

definition bms_values_reply :: "bms_values \<Rightarrow> bytes option" where
  "bms_values_reply v = do {
     (send_buffer, ind) \<leftarrow> put_byte (replicate 256 0) 0 COMM_BMS_GET_VALUES;
     (send_buffer, ind) \<leftarrow> buffer_append_float32 send_buffer (v_tot v) 1000000 ind;
     (send_buffer, ind) \<leftarrow> buffer_append_float32 send_buffer (v_charge v) 1000000 ind;
     (send_buffer, ind) \<leftarrow> buffer_append_float32 send_buffer (i_in v) 1000000 ind;
     (send_buffer, ind) \<leftarrow> buffer_append_float32 send_buffer (i_in_ic v) 1000000 ind;
     (send_buffer, ind) \<leftarrow> buffer_append_float32 send_buffer (ah_cnt v) 1000 ind;
     (send_buffer, ind) \<leftarrow> buffer_append_float32 send_buffer (wh_cnt v) 1000 ind;
     (send_buffer, ind) \<leftarrow> put_byte send_buffer ind (word_of_int (cell_num v));
     (send_buffer, ind) \<leftarrow> append_values (nat (cell_num v)) 0 (v_cell v) 1000 send_buffer ind;
     (send_buffer, ind) \<leftarrow> append_bools (nat (cell_num v)) 0 (bal_state v) send_buffer ind;
     (send_buffer, ind) \<leftarrow> put_byte send_buffer ind (word_of_int (temp_adc_num v));
     (send_buffer, ind) \<leftarrow> append_values (nat (temp_adc_num v)) 0 (temps_adc v) 100 send_buffer ind;
     (send_buffer, ind) \<leftarrow> buffer_append_float16 send_buffer (temp_ic v) 100 ind;
     (send_buffer, ind) \<leftarrow> buffer_append_float16 send_buffer (temp_hum v) 100 ind;
     (send_buffer, ind) \<leftarrow> buffer_append_float16 send_buffer (hum v) 100 ind;
     (send_buffer, ind) \<leftarrow> buffer_append_float16 send_buffer (temp_max_cell v) 100 ind;
     (send_buffer, ind) \<leftarrow> buffer_append_float16 send_buffer (soc v) 1000 ind;
     (send_buffer, ind) \<leftarrow> buffer_append_float16 send_buffer (soh v) 1000 ind;
     (send_buffer, ind) \<leftarrow> put_byte send_buffer ind (word_of_int (can_id v));
     (send_buffer, ind) \<leftarrow> buffer_append_float32_auto send_buffer (ah_cnt_chg_total v) ind;
     (send_buffer, ind) \<leftarrow> buffer_append_float32_auto send_buffer (wh_cnt_chg_total v) ind;
     (send_buffer, ind) \<leftarrow> buffer_append_float32_auto send_buffer (ah_cnt_dis_total v) ind;
     (send_buffer, ind) \<leftarrow> buffer_append_float32_auto send_buffer (wh_cnt_dis_total v) ind;
     (send_buffer, ind) \<leftarrow> buffer_append_float16 send_buffer (pressure v) (rnd (1 / 10)) ind;
     (send_buffer, ind) \<leftarrow> put_byte send_buffer ind (word_of_int (data_version v));
     (send_buffer, ind) \<leftarrow> append_text (bms_status v) send_buffer ind;
     Some (take ind send_buffer)
   }"

text \<open>The replies of \<open>bms_process_cmd\<close> and the controller after it.\<close>

definition bms_process_cmd :: "u32 \<Rightarrow> bytes \<Rightarrow> bms \<Rightarrow> can \<Rightarrow> (bytes list \<times> can) option" where
  "bms_process_cmd now data s c = do {
     packet_id \<leftarrow> get_byte data 0;
     replies \<leftarrow> (if packet_id = COMM_BMS_GET_VALUES then map_option (\<lambda>r. [r]) (bms_values_reply (m_values s)) else Some []);
     c \<leftarrow> (if bms_type (bms_conf s) = BMS_TYPE_VESC \<and> UTILS_AGE_S now (update_time (m_values s)) < MAX_CAN_AGE_SEC \<and>
            packet_id \<in> {COMM_BMS_SET_CHARGE_ALLOWED, COMM_BMS_SET_BALANCE_OVERRIDE, COMM_BMS_RESET_COUNTERS,
                         COMM_BMS_FORCE_BALANCE, COMM_BMS_ZERO_CURRENT_OFFSET}
          then comm_can_send_buffer (word_of_int (can_id (m_values s))) data 0 c else Some c);
     Some (replies, c)
   }"

section \<open>Repeating the values on the bus\<close>

definition send_autos :: "u8 \<Rightarrow> u32 \<Rightarrow> float32 \<Rightarrow> float32 \<Rightarrow> can \<Rightarrow> can option" where
  "send_autos i cmd a b c = do {
     (buffer, send_index) \<leftarrow> buffer_append_float32_auto (replicate 8 0) a 0;
     (buffer, send_index) \<leftarrow> buffer_append_float32_auto buffer b send_index;
     transmit (eid_of cmd (ucast i)) buffer send_index c
   }"

text \<open>The loops over cells and temperatures, three values in a frame.\<close>

function send_values :: "u8 \<Rightarrow> u32 \<Rightarrow> u8 \<Rightarrow> float32 \<Rightarrow> float32 list \<Rightarrow> nat \<Rightarrow> nat \<Rightarrow> can \<Rightarrow> can option" where
  "send_values i cmd num scale vs v_max v_now c =
     (if v_now < v_max then do {
        (buffer, send_index) \<leftarrow> put_byte (replicate 8 0) 0 (word_of_nat v_now);
        (buffer, send_index) \<leftarrow> put_byte buffer send_index num;
        (buffer, send_index) \<leftarrow> append_values (min 3 (v_max - v_now)) v_now vs scale buffer send_index;
        c \<leftarrow> transmit (eid_of cmd (ucast i)) buffer send_index c;
        send_values i cmd num scale vs v_max (v_now + min 3 (v_max - v_now)) c
      } else Some c)"
  by pat_completeness auto
termination by (relation "measure (\<lambda>(i, cmd, num, scale, vs, v_max, v_now, c). v_max - v_now)") auto

declare send_values.simps [simp del]

fun bal_word :: "nat \<Rightarrow> nat \<Rightarrow> bool list \<Rightarrow> u64 \<Rightarrow> u64 option" where
  "bal_word 0 i bs w = Some w"
| "bal_word (Suc n) i bs w =
     (if i < length bs then bal_word n (Suc i) bs (w OR push_bit i (if bs ! i then 1 else 0)) else None)"

definition bal_frame :: "nat \<Rightarrow> u64 \<Rightarrow> bytes" where
  "bal_frame cell_max w =
     [word_of_nat cell_max, byte_of 48 w, byte_of 40 w, byte_of 32 w, byte_of 24 w, byte_of 16 w, byte_of 8 w, byte_of 0 w]"

definition stat_frame :: "bms_values \<Rightarrow> bytes option" where
  "stat_frame v = do {
     (buffer, ind) \<leftarrow> buffer_append_float16 (replicate 8 0) (v_cell_min v) 1000 0;
     (buffer, ind) \<leftarrow> buffer_append_float16 buffer (v_cell_max v) 1000 ind;
     (buffer, ind) \<leftarrow> put_byte buffer ind (ucast (to_uint32 (fmul (soc v) 255)));
     (buffer, ind) \<leftarrow> put_byte buffer ind (ucast (to_uint32 (fmul (soh v) 255)));
     (buffer, ind) \<leftarrow> put_byte buffer ind (ucast (to_int32 (temp_max_cell v)));
     (buffer, ind) \<leftarrow> put_byte buffer ind
       ((if is_charging v \<noteq> 0 then 1 else 0) OR push_bit 1 (if is_balancing v \<noteq> 0 then 1 else 0)
        OR push_bit 2 (if is_charge_allowed v \<noteq> 0 then 1 else 0) OR push_bit 4 (word_of_int (data_version v)));
     Some buffer
   }"

definition send_hum :: "u8 \<Rightarrow> bms_values \<Rightarrow> can \<Rightarrow> can option" where
  "send_hum i v c = do {
     (buffer, send_index) \<leftarrow> buffer_append_float16 (replicate 8 0) (temp_hum v) 100 0;
     (buffer, send_index) \<leftarrow> buffer_append_float16 buffer (hum v) 100 send_index;
     (buffer, send_index) \<leftarrow> buffer_append_float16 buffer (temp_ic v) 100 send_index;
     (buffer, send_index) \<leftarrow> buffer_append_float16 buffer (pressure v) (rnd (1 / 10)) send_index;
     transmit (eid_of CAN_PACKET_BMS_HUM (ucast i)) buffer send_index c
   }"

definition bms_send_status_can :: "bms_values \<Rightarrow> can \<Rightarrow> can option" where
  "bms_send_status_can v c =
     (let i = controller_id (app_conf c);
          cell_max = min BMS_MAX_CELLS (nat (cell_num v));
          temp_max = min BMS_MAX_TEMPS (nat (temp_adc_num v))
      in do {
        c \<leftarrow> send_autos i CAN_PACKET_BMS_V_TOT (v_tot v) (v_charge v) c;
        c \<leftarrow> send_autos i CAN_PACKET_BMS_I (i_in v) (i_in_ic v) c;
        c \<leftarrow> send_autos i CAN_PACKET_BMS_AH_WH (ah_cnt v) (wh_cnt v) c;
        c \<leftarrow> send_values i CAN_PACKET_BMS_V_CELL (word_of_int (cell_num v)) 1000 (v_cell v) cell_max 0 c;
        w \<leftarrow> bal_word cell_max 0 (bal_state v) 0;
        c \<leftarrow> transmit (eid_of CAN_PACKET_BMS_BAL (ucast i)) (bal_frame cell_max w) 8 c;
        c \<leftarrow> send_values i CAN_PACKET_BMS_TEMPS (word_of_nat temp_max) 100 (temps_adc v) temp_max 0 c;
        c \<leftarrow> send_hum i v c;
        stat \<leftarrow> stat_frame v;
        c \<leftarrow> transmit (eid_of CAN_PACKET_BMS_SOC_SOH_TEMP_STAT (ucast i)) stat 8 c;
        c \<leftarrow> send_autos i CAN_PACKET_BMS_AH_WH_CHG_TOTAL (ah_cnt_chg_total v) (wh_cnt_chg_total v) c;
        c \<leftarrow> send_autos i CAN_PACKET_BMS_AH_WH_DIS_TOTAL (ah_cnt_dis_total v) (wh_cnt_dis_total v) c;
        c \<leftarrow> transmit (eid_of CAN_PACKET_BMS_STATUS_1 (ucast i)) (drop 0 (bms_status v)) 8 c;
        c \<leftarrow> transmit (eid_of CAN_PACKET_BMS_STATUS_2 (ucast i)) (drop 8 (bms_status v)) 8 c;
        c \<leftarrow> transmit (eid_of CAN_PACKET_BMS_STATUS_3 (ucast i)) (drop 16 (bms_status v)) 8 c;
        c \<leftarrow> transmit (eid_of CAN_PACKET_BMS_STATUS_4 (ucast i)) (drop 24 (bms_status v)) 8 c;
        transmit (eid_of CAN_PACKET_BMS_STATUS_5 (ucast i)) (drop 32 (bms_status v)) 8 c
      })"

section \<open>The reply in its buffer\<close>

lemma append_values_k:
  assumes "k + n \<le> length vs"
  shows "Option.bind (write_bytes buf i xs) (\<lambda>(b, j). Option.bind (append_values n k vs scale b j) g) =
    Option.bind (write_bytes buf i (xs @ concat (map (\<lambda>x. be16 (to_int16 (fmul x scale))) (take n (drop k vs))))) g"
  using assms
proof (induction n arbitrary: k xs)
  case 0
  then show ?case by (simp add: case_prod_beta)
next
  case (Suc n)
  have t: "take (Suc n) (drop k vs) = vs ! k # take n (drop (Suc k) vs)"
    using Suc.prems by (metis Cons_nth_drop_Suc Suc_le_lessD add_Suc_right le_add1 le_less_trans less_eq_Suc_le take_Suc_Cons trans_le_add1)
  show ?case
    using Suc.IH [of "Suc k" "xs @ be16 (to_int16 (fmul (vs ! k) scale))"] Suc.prems
    by (simp add: t buffer_append_float16_def buf_simps bind_assoc write_bytes_append_k [unfolded case_prod_beta] case_prod_beta)
qed

lemma append_bools_k:
  assumes "k + n \<le> length vs"
  shows "Option.bind (write_bytes buf i xs) (\<lambda>(b, j). Option.bind (append_bools n k vs b j) g) =
    Option.bind (write_bytes buf i (xs @ map (\<lambda>x. if x then 1 else 0) (take n (drop k vs)))) g"
  using assms
proof (induction n arbitrary: k xs)
  case 0
  then show ?case by (simp add: case_prod_beta)
next
  case (Suc n)
  have t: "take (Suc n) (drop k vs) = vs ! k # take n (drop (Suc k) vs)"
    using Suc.prems by (metis Cons_nth_drop_Suc Suc_le_lessD add_Suc_right le_add1 le_less_trans less_eq_Suc_le take_Suc_Cons trans_le_add1)
  show ?case
    using Suc.IH [of "Suc k" "xs @ [if vs ! k then 1 else 0]"] Suc.prems
    by (simp add: t put_byte_eq bind_assoc write_bytes_append_k [unfolded case_prod_beta] case_prod_beta)
qed

lemma append_values_out: "k \<le> length vs \<Longrightarrow> length vs < k + n \<Longrightarrow> append_values n k vs scale b j = None"
proof (induction n arbitrary: k b j)
  case (Suc n)
  then show ?case by (cases "buffer_append_float16 b (vs ! k) scale j") auto
qed simp


lemma append_bools_out: "k \<le> length vs \<Longrightarrow> length vs < k + n \<Longrightarrow> append_bools n k vs b j = None"
proof (induction n arbitrary: k b j)
  case (Suc n)
  then show ?case by (cases "put_byte b j (if vs ! k then 1 else 0)") (auto simp del: split_paired_All)
qed simp

lemma append_text_k:
  "Option.bind (write_bytes buf i xs) (\<lambda>(b, j). Option.bind (append_text txt b j) g) =
    (if 0 \<in> set txt then Option.bind (write_bytes buf i (xs @ takeWhile (\<lambda>b. b \<noteq> 0) txt @ [0])) g else None)"
  by (cases "write_bytes buf i xs") (auto simp: append_text_def write_bytes_append_k [symmetric])

lemma bind_None_k: "Option.bind x (\<lambda>(b, j). None) = None"
  by (cases x) auto

lemmas reply_simps = put_byte_eq buf_simps append_auto_write buffer_append_float16_def buffer_append_float32_def
  write_bytes_append_k append_values_k append_bools_k append_text_k

lemma length_concat_be16 [simp]: "length (concat (map (\<lambda>x. be16 (f x)) xs)) = 2 * length xs"
  by (induction xs) (simp_all add: be16_def)

text \<open>The reply to the command that reads all values is written into a buffer of 256 bytes. It fits,
  and no array is read beyond its end, exactly for monitors with few enough cells and temperatures;
  the numbers are those of a received frame, which the code does not check.\<close>

theorem bms_values_reply_bound:
  "bms_values_reply v \<noteq> None \<longleftrightarrow>
     nat (cell_num v) \<le> length (v_cell v) \<and> nat (cell_num v) \<le> length (bal_state v) \<and>
     nat (temp_adc_num v) \<le> length (temps_adc v) \<and> 0 \<in> set (bms_status v) \<and>
     60 + 3 * nat (cell_num v) + 2 * nat (temp_adc_num v) + length (takeWhile (\<lambda>b. b \<noteq> 0) (bms_status v)) \<le> 256"
proof -
  consider "length (v_cell v) < nat (cell_num v)" | "length (bal_state v) < nat (cell_num v)" "nat (cell_num v) \<le> length (v_cell v)"
    | "length (temps_adc v) < nat (temp_adc_num v)" "nat (cell_num v) \<le> length (bal_state v)" "nat (cell_num v) \<le> length (v_cell v)"
    | "nat (temp_adc_num v) \<le> length (temps_adc v)" "nat (cell_num v) \<le> length (bal_state v)" "nat (cell_num v) \<le> length (v_cell v)"
    by linarith
  then show ?thesis
  proof cases
    case 1
    then have "bms_values_reply v = None"
      by (simp add: bms_values_reply_def reply_simps append_values_out bind_None_k)
    then show ?thesis using 1 by simp
  next
    case 2
    then have "bms_values_reply v = None"
      by (simp add: bms_values_reply_def reply_simps append_bools_out bind_None_k)
    then show ?thesis using 2 by simp
  next
    case 3
    then have "bms_values_reply v = None"
      by (simp add: bms_values_reply_def reply_simps append_values_out bind_None_k)
    then show ?thesis using 3 by simp
  next
    case 4
    then show ?thesis
      by (simp add: bms_values_reply_def reply_simps) (auto simp: write_bytes_def)
  qed
qed

end
