(* ===== verification/Motor_State.thy ===== *)
theory Motor_State
  imports Bms
begin

text \<open>
  The state of the motor interface, \<^verbatim>\<open>motor/mc_interface.c\<close>, with its getters. The interface stands
  between everything that commands the motor (applications, CAN, USB, scripts, the timeout) and the two
  implementations of motor control, \<^verbatim>\<open>mcpwm.c\<close> and \<^verbatim>\<open>mcpwm_foc.c\<close>. The model is that of a
  board with one motor (\<^verbatim>\<open>HW_HAS_DUAL_MOTORS\<close> undefined) with three shunts, as the xESC. What
  the interface reads from the implementations, the sensors and the clock is a record of inputs that may
  change at any time; what it asks of them is recorded, in order, in the field \<open>issued\<close>.
\<close>

section \<open>Configuration\<close>

text \<open>Enumerations of \<^verbatim>\<open>datatypes.h\<close>. A configuration is deserialised from bytes without a check, so
  that the enumerations the code switches over may hold any other number.\<close>

datatype mc_motor_type = MOTOR_TYPE_BLDC | MOTOR_TYPE_DC | MOTOR_TYPE_FOC | MOTOR_TYPE_OTHER u8

datatype mc_state = MC_STATE_OFF | MC_STATE_DETECTING | MC_STATE_RUNNING | MC_STATE_FULL_BRAKE

datatype mc_control_mode =
  CONTROL_MODE_DUTY | CONTROL_MODE_SPEED | CONTROL_MODE_CURRENT | CONTROL_MODE_CURRENT_BRAKE | CONTROL_MODE_POS
| CONTROL_MODE_HANDBRAKE | CONTROL_MODE_OPENLOOP | CONTROL_MODE_OPENLOOP_PHASE | CONTROL_MODE_OPENLOOP_DUTY
| CONTROL_MODE_OPENLOOP_DUTY_PHASE | CONTROL_MODE_NONE

datatype mc_foc_control_sample_mode =
  FOC_CONTROL_SAMPLE_MODE_V0 | FOC_CONTROL_SAMPLE_MODE_V0_V7 | FOC_CONTROL_SAMPLE_MODE_V0_V7_INTERPOL

datatype mc_foc_current_sample_mode =
  FOC_CURRENT_SAMPLE_MODE_LONGEST_ZERO | FOC_CURRENT_SAMPLE_MODE_ALL_SENSORS
| FOC_CURRENT_SAMPLE_MODE_HIGH_CURRENT | FOC_CURRENT_SAMPLE_MODE_BEST_SENSOR

datatype out_aux_mode =
  OUT_AUX_MODE_OFF | OUT_AUX_MODE_ON_AFTER_2S | OUT_AUX_MODE_ON_AFTER_5S | OUT_AUX_MODE_ON_AFTER_10S
| OUT_AUX_MODE_UNUSED | OUT_AUX_MODE_ON_WHEN_RUNNING | OUT_AUX_MODE_ON_WHEN_NOT_RUNNING
| OUT_AUX_MODE_MOTOR_50 | OUT_AUX_MODE_MOSFET_50 | OUT_AUX_MODE_MOTOR_70 | OUT_AUX_MODE_MOSFET_70
| OUT_AUX_MODE_MOTOR_MOSFET_50 | OUT_AUX_MODE_MOTOR_MOSFET_70

datatype temp_sensor_type =
  TEMP_SENSOR_NTC_10K_25C | TEMP_SENSOR_PTC_1K_100C | TEMP_SENSOR_KTY83_122 | TEMP_SENSOR_NTC_100K_25C
| TEMP_SENSOR_KTY84_130 | TEMP_SENSOR_NTCX | TEMP_SENSOR_PTCX | TEMP_SENSOR_PT1000 | TEMP_SENSOR_DISABLED

datatype mc_fault_code =
  FAULT_CODE_NONE | FAULT_CODE_OVER_VOLTAGE | FAULT_CODE_UNDER_VOLTAGE | FAULT_CODE_DRV | FAULT_CODE_ABS_OVER_CURRENT
| FAULT_CODE_OVER_TEMP_FET | FAULT_CODE_OVER_TEMP_MOTOR | FAULT_CODE_GATE_DRIVER_OVER_VOLTAGE
| FAULT_CODE_GATE_DRIVER_UNDER_VOLTAGE | FAULT_CODE_MCU_UNDER_VOLTAGE | FAULT_CODE_BOOTING_FROM_WATCHDOG_RESET
| FAULT_CODE_ENCODER_SPI | FAULT_CODE_ENCODER_SINCOS_BELOW_MIN_AMPLITUDE | FAULT_CODE_ENCODER_SINCOS_ABOVE_MAX_AMPLITUDE
| FAULT_CODE_FLASH_CORRUPTION | FAULT_CODE_HIGH_OFFSET_CURRENT_SENSOR_1 | FAULT_CODE_HIGH_OFFSET_CURRENT_SENSOR_2
| FAULT_CODE_HIGH_OFFSET_CURRENT_SENSOR_3 | FAULT_CODE_UNBALANCED_CURRENTS | FAULT_CODE_BRK | FAULT_CODE_RESOLVER_LOT
| FAULT_CODE_RESOLVER_DOS | FAULT_CODE_RESOLVER_LOS | FAULT_CODE_FLASH_CORRUPTION_APP_CFG | FAULT_CODE_FLASH_CORRUPTION_MC_CFG
| FAULT_CODE_ENCODER_NO_MAGNET | FAULT_CODE_ENCODER_MAGNET_TOO_STRONG | FAULT_CODE_PHASE_FILTER | FAULT_CODE_ENCODER_FAULT
| FAULT_CODE_LV_OUTPUT_FAULT

text \<open>The members of \<open>mc_configuration\<close> the interface uses; the others are \<open>mc_rest\<close>.\<close>

record mc_configuration =
  l_current_max :: single
  l_current_min :: single
  l_in_current_max :: single
  l_in_current_min :: single
  l_in_current_map_start :: single
  l_in_current_map_filter :: single
  l_abs_current_max :: single
  l_min_erpm :: single
  l_max_erpm :: single
  l_erpm_start :: single
  l_min_vin :: single
  l_max_vin :: single
  l_battery_cut_start :: single
  l_battery_cut_end :: single
  l_battery_regen_cut_start :: single
  l_battery_regen_cut_end :: single
  l_slow_abs_current :: bool
  l_temp_fet_start :: single
  l_temp_fet_end :: single
  l_temp_motor_start :: single
  l_temp_motor_end :: single
  l_temp_accel_dec :: single
  l_max_duty :: single
  l_watt_max :: single
  l_watt_min :: single
  l_current_max_scale :: single
  l_current_min_scale :: single
  l_duty_start :: single
  lo_current_max :: single
  lo_current_min :: single
  lo_in_current_max :: single
  lo_in_current_min :: single
  motor_type :: mc_motor_type
  foc_encoder_inverted :: bool
  foc_start_curr_dec :: single
  foc_start_curr_dec_rpm :: single
  foc_control_sample_mode :: mc_foc_control_sample_mode
  foc_current_sample_mode :: mc_foc_current_sample_mode
  p_pid_offset :: single
  cc_min_current :: single
  m_fault_stop_time_ms :: int
  m_sensor_port_mode :: u8
  m_invert_direction :: bool
  m_motor_temp_sens_type :: temp_sensor_type
  m_out_aux_mode :: out_aux_mode
  si_motor_poles :: u8
  si_gear_ratio :: single
  si_wheel_diameter :: single
  bms_cfg :: bms_config
  mc_rest :: bytes

section \<open>Inputs\<close>

text \<open>What both implementations of motor control report. Of \<open>sensed\<close>, \<open>encoder_faults\<close> are the faults
  \<^verbatim>\<open>encoder_check_faults\<close> raises, \<open>batt_filter\<close> is the value of \<^verbatim>\<open>powf(2.0, ...)\<close> for the
  configured filter, and \<open>float_to_u64\<close> the conversion of the run-time library.\<close>

record pwm_view =
  pwm_state :: mc_state
  duty_cycle_set :: single
  duty_cycle_now :: single
  sampling_frequency_now :: single
  pwm_rpm :: single
  tot_current :: single
  tot_current_filtered :: single
  tot_current_directional :: single
  tot_current_directional_filtered :: single
  tot_current_in :: single
  tot_current_in_filtered :: single
  tachometer_value :: int
  tachometer_abs_value :: int
  adc_isr_duration :: single
  dccal_done :: bool

record sensed =
  bldc_view :: pwm_view
  foc_view :: pwm_view
  foc_control_mode :: mc_control_mode
  foc_rpm_fast :: single
  foc_abs_current :: single
  foc_abs_current_filtered :: single
  foc_id :: single
  foc_iq :: single
  foc_vd :: single
  foc_vq :: single
  foc_pid_pos_now :: single
  foc_abs_unbalance :: single
  foc_offsets :: "single \<times> single \<times> single"
  encoder_configured :: bool
  encoder_deg :: single
  input_voltage :: single
  temp_mosfet :: single
  temp_motor_sensor :: single
  is_drv_fault :: bool
  encoder_faults :: "mc_fault_code list"
  batt_filter :: single
  float_to_u64 :: "single \<Rightarrow> u64"
  sys_time :: u32

section \<open>State\<close>

text \<open>What the interface asks of others. \<open>Mcpwm\<close> and \<open>Mcpwm_foc\<close> are the calls
  \<^verbatim>\<open>mcpwm_...\<close> and \<^verbatim>\<open>mcpwm_foc_...\<close>.\<close>

datatype pwm_call =
  Set_duty single | Set_duty_noramp single | Set_pid_speed single | Set_pid_pos single | Set_current single
| Set_brake_current single | Set_handbrake single | Set_openloop_current single single | Set_openloop_phase single single
| Set_openloop_duty single single | Set_openloop_duty_phase single single | Set_current_off_delay single
| Set_tachometer_value int | Reset_tachometer_value | Reset_tachometer_abs_value
| Release_motor | Stop_pwm | Pwm_init | Pwm_deinit | Pwm_set_configuration mc_configuration

datatype motor_call =
  Mcpwm pwm_call
| Mcpwm_foc pwm_call
| Events_add string single
| Shutdown_reset_timer
| Encoder_init mc_configuration
| Encoder_deinit
| Encoder_update_config mc_configuration
| Hw_reset_drv_faults
| Terminal_add_fault_data mc_fault_code
| Store_mc_configuration mc_configuration

text \<open>\<open>motor_if_state_t\<close> and the other static variables of the file, with the flags of the two
  implementations that tell whether they are initialised. \<open>fault_event\<close> is the event flag of the
  thread that handles faults, \<open>m_fault_code\<close> the member \<open>fault_code\<close> of \<open>m_fault_data\<close>;
  \<open>g_odometer\<close> and \<open>g_runtime\<close> are members of \<open>g_backup\<close>.\<close>

record motor =
  m_conf :: mc_configuration
  m_fault_now :: mc_fault_code
  m_ignore_iterations :: int
  m_drv_fault_iterations :: int
  m_cycles_running :: u32
  m_lock_enabled :: bool
  m_lock_override_once :: bool
  m_motor_current_sum :: single
  m_input_current_sum :: single
  m_motor_current_iterations :: single
  m_input_current_iterations :: single
  m_motor_id_sum :: single
  m_motor_iq_sum :: single
  m_motor_id_iterations :: single
  m_motor_iq_iterations :: single
  m_motor_vd_sum :: single
  m_motor_vq_sum :: single
  m_motor_vd_iterations :: single
  m_motor_vq_iterations :: single
  m_amp_seconds :: single
  m_amp_seconds_charged :: single
  m_watt_seconds :: single
  m_watt_seconds_charged :: single
  m_position_set :: single
  m_temp_fet :: single
  m_temp_motor :: single
  m_motor_current_unbalance :: single
  m_motor_current_unbalance_error_rate :: single
  m_f_samp_now :: single
  m_input_voltage_filtered :: single
  m_input_voltage_filtered_slower :: single
  m_temp_override :: single
  m_i_in_filter :: single
  m_odometer_last :: u64
  m_runtime_last :: u64
  m_wheel_speed_override :: bool
  m_wheel_speed_override_value :: single
  m_fault_code :: mc_fault_code
  fault_event :: bool
  m_persistent_fault :: mc_fault_code
  bldc_init :: bool
  foc_init :: bool
  has_phase_shunts :: bool
  m_bms :: bms
  g_odometer :: u64
  g_runtime :: u64
  inputs :: sensed
  issued :: "motor_call list"

definition issue :: "motor_call \<Rightarrow> motor \<Rightarrow> motor" where
  "issue c s = s\<lparr>issued := issued s @ [c]\<rparr>"

text \<open>The macro \<open>DIR_MULT\<close>, and the switch over the type of the motor.\<close>

definition DIR_MULT :: "motor \<Rightarrow> single" where
  "DIR_MULT s = (if m_invert_direction (m_conf s) then Num (- 1) else Num 1)"

definition by_type :: "motor \<Rightarrow> 'a \<Rightarrow> 'a \<Rightarrow> 'a \<Rightarrow> 'a" where
  "by_type s b f d =
     (case motor_type (m_conf s) of
        MOTOR_TYPE_BLDC \<Rightarrow> b
      | MOTOR_TYPE_DC \<Rightarrow> b
      | MOTOR_TYPE_FOC \<Rightarrow> f
      | MOTOR_TYPE_OTHER _ \<Rightarrow> d)"

definition view :: "motor \<Rightarrow> (pwm_view \<Rightarrow> 'a) \<Rightarrow> 'a \<Rightarrow> 'a" where
  "view s f d = by_type s (f (bldc_view (inputs s))) (f (foc_view (inputs s))) d"

section \<open>Getters\<close>

definition mc_interface_get_state :: "motor \<Rightarrow> mc_state" where
  "mc_interface_get_state s = view s pwm_state MC_STATE_OFF"

definition mc_interface_dccal_done :: "motor \<Rightarrow> bool" where
  "mc_interface_dccal_done s = view s dccal_done False"

definition mc_interface_get_control_mode :: "motor \<Rightarrow> mc_control_mode" where
  "mc_interface_get_control_mode s = by_type s CONTROL_MODE_NONE (foc_control_mode (inputs s)) CONTROL_MODE_NONE"

definition mc_interface_get_fault :: "motor \<Rightarrow> mc_fault_code" where
  "mc_interface_get_fault s =
     (if m_persistent_fault s \<noteq> FAULT_CODE_NONE then m_persistent_fault s else m_fault_now s)"

definition mc_interface_get_duty_cycle_set :: "motor \<Rightarrow> single" where
  "mc_interface_get_duty_cycle_set s = x_mul (DIR_MULT s) (view s duty_cycle_set (Num 0))"

definition mc_interface_get_duty_cycle_now :: "motor \<Rightarrow> single" where
  "mc_interface_get_duty_cycle_now s = x_mul (DIR_MULT s) (view s duty_cycle_now (Num 0))"

definition mc_interface_get_sampling_frequency_now :: "motor \<Rightarrow> single" where
  "mc_interface_get_sampling_frequency_now s = view s sampling_frequency_now (Num 0)"

definition mc_interface_get_rpm :: "motor \<Rightarrow> single" where
  "mc_interface_get_rpm s = x_mul (DIR_MULT s) (view s pwm_rpm (Num 0))"

definition mc_interface_get_tot_current :: "motor \<Rightarrow> single" where
  "mc_interface_get_tot_current s = view s tot_current (Num 0)"

definition mc_interface_get_tot_current_filtered :: "motor \<Rightarrow> single" where
  "mc_interface_get_tot_current_filtered s = view s tot_current_filtered (Num 0)"

definition mc_interface_get_tot_current_directional :: "motor \<Rightarrow> single" where
  "mc_interface_get_tot_current_directional s = x_mul (DIR_MULT s) (view s tot_current_directional (Num 0))"

definition mc_interface_get_tot_current_directional_filtered :: "motor \<Rightarrow> single" where
  "mc_interface_get_tot_current_directional_filtered s = x_mul (DIR_MULT s) (view s tot_current_directional_filtered (Num 0))"

definition mc_interface_get_tot_current_in :: "motor \<Rightarrow> single" where
  "mc_interface_get_tot_current_in s = view s tot_current_in (Num 0)"

definition mc_interface_get_tot_current_in_filtered :: "motor \<Rightarrow> single" where
  "mc_interface_get_tot_current_in_filtered s = view s tot_current_in_filtered (Num 0)"

definition mc_interface_get_last_inj_adc_isr_duration :: "motor \<Rightarrow> single" where
  "mc_interface_get_last_inj_adc_isr_duration s = view s adc_isr_duration (Num 0)"

definition mc_interface_get_input_voltage_filtered :: "motor \<Rightarrow> single" where
  "mc_interface_get_input_voltage_filtered s = m_input_voltage_filtered s"

definition mc_interface_get_abs_motor_current_unbalance :: "motor \<Rightarrow> single" where
  "mc_interface_get_abs_motor_current_unbalance s = by_type s (Num 0) (foc_abs_unbalance (inputs s)) (Num 0)"

definition mc_interface_temp_fet_filtered :: "motor \<Rightarrow> single" where
  "mc_interface_temp_fet_filtered s = m_temp_fet s"

definition mc_interface_temp_motor_filtered :: "motor \<Rightarrow> single" where
  "mc_interface_temp_motor_filtered s = m_temp_motor s"

text \<open>Counters of charge and energy; they are set to zero if \<open>reset\<close> is given.\<close>

definition mc_interface_get_amp_hours :: "bool \<Rightarrow> motor \<Rightarrow> single \<times> motor" where
  "mc_interface_get_amp_hours reset s =
     (x_div (m_amp_seconds s) (Num 3600), if reset then s\<lparr>m_amp_seconds := Num 0\<rparr> else s)"

definition mc_interface_get_amp_hours_charged :: "bool \<Rightarrow> motor \<Rightarrow> single \<times> motor" where
  "mc_interface_get_amp_hours_charged reset s =
     (x_div (m_amp_seconds_charged s) (Num 3600), if reset then s\<lparr>m_amp_seconds_charged := Num 0\<rparr> else s)"

definition mc_interface_get_watt_hours :: "bool \<Rightarrow> motor \<Rightarrow> single \<times> motor" where
  "mc_interface_get_watt_hours reset s =
     (x_div (m_watt_seconds s) (Num 3600), if reset then s\<lparr>m_watt_seconds := Num 0\<rparr> else s)"

definition mc_interface_get_watt_hours_charged :: "bool \<Rightarrow> motor \<Rightarrow> single \<times> motor" where
  "mc_interface_get_watt_hours_charged reset s =
     (x_div (m_watt_seconds_charged s) (Num 3600), if reset then s\<lparr>m_watt_seconds_charged := Num 0\<rparr> else s)"

text \<open>Averages since the last reading.\<close>

definition mc_interface_read_reset_avg_motor_current :: "motor \<Rightarrow> single \<times> motor" where
  "mc_interface_read_reset_avg_motor_current s =
     (x_div (m_motor_current_sum s) (m_motor_current_iterations s), s\<lparr>m_motor_current_sum := Num 0, m_motor_current_iterations := Num 0\<rparr>)"

definition mc_interface_read_reset_avg_input_current :: "motor \<Rightarrow> single \<times> motor" where
  "mc_interface_read_reset_avg_input_current s =
     (x_div (m_input_current_sum s) (m_input_current_iterations s), s\<lparr>m_input_current_sum := Num 0, m_input_current_iterations := Num 0\<rparr>)"

definition mc_interface_read_reset_avg_id :: "motor \<Rightarrow> single \<times> motor" where
  "mc_interface_read_reset_avg_id s =
     (x_div (m_motor_id_sum s) (m_motor_id_iterations s), s\<lparr>m_motor_id_sum := Num 0, m_motor_id_iterations := Num 0\<rparr>)"

definition mc_interface_read_reset_avg_iq :: "motor \<Rightarrow> single \<times> motor" where
  "mc_interface_read_reset_avg_iq s =
     (x_mul (DIR_MULT s) (x_div (m_motor_iq_sum s) (m_motor_iq_iterations s)), s\<lparr>m_motor_iq_sum := Num 0, m_motor_iq_iterations := Num 0\<rparr>)"

definition mc_interface_read_reset_avg_vd :: "motor \<Rightarrow> single \<times> motor" where
  "mc_interface_read_reset_avg_vd s =
     (x_div (m_motor_vd_sum s) (m_motor_vd_iterations s), s\<lparr>m_motor_vd_sum := Num 0, m_motor_vd_iterations := Num 0\<rparr>)"

definition mc_interface_read_reset_avg_vq :: "motor \<Rightarrow> single \<times> motor" where
  "mc_interface_read_reset_avg_vq s =
     (x_mul (DIR_MULT s) (x_div (m_motor_vq_sum s) (m_motor_vq_iterations s)), s\<lparr>m_motor_vq_sum := Num 0, m_motor_vq_iterations := Num 0\<rparr>)"

text \<open>Conversions of the tachometer: the number of steps is multiplied with \<open>DIR_MULT\<close>, a single
  precision number, on the way in and out. The conversion to an integer saturates, as the
  floating point unit does.\<close>

fun x_to_int :: "single \<Rightarrow> int" where
  "x_to_int (Num r) = sint (to_int32 r)"
| "x_to_int (Inf neg) = (if neg then - (2 ^ 31) else 2 ^ 31 - 1)"
| "x_to_int NaN = 0"

definition steps_dir :: "motor \<Rightarrow> int \<Rightarrow> int" where
  "steps_dir s n = x_to_int (x_mul (DIR_MULT s) (Num (f_of_int n)))"

definition mc_interface_set_tachometer_value :: "int \<Rightarrow> motor \<Rightarrow> int \<times> motor" where
  "mc_interface_set_tachometer_value steps s =
     (steps_dir s (view s tachometer_value 0),
      by_type s (issue (Mcpwm (Set_tachometer_value (steps_dir s steps))) s)
        (issue (Mcpwm_foc (Set_tachometer_value (steps_dir s steps))) s) s)"

definition mc_interface_get_tachometer_value :: "bool \<Rightarrow> motor \<Rightarrow> int \<times> motor" where
  "mc_interface_get_tachometer_value reset s =
     (steps_dir s (view s tachometer_value 0),
      if reset then by_type s (issue (Mcpwm Reset_tachometer_value) s) (issue (Mcpwm_foc Reset_tachometer_value) s) s else s)"

definition mc_interface_get_tachometer_abs_value :: "bool \<Rightarrow> motor \<Rightarrow> int \<times> motor" where
  "mc_interface_get_tachometer_abs_value reset s =
     (view s tachometer_abs_value 0,
      if reset then by_type s (issue (Mcpwm Reset_tachometer_abs_value) s) (issue (Mcpwm_foc Reset_tachometer_abs_value) s) s else s)"

section \<open>Speed and distance\<close>

definition M_PI :: single where "M_PI = fl (314159265358979323846 / 10 ^ 20)"

definition mc_interface_override_wheel_speed :: "bool \<Rightarrow> single \<Rightarrow> motor \<Rightarrow> motor" where
  "mc_interface_override_wheel_speed ovr v s = s\<lparr>m_wheel_speed_override := ovr, m_wheel_speed_override_value := v\<rparr>"

definition mc_interface_get_speed :: "motor \<Rightarrow> single" where
  "mc_interface_get_speed s =
     (if m_wheel_speed_override s then m_wheel_speed_override_value s
      else
        let cfg = m_conf s;
            v = x_div (mc_interface_get_rpm s) (x_div (Num (f_of_int (uint (si_motor_poles cfg)))) (Num 2))
        in x_div (x_mul (x_mul (x_div v (Num 60)) (si_wheel_diameter cfg)) M_PI) (si_gear_ratio cfg))"

definition tacho_scale :: "mc_configuration \<Rightarrow> single" where
  "tacho_scale cfg =
     x_div (x_mul (si_wheel_diameter cfg) M_PI)
       (x_mul (x_mul (Num 3) (Num (f_of_int (uint (si_motor_poles cfg))))) (si_gear_ratio cfg))"

definition mc_interface_get_distance :: "motor \<Rightarrow> single" where
  "mc_interface_get_distance s =
     x_mul (Num (f_of_int (fst (mc_interface_get_tachometer_value False s)))) (tacho_scale (m_conf s))"

definition mc_interface_get_distance_abs :: "motor \<Rightarrow> single" where
  "mc_interface_get_distance_abs s =
     x_mul (Num (f_of_int (fst (mc_interface_get_tachometer_abs_value False s)))) (tacho_scale (m_conf s))"

definition mc_interface_set_odometer :: "u64 \<Rightarrow> motor \<Rightarrow> motor" where
  "mc_interface_set_odometer new_odometer_meters s = s\<lparr>g_odometer := new_odometer_meters\<rparr>"

definition mc_interface_get_odometer :: "motor \<Rightarrow> u64" where
  "mc_interface_get_odometer s = g_odometer s"

section \<open>Angles\<close>

text \<open>\<open>fmodf\<close> of the standard library is exact; \<open>utils_norm_angle\<close> of \<^verbatim>\<open>util/utils_math.h\<close>.\<close>

fun fmodf :: "single \<Rightarrow> single \<Rightarrow> single" where
  "fmodf (Num a) (Num b) = (if b = 0 then NaN else Num (a - b * of_int (trunc (a / b))))"
| "fmodf (Num a) (Inf _) = Num a"
| "fmodf _ _ = NaN"

definition utils_norm_angle :: "single \<Rightarrow> single" where
  "utils_norm_angle angle =
     (let angle = fmodf angle (Num 360) in if x_less angle (Num 0) then x_add angle (Num 360) else angle)"

definition mc_interface_get_pid_pos_set :: "motor \<Rightarrow> single" where
  "mc_interface_get_pid_pos_set s = m_position_set s"

definition mc_interface_get_pid_pos_now :: "motor \<Rightarrow> single" where
  "mc_interface_get_pid_pos_now s =
     (let ret = by_type s (encoder_deg (inputs s)) (foc_pid_pos_now (inputs s)) (Num 0);
          ret = (if encoder_configured (inputs s) \<and> foc_encoder_inverted (m_conf s) then x_mul ret (Num (- 1)) else ret);
          ret = x_mul ret (DIR_MULT s);
          ret = x_sub ret (p_pid_offset (m_conf s))
      in utils_norm_angle ret)"

section \<open>Faults\<close>

text \<open>The switch that passes a command to the implementation in use.\<close>

definition to_pwm :: "pwm_call option \<Rightarrow> pwm_call option \<Rightarrow> motor \<Rightarrow> motor" where
  "to_pwm b f s =
     by_type s (case b of Some c \<Rightarrow> issue (Mcpwm c) s | None \<Rightarrow> s) (case f of Some c \<Rightarrow> issue (Mcpwm_foc c) s | None \<Rightarrow> s) s"

text \<open>One round of \<open>fault_stop_thread\<close>, after it was signalled.\<close>

definition fault_stop_thread :: "motor \<Rightarrow> motor" where
  "fault_stop_thread s =
     (if \<not> fault_event s then s
      else
        let s = s\<lparr>fault_event := False\<rparr>; fault = m_fault_code s in
        if m_fault_now s = fault then s\<lparr>m_ignore_iterations := m_fault_stop_time_ms (m_conf s)\<rparr>
        else
          let is_log_ok = (mc_interface_dccal_done s \<or> m_fault_now s \<noteq> FAULT_CODE_DRV);
              s = (if is_log_ok \<and> m_fault_now s = FAULT_CODE_NONE then issue (Terminal_add_fault_data fault) s else s);
              s = s\<lparr>m_ignore_iterations := m_fault_stop_time_ms (m_conf s)\<rparr>;
              s = to_pwm (Some Stop_pwm) (Some Stop_pwm) s
          in s\<lparr>m_fault_now := fault\<rparr>)"

text \<open>A fault is noted, and the thread that handles faults is signalled. Its priority is above that of
  all threads that report faults, so that it runs at once, but for a fault reported in an interrupt:
  then it runs when the interrupt has returned.\<close>

definition mc_interface_fault_stop :: "mc_fault_code \<Rightarrow> bool \<Rightarrow> motor \<Rightarrow> motor" where
  "mc_interface_fault_stop fault is_isr s =
     (let s = s\<lparr>m_fault_code := fault, fault_event := True\<rparr> in if is_isr then s else fault_stop_thread s)"

definition mc_interface_set_persistent_fault :: "mc_fault_code \<Rightarrow> motor \<Rightarrow> motor" where
  "mc_interface_set_persistent_fault fault s = s\<lparr>m_persistent_fault := fault\<rparr>"

end
