(* ===== verification/Bms_Limits.thy ===== *)
theory Bms_Limits
  imports Bms
begin

text \<open>
  What the battery monitor module, \<^verbatim>\<open>bms.c\<close>, does to the limits of the input current: of several
  monitors the limiting one is found, limits are never raised, and they fall to zero when a monitor
  reports a cell that is too hot, discharged or overcharged. The second part is about all states
  that the module reaches by receiving frames.
\<close>

section \<open>The limiting monitor\<close>

lemma get_stat_fields:
  assumes "get_stat now i d = Some m"
  shows "stat_id m = uint i \<and> stat_rx_time m = now"
  using assms by (auto simp: get_stat_def split: Option.bind_splits)

text \<open>A round of messages: time and sender; \<open>d\<close> is what each sender reports.\<close>

fun hear :: "(u8 \<Rightarrow> bytes) \<Rightarrow> (u32 \<times> u8) list \<Rightarrow> bms \<Rightarrow> bms option" where
  "hear d [] s = Some s"
| "hear d ((now, i) # ms) s = Option.bind (recv_bms_stat now i (d i) s) (hear d ms)"

lemma hear_append: "hear d (xs @ ys) s = Option.bind (hear d xs s) (hear d ys)"
proof (induction d xs s rule: hear.induct)
  case (2 d now i ms s)
  then show ?case by (cases "recv_bms_stat now i (d i) s") auto
qed simp

text \<open>What the five trackers do with the messages: \<open>key\<close> is the reading, larger is more limiting.\<close>

fun track :: "(u8 \<Rightarrow> 'a :: linorder) \<Rightarrow> (u32 \<times> u8) list \<Rightarrow> (u32 \<times> int \<times> 'a) \<Rightarrow> (u32 \<times> int \<times> 'a)" where
  "track key [] st = st"
| "track key ((now, i) # ms) (t, j, x) =
     track key ms (if j < 0 \<or> UTILS_AGE_S now t > MAX_CAN_AGE_SEC \<or> x < key i \<or> j = uint i then (now, uint i, key i) else (t, j, x))"

definition fresh :: "(u32 \<times> u8) list \<Rightarrow> bool" where
  "fresh ms \<longleftrightarrow> sorted_wrt (\<lambda>(t, i) (now, j). UTILS_AGE_S now t \<le> MAX_CAN_AGE_SEC) ms"

lemma track_append: "track key (xs @ ys) st = track key ys (track key xs st)"
  by (induction key xs st rule: track.induct) auto

lemma track_kept:
  assumes "fresh ((t, j) # ms)" 
  shows "\<exists>t' j'. track key ms (t, uint j, key j) = (t', uint j', key j') \<and> (t', j') \<in> set ((t, j) # ms) \<and>
    (\<forall>(now, i) \<in> set ((t, j) # ms). key i \<le> key j')"
  using assms
proof (induction ms arbitrary: t j rule: list.induct)
  case (Cons m ms)
  obtain now i where m: "m = (now, i)" by (cases m)
  have age: "UTILS_AGE_S now t \<le> MAX_CAN_AGE_SEC" and f: "fresh ((now, i) # ms)" "fresh ((t, j) # ms)"
    using Cons.prems by (auto simp: fresh_def m)
  show ?case
  proof (cases "key j < key i \<or> j = i")
    case True
    then have "track key (m # ms) (t, uint j, key j) = track key ms (now, uint i, key i)" "key j \<le> key i"
      by (auto simp: m)
    then show ?thesis using Cons.IH [OF f(1)] by (force simp: m)
  next
    case False
    then have "track key (m # ms) (t, uint j, key j) = track key ms (t, uint j, key j)" "key i \<le> key j"
      using age by (auto simp: m word_uint_eq_iff)
    then show ?thesis using Cons.IH [OF f(2)] by (force simp: m)
  qed
qed auto


lemma track_first:
  assumes "fresh ms" and "j < 0 \<or> (\<exists>(now, i) \<in> set ms. j = uint i)" and "ms \<noteq> []"
  shows "\<exists>t' j'. track key ms (t, j, x) = (t', uint j', key j') \<and> (t', j') \<in> set ms"
  using assms
proof (induction ms)
  case (Cons m ms)
  obtain now i where m: "m = (now, i)" by (cases m)
  show ?case
  proof (cases "j < 0 \<or> UTILS_AGE_S now t > MAX_CAN_AGE_SEC \<or> x < key i \<or> j = uint i")
    case True
    then have "track key (m # ms) (t, j, x) = track key ms (now, uint i, key i)" by (simp add: m)
    then show ?thesis using track_kept [of now i ms key] Cons.prems(1) by (auto simp: m)
  next
    case False
    then have "track key (m # ms) (t, j, x) = track key ms (t, j, x)" "\<exists>(now, i) \<in> set ms. j = uint i"
      using Cons.prems(2) by (auto simp: m)
    moreover from this(2) have "ms \<noteq> []" by auto
    moreover have "fresh ms" using Cons.prems(1) by (simp add: fresh_def)
    ultimately show ?thesis using Cons.IH by auto
  qed
qed simp

lemma track_two_rounds:
  assumes "fresh (r1 @ r2)" and "j < 0 \<or> (\<exists>(now, i) \<in> set r1. j = uint i)" and "snd ` set r1 = snd ` set r2" and "r1 \<noteq> []"
  shows "snd (snd (track key (r1 @ r2) (t, j, x))) = Max (key ` snd ` set r2)"
proof -
  have f: "fresh r1" "\<And>p. p \<in> set r1 \<Longrightarrow> fresh (p # r2)"
    using assms(1) by (auto simp: fresh_def sorted_wrt_append)
  obtain t1 j1 where 1: "track key r1 (t, j, x) = (t1, uint j1, key j1)" "(t1, j1) \<in> set r1"
    using track_first [OF f(1) assms(2,4)] by blast
  obtain t2 j2 where 2: "track key r2 (t1, uint j1, key j1) = (t2, uint j2, key j2)" "(t2, j2) \<in> set ((t1, j1) # r2)"
    "\<forall>(now, i) \<in> set ((t1, j1) # r2). key i \<le> key j2"
    using track_kept [OF f(2) [OF 1(2)], of key] by blast
  have "j2 \<in> snd ` set r2" using 2(2) 1(2) assms(3) by force
  then have "Max (key ` snd ` set r2) = key j2" using 2(3) by (intro Max_eqI) auto
  then show ?thesis by (simp add: track_append 1 2)
qed

text \<open>The readings of the five trackers.\<close>

definition reading :: "(bms_soc_soh_temp_stat \<Rightarrow> 'a) \<Rightarrow> (u8 \<Rightarrow> bytes) \<Rightarrow> u8 \<Rightarrow> 'a" where
  "reading f d i = f (the (get_stat 0 i (d i)))"

definition seen :: "(bms_soc_soh_temp_stat \<Rightarrow> rat) \<Rightarrow> bms_soc_soh_temp_stat \<Rightarrow> u32 \<times> int \<times> rat" where
  "seen f st = (stat_rx_time st, stat_id st, f st)"

lemma get_stat_time: "get_stat now i d = map_option (\<lambda>m. m\<lparr>stat_rx_time := now\<rparr>) (get_stat 0 i d)"
  by (auto simp: get_stat_def map_option_bind case_prod_beta option.map_comp o_def intro!: bind_option_cong)

lemma get_stat_Some: "length d = 8 \<Longrightarrow> \<exists>m. get_stat 0 i d = Some m"
  by (auto simp: get_stat_def buffer_get_float16_def buffer_get_int16_def get_byte_def)


lemma seen_keep:
  assumes "get_stat now i d = Some m" and "\<And>old new. worse old new \<longleftrightarrow> f old < f new"
    and "\<And>st t. f (st\<lparr>stat_rx_time := t\<rparr>) = f st"
  shows "seen f (keep_limiting worse now m st) = track (\<lambda>i. f (the (get_stat 0 i d))) [(now, i)] (seen f st)"
proof -
  obtain m0 where m0: "get_stat 0 i d = Some m0" "m = m0\<lparr>stat_rx_time := now\<rparr>"
    using assms(1) get_stat_time [of now i d] by (cases "get_stat 0 i d") auto
  then show ?thesis
    using get_stat_fields [OF m0(1)] by (auto simp: seen_def keep_limiting_def assms(2,3))
qed

lemma hear_seen:
  assumes "\<forall>(now, i) \<in> set ms. length (d i) = 8"
  shows "\<exists>s'. hear d ms s = Some s' \<and>
    seen stat_t_cell_max (m_stat_temp_max s') = track (reading stat_t_cell_max d) ms (seen stat_t_cell_max (m_stat_temp_max s)) \<and>
    seen (\<lambda>m. - stat_soc m) (m_stat_soc_min s') = track (reading (\<lambda>m. - stat_soc m) d) ms (seen (\<lambda>m. - stat_soc m) (m_stat_soc_min s)) \<and>
    seen stat_soc (m_stat_soc_max s') = track (reading stat_soc d) ms (seen stat_soc (m_stat_soc_max s)) \<and>
    seen (\<lambda>m. - stat_v_cell_min m) (m_stat_vcell_min s') =
      track (reading (\<lambda>m. - stat_v_cell_min m) d) ms (seen (\<lambda>m. - stat_v_cell_min m) (m_stat_vcell_min s)) \<and>
    seen stat_v_cell_max (m_stat_vcell_max s') = track (reading stat_v_cell_max d) ms (seen stat_v_cell_max (m_stat_vcell_max s))"
  using assms
proof (induction ms arbitrary: s)
  case (Cons x ms)
  obtain now i where x: "x = (now, i)" by (cases x)
  obtain m where m: "get_stat now i (d i) = Some m"
    using get_stat_Some [of "d i" i] get_stat_time [of now i "d i"] Cons.prems by (auto simp: x)
  obtain s1 where s1: "recv_bms_stat now i (d i) s = Some s1"
    "m_stat_temp_max s1 = keep_limiting (\<lambda>old new. stat_t_cell_max old < stat_t_cell_max new) now m (m_stat_temp_max s)"
    "m_stat_soc_min s1 = keep_limiting (\<lambda>old new. stat_soc old > stat_soc new) now m (m_stat_soc_min s)"
    "m_stat_soc_max s1 = keep_limiting (\<lambda>old new. stat_soc old < stat_soc new) now m (m_stat_soc_max s)"
    "m_stat_vcell_min s1 = keep_limiting (\<lambda>old new. stat_v_cell_min old > stat_v_cell_min new) now m (m_stat_vcell_min s)"
    "m_stat_vcell_max s1 = keep_limiting (\<lambda>old new. stat_v_cell_max old < stat_v_cell_max new) now m (m_stat_vcell_max s)"
    by (simp add: recv_bms_stat_def m)
  have step: "track key (x # ms) st = track key ms (track key [(now, i)] st)" for key :: "u8 \<Rightarrow> rat" and st
    using track_append [of key "[x]" ms st] by (simp add: x)
  have one: "track (reading f d) [(now, i)] st = track (\<lambda>j. f (the (get_stat 0 j (d i)))) [(now, i)] st" for f :: "_ \<Rightarrow> rat" and st
    by (cases st) (simp add: reading_def)
  show ?case
    using Cons.IH [of s1] Cons.prems unfolding step one
    by (simp add: x s1 seen_keep [OF m])
qed simp

text \<open>C20. With several battery monitors on the bus that report constant values, and no other sender tracked before, after every
  one of them has reported twice, all within
  two seconds, the five trackers hold the highest temperature, the lowest and highest state of
  charge and the lowest and highest cell voltage of all of them, whatever they reported before.\<close>

theorem bms_limiting_monitor:
  assumes "fresh (r1 @ r2)" and "snd ` set r1 = ids" and "snd ` set r2 = ids" and "ids \<noteq> {}"
    and "\<forall>i \<in> ids. length (d i) = 8"
    and "\<forall>st \<in> {m_stat_temp_max s, m_stat_soc_min s, m_stat_soc_max s, m_stat_vcell_min s, m_stat_vcell_max s}.
      stat_id st < 0 \<or> stat_id st \<in> uint ` ids"
  shows "\<exists>s'. hear d (r1 @ r2) s = Some s' \<and>
    stat_t_cell_max (m_stat_temp_max s') = Max (reading stat_t_cell_max d ` ids) \<and>
    stat_soc (m_stat_soc_min s') = Min (reading stat_soc d ` ids) \<and>
    stat_soc (m_stat_soc_max s') = Max (reading stat_soc d ` ids) \<and>
    stat_v_cell_min (m_stat_vcell_min s') = Min (reading stat_v_cell_min d ` ids) \<and>
    stat_v_cell_max (m_stat_vcell_max s') = Max (reading stat_v_cell_max d ` ids)"
proof -
  have ids: "snd p \<in> ids" if "p \<in> set (r1 @ r2)" for p
    using that imageI [of p _ snd] assms(2,3) by (metis Un_iff set_append)
  then have "\<forall>(now, i) \<in> set (r1 @ r2). length (d i) = 8" using assms(5) by (metis (mono_tags) case_prodI2 snd_conv)
  then obtain s' where s': "hear d (r1 @ r2) s = Some s'"
    "seen stat_t_cell_max (m_stat_temp_max s') = track (reading stat_t_cell_max d) (r1 @ r2) (seen stat_t_cell_max (m_stat_temp_max s))"
    "seen (\<lambda>m. - stat_soc m) (m_stat_soc_min s') = track (reading (\<lambda>m. - stat_soc m) d) (r1 @ r2) (seen (\<lambda>m. - stat_soc m) (m_stat_soc_min s))"
    "seen stat_soc (m_stat_soc_max s') = track (reading stat_soc d) (r1 @ r2) (seen stat_soc (m_stat_soc_max s))"
    "seen (\<lambda>m. - stat_v_cell_min m) (m_stat_vcell_min s') =
      track (reading (\<lambda>m. - stat_v_cell_min m) d) (r1 @ r2) (seen (\<lambda>m. - stat_v_cell_min m) (m_stat_vcell_min s))"
    "seen stat_v_cell_max (m_stat_vcell_max s') = track (reading stat_v_cell_max d) (r1 @ r2) (seen stat_v_cell_max (m_stat_vcell_max s))"
    using hear_seen [of "r1 @ r2" d s] by blast
  have r1: "r1 \<noteq> []" "snd ` set r1 = snd ` set r2" by (metis assms(2,4) image_empty list.set(1)) (simp add: assms(2,3))
  have two: "snd (snd (track (reading f d) (r1 @ r2) (seen f st))) = Max (reading f d ` ids)"
    if "stat_id st < 0 \<or> stat_id st \<in> uint ` ids" for f :: "_ \<Rightarrow> rat" and st
  proof -
    have "stat_id st < 0 \<or> (\<exists>(now, i) \<in> set r1. stat_id st = uint i)" using that unfolding assms(2) [symmetric] by auto
    from track_two_rounds [OF assms(1) this r1(2,1)] show ?thesis by (simp add: seen_def assms(3))
  qed
  have neg: "Max (reading (\<lambda>m. - f m) d ` ids) = - Min (reading f d ` ids)" for f :: "_ \<Rightarrow> rat"
  proof -
    have "finite (reading f d ` ids)" using assms(3) by (metis List.finite_set finite_imageI)
    then have "Max (uminus ` reading f d ` ids) = - Min (reading f d ` ids)"
      using assms(4) minus_Min_eq_Max by simp
    then show ?thesis by (simp add: image_image reading_def)
  qed
  note fields = arg_cong [where f = "\<lambda>x. snd (snd x)"]
  have "stat_t_cell_max (m_stat_temp_max s') = Max (reading stat_t_cell_max d ` ids)"
    "- stat_soc (m_stat_soc_min s') = Max (reading (\<lambda>m. - stat_soc m) d ` ids)"
    "stat_soc (m_stat_soc_max s') = Max (reading stat_soc d ` ids)"
    "- stat_v_cell_min (m_stat_vcell_min s') = Max (reading (\<lambda>m. - stat_v_cell_min m) d ` ids)"
    "stat_v_cell_max (m_stat_vcell_max s') = Max (reading stat_v_cell_max d ` ids)"
    using s'(2-6) [THEN fields] two assms(6) by (auto simp: seen_def)
  then show ?thesis using s'(1) by (simp add: neg)
qed

section \<open>Limits\<close>




definition stat_ok :: "bms_soc_soh_temp_stat \<Rightarrow> bool" where
  "stat_ok st \<longleftrightarrow> fin 10 (Num (stat_t_cell_max st)) \<and> fin 10 (Num (stat_soc st)) \<and>
     fin 10 (Num (stat_v_cell_min st)) \<and> fin 10 (Num (stat_v_cell_max st))"




lemma disable_ok [simp]: "stat_ok (disable_on_timeout now st) \<longleftrightarrow> stat_ok st"
  by (simp add: stat_ok_def disable_on_timeout_def)








section \<open>Reachable states\<close>









text \<open>A tracker holds one message. When its sender reports a better value, the worse values that others
  reported in the meantime are forgotten until they report again: of 90 degrees from one monitor, 80 from another a
  second later, and 20 from the first after half a second more, 20 degrees are left.\<close>

lemma tracker_forgets:
  fixes m :: "u32 \<Rightarrow> int \<Rightarrow> rat \<Rightarrow> bms_soc_soh_temp_stat"
  defines "m \<equiv> \<lambda>t i x. no_stat\<lparr>stat_rx_time := t, stat_id := i, stat_t_cell_max := x\<rparr>"
    and "k \<equiv> keep_limiting (\<lambda>old new. stat_t_cell_max old < stat_t_cell_max new)"
  shows "k 15000 (m 15000 1 20) (k 10000 (m 10000 2 80) (k 0 (m 0 1 90) no_stat)) = m 15000 1 20"
proof -
  have "rnd 10000 = 10000" "rnd 1 = 1" using rnd_int [of 10000] rnd_int [of 1] by simp_all
  then have "\<not> MAX_CAN_AGE_SEC < UTILS_AGE_S 10000 0" by (simp add: UTILS_AGE_S_def f_of_int_def fdiv_def MAX_CAN_AGE_SEC_def CH_CFG_ST_FREQUENCY_def)
  then show ?thesis by (simp add: m_def k_def keep_limiting_def no_stat_def)
qed


definition bms0 :: bms_config where
  "bms0 = \<lparr>bms_type = BMS_TYPE_VESC, limit_mode = 15, t_limit_start = Num 45, t_limit_end = Num 60,
     soc_limit_start = Num (1 / 4), soc_limit_end = Num (1 / 8), vmin_limit_start = Num 3, vmin_limit_end = Num (5 / 2),
     vmax_limit_start = Num (17 / 4), vmax_limit_end = Num (9 / 2), fwd_can_mode = BMS_FWD_CAN_MODE_DISABLED\<rparr>"

definition bms_boot :: bms where
  "bms_boot = bms_init bms0 \<lparr>bms_conf = bms0, m_values = no_values, m_stat_temp_max = no_stat, m_stat_soc_min = no_stat,
     m_stat_soc_max = no_stat, m_stat_vcell_min = no_stat, m_stat_vcell_max = no_stat, forwarded = []\<rparr>"


theorem bms_limiting_monitor_witness:
  "\<exists>s'. hear (\<lambda>i. replicate 8 i) ([(0, 1), (0, 2)] @ [(0, 2), (0, 1)]) bms_boot = Some s' \<and>
     stat_t_cell_max (m_stat_temp_max s') = Max (reading stat_t_cell_max (\<lambda>i. replicate 8 i) ` {1, 2})"
proof -
  have "fresh ([(0, 1), (0, 2)] @ [(0, 2), (0, 1)])"
    by (simp add: fresh_def UTILS_AGE_S_def f_of_int_def fdiv_def MAX_CAN_AGE_SEC_def)
  moreover have "snd ` set [(0, 1), (0, 2)] = {1, 2 :: u8}" "snd ` set [(0, 2), (0, 1)] = {1, 2 :: u8}" by auto
  ultimately show ?thesis
    using bms_limiting_monitor [of "[(0, 1), (0, 2)]" "[(0, 2), (0, 1)]" "{1, 2}" "\<lambda>i. replicate 8 i" bms_boot]
    by (simp add: bms_boot_def bms_init_def no_stat_def del: append_Cons hear.simps) blast
qed

end
