(* ===== verification/Motor_Limits.thy ===== *)
theory Motor_Limits
  imports Motor_State Bms_Limits
begin

text \<open>
  The current limits of the motor interface: \<open>update_override_limits\<close> of \<^verbatim>\<open>motor/mc_interface.c\<close>
  derives, every millisecond, the limits in force from the configured ones, the temperatures, the
  speed, the duty cycle, the battery voltage and the battery monitor.
\<close>

section \<open>Definitions\<close>

text \<open>A temperature outside the range of the sensors.\<close>

definition implausible :: "single \<Rightarrow> bool" where
  "implausible t \<longleftrightarrow> t = NaN \<or> (\<exists>neg \<in> {True, False}. t = Inf neg) \<or> x_less (Num 600) t \<or> x_less t (Num (- 200))"

text \<open>\<open>temp_motor_sensor\<close> is what the conversion for the configured type of sensor yields; it uses
  logarithms and roots of the standard library.\<close>

definition read_temp_motor :: "motor \<Rightarrow> single" where
  "read_temp_motor s =
     (let t = (if m_motor_temp_sens_type (m_conf s) = TEMP_SENSOR_DISABLED then m_temp_override s
               else temp_motor_sensor (inputs s))
      in if implausible t then Num (- 100) else t)"

text \<open>The sections \<^verbatim>\<open>Temperature MOSFET\<close> and \<^verbatim>\<open>Temperature MOTOR\<close>: the limits, and whether the
  temperature is beyond the range, which is a fault.\<close>

definition temp_limits :: "single \<Rightarrow> single \<Rightarrow> single \<Rightarrow> single \<Rightarrow> single \<Rightarrow> bool \<times> single \<times> single" where
  "temp_limits temp t_start t_end l_min l_max =
     (if x_less temp (x_add t_start (fl (1 / 10))) then (False, l_min, l_max)
      else if x_less (x_sub t_end (fl (1 / 10))) temp then (True, Num 0, Num 0)
      else
        let maxc = fabsf l_max;
            maxc = (if x_less maxc (fabsf l_min) then fabsf l_min else maxc);
            maxc = utils_map temp t_start t_end maxc (Num 0)
        in (False,
            if x_less maxc (fabsf l_min) then x_mul (SIGN l_min) maxc else l_min,
            if x_less maxc (fabsf l_max) then x_mul (SIGN l_max) maxc else l_max))"

text \<open>A limit that falls to zero as a value rises from \<open>v_start\<close> to \<open>v_end\<close>, or falls.\<close>

definition high_cut :: "single \<Rightarrow> single \<Rightarrow> single \<Rightarrow> single \<Rightarrow> single" where
  "high_cut v v_start v_end lmt =
     (if x_less v (x_add v_start (fl (1 / 10))) then lmt
      else if x_less (x_sub v_end (fl (1 / 10))) v then Num 0
      else utils_map v v_start v_end lmt (Num 0))"

definition low_cut :: "single \<Rightarrow> single \<Rightarrow> single \<Rightarrow> single \<Rightarrow> single" where
  "low_cut v v_start v_end lmt =
     (if x_less (x_sub v_start (fl (1 / 10))) v then lmt
      else if x_less v (x_add v_end (fl (1 / 10))) then Num 0
      else utils_map v v_start v_end lmt (Num 0))"

text \<open>Start current decrease, and the limit close to the maximum duty cycle.\<close>

definition start_limit :: "mc_configuration \<Rightarrow> single \<Rightarrow> single \<Rightarrow> single" where
  "start_limit cfg rpm_abs l_max =
     (if x_less rpm_abs (foc_start_curr_dec_rpm cfg)
      then utils_map rpm_abs (Num 0) (foc_start_curr_dec_rpm cfg) (x_mul (foc_start_curr_dec cfg) l_max) l_max
      else l_max)"

definition duty_limit :: "mc_configuration \<Rightarrow> single \<Rightarrow> single \<Rightarrow> single" where
  "duty_limit cfg duty_now_abs l_max =
     (let d_start = x_mul (l_duty_start cfg) (l_max_duty cfg) in
      if x_less duty_now_abs d_start \<or> x_less (fl (99 / 100)) (l_duty_start cfg) then l_max
      else utils_map duty_now_abs d_start (l_max_duty cfg) l_max (x_mul (cc_min_current cfg) (Num 5)))"

text \<open>The limit of the motor current for the measured input current.\<close>

definition i_in_limit :: "mc_configuration \<Rightarrow> single \<Rightarrow> single \<Rightarrow> single" where
  "i_in_limit cfg i_in_filter l_max =
     (if x_less (Num 0) i_in_filter \<and> x_less (l_in_current_map_start cfg) (fl (98 / 100)) then
        let frac = x_div i_in_filter (lo_in_current_max cfg);
            lmt = (if x_less (l_in_current_map_start cfg) frac
                   then utils_map frac (l_in_current_map_start cfg) (Num 1) l_max (Num 0) else l_max)
        in if x_less lmt (Num 0) then Num 0 else lmt
      else l_max)"

text \<open>The limits of the input current: battery cut-off, regeneration cut-off, power.\<close>

definition input_limits :: "u32 \<Rightarrow> mc_configuration \<Rightarrow> single \<Rightarrow> bms \<Rightarrow> (single \<times> single) \<times> bms" where
  "input_limits now cfg vin b =
     (let max_batt = low_cut vin (l_battery_cut_start cfg) (l_battery_cut_end cfg) (l_in_current_max cfg);
          min_batt = high_cut vin (l_battery_regen_cut_start cfg) (l_battery_regen_cut_end cfg) (l_in_current_min cfg);
          lo_in_max = utils_min_abs (x_div (l_watt_max cfg) vin) max_batt;
          lo_in_min = utils_min_abs (x_div (l_watt_min cfg) vin) min_batt;
          ((lo_in_min, lo_in_max), b) = bms_update_limits now lo_in_min lo_in_max (l_in_current_min cfg) (l_in_current_max cfg) b
      in ((utils_min_abs (l_in_current_min cfg) lo_in_min, utils_min_abs (l_in_current_max cfg) lo_in_max), b))"

text \<open>The smallest of the limits of the motor current; at least \<open>cc_min_current\<close> is allowed.\<close>

definition clamp_max :: "mc_configuration \<Rightarrow> single \<Rightarrow> single" where
  "clamp_max cfg lo = (if x_less lo (cc_min_current cfg) then cc_min_current cfg else lo)"

definition clamp_min :: "mc_configuration \<Rightarrow> single \<Rightarrow> single" where
  "clamp_min cfg lo = (if x_less (x_neg (cc_min_current cfg)) lo then x_neg (cc_min_current cfg) else lo)"

definition update_override_limits :: "motor \<Rightarrow> motor" where
  "update_override_limits s =
     (let cfg = m_conf s;
          rpm_now = (if motor_type cfg = MOTOR_TYPE_FOC then x_mul (DIR_MULT s) (foc_rpm_fast (inputs s))
                     else mc_interface_get_rpm s);
          duty_now_abs = fabsf (mc_interface_get_duty_cycle_now s);
          t_fet = UTILS_LP_FAST (m_temp_fet s) (temp_mosfet (inputs s)) (fl (1 / 10));
          t_mot = UTILS_LP_FAST (m_temp_motor s) (read_temp_motor s) (fl (1 / 100));
          l_min = x_mul (l_current_min cfg) (l_current_min_scale cfg);
          l_max = x_mul (l_current_max cfg) (l_current_max_scale cfg);
          (hot_fet, min_mos, max_mos) = temp_limits t_fet (l_temp_fet_start cfg) (l_temp_fet_end cfg) l_min l_max;
          s = (if hot_fet then mc_interface_fault_stop FAULT_CODE_OVER_TEMP_FET False s else s);
          (hot_mot, min_mot, max_mot) = temp_limits t_mot (l_temp_motor_start cfg) (l_temp_motor_end cfg) l_min l_max;
          s = (if hot_mot then mc_interface_fault_stop FAULT_CODE_OVER_TEMP_MOTOR False s else s);
          accel = (\<lambda>t. utils_map (l_temp_accel_dec cfg) (Num 0) (Num 1) t (Num 25));
          fet_accel = high_cut t_fet (accel (l_temp_fet_start cfg)) (accel (l_temp_fet_end cfg)) l_max;
          mot_accel = high_cut t_mot (accel (l_temp_motor_start cfg)) (accel (l_temp_motor_end cfg)) l_max;
          max_rpm = high_cut rpm_now (x_mul (l_max_erpm cfg) (l_erpm_start cfg)) (l_max_erpm cfg) l_max;
          min_rpm = low_cut rpm_now (x_mul (l_min_erpm cfg) (l_erpm_start cfg)) (l_min_erpm cfg) l_max;
          curr_dec = start_limit cfg (fabsf rpm_now) l_max;
          max_duty = duty_limit cfg duty_now_abs l_max;
          ((in_min, in_max), b) = input_limits (sys_time (inputs s)) cfg (m_input_voltage_filtered s) (m_bms s);
          cfg = cfg\<lparr>lo_in_current_max := in_max, lo_in_current_min := in_min\<rparr>;
          max_i_in = i_in_limit cfg (m_i_in_filter s) l_max;
          lo_max = foldl utils_min_abs max_mos [max_mot, max_rpm, min_rpm, curr_dec, fet_accel, mot_accel, max_duty, max_i_in];
          lo_min = utils_min_abs min_mos min_mot
      in s\<lparr>m_temp_fet := t_fet, m_temp_motor := t_mot, m_bms := b,
           m_conf := cfg\<lparr>lo_current_max := clamp_max cfg lo_max, lo_current_min := clamp_min cfg lo_min\<rparr>\<rparr>)"

end
