(* ===== verification/Motor_If.thy ===== *)
theory Motor_If
  imports Motor_Limits
begin

text \<open>
  The operations of the motor interface, \<^verbatim>\<open>motor/mc_interface.c\<close>: configuration, the commands with
  the gate every one of them passes (\<open>mc_interface_try_input\<close>), locking, ignoring of inputs, the thread that
  handles faults and the timer tasks.
\<close>

section \<open>The gate\<close>

definition MCPWM_DETECT_STOP_TIME :: int where "MCPWM_DETECT_STOP_TIME = 500"

text \<open>The result is the time in milliseconds until commands are allowed again, not zero if they are
  refused.\<close>

definition mc_interface_try_input :: "motor \<Rightarrow> int \<times> motor" where
  "mc_interface_try_input s =
     (if m_persistent_fault s \<noteq> FAULT_CODE_NONE then (1, s)
      else
        let s = (if mc_interface_get_state s = MC_STATE_DETECTING
                 then (issue (Mcpwm Stop_pwm) s)\<lparr>m_ignore_iterations := MCPWM_DETECT_STOP_TIME\<rparr> else s);
            retval = m_ignore_iterations s;
            (retval, s) =
              (if m_ignore_iterations s = 0 \<and> m_lock_enabled s then
                 if \<not> m_lock_override_once s then (1, s) else (retval, s\<lparr>m_lock_override_once := False\<rparr>)
               else (retval, s));
            retval = by_type s (if bldc_init s then retval else 1) (if foc_init s then retval else 1) retval
        in (retval, s))"

definition guarded :: "(motor \<Rightarrow> motor) \<Rightarrow> motor \<Rightarrow> motor" where
  "guarded f s = (let (retval, s) = mc_interface_try_input s in if retval \<noteq> 0 then s else f s)"

definition mc_interface_lock :: "motor \<Rightarrow> motor" where
  "mc_interface_lock s = s\<lparr>m_lock_enabled := True\<rparr>"

definition mc_interface_unlock :: "motor \<Rightarrow> motor" where
  "mc_interface_unlock s = s\<lparr>m_lock_enabled := False\<rparr>"

definition mc_interface_lock_override_once :: "motor \<Rightarrow> motor" where
  "mc_interface_lock_override_once s = s\<lparr>m_lock_override_once := True\<rparr>"

definition mc_interface_ignore_input :: "int \<Rightarrow> motor \<Rightarrow> motor" where
  "mc_interface_ignore_input time_ms s = s\<lparr>m_ignore_iterations := time_ms\<rparr>"

definition mc_interface_ignore_input_both :: "int \<Rightarrow> motor \<Rightarrow> motor" where
  "mc_interface_ignore_input_both time_ms s = s\<lparr>m_ignore_iterations := time_ms\<rparr>"

section \<open>Commands\<close>

text \<open>A command with a value that is not close to zero resets the timer of inactivity.\<close>

definition note_activity :: "single \<Rightarrow> motor \<Rightarrow> motor" where
  "note_activity x s = (if x_less (fl (1 / 1000)) (fabsf x) then issue Shutdown_reset_timer s else s)"

definition events_add :: "string \<Rightarrow> single \<Rightarrow> motor \<Rightarrow> motor" where
  "events_add name param = issue (Events_add name param)"

definition mc_interface_set_duty :: "single \<Rightarrow> motor \<Rightarrow> motor" where
  "mc_interface_set_duty dutyCycle s =
     guarded (\<lambda>s. let c = Set_duty (x_mul (DIR_MULT s) dutyCycle) in events_add ''set_duty'' dutyCycle (to_pwm (Some c) (Some c) s))
       (note_activity dutyCycle s)"

definition mc_interface_set_duty_noramp :: "single \<Rightarrow> motor \<Rightarrow> motor" where
  "mc_interface_set_duty_noramp dutyCycle s =
     guarded (\<lambda>s. let c = Set_duty_noramp (x_mul (DIR_MULT s) dutyCycle) in events_add ''set_duty_noramp'' dutyCycle (to_pwm (Some c) (Some c) s))
       (note_activity dutyCycle s)"

definition mc_interface_set_pid_speed :: "single \<Rightarrow> motor \<Rightarrow> motor" where
  "mc_interface_set_pid_speed v s =
     guarded (\<lambda>s. let c = Set_pid_speed (x_mul (DIR_MULT s) v) in events_add ''set_pid_speed'' v (to_pwm (Some c) (Some c) s))
       (note_activity v s)"

definition mc_interface_set_pid_pos :: "single \<Rightarrow> motor \<Rightarrow> motor" where
  "mc_interface_set_pid_pos pos s =
     guarded (\<lambda>s.
       let s = s\<lparr>m_position_set := pos\<rparr>;
           p = x_mul (x_add pos (p_pid_offset (m_conf s))) (DIR_MULT s);
           p = (if encoder_configured (inputs s) \<and> foc_encoder_inverted (m_conf s) then x_mul p (Num (- 1)) else p);
           p = utils_norm_angle p
       in events_add ''set_pid_pos'' p (to_pwm (Some (Set_pid_pos p)) (Some (Set_pid_pos p)) s))
       (issue Shutdown_reset_timer s)"

definition mc_interface_set_current :: "single \<Rightarrow> motor \<Rightarrow> motor" where
  "mc_interface_set_current cur s =
     guarded (\<lambda>s. let c = Set_current (x_mul (DIR_MULT s) cur) in events_add ''set_current'' cur (to_pwm (Some c) (Some c) s))
       (note_activity cur s)"

definition mc_interface_set_brake_current :: "single \<Rightarrow> motor \<Rightarrow> motor" where
  "mc_interface_set_brake_current cur s =
     guarded (\<lambda>s. let c = Set_brake_current (x_mul (DIR_MULT s) cur) in events_add ''set_current_brake'' cur (to_pwm (Some c) (Some c) s))
       (note_activity cur s)"

definition mc_interface_set_current_off_delay :: "single \<Rightarrow> motor \<Rightarrow> motor" where
  "mc_interface_set_current_off_delay delay_sec s =
     guarded (\<lambda>s.
       let delay_sec = UTILS_NAN_ZERO delay_sec;
           delay_sec = (if x_less (Num 5) delay_sec then Num 5 else delay_sec)
       in to_pwm None (Some (Set_current_off_delay delay_sec)) s) s"

definition mc_interface_set_current_rel :: "single \<Rightarrow> motor \<Rightarrow> motor" where
  "mc_interface_set_current_rel val s =
     (let s = note_activity val s;
          cfg = m_conf s;
          dut = mc_interface_get_duty_cycle_now s;
          s = (if x_less (fabsf dut) (fl (2 / 100)) \<or> SIGN val = SIGN dut
               then mc_interface_set_current (x_mul val (lo_current_max cfg)) s
               else mc_interface_set_current (x_mul val (fabsf (lo_current_min cfg))) s)
      in if x_less (cc_min_current cfg) (fabsf (x_mul val (l_abs_current_max cfg)))
         then mc_interface_set_current_off_delay (fl (1 / 10)) s else s)"

definition mc_interface_set_brake_current_rel :: "single \<Rightarrow> motor \<Rightarrow> motor" where
  "mc_interface_set_brake_current_rel val s =
     (let s = note_activity val s;
          cfg = m_conf s;
          s = mc_interface_set_brake_current (x_mul val (fabsf (lo_current_min cfg))) s
      in if x_less (cc_min_current cfg) (fabsf (x_mul val (lo_current_min cfg)))
         then mc_interface_set_current_off_delay (fl (1 / 10)) s else s)"

definition mc_interface_set_handbrake :: "single \<Rightarrow> motor \<Rightarrow> motor" where
  "mc_interface_set_handbrake cur s =
     guarded (\<lambda>s. events_add ''set_handbrake'' cur (to_pwm (Some (Set_brake_current cur)) (Some (Set_handbrake cur)) s))
       (note_activity cur s)"

definition mc_interface_set_handbrake_rel :: "single \<Rightarrow> motor \<Rightarrow> motor" where
  "mc_interface_set_handbrake_rel val s =
     (let s = note_activity val s in mc_interface_set_handbrake (x_mul val (fabsf (lo_current_min (m_conf s)))) s)"

definition mc_interface_set_openloop_current :: "single \<Rightarrow> single \<Rightarrow> motor \<Rightarrow> motor" where
  "mc_interface_set_openloop_current cur v s =
     guarded (\<lambda>s. events_add ''set_openloop_current'' cur
         (to_pwm None (Some (Set_openloop_current cur (x_mul (DIR_MULT s) v))) s))
       (note_activity cur s)"

definition mc_interface_set_openloop_phase :: "single \<Rightarrow> single \<Rightarrow> motor \<Rightarrow> motor" where
  "mc_interface_set_openloop_phase cur phase s =
     guarded (\<lambda>s. events_add ''set_openloop_phase'' phase
         (to_pwm None (Some (Set_openloop_phase cur (x_mul (DIR_MULT s) phase))) s))
       (note_activity cur s)"

definition mc_interface_set_openloop_duty :: "single \<Rightarrow> single \<Rightarrow> motor \<Rightarrow> motor" where
  "mc_interface_set_openloop_duty dutyCycle v s =
     guarded (\<lambda>s. events_add ''set_openloop_duty'' dutyCycle
         (to_pwm None (Some (Set_openloop_duty dutyCycle (x_mul (DIR_MULT s) v))) s))
       (note_activity dutyCycle s)"

definition mc_interface_set_openloop_duty_phase :: "single \<Rightarrow> single \<Rightarrow> motor \<Rightarrow> motor" where
  "mc_interface_set_openloop_duty_phase dutyCycle phase s =
     guarded (\<lambda>s. events_add ''set_openloop_duty_phase'' phase
         (to_pwm None (Some (Set_openloop_duty_phase dutyCycle phase)) s))
       (note_activity dutyCycle s)"

definition mc_interface_brake_now :: "motor \<Rightarrow> motor" where
  "mc_interface_brake_now s = mc_interface_set_duty (Num 0) (issue Shutdown_reset_timer s)"

definition mc_interface_release_motor_override :: "motor \<Rightarrow> motor" where
  "mc_interface_release_motor_override s =
     events_add ''release_motor_override'' (Num 0) (to_pwm (Some Release_motor) (Some Release_motor) s)"

definition mc_interface_release_motor :: "motor \<Rightarrow> motor" where
  "mc_interface_release_motor s =
     guarded (\<lambda>s. events_add ''release_motor'' (Num 0) (to_pwm (Some Release_motor) (Some Release_motor) s)) s"

definition mc_interface_override_temp_motor :: "single \<Rightarrow> motor \<Rightarrow> motor" where
  "mc_interface_override_temp_motor temp s = s\<lparr>m_temp_override := temp\<rparr>"

section \<open>Configuration\<close>

text \<open>The PWM peripheral is initialised for the type of motor, unless a persistent fault is latched.\<close>

definition init_pwm :: "motor \<Rightarrow> motor" where
  "init_pwm s =
     (if m_persistent_fault s = FAULT_CODE_NONE then
        by_type s ((issue (Mcpwm Pwm_init) s)\<lparr>bldc_init := True\<rparr>) ((issue (Mcpwm_foc Pwm_init) s)\<lparr>foc_init := True\<rparr>) s
      else s)"

definition deinit_pwm :: "motor \<Rightarrow> motor" where
  "deinit_pwm s =
     (issue (Mcpwm_foc Pwm_deinit) ((issue (Mcpwm Pwm_deinit) s)\<lparr>bldc_init := False\<rparr>))\<lparr>foc_init := False\<rparr>"

text \<open>The start: all variables are zero, \<open>cfg\<close> is the stored configuration. The persistent fault may
  have been set before.\<close>

definition mc_interface_init :: "mc_configuration \<Rightarrow> motor \<Rightarrow> motor" where
  "mc_interface_init cfg s =
     (let s = s\<lparr>m_conf := cfg, m_fault_now := FAULT_CODE_NONE, m_ignore_iterations := 0, m_drv_fault_iterations := 0,
          m_cycles_running := 0, m_lock_enabled := False, m_lock_override_once := False,
          m_motor_current_sum := Num 0, m_input_current_sum := Num 0, m_motor_current_iterations := Num 0,
          m_input_current_iterations := Num 0, m_motor_id_sum := Num 0, m_motor_iq_sum := Num 0,
          m_motor_id_iterations := Num 0, m_motor_iq_iterations := Num 0, m_motor_vd_sum := Num 0, m_motor_vq_sum := Num 0,
          m_motor_vd_iterations := Num 0, m_motor_vq_iterations := Num 0, m_amp_seconds := Num 0,
          m_amp_seconds_charged := Num 0, m_watt_seconds := Num 0, m_watt_seconds_charged := Num 0,
          m_position_set := Num 0, m_temp_fet := Num 0, m_temp_motor := Num 0, m_motor_current_unbalance := Num 0,
          m_motor_current_unbalance_error_rate := Num 0, m_f_samp_now := Num 0, m_input_voltage_filtered := Num 0,
          m_input_voltage_filtered_slower := Num 0, m_temp_override := Num 0, m_i_in_filter := Num 0,
          m_odometer_last := 0, m_runtime_last := 0\<rparr>;
          s = init_pwm (issue (Encoder_init (m_conf s)) s)
      in s\<lparr>m_bms := bms_init (bms_cfg (m_conf s)) (m_bms s)\<rparr>)"

definition mc_interface_set_configuration :: "mc_configuration \<Rightarrow> motor \<Rightarrow> motor" where
  "mc_interface_set_configuration cfg s =
     (let cfg = (if \<not> has_phase_shunts s then cfg\<lparr>foc_control_sample_mode := FOC_CONTROL_SAMPLE_MODE_V0\<rparr> else cfg);
          s = (if m_sensor_port_mode (m_conf s) \<noteq> m_sensor_port_mode cfg
               then issue (Encoder_init cfg) (issue Encoder_deinit s) else issue (Encoder_update_config cfg) s);
          s = (if motor_type (m_conf s) \<noteq> motor_type cfg
               then init_pwm ((deinit_pwm s)\<lparr>m_conf := cfg\<rparr>) else s\<lparr>m_conf := cfg\<rparr>);
          s = update_override_limits s;
          s = to_pwm (Some (Pwm_set_configuration (m_conf s))) (Some (Pwm_set_configuration (m_conf s))) s
      in s\<lparr>m_bms := bms_init (bms_cfg cfg) (m_bms s)\<rparr>)"

text \<open>Shifts the offset such that the current angle becomes \<open>angle_now\<close>.\<close>

definition mc_interface_update_pid_pos_offset :: "single \<Rightarrow> bool \<Rightarrow> motor \<Rightarrow> motor" where
  "mc_interface_update_pid_pos_offset angle_now store s =
     (let cfg = m_conf s;
          ofs = x_add (p_pid_offset cfg) (x_sub (mc_interface_get_pid_pos_now s) angle_now);
          cfg = cfg\<lparr>p_pid_offset := utils_norm_angle ofs\<rparr>;
          s = (if store then issue (Store_mc_configuration cfg) s else s)
      in mc_interface_set_configuration cfg s)"

section \<open>Faults and timer tasks\<close>

text \<open>The part of \<open>run_timer_tasks\<close> that counts the faults down.\<close>

definition fault_countdown :: "motor \<Rightarrow> motor" where
  "fault_countdown s =
     (let s = (if m_ignore_iterations s > 0 then s\<lparr>m_ignore_iterations := m_ignore_iterations s - 1\<rparr>
               else if \<not> is_drv_fault (inputs s) then s\<lparr>m_fault_now := FAULT_CODE_NONE\<rparr> else s)
      in if is_drv_fault (inputs s) then
           let s = s\<lparr>m_drv_fault_iterations := m_drv_fault_iterations s + 1\<rparr> in
           if m_drv_fault_iterations s \<ge> m_fault_stop_time_ms (m_conf s)
           then (issue Hw_reset_drv_faults s)\<lparr>m_drv_fault_iterations := 0\<rparr> else s
         else s\<lparr>m_drv_fault_iterations := 0\<rparr>)"

text \<open>Offsets of the current sensors, and the balance of the three currents. The maximum unbalance
  is a constant of the board.\<close>

definition HW_MAX_CURRENT_OFFSET :: single where "HW_MAX_CURRENT_OFFSET = Num 620"
definition MIDDLE_ADC :: single where "MIDDLE_ADC = Num 2048"

definition check_offset :: "single \<Rightarrow> mc_fault_code \<Rightarrow> motor \<Rightarrow> motor" where
  "check_offset ofs fault s =
     (if x_less HW_MAX_CURRENT_OFFSET (fabsf (x_sub ofs MIDDLE_ADC)) then mc_interface_fault_stop fault False s else s)"

definition check_offsets :: "motor \<Rightarrow> motor" where
  "check_offsets s =
     (if motor_type (m_conf s) = MOTOR_TYPE_FOC \<and> mc_interface_dccal_done s then
        let (o0, o1, o2) = foc_offsets (inputs s) in
        check_offset o2 FAULT_CODE_HIGH_OFFSET_CURRENT_SENSOR_3
          (check_offset o1 FAULT_CODE_HIGH_OFFSET_CURRENT_SENSOR_2 (check_offset o0 FAULT_CODE_HIGH_OFFSET_CURRENT_SENSOR_1 s))
      else s)"

definition check_balance :: "single \<Rightarrow> single \<Rightarrow> motor \<Rightarrow> motor" where
  "check_balance max_unbalance max_rate s =
     (if foc_current_sample_mode (m_conf s) \<noteq> FOC_CURRENT_SAMPLE_MODE_HIGH_CURRENT \<and> mc_interface_dccal_done s then
        let s = s\<lparr>m_motor_current_unbalance := mc_interface_get_abs_motor_current_unbalance s\<rparr>;
            target = (if x_less (fabsf max_unbalance) (fabsf (m_motor_current_unbalance s)) then Num 1 else Num 0);
            s = s\<lparr>m_motor_current_unbalance_error_rate :=
                    UTILS_LP_FAST (m_motor_current_unbalance_error_rate s) target (fl (1 / 1000))\<rparr>
        in if x_less max_rate (m_motor_current_unbalance_error_rate s)
           then mc_interface_fault_stop FAULT_CODE_UNBALANCED_CURRENTS False s else s
      else s)"

text \<open>The filtered battery voltage and the counters of distance and running time. \<open>CH_CFG_ST_FREQUENCY\<close>
  is the frequency of the system timer.\<close>

definition update_voltage :: "motor \<Rightarrow> motor" where
  "update_voltage s =
     (let fc = (if UTILS_AGE_S (sys_time (inputs s)) 0 < 10 then fl (1 / 100) else batt_filter (inputs s)) in
      s\<lparr>m_input_voltage_filtered_slower := UTILS_LP_FAST (m_input_voltage_filtered_slower s) (m_input_voltage_filtered s) fc\<rparr>)"

definition update_odometer :: "motor \<Rightarrow> motor" where
  "update_odometer s =
     (let odometer = float_to_u64 (inputs s) (mc_interface_get_distance_abs s) in
      s\<lparr>g_odometer := g_odometer s + (odometer - m_odometer_last s), m_odometer_last := odometer\<rparr>)"

definition update_runtime :: "motor \<Rightarrow> motor" where
  "update_runtime s =
     (let seconds = ucast (sys_time (inputs s) div word_of_nat CH_CFG_ST_FREQUENCY);
          s = (if seconds < m_runtime_last s then s\<lparr>m_runtime_last := 0\<rparr> else s)
      in s\<lparr>g_runtime := g_runtime s + (seconds - m_runtime_last s), m_runtime_last := seconds\<rparr>)"

text \<open>One round of the timer thread, once a millisecond. The auxiliary output does not exist on this
  board: \<^verbatim>\<open>AUX_ON\<close> and \<^verbatim>\<open>AUX_OFF\<close> are empty.\<close>

definition run_timer_tasks :: "single \<Rightarrow> single \<Rightarrow> motor \<Rightarrow> motor" where
  "run_timer_tasks max_unbalance max_rate s =
     (let s = update_runtime (update_odometer (update_voltage s));
          s = s\<lparr>m_f_samp_now := mc_interface_get_sampling_frequency_now s\<rparr>;
          s = update_override_limits (fault_countdown s);
          s = fold (\<lambda>fault. mc_interface_fault_stop fault False) (encoder_faults (inputs s)) s
      in check_balance max_unbalance max_rate (check_offsets s))"

section \<open>An example\<close>

text \<open>A configuration and the state before the interface is initialised.\<close>

definition conf0 :: mc_configuration where
  "conf0 = \<lparr>l_current_max = Num 60, l_current_min = Num (- 60), l_in_current_max = Num 60, l_in_current_min = Num (- 60),
     l_in_current_map_start = Num 1, l_in_current_map_filter = Num (1 / 2), l_abs_current_max = Num 120,
     l_min_erpm = Num (- 100000), l_max_erpm = Num 100000, l_erpm_start = Num (3 / 4), l_min_vin = Num 8,
     l_max_vin = Num 57, l_battery_cut_start = Num 10, l_battery_cut_end = Num 8, l_battery_regen_cut_start = Num 1000,
     l_battery_regen_cut_end = Num 1100, l_slow_abs_current = True, l_temp_fet_start = Num 85,
     l_temp_fet_end = Num 100, l_temp_motor_start = Num 85, l_temp_motor_end = Num 100, l_temp_accel_dec = Num (1 / 8),
     l_max_duty = Num (15 / 16), l_watt_max = Num 1500000, l_watt_min = Num (- 1500000), l_current_max_scale = Num 1,
     l_current_min_scale = Num 1, l_duty_start = Num 1, lo_current_max = Num 60, lo_current_min = Num (- 60),
     lo_in_current_max = Num 60, lo_in_current_min = Num (- 60), motor_type = MOTOR_TYPE_FOC,
     foc_encoder_inverted = False, foc_start_curr_dec = Num 1, foc_start_curr_dec_rpm = Num 2500,
     foc_control_sample_mode = FOC_CONTROL_SAMPLE_MODE_V0,
     foc_current_sample_mode = FOC_CURRENT_SAMPLE_MODE_LONGEST_ZERO, p_pid_offset = Num 0,
     cc_min_current = Num (1 / 16), m_fault_stop_time_ms = 500, m_sensor_port_mode = 0, m_invert_direction = False,
     m_motor_temp_sens_type = TEMP_SENSOR_NTC_10K_25C, m_out_aux_mode = OUT_AUX_MODE_UNUSED, si_motor_poles = 14,
     si_gear_ratio = Num 3, si_wheel_diameter = Num (1 / 8), bms_cfg = bms0, mc_rest = []\<rparr>"

definition view0 :: pwm_view where
  "view0 = \<lparr>pwm_state = MC_STATE_OFF, duty_cycle_set = Num 0, duty_cycle_now = Num 0, sampling_frequency_now = Num 0,
     pwm_rpm = Num 0, tot_current = Num 0, tot_current_filtered = Num 0, tot_current_directional = Num 0,
     tot_current_directional_filtered = Num 0, tot_current_in = Num 0, tot_current_in_filtered = Num 0,
     tachometer_value = 0, tachometer_abs_value = 0, adc_isr_duration = Num 0, dccal_done = True\<rparr>"

definition sensed0 :: sensed where
  "sensed0 = \<lparr>bldc_view = view0, foc_view = view0, foc_control_mode = CONTROL_MODE_NONE, foc_rpm_fast = Num 0,
     foc_abs_current = Num 0, foc_abs_current_filtered = Num 0, foc_id = Num 0, foc_iq = Num 0, foc_vd = Num 0,
     foc_vq = Num 0, foc_pid_pos_now = Num 0, foc_abs_unbalance = Num 0, foc_offsets = (Num 2048, Num 2048, Num 2048),
     encoder_configured = False, encoder_deg = Num 0, input_voltage = Num 40, temp_mosfet = Num 25,
     temp_motor_sensor = Num 25, is_drv_fault = False, encoder_faults = [], batt_filter = Num (1 / 16),
     float_to_u64 = (\<lambda>x. word_of_int (x_to_int x)), sys_time = 0\<rparr>"

definition motor0 :: motor where
  "motor0 = \<lparr>m_conf = conf0, m_fault_now = FAULT_CODE_NONE, m_ignore_iterations = 0, m_drv_fault_iterations = 0,
     m_cycles_running = 0, m_lock_enabled = False, m_lock_override_once = False, m_motor_current_sum = Num 0,
     m_input_current_sum = Num 0, m_motor_current_iterations = Num 0, m_input_current_iterations = Num 0,
     m_motor_id_sum = Num 0, m_motor_iq_sum = Num 0, m_motor_id_iterations = Num 0, m_motor_iq_iterations = Num 0,
     m_motor_vd_sum = Num 0, m_motor_vq_sum = Num 0, m_motor_vd_iterations = Num 0, m_motor_vq_iterations = Num 0,
     m_amp_seconds = Num 0, m_amp_seconds_charged = Num 0, m_watt_seconds = Num 0, m_watt_seconds_charged = Num 0,
     m_position_set = Num 0, m_temp_fet = Num 0, m_temp_motor = Num 0, m_motor_current_unbalance = Num 0,
     m_motor_current_unbalance_error_rate = Num 0, m_f_samp_now = Num 0, m_input_voltage_filtered = Num 0,
     m_input_voltage_filtered_slower = Num 0, m_temp_override = Num 0, m_i_in_filter = Num 0, m_odometer_last = 0,
     m_runtime_last = 0, m_wheel_speed_override = False, m_wheel_speed_override_value = Num 0,
     m_fault_code = FAULT_CODE_NONE, fault_event = False, m_persistent_fault = FAULT_CODE_NONE, bldc_init = False,
     foc_init = False, has_phase_shunts = True, m_bms = bms_boot, g_odometer = 0, g_runtime = 0, inputs = sensed0,
     issued = []\<rparr>"

end
