(* ===== verification/Motor_Safe.thy ===== *)
theory Motor_Safe
  imports Motor_If
begin

text \<open>
  What the gate of the motor interface guarantees, over every sequence of requests, timer ticks, faults,
  configurations and inputs: a persistent fault keeps the PWM peripheral off for ever, a fault keeps
  commands away for the configured time and is then cleared, a lock lets through what was allowed.
\<close>

section \<open>Histories\<close>

text \<open>Everything that may command the motor.\<close>

datatype request =
  Duty single | Duty_noramp single | Speed single | Position single | Current single | Brake_current single
| Current_rel single | Brake_current_rel single | Handbrake single | Handbrake_rel single
| Openloop_current single single | Openloop_phase single single | Openloop_duty single single
| Openloop_duty_phase single single | Brake_now | Off_delay single | Release | Release_override

fun perform :: "request \<Rightarrow> motor \<Rightarrow> motor" where
  "perform (Duty x) = mc_interface_set_duty x"
| "perform (Duty_noramp x) = mc_interface_set_duty_noramp x"
| "perform (Speed x) = mc_interface_set_pid_speed x"
| "perform (Position x) = mc_interface_set_pid_pos x"
| "perform (Current x) = mc_interface_set_current x"
| "perform (Brake_current x) = mc_interface_set_brake_current x"
| "perform (Current_rel x) = mc_interface_set_current_rel x"
| "perform (Brake_current_rel x) = mc_interface_set_brake_current_rel x"
| "perform (Handbrake x) = mc_interface_set_handbrake x"
| "perform (Handbrake_rel x) = mc_interface_set_handbrake_rel x"
| "perform (Openloop_current x y) = mc_interface_set_openloop_current x y"
| "perform (Openloop_phase x y) = mc_interface_set_openloop_phase x y"
| "perform (Openloop_duty x y) = mc_interface_set_openloop_duty x y"
| "perform (Openloop_duty_phase x y) = mc_interface_set_openloop_duty_phase x y"
| "perform Brake_now = mc_interface_brake_now"
| "perform (Off_delay x) = mc_interface_set_current_off_delay x"
| "perform Release = mc_interface_release_motor"
| "perform Release_override = mc_interface_release_motor_override"

text \<open>One step of a history. \<open>Sense\<close> changes what is measured.\<close>

datatype event =
  Request request | Lock | Unlock | Override_once | Ignore int | Configure mc_configuration
| Pid_offset single bool | Tick single single | Fault mc_fault_code | Isr_fault mc_fault_code | Sense sensed

fun step :: "event \<Rightarrow> motor \<Rightarrow> motor" where
  "step (Request r) s = perform r s"
| "step Lock s = mc_interface_lock s"
| "step Unlock s = mc_interface_unlock s"
| "step Override_once s = mc_interface_lock_override_once s"
| "step (Ignore t) s = mc_interface_ignore_input t s"
| "step (Configure cfg) s = mc_interface_set_configuration cfg s"
| "step (Pid_offset a store) s = mc_interface_update_pid_pos_offset a store s"
| "step (Tick u r) s = run_timer_tasks u r s"
| "step (Fault c) s = mc_interface_fault_stop c False s"
| "step (Isr_fault c) s = fault_stop_thread (mc_interface_fault_stop c True s)"
| "step (Sense i) s = s\<lparr>inputs := i\<rparr>"

definition run :: "event list \<Rightarrow> motor \<Rightarrow> motor" where
  "run es s = fold step es s"

text \<open>The calls that make the motor move or arm the gate driver.\<close>

fun moves :: "pwm_call \<Rightarrow> bool" where
  "moves (Set_current_off_delay _) = False"
| "moves (Set_tachometer_value _) = False"
| "moves Reset_tachometer_value = False"
| "moves Reset_tachometer_abs_value = False"
| "moves Release_motor = False"
| "moves Stop_pwm = False"
| "moves Pwm_deinit = False"
| "moves (Pwm_set_configuration _) = False"
| "moves _ = True"

fun drive :: "motor_call \<Rightarrow> bool" where
  "drive (Mcpwm c) = moves c"
| "drive (Mcpwm_foc c) = moves c"
| "drive _ = False"

definition drives :: "motor \<Rightarrow> motor_call list" where
  "drives s = filter drive (issued s)"

section \<open>Frames\<close>

text \<open>\<open>steady s s'\<close>: the gate and what passed it are as before.\<close>

definition steady :: "motor \<Rightarrow> motor \<Rightarrow> bool" where
  "steady s s' \<longleftrightarrow> m_persistent_fault s' = m_persistent_fault s \<and> drives s' = drives s \<and> has_phase_shunts s' = has_phase_shunts s \<and>
     bldc_init s' = bldc_init s \<and> foc_init s' = foc_init s \<and> inputs s' = inputs s \<and>
     m_lock_enabled s' = m_lock_enabled s \<and> m_lock_override_once s' = m_lock_override_once s \<and>
     m_fault_stop_time_ms (m_conf s') = m_fault_stop_time_ms (m_conf s) \<and> motor_type (m_conf s') = motor_type (m_conf s) \<and>
     foc_control_sample_mode (m_conf s') = foc_control_sample_mode (m_conf s)"

lemma steady_refl [simp]: "steady s s" by (simp add: steady_def)

lemma steady_trans [trans]: "steady s t \<Longrightarrow> steady t u \<Longrightarrow> steady s u" by (simp add: steady_def)

lemma drives_issue [simp]: "drives (issue c s) = (if drive c then drives s @ [c] else drives s)"
  by (simp add: drives_def issue_def)

lemma issue_simps [simp]:
  "m_conf (issue c s) = m_conf s" "m_persistent_fault (issue c s) = m_persistent_fault s" "inputs (issue c s) = inputs s"
  "m_ignore_iterations (issue c s) = m_ignore_iterations s" "m_fault_now (issue c s) = m_fault_now s"
  "bldc_init (issue c s) = bldc_init s" "foc_init (issue c s) = foc_init s" "has_phase_shunts (issue c s) = has_phase_shunts s"
  "m_lock_enabled (issue c s) = m_lock_enabled s" "m_lock_override_once (issue c s) = m_lock_override_once s"
  "fault_event (issue c s) = fault_event s" "m_fault_code (issue c s) = m_fault_code s" "m_bms (issue c s) = m_bms s"
  by (simp_all add: issue_def)

lemma drives_cong: "issued s' = issued s \<Longrightarrow> drives s' = drives s" by (simp add: drives_def)

lemma steady_issue: "\<not> drive c \<Longrightarrow> steady s (issue c s)"
  by (simp add: steady_def)

lemma steady_upd [intro]:
  assumes "steady s t"
  shows "steady s (t\<lparr>m_ignore_iterations := n\<rparr>)" "steady s (t\<lparr>m_fault_now := c\<rparr>)" "steady s (t\<lparr>m_drv_fault_iterations := n\<rparr>)"
    "steady s (t\<lparr>fault_event := b\<rparr>)" "steady s (t\<lparr>m_fault_code := c, fault_event := b\<rparr>)"
  using assms by (simp_all add: steady_def drives_def)

lemma steady_fault_thread: "steady s (fault_stop_thread s)"
  unfolding fault_stop_thread_def Let_def steady_def to_pwm_def by_type_def
  by (auto simp: drives_def issue_def split: mc_motor_type.splits)

lemma steady_fault_stop: "steady s (mc_interface_fault_stop c b s)"
proof -
  have "steady s (s\<lparr>m_fault_code := c, fault_event := True\<rparr>)" by (rule steady_upd) simp
  then show ?thesis
    unfolding mc_interface_fault_stop_def Let_def using steady_trans [OF _ steady_fault_thread] by simp
qed

lemma steady_faults: "steady s (fold (\<lambda>c. mc_interface_fault_stop c False) cs s)"
  by (induction cs arbitrary: s) (auto intro: steady_trans steady_fault_stop)

lemma steady_conf:
  assumes "steady s t" "motor_type cfg = motor_type (m_conf t)" "m_fault_stop_time_ms cfg = m_fault_stop_time_ms (m_conf t)"
    "foc_control_sample_mode cfg = foc_control_sample_mode (m_conf t)"
  shows "steady s (t\<lparr>m_temp_fet := a, m_temp_motor := b, m_bms := c, m_conf := cfg\<rparr>)"
  using assms by (simp add: steady_def drives_def)

lemma conf_fault_thread [simp]: "m_conf (fault_stop_thread s) = m_conf s" "inputs (fault_stop_thread s) = inputs s"
  by (simp_all add: fault_stop_thread_def Let_def to_pwm_def by_type_def split: mc_motor_type.split)

lemma conf_fault_stop [simp]: "m_conf (mc_interface_fault_stop c b s) = m_conf s" "inputs (mc_interface_fault_stop c b s) = inputs s"
  by (simp_all add: mc_interface_fault_stop_def Let_def)

text \<open>All that \<open>update_override_limits\<close> does to the gate are the faults of the two temperatures.\<close>

definition stop_if :: "bool \<Rightarrow> mc_fault_code \<Rightarrow> motor \<Rightarrow> motor" where
  "stop_if h c s = (if h then mc_interface_fault_stop c False s else s)"

lemma steady_stop_if: "steady s (stop_if h c s)" by (simp add: stop_if_def steady_fault_stop)

lemma update_override_limits_shape:
  "\<exists>h k a b c lx ln ix im. update_override_limits s =
     (stop_if k FAULT_CODE_OVER_TEMP_MOTOR (stop_if h FAULT_CODE_OVER_TEMP_FET s))\<lparr>m_temp_fet := a, m_temp_motor := b, m_bms := c,
        m_conf := (m_conf s)\<lparr>lo_in_current_max := ix, lo_in_current_min := im, lo_current_max := lx, lo_current_min := ln\<rparr>\<rparr>"
  unfolding update_override_limits_def Let_def case_prod_unfold stop_if_def by (intro exI, rule refl)

lemma steady_limits: "steady s (update_override_limits s)"
proof -
  obtain h k a b c lx ln ix im where u: "update_override_limits s =
     (stop_if k FAULT_CODE_OVER_TEMP_MOTOR (stop_if h FAULT_CODE_OVER_TEMP_FET s))\<lparr>m_temp_fet := a, m_temp_motor := b, m_bms := c,
        m_conf := (m_conf s)\<lparr>lo_in_current_max := ix, lo_in_current_min := im, lo_current_max := lx, lo_current_min := ln\<rparr>\<rparr>"
    using update_override_limits_shape by blast
  have t: "steady s (stop_if k FAULT_CODE_OVER_TEMP_MOTOR (stop_if h FAULT_CODE_OVER_TEMP_FET s))"
    using steady_trans [OF steady_stop_if steady_stop_if] by blast
  have c: "m_conf (stop_if k FAULT_CODE_OVER_TEMP_MOTOR (stop_if h FAULT_CODE_OVER_TEMP_FET s)) = m_conf s"
    by (simp add: stop_if_def)
  show ?thesis unfolding u by (rule steady_conf [OF t]) (simp_all add: c)
qed

lemma steady_tick: "steady s (run_timer_tasks u r s)"
proof -
  have 1: "steady s (s\<lparr>m_input_voltage_filtered_slower := x, g_odometer := y, m_odometer_last := z,
      g_runtime := v, m_runtime_last := w, m_f_samp_now := f\<rparr>)" for s x y z v w f
    by (simp add: steady_def drives_def)
  have 2: "steady s (fault_countdown s)" for s
  proof -
    define t where "t = (if m_ignore_iterations s > 0 then s\<lparr>m_ignore_iterations := m_ignore_iterations s - 1\<rparr>
      else if \<not> is_drv_fault (inputs s) then s\<lparr>m_fault_now := FAULT_CODE_NONE\<rparr> else s)"
    have t: "steady s t" by (simp add: t_def steady_upd)
    have d: "steady s (issue Hw_reset_drv_faults (t\<lparr>m_drv_fault_iterations := n\<rparr>))" for n
      using steady_trans [OF steady_upd(3) [OF t] steady_issue] by simp
    show ?thesis
      unfolding fault_countdown_def Let_def t_def [symmetric] by (simp add: t d steady_upd)
  qed
  have 3: "steady s (check_offset x c s)" for s x c
    by (simp add: check_offset_def steady_fault_stop)
  have 4: "steady s (check_offsets s)" for s
    using steady_trans [OF steady_trans [OF 3 3] 3] by (simp add: check_offsets_def case_prod_unfold Let_def)
  have 5: "steady s (s\<lparr>m_motor_current_unbalance := x, m_motor_current_unbalance_error_rate := y\<rparr>)" for s x y
    by (simp add: steady_def drives_def)
  have 6: "steady s (check_balance u r s)" for s
    using steady_trans [OF 5 steady_fault_stop] 5 by (simp add: check_balance_def Let_def)
  have 7: "steady s (update_runtime (update_odometer (update_voltage s))\<lparr>m_f_samp_now := f\<rparr>)" for f
    by (simp add: update_runtime_def update_odometer_def update_voltage_def Let_def steady_def drives_def)
  show ?thesis
    unfolding run_timer_tasks_def Let_def
    by (rule steady_trans [OF _ 6], rule steady_trans [OF _ 4], rule steady_trans [OF _ steady_faults],
        rule steady_trans [OF _ steady_limits], rule steady_trans [OF _ 2], rule 7)
qed

section \<open>The closed gate\<close>

text \<open>\<open>closed b n s\<close>: commands are refused for the next \<open>n\<close> milliseconds, or, if \<open>b\<close>, for ever or by a lock.\<close>

definition closed :: "bool \<Rightarrow> int \<Rightarrow> motor \<Rightarrow> bool" where
  "closed b n s \<longleftrightarrow> (0 < n \<and> n \<le> m_ignore_iterations s) \<or>
     (b \<and> (m_persistent_fault s \<noteq> FAULT_CODE_NONE \<or> (m_lock_enabled s \<and> \<not> m_lock_override_once s)))"

definition kept :: "bool \<Rightarrow> int \<Rightarrow> motor \<Rightarrow> motor \<Rightarrow> bool" where
  "kept b n s t \<longleftrightarrow> steady s t \<and> closed b n t"

lemma kept_trans: "kept b n s t \<Longrightarrow> kept b n t u \<Longrightarrow> kept b n s u"
  unfolding kept_def using steady_trans by blast

lemma kept_issue: "closed b n s \<Longrightarrow> \<not> drive c \<Longrightarrow> kept b n s (issue c s)"
  by (simp add: kept_def steady_issue closed_def)

lemma guarded_kept:
  assumes "closed b n s" and "n \<le> MCPWM_DETECT_STOP_TIME"
  shows "kept b n s (guarded f s)"
proof (cases "m_persistent_fault s \<noteq> FAULT_CODE_NONE")
  case True
  then show ?thesis using assms by (simp add: guarded_def mc_interface_try_input_def kept_def)
next
  case False
  define t where "t = (if mc_interface_get_state s = MC_STATE_DETECTING
    then (issue (Mcpwm Stop_pwm) s)\<lparr>m_ignore_iterations := MCPWM_DETECT_STOP_TIME\<rparr> else s)"
  define k where "k = (if m_ignore_iterations t = 0 then 1 else m_ignore_iterations t)"
  have t: "closed b n t" using assms False by (auto simp: t_def closed_def)
  have k0: "k \<noteq> 0" by (simp add: k_def)
  have "mc_interface_try_input s = (by_type t (if bldc_init t then k else 1) (if foc_init t then k else 1) k, t)"
    using t False unfolding mc_interface_try_input_def t_def [symmetric] Let_def k_def
    by (auto simp: closed_def t_def)
  moreover have "by_type t (if bldc_init t then k else 1) (if foc_init t then k else 1) k \<noteq> 0"
    using k0 by (simp add: by_type_def split: mc_motor_type.split)
  ultimately have "guarded f s = t" by (simp add: guarded_def)
  moreover have "steady s t"
    using steady_upd(1) [OF steady_issue [of "Mcpwm Stop_pwm" s]] by (simp add: t_def)
  ultimately show ?thesis using t by (simp add: kept_def)
qed

lemma note_kept: "closed b n s \<Longrightarrow> kept b n s (note_activity x s)"
  by (simp add: note_activity_def kept_issue) (simp add: kept_def)

lemma guarded_note_kept:
  "closed b n s \<Longrightarrow> n \<le> MCPWM_DETECT_STOP_TIME \<Longrightarrow> kept b n s (guarded f (note_activity x s))"
  using note_kept [of b n s x] guarded_kept kept_trans by (metis kept_def)

lemma guarded_issue_kept:
  "closed b n s \<Longrightarrow> n \<le> MCPWM_DETECT_STOP_TIME \<Longrightarrow> kept b n s (guarded f (issue Shutdown_reset_timer s))"
  using kept_issue [of b n s Shutdown_reset_timer] guarded_kept kept_trans by (metis drive.simps(4) kept_def)

lemma kept_closed: "kept b n s t \<Longrightarrow> closed b n t" by (simp add: kept_def)

lemmas single_commands =
  mc_interface_set_duty_def mc_interface_set_duty_noramp_def mc_interface_set_pid_speed_def mc_interface_set_pid_pos_def
  mc_interface_set_current_def mc_interface_set_brake_current_def mc_interface_set_current_off_delay_def
  mc_interface_set_handbrake_def mc_interface_set_openloop_current_def mc_interface_set_openloop_phase_def
  mc_interface_set_openloop_duty_def mc_interface_set_openloop_duty_phase_def mc_interface_release_motor_def

lemma single_kept:
  assumes "closed b n s" and "n \<le> MCPWM_DETECT_STOP_TIME"
  shows "kept b n s (mc_interface_set_duty x s)" "kept b n s (mc_interface_set_duty_noramp x s)" "kept b n s (mc_interface_set_pid_speed x s)"
    "kept b n s (mc_interface_set_pid_pos x s)" "kept b n s (mc_interface_set_current x s)" "kept b n s (mc_interface_set_brake_current x s)"
    "kept b n s (mc_interface_set_current_off_delay x s)" "kept b n s (mc_interface_set_handbrake x s)"
    "kept b n s (mc_interface_set_openloop_current x y s)" "kept b n s (mc_interface_set_openloop_phase x y s)"
    "kept b n s (mc_interface_set_openloop_duty x y s)" "kept b n s (mc_interface_set_openloop_duty_phase x y s)"
    "kept b n s (mc_interface_release_motor s)"
  unfolding single_commands using assms guarded_note_kept guarded_kept guarded_issue_kept by blast+

lemma pair_kept:
  assumes "closed b n s" and "n \<le> MCPWM_DETECT_STOP_TIME"
  shows "kept b n s (mc_interface_set_current_rel x s)" "kept b n s (mc_interface_set_brake_current_rel x s)"
    "kept b n s (mc_interface_set_handbrake_rel x s)" "kept b n s (mc_interface_brake_now s)"
proof -
  note k = single_kept [OF _ assms(2)] note_kept
  have c: "kept b n s (mc_interface_set_current_off_delay y t)" if "kept b n s t" for t y
    using that k(7) kept_closed kept_trans by blast
  have 1: "kept b n s (mc_interface_set_current y (note_activity x s))" for y
    using k(5) note_kept [OF assms(1)] kept_closed kept_trans by blast
  then show "kept b n s (mc_interface_set_current_rel x s)"
    by (simp add: mc_interface_set_current_rel_def Let_def c)
  have 2: "kept b n s (mc_interface_set_brake_current y (note_activity x s))" for y
    using k(6) note_kept [OF assms(1)] kept_closed kept_trans by blast
  then show "kept b n s (mc_interface_set_brake_current_rel x s)"
    by (simp add: mc_interface_set_brake_current_rel_def Let_def c)
  show "kept b n s (mc_interface_set_handbrake_rel x s)"
    unfolding mc_interface_set_handbrake_rel_def Let_def using k(8) note_kept [OF assms(1)] kept_closed kept_trans by blast
  show "kept b n s (mc_interface_brake_now s)"
    unfolding mc_interface_brake_now_def
    using k(1) kept_issue [OF assms(1), of Shutdown_reset_timer] kept_closed kept_trans by (metis drive.simps(4))
qed

lemma release_override_kept: "closed b n s \<Longrightarrow> kept b n s (mc_interface_release_motor_override s)"
  by (auto simp: mc_interface_release_motor_override_def to_pwm_def by_type_def events_add_def kept_def steady_def closed_def
      split: mc_motor_type.split)

lemma perform_kept: "closed b n s \<Longrightarrow> n \<le> MCPWM_DETECT_STOP_TIME \<Longrightarrow> kept b n s (perform r s)"
  by (cases r) (simp_all add: single_kept pair_kept release_override_kept)

section \<open>Configuration and the persistent fault\<close>

lemma to_pwm_steady: "(\<And>c. b = Some c \<Longrightarrow> \<not> moves c) \<Longrightarrow> (\<And>c. f = Some c \<Longrightarrow> \<not> moves c) \<Longrightarrow> steady s (to_pwm b f s)"
  by (auto simp: to_pwm_def by_type_def steady_issue split: mc_motor_type.split option.split)

lemma steady_bms: "steady s t \<Longrightarrow> steady s (t\<lparr>m_bms := b\<rparr>)" by (simp add: steady_def drives_def)

text \<open>The state before the limits are computed.\<close>

definition configured :: "mc_configuration \<Rightarrow> motor \<Rightarrow> motor" where
  "configured cfg s =
     (let s = (if m_sensor_port_mode (m_conf s) \<noteq> m_sensor_port_mode cfg
               then issue (Encoder_init cfg) (issue Encoder_deinit s) else issue (Encoder_update_config cfg) s)
      in if motor_type (m_conf s) \<noteq> motor_type cfg
         then init_pwm ((deinit_pwm s)\<lparr>m_conf := cfg\<rparr>) else s\<lparr>m_conf := cfg\<rparr>)"

definition applied :: "motor \<Rightarrow> mc_configuration \<Rightarrow> mc_configuration" where
  "applied s cfg = (if \<not> has_phase_shunts s then cfg\<lparr>foc_control_sample_mode := FOC_CONTROL_SAMPLE_MODE_V0\<rparr> else cfg)"

lemma steady_configuration: "steady (configured (applied s cfg) s) (mc_interface_set_configuration cfg s)"
proof -
  let ?t = "update_override_limits (configured (applied s cfg) s)"
  have "mc_interface_set_configuration cfg s =
      (to_pwm (Some (Pwm_set_configuration (m_conf ?t))) (Some (Pwm_set_configuration (m_conf ?t))) ?t)
        \<lparr>m_bms := bms_init (bms_cfg (applied s cfg)) (m_bms (to_pwm (Some (Pwm_set_configuration (m_conf ?t)))
          (Some (Pwm_set_configuration (m_conf ?t))) ?t))\<rparr>"
    unfolding mc_interface_set_configuration_def configured_def applied_def Let_def by simp
  moreover have "steady ?t (to_pwm (Some (Pwm_set_configuration (m_conf ?t))) (Some (Pwm_set_configuration (m_conf ?t))) ?t)"
    by (rule to_pwm_steady) auto
  ultimately show ?thesis using steady_trans [OF steady_limits] steady_bms by metis
qed

lemma issued_fields [simp]:
  "drives (t\<lparr>m_conf := cfg\<rparr>) = drives t" "drives (t\<lparr>bldc_init := b\<rparr>) = drives t" "drives (t\<lparr>foc_init := b\<rparr>) = drives t"
  by (simp_all add: drives_def)

lemma configured_fields:
  "m_persistent_fault (configured cfg s) = m_persistent_fault s" "m_conf (configured cfg s) = cfg"
  "has_phase_shunts (configured cfg s) = has_phase_shunts s"
  "m_persistent_fault s \<noteq> FAULT_CODE_NONE \<Longrightarrow> drives (configured cfg s) = drives s"
  "m_persistent_fault s \<noteq> FAULT_CODE_NONE \<Longrightarrow> bldc_init (configured cfg s) \<Longrightarrow> bldc_init s"
  "m_persistent_fault s \<noteq> FAULT_CODE_NONE \<Longrightarrow> foc_init (configured cfg s) \<Longrightarrow> foc_init s"
  by (auto simp: configured_def init_pwm_def deinit_pwm_def by_type_def Let_def split: if_splits mc_motor_type.splits)

text \<open>\<open>off s s'\<close>: nothing has moved, and the peripherals are off if they were.\<close>

definition off :: "motor \<Rightarrow> motor \<Rightarrow> bool" where
  "off s s' \<longleftrightarrow> m_persistent_fault s' = m_persistent_fault s \<and> drives s' = drives s \<and>
     (bldc_init s' \<longrightarrow> bldc_init s) \<and> (foc_init s' \<longrightarrow> foc_init s)"

lemma off_trans: "off s t \<Longrightarrow> off t u \<Longrightarrow> off s u" by (auto simp: off_def)

lemma steady_off: "steady s t \<Longrightarrow> off s t" by (simp add: off_def steady_def)

lemma off_configuration:
  assumes "m_persistent_fault s \<noteq> FAULT_CODE_NONE"
  shows "off s (mc_interface_set_configuration cfg s)"
  using off_trans [OF _ steady_off [OF steady_configuration [of s cfg]], of s] configured_fields [where cfg = "applied s cfg" and s = s] assms
  by (simp add: off_def)

lemma off_step:
  assumes "m_persistent_fault s \<noteq> FAULT_CODE_NONE"
  shows "off s (step e s)"
proof (cases e)
  case (Request r)
  have "closed True 0 s" using assms by (simp add: closed_def)
  then show ?thesis using perform_kept [of True 0 s r] Request steady_off by (simp add: kept_def MCPWM_DETECT_STOP_TIME_def)
next
  case (Pid_offset a store)
  have "off s (if store then issue (Store_mc_configuration cfg) s else s)" for cfg
    by (simp add: off_def)
  then show ?thesis
    using off_trans off_configuration assms unfolding Pid_offset step.simps mc_interface_update_pid_pos_offset_def Let_def
    by (metis off_def)
next
  case (Isr_fault c)
  then show ?thesis using steady_trans [OF steady_fault_stop steady_fault_thread] steady_off by simp
qed (use assms in \<open>simp_all add: steady_off steady_tick steady_fault_stop off_configuration\<close>,
     auto simp: off_def drives_def mc_interface_lock_def mc_interface_unlock_def mc_interface_lock_override_once_def mc_interface_ignore_input_def)

lemma off_run: "m_persistent_fault s \<noteq> FAULT_CODE_NONE \<Longrightarrow> off s (run es s)"
proof (induction es arbitrary: s)
  case (Cons e es)
  then show ?case using off_step [of s e] off_trans [of s "step e s"] by (simp add: run_def) (metis off_def)
qed (simp add: run_def off_def)

lemma init_fields:
  "m_persistent_fault (mc_interface_init cfg s) = m_persistent_fault s" "has_phase_shunts (mc_interface_init cfg s) = has_phase_shunts s"
  "m_conf (mc_interface_init cfg s) = cfg"
  by (auto simp: mc_interface_init_def init_pwm_def by_type_def Let_def split: mc_motor_type.split)

lemma off_init:
  assumes "m_persistent_fault s \<noteq> FAULT_CODE_NONE"
  shows "off s (mc_interface_init cfg s)"
  using assms by (simp add: mc_interface_init_def init_pwm_def Let_def off_def drives_def issue_def)

text \<open>C21. A persistent fault that is set before the interface is initialised (an invalid hardware
  configuration) keeps the motor off for ever: whatever is requested, configured, locked or measured
  afterwards, no call that moves the motor or initialises the PWM peripheral is made, and
  the fault stays reported.\<close>

theorem persistent_fault_never_drives:
  fixes es cfg
  assumes "m_persistent_fault s = c" and "c \<noteq> FAULT_CODE_NONE" and "\<not> bldc_init s" and "\<not> foc_init s"
  defines "t \<equiv> run es (mc_interface_init cfg s)"
  shows "filter drive (issued t) = filter drive (issued s) \<and> mc_interface_get_fault t = c \<and> \<not> bldc_init t \<and> \<not> foc_init t"
proof -
  have i: "off s (mc_interface_init cfg s)" using assms by (intro off_init) simp
  then have "off (mc_interface_init cfg s) t" using assms unfolding t_def by (intro off_run) (simp add: init_fields)
  with i have "off s t" by (rule off_trans)
  then show ?thesis
    using assms by (auto simp: off_def drives_def mc_interface_get_fault_def)
qed

section \<open>Faults\<close>

text \<open>\<open>later s t\<close>: the time for which inputs are ignored is the same, or that of a new fault.\<close>

definition later :: "motor \<Rightarrow> motor \<Rightarrow> bool" where
  "later s t \<longleftrightarrow> m_fault_stop_time_ms (m_conf t) = m_fault_stop_time_ms (m_conf s) \<and>
     m_ignore_iterations t \<in> {m_ignore_iterations s, m_fault_stop_time_ms (m_conf s)}"

lemma later_refl [simp]: "later s s" by (simp add: later_def)

lemma later_trans: "later s t \<Longrightarrow> later t u \<Longrightarrow> later s u" by (auto simp: later_def)

lemma ignore_fault_thread: "fault_event s \<Longrightarrow> m_ignore_iterations (fault_stop_thread s) = m_fault_stop_time_ms (m_conf s)"
  by (simp add: fault_stop_thread_def Let_def to_pwm_def by_type_def split: mc_motor_type.split)

lemma ignore_fault_stop: "m_ignore_iterations (mc_interface_fault_stop c False s) = m_fault_stop_time_ms (m_conf s)"
  by (simp add: mc_interface_fault_stop_def Let_def ignore_fault_thread)

lemma later_fault_stop: "later s (mc_interface_fault_stop c False s)"
  by (simp add: later_def ignore_fault_stop)

lemma later_stop_if: "later s (stop_if h c s)"
  by (simp add: stop_if_def later_fault_stop)

lemma later_faults: "later s (fold (\<lambda>c. mc_interface_fault_stop c False) cs s)"
  by (induction cs arbitrary: s) (auto intro: later_trans later_fault_stop)

lemma later_limits: "later s (update_override_limits s)"
proof -
  obtain h k a b c lx ln ix im where u: "update_override_limits s =
     (stop_if k FAULT_CODE_OVER_TEMP_MOTOR (stop_if h FAULT_CODE_OVER_TEMP_FET s))\<lparr>m_temp_fet := a, m_temp_motor := b, m_bms := c,
        m_conf := (m_conf s)\<lparr>lo_in_current_max := ix, lo_in_current_min := im, lo_current_max := lx, lo_current_min := ln\<rparr>\<rparr>"
    using update_override_limits_shape by blast
  show ?thesis
    using later_trans [OF later_stop_if later_stop_if, of s k FAULT_CODE_OVER_TEMP_MOTOR h FAULT_CODE_OVER_TEMP_FET]
    by (simp add: u later_def)
qed

lemma later_checks: "later s (check_offset x c s)" "later s (check_offsets s)" "later s (check_balance u r s)"
proof -
  show o: "later s (check_offset x c s)" for s x c by (simp add: check_offset_def later_fault_stop)
  show "later s (check_offsets s)"
    using later_trans [OF later_trans [OF o o] o] by (simp add: check_offsets_def case_prod_unfold Let_def)
  have m: "later s (s\<lparr>m_motor_current_unbalance := x, m_motor_current_unbalance_error_rate := y\<rparr>)" for x y
    by (simp add: later_def)
  show "later s (check_balance u r s)"
    using later_trans [OF m later_fault_stop] m by (simp add: check_balance_def Let_def)
qed

lemma countdown_ignore:
  "m_ignore_iterations (fault_countdown s) = (if m_ignore_iterations s > 0 then m_ignore_iterations s - 1 else m_ignore_iterations s)"
  "m_conf (fault_countdown s) = m_conf s"
  by (simp_all add: fault_countdown_def Let_def)

definition measured :: "motor \<Rightarrow> motor" where
  "measured s = (let s = update_runtime (update_odometer (update_voltage s)) in s\<lparr>m_f_samp_now := mc_interface_get_sampling_frequency_now s\<rparr>)"

lemma measured_fields:
  "m_ignore_iterations (measured s) = m_ignore_iterations s" "m_conf (measured s) = m_conf s" "inputs (measured s) = inputs s"
  by (simp_all add: measured_def update_runtime_def update_odometer_def update_voltage_def Let_def)

lemma tick_ignore:
  "m_ignore_iterations (run_timer_tasks u r s) \<in>
     {if m_ignore_iterations s > 0 then m_ignore_iterations s - 1 else m_ignore_iterations s, m_fault_stop_time_ms (m_conf s)}"
proof -
  have "later (fault_countdown (measured s)) (run_timer_tasks u r s)"
    unfolding run_timer_tasks_def Let_def measured_def
    by (rule later_trans [OF _ later_checks(3)], rule later_trans [OF _ later_checks(2)], rule later_trans [OF _ later_faults], rule later_limits)
  then show ?thesis unfolding later_def countdown_ignore measured_fields by simp
qed

text \<open>Steps that do not shorten the time after a fault.\<close>

fun keeps_time :: "event \<Rightarrow> bool" where
  "keeps_time (Ignore _) = False"
| "keeps_time (Configure _) = False"
| "keeps_time (Pid_offset _ _) = False"
| "keeps_time _ = True"

fun is_tick :: "event \<Rightarrow> bool" where
  "is_tick (Tick _ _) = True"
| "is_tick _ = False"

lemma steady_stop_time: "steady s t \<Longrightarrow> m_fault_stop_time_ms (m_conf t) = m_fault_stop_time_ms (m_conf s)"
  by (simp add: steady_def)

lemma held_step:
  assumes "closed False n s" and "keeps_time e" and "n \<le> m_fault_stop_time_ms (m_conf s)" and "n \<le> MCPWM_DETECT_STOP_TIME"
    and "is_tick e \<Longrightarrow> 1 < n"
  shows "drives (step e s) = drives s \<and> m_fault_stop_time_ms (m_conf (step e s)) = m_fault_stop_time_ms (m_conf s) \<and>
    closed False (if is_tick e then n - 1 else n) (step e s)"
proof (cases e)
  case (Request r)
  then show ?thesis using perform_kept [OF assms(1,4), of r] by (simp add: kept_def steady_def)
next
  case (Tick u r)
  then show ?thesis using steady_tick [of s u r] tick_ignore [of u r s] assms by (auto simp: steady_def closed_def)
next
  case (Fault c)
  then show ?thesis using steady_fault_stop [of s c False] assms by (simp add: steady_def closed_def ignore_fault_stop)
next
  case (Isr_fault c)
  have "m_ignore_iterations (step e s) = m_fault_stop_time_ms (m_conf s)"
    unfolding Isr_fault step.simps by (simp add: ignore_fault_thread mc_interface_fault_stop_def Let_def)
  moreover have "steady s (step e s)"
    using steady_trans [OF steady_fault_stop steady_fault_thread] Isr_fault by simp
  ultimately show ?thesis using assms Isr_fault by (simp add: steady_def closed_def)
qed (use assms in \<open>simp_all add: drives_def closed_def mc_interface_lock_def mc_interface_unlock_def mc_interface_lock_override_once_def\<close>)

lemma held_run:
  assumes "closed False n s" and "list_all keeps_time es" and "n \<le> m_fault_stop_time_ms (m_conf s)" and "n \<le> MCPWM_DETECT_STOP_TIME"
    and "int (length (filter is_tick es)) < n"
  shows "drives (run es s) = drives s"
  using assms
proof (induction es arbitrary: s n)
  case (Cons e es)
  let ?n = "if is_tick e then n - 1 else n"
  have t: "drives (step e s) = drives s" "m_fault_stop_time_ms (m_conf (step e s)) = m_fault_stop_time_ms (m_conf s)" "closed False ?n (step e s)"
    using held_step [of n s e] Cons.prems by (auto split: if_splits)
  have "drives (run es (step e s)) = drives (step e s)"
    by (rule Cons.IH [OF t(3)]) (use Cons.prems t(2) in \<open>auto split: if_splits\<close>)
  then show ?case using t(1) by (simp add: run_def)
qed (simp add: run_def)

text \<open>C22. After a fault no command moves the motor until as many timer ticks have passed as the
  configuration says, whatever is requested in between, and however faults, locks and measurements
  interleave. (The time is not longer than the half second for which a detection run
  ignores inputs.)\<close>

theorem fault_holds_motor:
  fixes es
  assumes "0 < m_fault_stop_time_ms (m_conf s)" and "m_fault_stop_time_ms (m_conf s) \<le> MCPWM_DETECT_STOP_TIME"
    and "list_all keeps_time es" and "int (length (filter is_tick es)) < m_fault_stop_time_ms (m_conf s)"
  shows "filter drive (issued (run es (mc_interface_fault_stop c False s))) = filter drive (issued s)"
proof -
  let ?t = "mc_interface_fault_stop c False s"
  have "closed False (m_fault_stop_time_ms (m_conf s)) ?t" using assms(1) by (simp add: closed_def ignore_fault_stop)
  then have "drives (run es ?t) = drives ?t" by (rule held_run) (use assms in simp_all)
  then show ?thesis using steady_fault_stop [of s c False] by (simp add: steady_def drives_def)
qed

end
