(* ===== verification/Motor_Modes.thy ===== *)
theory Motor_Modes
  imports Motor_Safe
begin

theorem persistent_fault_never_drives_witness:
  "filter drive (issued (run [Configure (conf0\<lparr>motor_type := MOTOR_TYPE_BLDC\<rparr>), Override_once, Request (Current (Num 10)), Tick (Num 9) (Num 1)]
     (mc_interface_init conf0 (mc_interface_set_persistent_fault FAULT_CODE_FLASH_CORRUPTION_MC_CFG motor0)))) = []"
  using persistent_fault_never_drives [of "mc_interface_set_persistent_fault FAULT_CODE_FLASH_CORRUPTION_MC_CFG motor0"
      FAULT_CODE_FLASH_CORRUPTION_MC_CFG
      "[Configure (conf0\<lparr>motor_type := MOTOR_TYPE_BLDC\<rparr>), Override_once, Request (Current (Num 10)), Tick (Num 9) (Num 1)]" conf0]
  by (simp add: mc_interface_set_persistent_fault_def motor0_def)

theorem fault_holds_motor_witness:
  "filter drive (issued (run [Tick (Num 9) (Num 1), Request (Current (Num 10)), Unlock, Tick (Num 9) (Num 1), Request (Duty (Num 1))]
     (mc_interface_fault_stop FAULT_CODE_ABS_OVER_CURRENT False (mc_interface_init conf0 motor0)))) = [Mcpwm_foc Pwm_init]"
proof -
  let ?s = "mc_interface_init conf0 motor0"
  have "m_conf ?s = conf0" by (rule init_fields)
  moreover have "filter drive (issued ?s) = [Mcpwm_foc Pwm_init]"
    by (simp add: mc_interface_init_def Let_def init_pwm_def by_type_def motor0_def conf0_def issue_def)
  ultimately show ?thesis
    using fault_holds_motor [of ?s "[Tick (Num 9) (Num 1), Request (Current (Num 10)), Unlock, Tick (Num 9) (Num 1), Request (Duty (Num 1))]"
        FAULT_CODE_ABS_OVER_CURRENT]
    by (simp add: conf0_def MCPWM_DETECT_STOP_TIME_def)
qed

section \<open>The end of a fault\<close>

lemma div_mod_Suc_full: "0 < k \<Longrightarrow> Suc (n mod k) = k \<Longrightarrow> Suc n div k = Suc (n div k) \<and> Suc n mod k = 0"
  by (simp add: div_Suc mod_Suc)

lemma div_mod_Suc_part: "0 < k \<Longrightarrow> Suc (n mod k) \<noteq> k \<Longrightarrow> Suc n div k = n div k \<and> Suc n mod k = Suc (n mod k)"
  by (simp add: div_Suc mod_Suc)

lemma countdown_inputs: "inputs (fault_countdown s) = inputs s"
  by (simp add: fault_countdown_def Let_def)

lemma countdowns:
  "m_conf ((fault_countdown ^^ n) s) = m_conf s" "inputs ((fault_countdown ^^ n) s) = inputs s"
  by (induction n) (simp_all add: countdown_ignore countdown_inputs)

lemma countdown_quiet:
  assumes "\<not> is_drv_fault (inputs s)"
  shows "m_fault_now (fault_countdown s) = (if m_ignore_iterations s > 0 then m_fault_now s else FAULT_CODE_NONE)"
    and "issued (fault_countdown s) = issued s"
  using assms by (simp_all add: fault_countdown_def Let_def)

lemma countdown_active:
  assumes "is_drv_fault (inputs s)"
  shows "m_fault_now (fault_countdown s) = m_fault_now s"
    and "m_drv_fault_iterations (fault_countdown s) =
      (if m_drv_fault_iterations s + 1 \<ge> m_fault_stop_time_ms (m_conf s) then 0 else m_drv_fault_iterations s + 1)"
    and "issued (fault_countdown s) =
      (if m_drv_fault_iterations s + 1 \<ge> m_fault_stop_time_ms (m_conf s) then issued s @ [Hw_reset_drv_faults] else issued s)"
  using assms by (simp_all add: fault_countdown_def Let_def issue_def)

lemma countdowns_ignore:
  assumes "m_ignore_iterations s = int k"
  shows "m_ignore_iterations ((fault_countdown ^^ n) s) = int (k - n)"
  by (induction n) (use assms in \<open>auto simp: countdown_ignore\<close>)

lemma countdowns_quiet:
  assumes "m_ignore_iterations s = int k" and "\<not> is_drv_fault (inputs s)"
  shows "m_fault_now ((fault_countdown ^^ n) s) = (if n \<le> k then m_fault_now s else FAULT_CODE_NONE) \<and>
    issued ((fault_countdown ^^ n) s) = issued s"
proof (induction n)
  case (Suc n)
  then show ?case using countdowns_ignore [OF assms(1), of n] assms(2) by (auto simp: countdown_quiet countdowns)
qed simp

text \<open>C23. What the timer ticks do after a fault: inputs are ignored for exactly the configured time and
  the fault is reported one tick longer; while the pin of the gate driver stays active the fault is not
  cleared, and the gate driver is reset once in that time.\<close>

theorem fault_countdown_exact:
  fixes n
  assumes "m_ignore_iterations s = m_fault_stop_time_ms (m_conf s)" and "0 < m_fault_stop_time_ms (m_conf s)"
    and "m_drv_fault_iterations s = 0"
  defines "k \<equiv> nat (m_fault_stop_time_ms (m_conf s))" and "t \<equiv> (fault_countdown ^^ n) s"
  shows "m_ignore_iterations t = int (k - n) \<and>
    (\<not> is_drv_fault (inputs s) \<longrightarrow> m_fault_now t = (if n \<le> k then m_fault_now s else FAULT_CODE_NONE) \<and> issued t = issued s) \<and>
    (is_drv_fault (inputs s) \<longrightarrow> m_fault_now t = m_fault_now s \<and> issued t = issued s @ replicate (n div k) Hw_reset_drv_faults)"
proof -
  have k: "0 < k" "m_fault_stop_time_ms (m_conf s) = int k" "m_ignore_iterations s = int k" using assms(1,2) by (simp_all add: k_def)
  have d: "m_fault_now ((fault_countdown ^^ n) s) = m_fault_now s \<and> m_drv_fault_iterations ((fault_countdown ^^ n) s) = int (n mod k) \<and>
      issued ((fault_countdown ^^ n) s) = issued s @ replicate (n div k) Hw_reset_drv_faults" if "is_drv_fault (inputs s)"
  proof (induction n)
    case (Suc n)
    have e: "int (n mod k) + 1 \<ge> int k \<longleftrightarrow> Suc (n mod k) = k" using k(1) mod_less_divisor [of k n] by linarith
    show ?case
    proof (cases "Suc (n mod k) = k")
      case True
      then show ?thesis using Suc that e div_mod_Suc_full [OF k(1) True]
        by (simp add: countdown_active countdowns k(2) replicate_append_same)
    next
      case False
      then show ?thesis using Suc that e div_mod_Suc_part [OF k(1) False] by (simp add: countdown_active countdowns k(2))
    qed
  qed (use assms(3) in simp)
  show ?thesis using countdowns_ignore [OF k(3)] countdowns_quiet [OF k(3)] d by (simp add: t_def)
qed

theorem fault_countdown_exact_witness:
  "m_fault_now ((fault_countdown ^^ 501) (mc_interface_fault_stop FAULT_CODE_ABS_OVER_CURRENT False (mc_interface_init conf0 motor0))) = FAULT_CODE_NONE"
proof -
  define s where "s = mc_interface_fault_stop FAULT_CODE_ABS_OVER_CURRENT False (mc_interface_init conf0 motor0)"
  have t: "m_fault_stop_time_ms (m_conf s) = 500" "m_ignore_iterations s = 500"
    unfolding s_def by (simp_all add: ignore_fault_stop init_fields) (simp_all add: conf0_def)
  have d: "m_drv_fault_iterations s = 0" "\<not> is_drv_fault (inputs s)"
    by (simp_all add: s_def mc_interface_fault_stop_def fault_stop_thread_def mc_interface_init_def init_pwm_def by_type_def to_pwm_def
        Let_def issue_def motor0_def sensed0_def conf0_def)
  show ?thesis using fault_countdown_exact [of s 501] t d unfolding s_def [symmetric] by simp
qed

section \<open>Modes\<close>

text \<open>\<open>same_mode s t\<close>: configuration and initialisation are the same in what concerns the mode.\<close>

definition same_mode :: "motor \<Rightarrow> motor \<Rightarrow> bool" where
  "same_mode s t \<longleftrightarrow> m_persistent_fault t = m_persistent_fault s \<and> has_phase_shunts t = has_phase_shunts s \<and>
     bldc_init t = bldc_init s \<and> foc_init t = foc_init s \<and> motor_type (m_conf t) = motor_type (m_conf s) \<and>
     foc_control_sample_mode (m_conf t) = foc_control_sample_mode (m_conf s)"

lemma same_mode_refl [simp]: "same_mode s s" by (simp add: same_mode_def)

lemma same_mode_trans: "same_mode s t \<Longrightarrow> same_mode t u \<Longrightarrow> same_mode s u" by (simp add: same_mode_def)

lemma steady_same_mode: "steady s t \<Longrightarrow> same_mode s t" by (simp add: steady_def same_mode_def)

lemma same_mode_upd [simp]:
  "same_mode s (issue c t) \<longleftrightarrow> same_mode s t" "same_mode s (t\<lparr>m_ignore_iterations := n\<rparr>) \<longleftrightarrow> same_mode s t"
  "same_mode s (t\<lparr>m_position_set := x\<rparr>) \<longleftrightarrow> same_mode s t" "same_mode s (t\<lparr>m_lock_enabled := b\<rparr>) \<longleftrightarrow> same_mode s t"
  "same_mode s (t\<lparr>m_lock_override_once := b\<rparr>) \<longleftrightarrow> same_mode s t" "same_mode s (t\<lparr>inputs := i\<rparr>) \<longleftrightarrow> same_mode s t"
  by (simp_all add: same_mode_def)

lemma same_mode_to_pwm [simp]: "same_mode s (to_pwm b f t) \<longleftrightarrow> same_mode s t"
  by (auto simp: to_pwm_def by_type_def split: mc_motor_type.split option.split)

lemma same_mode_events [simp]: "same_mode s (events_add n x t) \<longleftrightarrow> same_mode s t"
  by (simp add: events_add_def)

lemma same_mode_note [simp]: "same_mode s (note_activity x t) \<longleftrightarrow> same_mode s t"
  by (simp add: note_activity_def)

lemma same_mode_try: "same_mode s (snd (mc_interface_try_input s))"
  by (simp add: mc_interface_try_input_def Let_def case_prod_unfold)

lemma same_mode_guarded:
  assumes "\<And>t. same_mode s t \<Longrightarrow> same_mode s (f t)" and "same_mode s t"
  shows "same_mode s (guarded f t)"
  using assms same_mode_trans [OF assms(2) same_mode_try [of t]] by (simp add: guarded_def case_prod_unfold Let_def)

lemma same_mode_single:
  assumes "same_mode s t"
  shows "same_mode s (mc_interface_set_duty x t)" "same_mode s (mc_interface_set_duty_noramp x t)" "same_mode s (mc_interface_set_pid_speed x t)"
    "same_mode s (mc_interface_set_pid_pos x t)" "same_mode s (mc_interface_set_current x t)" "same_mode s (mc_interface_set_brake_current x t)"
    "same_mode s (mc_interface_set_current_off_delay x t)" "same_mode s (mc_interface_set_handbrake x t)"
    "same_mode s (mc_interface_set_openloop_current x y t)" "same_mode s (mc_interface_set_openloop_phase x y t)"
    "same_mode s (mc_interface_set_openloop_duty x y t)" "same_mode s (mc_interface_set_openloop_duty_phase x y t)"
    "same_mode s (mc_interface_release_motor t)"
  unfolding single_commands using assms by (intro same_mode_guarded; simp add: Let_def)+

lemma same_mode_perform: "same_mode s (perform r s)"
  by (cases r) (simp_all add: same_mode_single mc_interface_set_current_rel_def mc_interface_set_brake_current_rel_def
      mc_interface_set_handbrake_rel_def mc_interface_brake_now_def mc_interface_release_motor_override_def Let_def)

text \<open>\<open>mode_ok m s\<close>: the implementation for the configured type of motor, and no other, is initialised
  (unless a persistent fault is latched), and boards without phase shunts sample in the mode that
  needs none, or in the mode \<open>m\<close>.\<close>

definition mode_ok :: "mc_foc_control_sample_mode \<Rightarrow> motor \<Rightarrow> bool" where
  "mode_ok m s \<longleftrightarrow> (\<not> has_phase_shunts s \<longrightarrow> foc_control_sample_mode (m_conf s) \<in> {FOC_CONTROL_SAMPLE_MODE_V0, m}) \<and>
     (bldc_init s \<longleftrightarrow> m_persistent_fault s = FAULT_CODE_NONE \<and> motor_type (m_conf s) \<in> {MOTOR_TYPE_BLDC, MOTOR_TYPE_DC}) \<and>
     (foc_init s \<longleftrightarrow> m_persistent_fault s = FAULT_CODE_NONE \<and> motor_type (m_conf s) = MOTOR_TYPE_FOC)"

text \<open>Steps that apply a configuration.\<close>

fun configures :: "event \<Rightarrow> bool" where
  "configures (Configure _) = True"
| "configures (Pid_offset _ _) = True"
| "configures _ = False"

lemma mode_ok_same: "mode_ok m s \<Longrightarrow> same_mode s t \<Longrightarrow> mode_ok m t"
  by (simp add: mode_ok_def same_mode_def)

lemma mode_ok_configured:
  assumes "mode_ok m s" and "\<not> has_phase_shunts s \<Longrightarrow> foc_control_sample_mode cfg = FOC_CONTROL_SAMPLE_MODE_V0"
  shows "mode_ok k (configured cfg s)"
  using assms by (auto simp: mode_ok_def configured_def init_pwm_def deinit_pwm_def by_type_def Let_def split: mc_motor_type.split)

lemma mode_ok_configuration:
  assumes "mode_ok m s"
  shows "mode_ok k (mc_interface_set_configuration cfg s)"
  using mode_ok_same [OF mode_ok_configured [OF assms] steady_same_mode [OF steady_configuration]] by (simp add: applied_def)

lemma mode_ok_configures:
  assumes "mode_ok m s" and "configures e"
  shows "mode_ok k (step e s)"
proof (cases e)
  case (Pid_offset a store)
  have "mode_ok m (if store then issue (Store_mc_configuration c) s else s)" for c using assms(1) by (simp add: mode_ok_def)
  then show ?thesis using mode_ok_configuration unfolding Pid_offset step.simps mc_interface_update_pid_pos_offset_def Let_def by blast
qed (use assms mode_ok_configuration in simp_all)

lemma mode_ok_step: "mode_ok m s \<Longrightarrow> mode_ok m (step e s)"
proof (cases e)
  case (Request r)
  assume "mode_ok m s"
  then show ?thesis using mode_ok_same [OF _ same_mode_perform] Request by simp
next
  case (Pid_offset a store)
  assume "mode_ok m s"
  then show ?thesis unfolding Pid_offset by (rule mode_ok_configures) simp
next
  case (Isr_fault c)
  assume "mode_ok m s"
  then show ?thesis using mode_ok_same [OF _ steady_same_mode [OF steady_trans [OF steady_fault_stop steady_fault_thread]]] Isr_fault by simp
qed (auto simp: mode_ok_configuration mc_interface_lock_def mc_interface_unlock_def mc_interface_lock_override_once_def mc_interface_ignore_input_def
     intro: mode_ok_same steady_same_mode steady_tick steady_fault_stop)

lemma mode_ok_run: "mode_ok m s \<Longrightarrow> mode_ok m (run es s)"
  by (induction es arbitrary: s) (auto simp: run_def mode_ok_step)

lemma mode_ok_run_configures: "mode_ok m s \<Longrightarrow> list_ex configures es \<Longrightarrow> mode_ok k (run es s)"
proof (induction es arbitrary: s)
  case (Cons e es)
  have r: "run (e # es) s = run es (step e s)" by (simp add: run_def)
  show ?case
  proof (cases "configures e")
    case True
    then show ?thesis using mode_ok_run [OF mode_ok_configures [OF Cons.prems(1)]] r by simp
  next
    case False
    then show ?thesis using Cons.IH [OF mode_ok_step [OF Cons.prems(1)]] Cons.prems(2) r by simp
  qed
qed simp

text \<open>C24. In every history after the start, whatever configuration was stored, exactly the implementation of motor
  control for the configured type of motor is initialised, and none under a persistent fault; a board
  without phase shunts runs with the sample mode that needs none as soon as a configuration
  has been applied. Until then it may run with the mode that was stored, which the start does not
  correct.\<close>

theorem modes_consistent:
  fixes es cfg
  assumes "\<not> bldc_init s" and "\<not> foc_init s"
  defines "t \<equiv> run es (mc_interface_init cfg s)"
  shows "mode_ok (foc_control_sample_mode cfg) t \<and> (list_ex configures es \<longrightarrow> mode_ok FOC_CONTROL_SAMPLE_MODE_V0 t)"
proof -
  have "mode_ok (foc_control_sample_mode cfg) (mc_interface_init cfg s)"
    using assms by (cases "m_persistent_fault s = FAULT_CODE_NONE"; cases "motor_type cfg")
      (auto simp: mode_ok_def mc_interface_init_def init_pwm_def by_type_def Let_def)
  then show ?thesis using mode_ok_run mode_ok_run_configures unfolding t_def by blast
qed

theorem modes_consistent_witness:
  "mode_ok FOC_CONTROL_SAMPLE_MODE_V0 (run [Request (Duty (Num 1)), Configure (conf0\<lparr>motor_type := MOTOR_TYPE_DC\<rparr>), Request (Duty (Num 1))]
     (mc_interface_init (conf0\<lparr>foc_control_sample_mode := FOC_CONTROL_SAMPLE_MODE_V0_V7\<rparr>) (motor0\<lparr>has_phase_shunts := False\<rparr>)))"
proof -
  have i: "\<not> bldc_init (motor0\<lparr>has_phase_shunts := False\<rparr>)" "\<not> foc_init (motor0\<lparr>has_phase_shunts := False\<rparr>)" by (simp_all add: motor0_def)
  show ?thesis
    using modes_consistent [OF i, where es = "[Request (Duty (Num 1)), Configure (conf0\<lparr>motor_type := MOTOR_TYPE_DC\<rparr>), Request (Duty (Num 1))]"
        and cfg = "conf0\<lparr>foc_control_sample_mode := FOC_CONTROL_SAMPLE_MODE_V0_V7\<rparr>"] by simp
qed

text \<open>The start applies the stored configuration as it is.\<close>

lemma init_keeps_sample_mode:
  "foc_control_sample_mode (m_conf (mc_interface_init (conf0\<lparr>foc_control_sample_mode := FOC_CONTROL_SAMPLE_MODE_V0_V7\<rparr>)
     (motor0\<lparr>has_phase_shunts := False\<rparr>))) = FOC_CONTROL_SAMPLE_MODE_V0_V7"
  by (simp add: init_fields)

section \<open>A fault that comes back\<close>

lemma fault_stop_now: "m_fault_now (mc_interface_fault_stop c False s) = c"
  by (simp add: mc_interface_fault_stop_def fault_stop_thread_def Let_def)

lemma fault_stop_issued:
  "issued (mc_interface_fault_stop c False s) =
     (if m_fault_now s = c then issued s
      else issued s @ (if m_fault_now s = FAULT_CODE_NONE then [Terminal_add_fault_data c] else []) @
        by_type s [Mcpwm Stop_pwm] [Mcpwm_foc Stop_pwm] [])"
  by (simp add: mc_interface_fault_stop_def fault_stop_thread_def to_pwm_def by_type_def mc_interface_dccal_done_def issue_def Let_def
      split: mc_motor_type.split)

text \<open>What is fixed while the timer counts down.\<close>

lemma countdown_fields:
  "m_persistent_fault (fault_countdown s) = m_persistent_fault s" "foc_init (fault_countdown s) = foc_init s"
  "m_lock_enabled (fault_countdown s) = m_lock_enabled s"
  by (simp_all add: fault_countdown_def Let_def)

lemma countdowns_fields:
  "m_persistent_fault ((fault_countdown ^^ n) s) = m_persistent_fault s" "foc_init ((fault_countdown ^^ n) s) = foc_init s"
  "m_lock_enabled ((fault_countdown ^^ n) s) = m_lock_enabled s"
  by (induction n) (simp_all add: countdown_fields)

lemma fault_stop_fields:
  "m_conf (mc_interface_fault_stop c False s) = m_conf s" "inputs (mc_interface_fault_stop c False s) = inputs s"
  "m_persistent_fault (mc_interface_fault_stop c False s) = m_persistent_fault s" "foc_init (mc_interface_fault_stop c False s) = foc_init s"
  "m_lock_enabled (mc_interface_fault_stop c False s) = m_lock_enabled s"
  by (simp_all add: mc_interface_fault_stop_def fault_stop_thread_def to_pwm_def by_type_def issue_def Let_def split: mc_motor_type.split)

lemma get_state_cong: "m_conf t = m_conf s \<Longrightarrow> inputs t = inputs s \<Longrightarrow> mc_interface_get_state t = mc_interface_get_state s"
  by (simp add: mc_interface_get_state_def view_def by_type_def)

lemma set_current_open:
  assumes "m_persistent_fault s = FAULT_CODE_NONE" and "motor_type (m_conf s) = MOTOR_TYPE_FOC" and "foc_init s"
    and "mc_interface_get_state s \<noteq> MC_STATE_DETECTING" and "\<not> m_lock_enabled s" and "m_ignore_iterations s = 0"
  shows "issued (mc_interface_set_current x s) =
      issued s @ (if x_less (fl (1 / 1000)) (fabsf x) then [Shutdown_reset_timer] else []) @
        [Mcpwm_foc (Set_current (x_mul (DIR_MULT s) x)), Events_add ''set_current'' x]"
    and "m_fault_now (mc_interface_set_current x s) = m_fault_now s" and "motor_type (m_conf (mc_interface_set_current x s)) = MOTOR_TYPE_FOC"
  using assms by (simp_all add: mc_interface_set_current_def guarded_def mc_interface_try_input_def note_activity_def to_pwm_def by_type_def
      events_add_def issue_def mc_interface_get_state_def view_def DIR_MULT_def Let_def)

text \<open>C26. A command after a fault, once inputs are no longer ignored, and then the same fault again. The
  motor is stopped again only when the timer has ticked once more: in the tick between the end of the
  ignored time and the clearing of the fault, the command starts the motor and the fault does not stop it.\<close>

theorem fault_in_retry_window:
  fixes n
  assumes "m_persistent_fault s = FAULT_CODE_NONE" and "motor_type (m_conf s) = MOTOR_TYPE_FOC" and "foc_init s"
    and "mc_interface_get_state s \<noteq> MC_STATE_DETECTING" and "\<not> m_lock_enabled s" and "\<not> is_drv_fault (inputs s)" and "c \<noteq> FAULT_CODE_NONE"
    and "0 < m_fault_stop_time_ms (m_conf s)" and "nat (m_fault_stop_time_ms (m_conf s)) \<le> n"
  defines "s1 \<equiv> mc_interface_fault_stop c False s"
  shows "issued (mc_interface_fault_stop c False (mc_interface_set_current x ((fault_countdown ^^ n) s1))) =
      issued s1 @ (if x_less (fl (1 / 1000)) (fabsf x) then [Shutdown_reset_timer] else []) @
        [Mcpwm_foc (Set_current (x_mul (DIR_MULT s) x)), Events_add ''set_current'' x] @
        (if n = nat (m_fault_stop_time_ms (m_conf s)) then [] else [Terminal_add_fault_data c, Mcpwm_foc Stop_pwm])"
proof -
  let ?k = "nat (m_fault_stop_time_ms (m_conf s))"
  let ?t = "(fault_countdown ^^ n) s1"
  have k: "m_ignore_iterations s1 = int ?k" using assms(8) by (simp add: s1_def ignore_fault_stop)
  have c: "m_conf ?t = m_conf s" "inputs ?t = inputs s" by (simp_all add: countdowns s1_def fault_stop_fields)
  have o: "m_persistent_fault ?t = FAULT_CODE_NONE" "foc_init ?t" "\<not> m_lock_enabled ?t"
    using assms(1,3,5) by (simp_all add: countdowns_fields s1_def fault_stop_fields)
  have i: "m_ignore_iterations ?t = 0" using countdowns_ignore [OF k, of n] assms(9) by simp
  have g: "mc_interface_get_state ?t \<noteq> MC_STATE_DETECTING" using assms(4) get_state_cong [OF c] by simp
  have q: "m_fault_now ?t = (if n = ?k then c else FAULT_CODE_NONE)" "issued ?t = issued s1"
    using countdowns_quiet [OF k, of n] assms(6,9) by (simp_all add: s1_def fault_stop_now fault_stop_fields)
  note w = set_current_open [OF o(1) _ o(2) g o(3) i, of x]
  show ?thesis using w q c assms(2,7) by (auto simp: fault_stop_issued by_type_def DIR_MULT_def)
qed

theorem fault_in_retry_window_witness:
  "Mcpwm_foc Stop_pwm \<notin> set (drop 2 (issued (mc_interface_fault_stop FAULT_CODE_ABS_OVER_CURRENT False (mc_interface_set_current (Num 10)
     ((fault_countdown ^^ 500) (mc_interface_fault_stop FAULT_CODE_ABS_OVER_CURRENT False (motor0\<lparr>m_conf := conf0, foc_init := True\<rparr>)))))))"
proof -
  define s where "s = motor0\<lparr>m_conf := conf0, foc_init := True\<rparr>"
  have s: "m_persistent_fault s = FAULT_CODE_NONE" "motor_type (m_conf s) = MOTOR_TYPE_FOC" "foc_init s"
    "mc_interface_get_state s \<noteq> MC_STATE_DETECTING" "\<not> m_lock_enabled s" "\<not> is_drv_fault (inputs s)"
    "m_fault_stop_time_ms (m_conf s) = 500" "m_fault_now s = FAULT_CODE_NONE" "issued s = []" "m_invert_direction (m_conf s) = False"
    by (simp_all add: s_def motor0_def conf0_def sensed0_def view0_def mc_interface_get_state_def view_def by_type_def)
  show ?thesis
    using fault_in_retry_window [of s FAULT_CODE_ABS_OVER_CURRENT 500 "Num 10"] s unfolding s_def [symmetric]
    by (auto simp: fault_stop_issued by_type_def)
qed

section \<open>The lock\<close>

text \<open>A gate on which nothing but a lock can be closed.\<close>

definition ready :: "motor \<Rightarrow> bool" where
  "ready s \<longleftrightarrow> m_persistent_fault s = FAULT_CODE_NONE \<and> by_type s (bldc_init s) (foc_init s) True \<and>
     mc_interface_get_state s \<noteq> MC_STATE_DETECTING \<and> m_ignore_iterations s = 0"

text \<open>\<open>pair s t\<close>: the state with a lock that may be passed once, and the one without a lock.\<close>

definition pair :: "motor \<Rightarrow> motor \<Rightarrow> bool" where
  "pair s t \<longleftrightarrow> ready s \<and> (\<exists>r. s = r\<lparr>m_lock_enabled := True, m_lock_override_once := True\<rparr> \<and> t = r\<lparr>m_lock_enabled := False\<rparr>)"

definition spent :: "motor \<Rightarrow> motor \<Rightarrow> bool" where
  "spent s t \<longleftrightarrow> (m_lock_enabled s \<and> \<not> m_lock_override_once s) \<and> drives s = drives t"

lemma ready_issue [simp]: "ready (issue c s) = ready s"
  by (simp add: ready_def mc_interface_get_state_def view_def by_type_def)

lemma pair_issue: "pair s t \<Longrightarrow> pair (issue c s) (issue c t)"
proof -
  assume p: "pair s t"
  then obtain r where r: "s = r\<lparr>m_lock_enabled := True, m_lock_override_once := True\<rparr>" "t = r\<lparr>m_lock_enabled := False\<rparr>"
    by (auto simp: pair_def)
  show ?thesis using p unfolding pair_def ready_issue by (intro conjI exI [of _ "issue c r"]) (simp_all add: r, simp_all add: issue_def)
qed

lemma drives_lock [simp]: "drives (r\<lparr>m_lock_enabled := b\<rparr>) = drives r" "drives (r\<lparr>m_lock_override_once := c\<rparr>) = drives r"
  "drives (r\<lparr>m_position_set := x\<rparr>) = drives r" "drives (r\<lparr>m_ignore_iterations := n\<rparr>) = drives r"
  by (simp_all add: drives_def)

lemma pair_note: "pair s t \<Longrightarrow> pair (note_activity x s) (note_activity x t)"
  by (simp add: note_activity_def pair_issue)

lemma pair_guarded:
  assumes "pair s t" and "\<And>r. spent (f (r\<lparr>m_lock_enabled := True, m_lock_override_once := False\<rparr>)) (f (r\<lparr>m_lock_enabled := False\<rparr>))"
  shows "spent (guarded f s) (guarded f t)"
proof -
  obtain r where r: "ready s" "s = r\<lparr>m_lock_enabled := True, m_lock_override_once := True\<rparr>" "t = r\<lparr>m_lock_enabled := False\<rparr>"
    using assms(1) by (auto simp: pair_def)
  have q: "ready r" using r(1,2) by (simp add: ready_def mc_interface_get_state_def view_def by_type_def)
  have "guarded f s = f (r\<lparr>m_lock_enabled := True, m_lock_override_once := False\<rparr>)" "guarded f t = f (r\<lparr>m_lock_enabled := False\<rparr>)"
    using q unfolding r(2,3) by (simp_all add: guarded_def mc_interface_try_input_def ready_def mc_interface_get_state_def view_def by_type_def Let_def
        split: mc_motor_type.splits)
  then show ?thesis using assms(2) by simp
qed

lemma pair_single:
  assumes "pair s t"
  shows "spent (mc_interface_set_duty x s) (mc_interface_set_duty x t)" "spent (mc_interface_set_duty_noramp x s) (mc_interface_set_duty_noramp x t)"
    "spent (mc_interface_set_pid_speed x s) (mc_interface_set_pid_speed x t)" "spent (mc_interface_set_pid_pos x s) (mc_interface_set_pid_pos x t)"
    "spent (mc_interface_set_current x s) (mc_interface_set_current x t)" "spent (mc_interface_set_brake_current x s) (mc_interface_set_brake_current x t)"
    "spent (mc_interface_set_current_off_delay x s) (mc_interface_set_current_off_delay x t)"
    "spent (mc_interface_set_handbrake x s) (mc_interface_set_handbrake x t)"
    "spent (mc_interface_set_openloop_current x y s) (mc_interface_set_openloop_current x y t)"
    "spent (mc_interface_set_openloop_phase x y s) (mc_interface_set_openloop_phase x y t)"
    "spent (mc_interface_set_openloop_duty x y s) (mc_interface_set_openloop_duty x y t)"
    "spent (mc_interface_set_openloop_duty_phase x y s) (mc_interface_set_openloop_duty_phase x y t)"
    "spent (mc_interface_release_motor s) (mc_interface_release_motor t)"
  unfolding single_commands
  by (rule pair_guarded; use assms in \<open>auto simp: spent_def to_pwm_def by_type_def events_add_def DIR_MULT_def Let_def pair_note pair_issue
      split: mc_motor_type.split\<close>)+

lemma off_delay_steady: "drives (mc_interface_set_current_off_delay d s) = drives s"
  by (auto simp: mc_interface_set_current_off_delay_def guarded_def mc_interface_try_input_def to_pwm_def by_type_def Let_def split: mc_motor_type.splits)

lemma spent_off_delay:
  assumes "spent s t"
  shows "spent (mc_interface_set_current_off_delay d s) (mc_interface_set_current_off_delay d t)"
proof -
  have "closed True 0 s" using assms by (simp add: spent_def closed_def)
  then have "steady s (mc_interface_set_current_off_delay d s)" using single_kept(7) by (simp add: kept_def MCPWM_DETECT_STOP_TIME_def)
  then show ?thesis using assms by (simp add: spent_def off_delay_steady steady_def)
qed

lemma pair_fields:
  assumes "pair s t"
  shows "m_conf s = m_conf t" "mc_interface_get_duty_cycle_now s = mc_interface_get_duty_cycle_now t"
  using assms by (auto simp: pair_def mc_interface_get_duty_cycle_now_def view_def by_type_def DIR_MULT_def split: mc_motor_type.split)

lemma pair_perform:
  assumes "pair s t" and "r \<noteq> Release_override"
  shows "spent (perform r s) (perform r t)"
  using assms by (cases r)
    (simp_all add: pair_single pair_note pair_issue pair_fields [OF pair_note [OF assms(1)]] spent_off_delay mc_interface_set_current_rel_def
      mc_interface_set_brake_current_rel_def mc_interface_set_handbrake_rel_def mc_interface_brake_now_def Let_def)

lemma closed_requests:
  assumes "closed True 0 s"
  shows "drives (run (map Request rs) s) = drives s"
  using assms
proof (induction rs arbitrary: s)
  case (Cons r rs)
  then show ?case using perform_kept [OF Cons.prems, of r] by (simp add: run_def kept_def steady_def MCPWM_DETECT_STOP_TIME_def)
qed (simp add: run_def)

text \<open>C25. A lock keeps every request away; \<open>Override_once\<close> lets exactly the next request through, which then
  moves the motor exactly as it would without the lock, and the requests after it are refused again.\<close>

theorem lock_override_once:
  fixes rs
  assumes "m_persistent_fault s = FAULT_CODE_NONE" and "by_type s (bldc_init s) (foc_init s) True"
    and "mc_interface_get_state s \<noteq> MC_STATE_DETECTING" and "m_ignore_iterations s = 0" and "r \<noteq> Release_override"
  shows "filter drive (issued (run (Lock # Override_once # Request r # map Request rs) s)) = filter drive (issued (perform r (mc_interface_unlock s))) \<and>
    (\<not> m_lock_override_once s \<longrightarrow> filter drive (issued (run (Lock # map Request rs) s)) = filter drive (issued s))"
proof (intro conjI impI)
  let ?s = "s\<lparr>m_lock_enabled := True, m_lock_override_once := True\<rparr>"
  have "ready ?s" using assms by (simp add: ready_def mc_interface_get_state_def view_def by_type_def)
  then have "pair ?s (mc_interface_unlock s)" by (auto simp: pair_def mc_interface_unlock_def intro!: exI [of _ s])
  then have p: "spent (perform r ?s) (perform r (mc_interface_unlock s))" using assms(5) by (rule pair_perform)
  then have "closed True 0 (perform r ?s)" by (simp add: spent_def closed_def)
  then have "drives (run (map Request rs) (perform r ?s)) = drives (perform r ?s)" by (rule closed_requests)
  then show "filter drive (issued (run (Lock # Override_once # Request r # map Request rs) s)) = filter drive (issued (perform r (mc_interface_unlock s)))"
    using p by (simp add: run_def spent_def drives_def mc_interface_lock_def mc_interface_lock_override_once_def)
next
  assume "\<not> m_lock_override_once s"
  then have "closed True 0 (s\<lparr>m_lock_enabled := True\<rparr>)" by (simp add: closed_def)
  then show "filter drive (issued (run (Lock # map Request rs) s)) = filter drive (issued s)"
    using closed_requests [of "s\<lparr>m_lock_enabled := True\<rparr>" rs] by (simp add: run_def drives_def mc_interface_lock_def)
qed

theorem lock_override_once_witness:
  "filter drive (issued (run [Lock, Override_once, Request (Current_rel (Num 1)), Request (Duty (Num 1))] (motor0\<lparr>m_conf := conf0, foc_init := True\<rparr>))) =
   filter drive (issued (mc_interface_set_current_rel (Num 1) (mc_interface_unlock (motor0\<lparr>m_conf := conf0, foc_init := True\<rparr>))))"
  using lock_override_once [of "motor0\<lparr>m_conf := conf0, foc_init := True\<rparr>" "Current_rel (Num 1)" "[Duty (Num 1)]"]
  by (simp add: motor0_def conf0_def sensed0_def view0_def mc_interface_get_state_def view_def by_type_def)

text \<open>A relative command passes the gate twice, for the current and for the delay of switching off. The
  override is spent on the first, so that the delay is lost.\<close>

lemma override_loses_delay:
  assumes "m_lock_enabled s" and "\<not> m_lock_override_once s" and "m_persistent_fault s = FAULT_CODE_NONE" and "motor_type (m_conf s) = MOTOR_TYPE_FOC"
    and "mc_interface_get_state s \<noteq> MC_STATE_DETECTING"
  shows "issued (mc_interface_set_current_off_delay d s) = issued s"
  using assms by (simp add: mc_interface_set_current_off_delay_def guarded_def mc_interface_try_input_def by_type_def Let_def)

end
