(* ===== verification/Timeout.thy ===== *)
theory Timeout
  imports Motor_Modes
begin

text \<open>
  The supervision of \<^verbatim>\<open>timeout.c\<close>: a thread that looks every 10 ms whether a command has arrived in time
  and whether the kill switch is pressed, stops the motor through the motor interface, and feeds
  the watchdog as long as the threads of motor control and of the CAN bus report.
\<close>

section \<open>State\<close>

datatype KILL_SW_MODE = KILL_SW_MODE_DISABLED | KILL_SW_MODE_PPM_LOW | KILL_SW_MODE_PPM_HIGH | KILL_SW_MODE_ADC2_LOW | KILL_SW_MODE_ADC2_HIGH

datatype WWDT_THREAD_TYPES = THREAD_MCPWM | THREAD_CANBUS | THREAD_USB | THREAD_APP

fun thread_index :: "WWDT_THREAD_TYPES \<Rightarrow> nat" where
  "thread_index THREAD_MCPWM = 0"
| "thread_index THREAD_CANBUS = 1"
| "thread_index THREAD_USB = 2"
| "thread_index THREAD_APP = 3"

definition MAX_THREADS_MONITOR :: nat where "MAX_THREADS_MONITOR = 10"
definition MIN_THREAD_ITERATIONS :: u32 where "MIN_THREAD_ITERATIONS = 1"

text \<open>The variables of the file, the setting of the watchdog (prescaler and reload value) and how often it
  was reloaded (but for the waits while its setting changes).\<close>

record supervisor =
  init_done :: bool
  timeout_msec :: u32
  last_update_time :: u32
  timeout_brake_current :: single
  timeout_kill_sw_mode :: KILL_SW_MODE
  has_timeout :: bool
  kill_sw_active :: bool
  kill_sw_ext_set :: bool
  feed_counter :: "u32 list"
  iwdg :: "nat \<times> nat"
  reloads :: nat

text \<open>What a round of the thread reads: the system time in ticks of 100 microseconds, the pin of the
  servo input, the second external analog input.\<close>

record reading =
  now :: u32
  icu_pin :: bool
  ext2 :: u16

section \<open>Operations\<close>

definition timeout_init :: "supervisor \<Rightarrow> supervisor" where
  "timeout_init g = g\<lparr>timeout_msec := 1000, last_update_time := 0, timeout_brake_current := Num 0,
     timeout_kill_sw_mode := KILL_SW_MODE_DISABLED, has_timeout := False, kill_sw_active := False, init_done := True,
     iwdg := (4, 140), reloads := reloads g + 1\<rparr>"

definition timeout_configure :: "u32 \<Rightarrow> single \<Rightarrow> KILL_SW_MODE \<Rightarrow> supervisor \<Rightarrow> supervisor" where
  "timeout_configure timeout brake_current kill_sw_mode g =
     g\<lparr>timeout_msec := timeout, timeout_brake_current := brake_current, timeout_kill_sw_mode := kill_sw_mode\<rparr>"

definition timeout_reset :: "u32 \<Rightarrow> supervisor \<Rightarrow> supervisor" where
  "timeout_reset t g = g\<lparr>last_update_time := t\<rparr>"

definition timeout_secs_since_update :: "u32 \<Rightarrow> supervisor \<Rightarrow> single" where
  "timeout_secs_since_update t g = x_div (single_of (of_int (uint (t - last_update_time g)))) (Num 10000)"

definition timeout_set_kill_sw_ext :: "bool \<Rightarrow> supervisor \<Rightarrow> supervisor" where
  "timeout_set_kill_sw_ext kill_set g = g\<lparr>kill_sw_ext_set := kill_set\<rparr>"

definition timeout_feed_WDT :: "WWDT_THREAD_TYPES \<Rightarrow> supervisor \<Rightarrow> supervisor" where
  "timeout_feed_WDT t g = g\<lparr>feed_counter := (feed_counter g)[thread_index t := feed_counter g ! thread_index t + 1]\<rparr>"

text \<open>Milliseconds in ticks, rounded up, in 32 bits.\<close>

definition MS2ST :: "u32 \<Rightarrow> u32" where
  "MS2ST msec = (msec * 10000 + 999) div 1000"

text \<open>The voltage at an analog input, in single precision.\<close>

definition ADC_VOLTS :: "u16 \<Rightarrow> float32" where
  "ADC_VOLTS v = fmul (fdiv (f_of_int (uint v)) 4096) (rnd (33 / 10))"

definition kill_switch :: "reading \<Rightarrow> supervisor \<Rightarrow> bool" where
  "kill_switch i g \<longleftrightarrow>
     (case timeout_kill_sw_mode g of
        KILL_SW_MODE_PPM_LOW \<Rightarrow> \<not> icu_pin i
      | KILL_SW_MODE_PPM_HIGH \<Rightarrow> icu_pin i
      | KILL_SW_MODE_ADC2_LOW \<Rightarrow> ADC_VOLTS (ext2 i) < rnd (165 / 100)
      | KILL_SW_MODE_ADC2_HIGH \<Rightarrow> rnd (165 / 100) < ADC_VOLTS (ext2 i)
      | KILL_SW_MODE_DISABLED \<Rightarrow> False) \<or> kill_sw_ext_set g"

definition expired :: "reading \<Rightarrow> supervisor \<Rightarrow> bool" where
  "expired i g \<longleftrightarrow> timeout_msec g \<noteq> 0 \<and> MS2ST (timeout_msec g) < now i - last_update_time g"

text \<open>What the thread does to the motor. The board has one motor, so that the second selection is the
  same motor again.\<close>

definition stop_motors :: "supervisor \<Rightarrow> motor \<Rightarrow> motor" where
  "stop_motors g m =
     (let m = (if \<not> has_timeout g \<and> \<not> kill_sw_active g then mc_interface_release_motor_override m else m);
          m = mc_interface_unlock m;
          m = mc_interface_set_brake_current (timeout_brake_current g) m
      in mc_interface_set_brake_current (timeout_brake_current g) m)"

definition check_threads :: "supervisor \<Rightarrow> supervisor" where
  "check_threads g =
     (let threads_ok = (feed_counter g ! thread_index THREAD_MCPWM \<ge> MIN_THREAD_ITERATIONS \<and>
            feed_counter g ! thread_index THREAD_CANBUS \<ge> MIN_THREAD_ITERATIONS);
          g = g\<lparr>feed_counter := replicate MAX_THREADS_MONITOR 0\<rparr>
      in if threads_ok then g\<lparr>reloads := reloads g + 1\<rparr> else g)"

text \<open>One round of the thread.\<close>

definition timeout_thread :: "reading \<Rightarrow> supervisor \<times> motor \<Rightarrow> supervisor \<times> motor" where
  "timeout_thread i = (\<lambda>(g, m).
     let kill_sw = kill_switch i g;
         (g, m) =
           (if kill_sw \<or> expired i g then
              let m = stop_motors g m
              in if kill_sw then (g, mc_interface_ignore_input_both 20 m) else (g\<lparr>has_timeout := True\<rparr>, m)
            else (g\<lparr>has_timeout := False\<rparr>, m));
         g = g\<lparr>kill_sw_active := kill_sw\<rparr>
     in (check_threads g, m))"

text \<open>A supervisor for examples.\<close>

definition supervisor0 :: supervisor where
  "supervisor0 = \<lparr>init_done = True, timeout_msec = 1000, last_update_time = 0, timeout_brake_current = Num 5,
     timeout_kill_sw_mode = KILL_SW_MODE_PPM_LOW, has_timeout = False, kill_sw_active = False, kill_sw_ext_set = False,
     feed_counter = replicate 10 0, iwdg = (4, 140), reloads = 0\<rparr>"

section \<open>The kill switch at the analog input\<close>

lemma volts_exact: "fdiv (f_of_int (uint (v :: u16))) 4096 = of_int (uint v) / 4096"
proof -
  have b: "0 \<le> uint v" "uint v < 2 ^ 16" using uint_bounded [of v] by simp_all
  have "f_of_int (uint v) = of_int (uint v)" unfolding f_of_int_def by (rule rnd_int) (use b in simp)
  moreover have "rnd (of_int (uint v) / 2 ^ 12) = of_int (uint v) / 2 ^ 12" by (rule rnd_scaled) (use b in simp_all)
  then have "rnd (of_int (uint v) / 4096) = of_int (uint v) / 4096" by simp
  ultimately show ?thesis by (simp only: fdiv_def)
qed

lemma threshold: "\<bar>rnd (33 / 10) - 33 / 10\<bar> \<le> 1 / 1000000" "\<bar>rnd (165 / 100) - 165 / 100\<bar> \<le> 1 / 1000000"
  using rnd_rel [of "33 / 10"] rnd_rel [of "165 / 100"] by simp_all

lemma volts_low:
  assumes "uint (v :: u16) < 2048"
  shows "ADC_VOLTS v < rnd (165 / 100)"
proof -
  define V where "V = rnd (33 / 10)"
  define y where "y = of_int (uint v) / 4096 * V"
  have V: "0 \<le> V" "V \<le> 33 / 10 + 1 / 1000000" using threshold(1) unfolding V_def by linarith+
  have "of_int (uint v) \<le> (of_int 2047 :: rat)" using assms by (intro iffD2 [OF of_int_le_iff]) simp
  then have "y \<le> 2047 / 4096 * V" unfolding y_def using V by (intro mult_right_mono) simp_all
  moreover have "0 \<le> y" unfolding y_def using V by (intro mult_nonneg_nonneg divide_nonneg_nonneg iffD2 [OF of_int_0_le_iff]) simp_all
  ultimately have y: "0 \<le> y" "y \<le> 16499 / 10000" using V by linarith+
  have "rnd y \<le> y + y / 2 ^ 24 + 1 / 2 ^ 150" using rnd_rel [of y] y by linarith
  then have "rnd y < 165 / 100 - 1 / 1000000" using y by simp
  then show ?thesis using threshold(2) unfolding ADC_VOLTS_def volts_exact fmul_def V_def [symmetric] y_def [symmetric] by linarith
qed

lemma volts_high:
  assumes "2048 < uint (v :: u16)"
  shows "rnd (165 / 100) < ADC_VOLTS v"
proof -
  define V where "V = rnd (33 / 10)"
  define y where "y = of_int (uint v) / 4096 * V"
  have V: "33 / 10 - 1 / 1000000 \<le> V" using threshold(1) unfolding V_def by linarith
  have "(of_int 2049 :: rat) \<le> of_int (uint v)" using assms by (intro iffD2 [OF of_int_le_iff]) simp
  then have "2049 / 4096 * V \<le> y" unfolding y_def using V by (intro mult_right_mono) simp_all
  then have y: "165 / 100 + 1 / 10000 \<le> y" using V by simp
  have "y - y / 2 ^ 24 - 1 / 2 ^ 150 \<le> rnd y" using rnd_rel [of y] y by linarith
  then have "165 / 100 + 1 / 1000000 < rnd y" using y by simp
  then show ?thesis using threshold(2) unfolding ADC_VOLTS_def volts_exact fmul_def V_def [symmetric] y_def [symmetric] by linarith
qed

section \<open>Histories\<close>

datatype supervised = Motor event | Round reading | Reset u32 | Feed WWDT_THREAD_TYPES

fun supervise :: "supervised \<Rightarrow> supervisor \<times> motor \<Rightarrow> supervisor \<times> motor" where
  "supervise (Motor e) (g, m) = (g, step e m)"
| "supervise (Round i) (g, m) = timeout_thread i (g, m)"
| "supervise (Reset t) (g, m) = (timeout_reset t g, m)"
| "supervise (Feed t) (g, m) = (timeout_feed_WDT t g, m)"

definition supervised_run :: "supervised list \<Rightarrow> supervisor \<times> motor \<Rightarrow> supervisor \<times> motor" where
  "supervised_run es s = fold supervise es s"

text \<open>\<open>paced k es\<close>: no more than \<open>k\<close> ticks of the timer until the next round, and no more than 19 between two
  rounds; nothing shortens the time for which inputs are ignored.\<close>

fun paced :: "nat \<Rightarrow> supervised list \<Rightarrow> bool" where
  "paced k [] = True"
| "paced k (Round i # es) = paced 19 es"
| "paced k (Motor e # es) = (keeps_time e \<and> (is_tick e \<longrightarrow> 0 < k) \<and> paced (if is_tick e then k - 1 else k) es)"
| "paced k (Reset t # es) = paced k es"
| "paced k (Feed t # es) = paced k es"

fun pressed :: "supervisor \<Rightarrow> supervised \<Rightarrow> bool" where
  "pressed g (Round i) = kill_switch i g"
| "pressed g _ = True"

text \<open>Setting the brake current \<open>x\<close>.\<close>

definition brake_call :: "single \<Rightarrow> motor_call set" where
  "brake_call x = {Mcpwm (Set_brake_current x), Mcpwm_foc (Set_brake_current x)}"

lemma same_sides:
  "kill_switch i (check_threads g) = kill_switch i g" "kill_switch i (g\<lparr>kill_sw_active := b\<rparr>) = kill_switch i g"
  "kill_switch i (timeout_reset t g) = kill_switch i g" "kill_switch i (timeout_feed_WDT w g) = kill_switch i g"
  by (simp_all add: kill_switch_def check_threads_def timeout_reset_def timeout_feed_WDT_def Let_def split: KILL_SW_MODE.split)

lemma round_kill:
  assumes "kill_switch i g"
  shows "timeout_thread i (g, m) = (check_threads (g\<lparr>kill_sw_active := True\<rparr>), mc_interface_ignore_input_both 20 (stop_motors g m))"
  using assms by (simp add: timeout_thread_def Let_def)

text \<open>A closed gate stays closed.\<close>

lemma stop_motors_kept:
  assumes "closed False n m" and "n \<le> MCPWM_DETECT_STOP_TIME"
  shows "drives (stop_motors g m) = drives m" "m_fault_stop_time_ms (m_conf (stop_motors g m)) = m_fault_stop_time_ms (m_conf m)"
    "closed False n (stop_motors g m)"
proof -
  define r where "r = (if \<not> has_timeout g \<and> \<not> kill_sw_active g then mc_interface_release_motor_override m else m)"
  have r: "kept False n m r" using release_override_kept [OF assms(1)] assms(1) by (simp add: r_def kept_def)
  let ?u = "mc_interface_unlock r"
  have u: "closed False n ?u" "drives ?u = drives r" "m_conf ?u = m_conf r"
    using r by (simp_all add: kept_def closed_def mc_interface_unlock_def)
  have b: "kept False n ?u (mc_interface_set_brake_current x (mc_interface_set_brake_current x ?u))" for x
    using single_kept(6) [OF u(1) assms(2)] single_kept(6) [OF _ assms(2)] kept_trans kept_closed by blast
  show "drives (stop_motors g m) = drives m" "m_fault_stop_time_ms (m_conf (stop_motors g m)) = m_fault_stop_time_ms (m_conf m)"
    "closed False n (stop_motors g m)"
    using b r u unfolding stop_motors_def Let_def r_def [symmetric] by (simp_all add: kept_def steady_def)
qed

lemma fed_killed:
  assumes "closed False (int k + 1) m" and "k \<le> 19" and "20 \<le> m_fault_stop_time_ms (m_conf m)" and "list_all (pressed g) es" and "paced k es"
  shows "drives (snd (supervised_run es (g, m))) = drives m"
  using assms
proof (induction es arbitrary: g m k)
  case (Cons e es)
  have f: "list_all (pressed g') es \<longleftrightarrow> list_all (pressed g) es" if "\<And>i. kill_switch i g' = kill_switch i g" for g'
    unfolding list_all_iff using that by (metis pressed.elims pressed.simps)
  show ?case
  proof (cases e)
    case (Motor x)
    have h: "drives (step x m) = drives m \<and> m_fault_stop_time_ms (m_conf (step x m)) = m_fault_stop_time_ms (m_conf m) \<and>
        closed False (if is_tick x then int k + 1 - 1 else int k + 1) (step x m)"
      by (rule held_step) (use Cons.prems Motor in \<open>auto simp: MCPWM_DETECT_STOP_TIME_def\<close>)
    have "drives (snd (supervised_run es (g, step x m))) = drives (step x m)"
      by (rule Cons.IH [where k = "if is_tick x then k - 1 else k"]) (use h Cons.prems Motor in \<open>auto simp: of_nat_diff split: if_splits\<close>)
    then show ?thesis using h by (simp add: supervised_run_def Motor)
  next
    case (Round i)
    let ?g = "check_threads (g\<lparr>kill_sw_active := True\<rparr>)" and ?m = "mc_interface_ignore_input_both 20 (stop_motors g m)"
    have p: "timeout_thread i (g, m) = (?g, ?m)" using Cons.prems(4) Round by (simp add: round_kill)
    have d: "drives ?m = drives m" "m_fault_stop_time_ms (m_conf ?m) = m_fault_stop_time_ms (m_conf m)"
      using stop_motors_kept [OF Cons.prems(1)] Cons.prems(2) by (simp_all add: Motor_If.mc_interface_ignore_input_both_def MCPWM_DETECT_STOP_TIME_def)
    have "drives (snd (supervised_run es (?g, ?m))) = drives ?m"
      by (rule Cons.IH [where k = 19])
        (use Cons.prems Round d f [of ?g] in \<open>simp_all add: closed_def Motor_If.mc_interface_ignore_input_both_def same_sides\<close>)
    then show ?thesis using d p by (simp add: supervised_run_def Round)
  next
    case (Reset t)
    have "drives (snd (supervised_run es (timeout_reset t g, m))) = drives m"
      by (rule Cons.IH [OF Cons.prems(1-3)]) (use Cons.prems(4,5) Reset f [of "timeout_reset t g"] in \<open>simp_all add: same_sides\<close>)
    then show ?thesis by (simp add: supervised_run_def Reset)
  next
    case (Feed t)
    have "drives (snd (supervised_run es (timeout_feed_WDT t g, m))) = drives m"
      by (rule Cons.IH [OF Cons.prems(1-3)]) (use Cons.prems(4,5) Feed f [of "timeout_feed_WDT t g"] in \<open>simp_all add: same_sides\<close>)
    then show ?thesis by (simp add: supervised_run_def Feed)
  qed
qed (simp add: supervised_run_def)

section \<open>What the rounds do\<close>

lemma try_frame:
  "drives (snd (mc_interface_try_input s)) = drives s" "m_conf (snd (mc_interface_try_input s)) = m_conf s"
  "m_lock_enabled (snd (mc_interface_try_input s)) = m_lock_enabled s"
  by (simp_all add: mc_interface_try_input_def Let_def case_prod_unfold)

lemma guarded_cases: "guarded f s \<in> {snd (mc_interface_try_input s), f (snd (mc_interface_try_input s))}"
  by (simp add: guarded_def Let_def case_prod_unfold)

lemma note_frame:
  "drives (note_activity x s) = drives s" "m_conf (note_activity x s) = m_conf s" "m_lock_enabled (note_activity x s) = m_lock_enabled s"
  by (simp_all add: note_activity_def)

lemma brake_frame:
  "\<exists>bs. drives (mc_interface_set_brake_current x m) = drives m @ bs \<and> set bs \<subseteq> brake_call (x_mul (DIR_MULT m) x)"
  "m_conf (mc_interface_set_brake_current x m) = m_conf m" "m_lock_enabled (mc_interface_set_brake_current x m) = m_lock_enabled m"
proof -
  define t where "t = snd (mc_interface_try_input (note_activity x m))"
  have t: "drives t = drives m" "m_conf t = m_conf m" "m_lock_enabled t = m_lock_enabled m" by (simp_all add: t_def try_frame note_frame)
  define r where "r = events_add ''set_current_brake'' x (to_pwm (Some (Set_brake_current (x_mul (DIR_MULT t) x))) (Some (Set_brake_current (x_mul (DIR_MULT t) x))) t)"
  have r: "\<exists>bs. drives r = drives m @ bs \<and> set bs \<subseteq> brake_call (x_mul (DIR_MULT m) x)" "m_conf r = m_conf m" "m_lock_enabled r = m_lock_enabled m"
    using t by (simp_all add: r_def to_pwm_def by_type_def events_add_def brake_call_def DIR_MULT_def split: mc_motor_type.split)
  have "mc_interface_set_brake_current x m \<in> {t, r}"
    using guarded_cases unfolding mc_interface_set_brake_current_def t_def r_def Let_def by blast
  then show "\<exists>bs. drives (mc_interface_set_brake_current x m) = drives m @ bs \<and> set bs \<subseteq> brake_call (x_mul (DIR_MULT m) x)"
    "m_conf (mc_interface_set_brake_current x m) = m_conf m" "m_lock_enabled (mc_interface_set_brake_current x m) = m_lock_enabled m"
    using r t by auto
qed

lemma override_conf [simp]: "m_conf (mc_interface_release_motor_override m) = m_conf m" "drives (mc_interface_release_motor_override m) = drives m"
  by (auto simp: mc_interface_release_motor_override_def to_pwm_def by_type_def events_add_def split: mc_motor_type.split)

lemma stop_drives:
  "\<exists>bs. drives (stop_motors g m) = drives m @ bs \<and> set bs \<subseteq> brake_call (x_mul (DIR_MULT m) (timeout_brake_current g))"
    "m_conf (stop_motors g m) = m_conf m"
proof -
  let ?u = "mc_interface_unlock (if \<not> has_timeout g \<and> \<not> kill_sw_active g then mc_interface_release_motor_override m else m)"
  let ?x = "timeout_brake_current g"
  have u: "drives ?u = drives m" "m_conf ?u = m_conf m" by (simp_all add: mc_interface_unlock_def)
  note brake_drives = brake_frame(1)
  have d: "DIR_MULT (mc_interface_set_brake_current ?x ?u) = DIR_MULT m" "DIR_MULT ?u = DIR_MULT m" using u by (simp_all add: DIR_MULT_def brake_frame)
  obtain b where b: "drives (mc_interface_set_brake_current ?x ?u) = drives m @ b" "set b \<subseteq> brake_call (x_mul (DIR_MULT m) ?x)"
    using brake_drives [of ?x ?u] u d by auto
  obtain c where c: "drives (stop_motors g m) = drives (mc_interface_set_brake_current ?x ?u) @ c" "set c \<subseteq> brake_call (x_mul (DIR_MULT m) ?x)"
    using brake_drives [of ?x "mc_interface_set_brake_current ?x ?u"] d unfolding stop_motors_def Let_def by auto
  show "\<exists>bs. drives (stop_motors g m) = drives m @ bs \<and> set bs \<subseteq> brake_call (x_mul (DIR_MULT m) (timeout_brake_current g))"
    using b c by (intro exI [of _ "b @ c"]) simp
  show "m_conf (stop_motors g m) = m_conf m" using u by (simp add: stop_motors_def Let_def brake_frame)
qed

text \<open>C27. While the kill switch is pressed in every round of the supervising thread, rounds are less than
  20 ms apart and the configured time after a fault is at least 20 ms, no request moves the motor, whatever is requested, locked,
  reported or measured in between, provided that nothing in between sets the ignored time or the configuration (\<open>keeps_time\<close>: an
  emergency stop with a shorter time opens the gate again, see \<open>estop_replaces_time\<close> in Commands): the only calls that reach the
  PWM peripheral are of the configured brake current.\<close>

theorem kill_switch_holds:
  fixes es
  assumes "20 \<le> m_fault_stop_time_ms (m_conf m)" and "kill_switch i g" and "list_all (pressed g) es" and "paced 19 es"
  shows "\<exists>bs. filter drive (issued (snd (supervised_run (Round i # es) (g, m)))) = filter drive (issued m) @ bs \<and>
    set bs \<subseteq> brake_call (x_mul (DIR_MULT m) (timeout_brake_current g))"
proof -
  let ?g = "check_threads (g\<lparr>kill_sw_active := True\<rparr>)" and ?m = "mc_interface_ignore_input_both 20 (stop_motors g m)"
  have s: "pressed ?g e = pressed g e" for e by (cases e) (simp_all add: same_sides)
  have d: "drives ?m = drives (stop_motors g m)" by (simp add: Motor_If.mc_interface_ignore_input_both_def)
  have "drives (snd (supervised_run es (?g, ?m))) = drives ?m"
    by (rule fed_killed [where k = 19])
      (use assms s stop_drives(2) in \<open>simp_all add: closed_def Motor_If.mc_interface_ignore_input_both_def list_all_iff\<close>)
  then show ?thesis using stop_drives(1) [of g m] d round_kill [OF assms(2)] by (simp add: supervised_run_def drives_def)
qed

theorem kill_switch_holds_witness:
  "\<exists>bs. filter drive (issued (snd (supervised_run [Round \<lparr>now = 0, icu_pin = False, ext2 = 0\<rparr>, Motor (Request (Duty (Num 1))), Motor (Tick (Num 9) (Num 1)),
       Motor Unlock, Round \<lparr>now = 100, icu_pin = False, ext2 = 0\<rparr>, Motor (Request (Current (Num 10)))]
     (supervisor0,
      motor0\<lparr>m_conf := conf0, foc_init := True\<rparr>)))) = filter drive (issued (motor0\<lparr>m_conf := conf0, foc_init := True\<rparr>)) @ bs \<and>
    set bs \<subseteq> brake_call (x_mul (DIR_MULT (motor0\<lparr>m_conf := conf0, foc_init := True\<rparr>)) (Num 5))"
  using kill_switch_holds [of "motor0\<lparr>m_conf := conf0, foc_init := True\<rparr>" "\<lparr>now = 0, icu_pin = False, ext2 = 0\<rparr>"
      "supervisor0"
      "[Motor (Request (Duty (Num 1))), Motor (Tick (Num 9) (Num 1)), Motor Unlock, Round \<lparr>now = 100, icu_pin = False, ext2 = 0\<rparr>, Motor (Request (Current (Num 10)))]"]
  by (simp add: conf0_def kill_switch_def supervisor0_def)

section \<open>The timeout\<close>

lemma MS2ST_exact:
  assumes "uint t \<le> 429496"
  shows "uint (MS2ST t) = uint t * 10"
proof -
  have "uint (t * 10000 + 999) = uint t * 10000 + 999"
    using assms by (simp add: uint_word_ariths)
  then show ?thesis by (simp add: MS2ST_def uint_div)
qed

text \<open>What releasing the motor and setting a brake current ask for when the gate is open.\<close>

definition release_calls :: "motor \<Rightarrow> motor_call list" where
  "release_calls m = by_type m [Mcpwm Release_motor] [Mcpwm_foc Release_motor] [] @ [Events_add ''release_motor_override'' (Num 0)]"

lemma override_issues:
  "issued (mc_interface_release_motor_override m) = issued m @ release_calls m"
  "m_conf (mc_interface_release_motor_override m) = m_conf m"
  "m_ignore_iterations (mc_interface_release_motor_override m) = m_ignore_iterations m"
  by (auto simp: mc_interface_release_motor_override_def release_calls_def to_pwm_def by_type_def events_add_def issue_def
      split: mc_motor_type.split)

definition brake_calls :: "single \<Rightarrow> motor \<Rightarrow> motor_call list" where
  "brake_calls x m = (if x_less (fl (1 / 1000)) (fabsf x) then [Shutdown_reset_timer] else []) @
     by_type m [Mcpwm (Set_brake_current (x_mul (DIR_MULT m) x))] [Mcpwm_foc (Set_brake_current (x_mul (DIR_MULT m) x))] [] @
     [Events_add ''set_current_brake'' x]"

lemma ready_upd [simp]:
  "ready (m\<lparr>issued := is\<rparr>) = ready m" "ready (m\<lparr>m_lock_enabled := b\<rparr>) = ready m"
  "brake_calls x (m\<lparr>issued := is\<rparr>) = brake_calls x m" "brake_calls x (m\<lparr>m_lock_enabled := b\<rparr>) = brake_calls x m"
  by (simp_all add: ready_def brake_calls_def mc_interface_get_state_def view_def by_type_def DIR_MULT_def)

lemma override_upd: "mc_interface_release_motor_override m = m\<lparr>issued := issued m @ release_calls m\<rparr>"
  by (auto simp: mc_interface_release_motor_override_def release_calls_def to_pwm_def by_type_def events_add_def issue_def
      split: mc_motor_type.split)

lemma try_ready:
  assumes "ready m" and "\<not> m_lock_enabled m"
  shows "mc_interface_try_input m = (0, m)"
  using assms by (cases "motor_type (m_conf m)") (simp_all add: mc_interface_try_input_def ready_def by_type_def)

lemma note_upd:
  "note_activity x m = m\<lparr>issued := issued m @ (if x_less (fl (1 / 1000)) (fabsf x) then [Shutdown_reset_timer] else [])\<rparr>"
  by (simp add: note_activity_def issue_def)

text \<open>What is asked of the PWM when the gate lets the command through.\<close>

lemma brake_issue:
  "(let c = Set_brake_current (x_mul (DIR_MULT m) x) in events_add ''set_current_brake'' x (to_pwm (Some c) (Some c) m)) =
   m\<lparr>issued := issued m @ by_type m [Mcpwm (Set_brake_current (x_mul (DIR_MULT m) x))] [Mcpwm_foc (Set_brake_current (x_mul (DIR_MULT m) x))] [] @
     [Events_add ''set_current_brake'' x]\<rparr>"
  by (cases "motor_type (m_conf m)") (simp_all add: to_pwm_def events_add_def issue_def by_type_def)

lemma brake_ready:
  assumes "ready m" and "\<not> m_lock_enabled m"
  shows "mc_interface_set_brake_current x m = m\<lparr>issued := issued m @ brake_calls x m\<rparr>"
proof -
  let ?n = "note_activity x m"
  have "ready ?n" "\<not> m_lock_enabled ?n" using assms by (simp_all add: note_upd)
  then have "mc_interface_set_brake_current x m =
      (let c = Set_brake_current (x_mul (DIR_MULT ?n) x) in events_add ''set_current_brake'' x (to_pwm (Some c) (Some c) ?n))"
    by (simp add: mc_interface_set_brake_current_def guarded_def try_ready)
  also have "\<dots> = m\<lparr>issued := issued m @ brake_calls x m\<rparr>"
    unfolding brake_issue by (simp add: note_upd brake_calls_def by_type_def DIR_MULT_def)
  finally show ?thesis .
qed

lemma try_appends: "\<exists>rest. issued (snd (mc_interface_try_input m)) = issued m @ rest"
  by (auto simp: mc_interface_try_input_def issue_def Let_def case_prod_unfold)

lemma brake_appends: "\<exists>rest. issued (mc_interface_set_brake_current x m) = issued m @ rest"
proof -
  let ?t = "snd (mc_interface_try_input (note_activity x m))"
  obtain rest where r: "issued ?t = issued m @ rest" using try_appends [of "note_activity x m"] by (auto simp: note_upd)
  have "mc_interface_set_brake_current x m \<in> {?t,
      let c = Set_brake_current (x_mul (DIR_MULT ?t) x) in events_add ''set_current_brake'' x (to_pwm (Some c) (Some c) ?t)}"
    unfolding mc_interface_set_brake_current_def by (rule guarded_cases)
  then show ?thesis unfolding brake_issue using r by auto
qed

lemma stop_issues:
  "\<exists>rest. issued (stop_motors g m) = issued m @ (if has_timeout g \<or> kill_sw_active g then [] else release_calls m) @ rest \<and>
     (ready m \<longrightarrow> rest = brake_calls (timeout_brake_current g) m @ brake_calls (timeout_brake_current g) m)"
proof -
  let ?x = "timeout_brake_current g" and ?r = "if has_timeout g \<or> kill_sw_active g then [] else release_calls m"
  let ?u = "m\<lparr>issued := issued m @ ?r, m_lock_enabled := False\<rparr>"
  have s: "stop_motors g m = mc_interface_set_brake_current ?x (mc_interface_set_brake_current ?x ?u)"
    by (simp add: stop_motors_def Let_def override_upd mc_interface_unlock_def)
  show ?thesis
  proof (cases "ready m")
    case True
    then have "mc_interface_set_brake_current ?x ?u = ?u\<lparr>issued := issued ?u @ brake_calls ?x m\<rparr>" using brake_ready [of ?u ?x] by simp
    then show ?thesis using True brake_ready [of "?u\<lparr>issued := issued ?u @ brake_calls ?x m\<rparr>" ?x] s by simp
  next
    case False
    obtain a b where "issued (mc_interface_set_brake_current ?x ?u) = issued ?u @ a" "issued (stop_motors g m) = issued (mc_interface_set_brake_current ?x ?u) @ b"
      using brake_appends [of ?x ?u] brake_appends [of ?x "mc_interface_set_brake_current ?x ?u"] s by auto
    then show ?thesis using False by simp
  qed
qed

text \<open>C28. A round without a kill switch, with a timeout of at most 429496 ms: if a timeout is configured and the last reset is
  longer ago, the excess is noted, the lock is opened, the motor is released (in the first such round) and, if the gate is open, the
  configured brake current is set twice, once for each motor selected; if not, or if the timeout is 0, nothing at all is done to
  the motor.\<close>

theorem timeout_exact:
  fixes i g m
  assumes "uint (timeout_msec g) \<le> 429496" and "\<not> kill_switch i g"
  defines "late \<equiv> timeout_msec g \<noteq> 0 \<and> 10 * uint (timeout_msec g) < uint (now i - last_update_time g)"
    and "m' \<equiv> snd (timeout_thread i (g, m))"
  shows "has_timeout (fst (timeout_thread i (g, m))) = late \<and> (\<not> late \<longrightarrow> m' = m) \<and>
    (late \<longrightarrow> \<not> m_lock_enabled m' \<and>
      (\<exists>rest. issued m' = issued m @ (if has_timeout g \<or> kill_sw_active g then [] else release_calls m) @ rest \<and>
        (ready m \<longrightarrow> rest = brake_calls (timeout_brake_current g) m @ brake_calls (timeout_brake_current g) m)))"
proof -
  have e: "expired i g = late" using MS2ST_exact [OF assms(1)] by (simp add: expired_def late_def word_less_def mult.commute)
  have k: "has_timeout (check_threads g') = has_timeout g'" for g' by (simp add: check_threads_def Let_def)
  have l: "\<not> m_lock_enabled (stop_motors g m)" by (simp add: stop_motors_def mc_interface_unlock_def brake_frame Let_def)
  have "m' = (if late then stop_motors g m else m)" "has_timeout (fst (timeout_thread i (g, m))) = late"
    using assms(2) e k by (simp_all add: m'_def timeout_thread_def Let_def)
  then show ?thesis using l stop_issues [of g m] by simp
qed

text \<open>Above that the conversion to ticks wraps: 429497 ms count as three ticks.\<close>

lemma timeout_wraps: "MS2ST 429497 = 3"
  by (simp add: MS2ST_def)

theorem timeout_exact_witness:
  "issued (snd (timeout_thread \<lparr>now = 10001, icu_pin = False, ext2 = 0\<rparr>
      (timeout_configure 1000 (Num 5) KILL_SW_MODE_DISABLED supervisor0, motor0\<lparr>foc_init := True\<rparr>))) =
    [Mcpwm_foc Release_motor, Events_add ''release_motor_override'' (Num 0)] @
    brake_calls (Num 5) (motor0\<lparr>foc_init := True\<rparr>) @ brake_calls (Num 5) (motor0\<lparr>foc_init := True\<rparr>)"
proof -
  let ?g = "timeout_configure 1000 (Num 5) KILL_SW_MODE_DISABLED supervisor0" and ?m = "motor0\<lparr>foc_init := True\<rparr>"
  have "ready ?m" by (simp add: ready_def motor0_def conf0_def sensed0_def view0_def mc_interface_get_state_def view_def by_type_def)
  moreover have "release_calls ?m = [Mcpwm_foc Release_motor, Events_add ''release_motor_override'' (Num 0)]" "issued ?m = []"
    by (simp_all add: release_calls_def by_type_def motor0_def conf0_def)
  ultimately show ?thesis
    using timeout_exact [of ?g "\<lparr>now = 10001, icu_pin = False, ext2 = 0\<rparr>" ?m]
    by (simp add: timeout_configure_def kill_switch_def supervisor0_def)
qed

section \<open>The watchdog\<close>

fun is_round :: "supervised \<Rightarrow> bool" where
  "is_round (Round i) = True"
| "is_round _ = False"

definition fed :: "WWDT_THREAD_TYPES \<Rightarrow> supervised list \<Rightarrow> nat" where
  "fed t es = length (filter (\<lambda>e. e = Feed t) es)"

lemma thread_index_bound: "thread_index t < MAX_THREADS_MONITOR"
  by (cases t) (simp_all add: MAX_THREADS_MONITOR_def)

lemma thread_index_inj: "thread_index t = thread_index u \<longleftrightarrow> t = u"
  by (cases t; cases u) simp_all

lemma feed_counters_run:
  assumes "list_all (\<lambda>e. \<not> is_round e) es" and "length (feed_counter g) = MAX_THREADS_MONITOR"
  shows "feed_counter (fst (supervised_run es (g, m))) ! thread_index t = feed_counter g ! thread_index t + of_nat (fed t es)"
    and "reloads (fst (supervised_run es (g, m))) = reloads g"
proof -
  have "feed_counter (fst (supervised_run es (g, m))) ! thread_index t = feed_counter g ! thread_index t + of_nat (fed t es) \<and>
      reloads (fst (supervised_run es (g, m))) = reloads g"
    using assms
  proof (induction es arbitrary: g m)
    case (Cons e es)
    let ?s = "supervise e (g, m)"
    have c: "list_all (\<lambda>e. \<not> is_round e) es" "\<not> is_round e" using Cons.prems(1) by simp_all
    have l: "length (feed_counter (fst ?s)) = MAX_THREADS_MONITOR" "reloads (fst ?s) = reloads g"
      using c(2) Cons.prems(2) by (cases e; simp add: timeout_reset_def timeout_feed_WDT_def)+
    have n: "feed_counter (fst ?s) ! thread_index t = feed_counter g ! thread_index t + (if e = Feed t then 1 else 0)"
      using c(2) Cons.prems(2) thread_index_bound [of t]
      by (cases e) (auto simp: timeout_reset_def timeout_feed_WDT_def nth_list_update thread_index_inj)
    show ?case using Cons.IH [OF c(1) l(1), of "snd ?s"] n l(2) by (simp add: supervised_run_def fed_def algebra_simps)
  qed (simp add: supervised_run_def fed_def)
  then show "feed_counter (fst (supervised_run es (g, m))) ! thread_index t = feed_counter g ! thread_index t + of_nat (fed t es)"
    and "reloads (fst (supervised_run es (g, m))) = reloads g" by simp_all
qed

lemma word_at_least_one: "(1 :: u32) \<le> of_nat n \<longleftrightarrow> n mod 2 ^ 32 \<noteq> 0"
proof -
  have "(1 :: u32) \<le> of_nat n \<longleftrightarrow> of_nat n \<noteq> (0 :: u32)"
    by (cases "(of_nat n :: u32) = 0") (simp_all add: word_le_nat_alt unat_eq_zero Suc_le_eq flip: word_gt_0 unat_gt_0)
  also have "\<dots> \<longleftrightarrow> unat (of_nat n :: u32) \<noteq> 0" by (simp add: unat_eq_zero)
  finally show ?thesis by (simp add: unat_of_nat)
qed

lemma round_counters:
  "feed_counter (fst (timeout_thread i (g, m))) = replicate MAX_THREADS_MONITOR 0"
  "reloads (fst (timeout_thread i (g, m))) = reloads g +
     (if feed_counter g ! thread_index THREAD_MCPWM \<ge> MIN_THREAD_ITERATIONS \<and> feed_counter g ! thread_index THREAD_CANBUS \<ge> MIN_THREAD_ITERATIONS
      then 1 else 0)"
  by (simp_all add: timeout_thread_def check_threads_def Let_def)

text \<open>A round reloads the watchdog exactly if since the round before it both the thread of motor
  control and that of the CAN bus have reported (a multiple of \<open>2 ^ 32\<close> times counts as none).\<close>

theorem watchdog_fed_exact:
  fixes es g m i
  assumes "list_all (\<lambda>e. \<not> is_round e) es"
  defines "s \<equiv> timeout_thread i (g, m)"
  shows "reloads (fst (supervised_run (es @ [Round j]) s)) = reloads (fst s) +
    (if fed THREAD_MCPWM es mod 2 ^ 32 \<noteq> 0 \<and> fed THREAD_CANBUS es mod 2 ^ 32 \<noteq> 0 then 1 else 0)"
proof -
  obtain g' m' where s: "s = (g', m')" by (cases s)
  obtain a b where t: "supervised_run es (g', m') = (a, b)" by (cases "supervised_run es (g', m')")
  have c: "feed_counter g' = replicate MAX_THREADS_MONITOR 0" using round_counters(1) [of i g m] s by (simp add: s_def)
  have "feed_counter g' ! thread_index w = 0" for w using thread_index_bound by (simp add: c)
  then have f: "feed_counter a ! thread_index w = of_nat (fed w es)" "reloads a = reloads g'" for w
    using feed_counters_run(1) [OF assms(1), of g' m' w] feed_counters_run(2) [OF assms(1), of g' m'] c t by simp_all
  have "supervised_run (es @ [Round j]) s = timeout_thread j (a, b)" using t by (simp add: supervised_run_def s)
  then show ?thesis using f by (simp add: round_counters s MIN_THREAD_ITERATIONS_def word_at_least_one del: thread_index.simps)
qed

theorem watchdog_fed_exact_witness:
  "reloads (fst (supervised_run ([Feed THREAD_MCPWM, Reset 5, Feed THREAD_MCPWM] @ [Round \<lparr>now = 0, icu_pin = False, ext2 = 0\<rparr>])
     (timeout_thread \<lparr>now = 0, icu_pin = False, ext2 = 0\<rparr> (supervisor0, motor0)))) = reloads (fst (timeout_thread \<lparr>now = 0, icu_pin = False, ext2 = 0\<rparr> (supervisor0, motor0)))"
  using watchdog_fed_exact [where es = "[Feed THREAD_MCPWM, Reset 5, Feed THREAD_MCPWM]" and i = "\<lparr>now = 0, icu_pin = False, ext2 = 0\<rparr>"
      and j = "\<lparr>now = 0, icu_pin = False, ext2 = 0\<rparr>" and g = supervisor0 and m = motor0]
  by (simp add: fed_def)

end
