(* ===== verification/Sampling.thy ===== *)
theory Sampling
  imports Motor_State
begin

text \<open>
  The scope of \<^verbatim>\<open>motor/mc_interface.c\<close>: while the motor runs the interrupt of the motor timer stores up to
  1000 samples of currents and voltages, at once, from the start of the motor, or around the start or
  a fault; a thread then sends them to the computer.
\<close>

section \<open>State\<close>

datatype debug_sampling_mode =
  DEBUG_SAMPLING_OFF | DEBUG_SAMPLING_NOW | DEBUG_SAMPLING_START | DEBUG_SAMPLING_TRIGGER_START | DEBUG_SAMPLING_TRIGGER_FAULT
| DEBUG_SAMPLING_TRIGGER_START_NOSEND | DEBUG_SAMPLING_TRIGGER_FAULT_NOSEND | DEBUG_SAMPLING_SEND_LAST_SAMPLES
| DEBUG_SAMPLING_SEND_SINGLE_SAMPLE | DEBUG_SAMPLING_OTHER u8

definition ADC_SAMPLE_MAX_LEN :: int where "ADC_SAMPLE_MAX_LEN = 1000"

text \<open>One entry of each of the arrays.\<close>

record sample =
  curr0_s :: u16
  curr1_s :: u16
  curr2_s :: u16
  ph1_s :: u16
  ph2_s :: u16
  ph3_s :: u16
  vzero_s :: u16
  curr_fir_s :: u16
  f_sw_s :: u16
  status_s :: u8
  phase_s :: u8

text \<open>The variables of the file, the arrays together as a list, the counter that is static in the
  interrupt handler, and whether the sending thread has been signalled.\<close>

record sampler =
  m_sample_len :: int
  m_sample_int :: int
  m_sample_raw :: bool
  m_sample_mode :: debug_sampling_mode
  m_sample_mode_last :: debug_sampling_mode
  m_sample_offset_last :: int
  m_sample_now :: int
  m_sample_trigger :: int
  sample_a :: int
  m_samples :: "sample list"
  send_event :: bool

text \<open>What the interrupt handler reads: the converters, and what the control of the motor reports.\<close>

record analog =
  an_state :: mc_state
  an_fault :: mc_fault_code
  an_foc :: bool
  ADC_V_L1 :: u16
  ADC_V_L2 :: u16
  ADC_V_L3 :: u16
  curr_raw :: "u16 \<times> u16 \<times> u16"
  curr_norm :: "single \<times> single \<times> single"
  an_current :: single
  foc_phase :: single
  comm_step :: int
  hall_phase :: u8
  detect_currents :: "single list"
  detect_currents_diff :: "single list"
  detect_voltages :: "single \<times> single \<times> single"
  mcpwm_vzero :: u16
  t_samp :: single

section \<open>Taking a sample\<close>

text \<open>Conversion to 16 bits: to an integer, of which the low bits are kept.\<close>

definition int16_of :: "single \<Rightarrow> u16" where "int16_of x = word_of_int (x_to_int x)"

text \<open>Reading an array at an index: outside it is \<open>None\<close>.\<close>

definition read_at :: "'a list \<Rightarrow> int \<Rightarrow> 'a option" where
  "read_at xs i = (if 0 \<le> i \<and> i < int (length xs) then Some (xs ! nat i) else None)"

text \<open>\<open>fac\<close> is \<open>FAC_CURRENT\<close>, which depends on the variant of the board. While the motor is being detected the two arrays
  of the detection are read at the commutation step less one, without looking at the step.\<close>

definition current_samples :: "single \<Rightarrow> bool \<Rightarrow> analog \<Rightarrow> (u16 \<times> u16 \<times> u16) option" where
  "current_samples fac raw x =
     (let scale = (\<lambda>c. int16_of (x_mul c (x_div (Num 8) fac)))
      in if an_state x = MC_STATE_DETECTING then do {
           a \<leftarrow> read_at (detect_currents x) (comm_step x - 1);
           b \<leftarrow> read_at (detect_currents_diff x) (comm_step x - 1);
           Some (scale a, scale b, 0)
         }
         else Some (if raw then curr_raw x else (case curr_norm x of (a, b, c) \<Rightarrow> (scale a, scale b, scale c))))"

definition take_sample :: "single \<Rightarrow> bool \<Rightarrow> int \<Rightarrow> analog \<Rightarrow> sample option" where
  "take_sample fac raw n x =
     (let zero = (if an_foc x then word_of_int ((uint (ADC_V_L1 x) + uint (ADC_V_L2 x) + uint (ADC_V_L3 x)) div 3) else mcpwm_vzero x);
          phase = (if an_foc x then word_of_int (max 0 (x_to_int (x_mul (x_div (foc_phase x) (Num 360)) (Num 250)))) else 0)
      in do {
        (c0, c1, c2) \<leftarrow> current_samples fac raw x;
        let (p1, p2, p3) =
          (if an_state x = MC_STATE_DETECTING
           then (case detect_voltages x of (a, b, c) \<Rightarrow> (int16_of a, int16_of b, int16_of c))
           else (ADC_V_L1 x - zero, ADC_V_L2 x - zero, ADC_V_L3 x - zero));
        Some \<lparr>curr0_s = c0, curr1_s = c1, curr2_s = c2, ph1_s = p1, ph2_s = p2, ph3_s = p3, vzero_s = zero,
          curr_fir_s = int16_of (x_mul (an_current x) (x_div (Num 8) fac)),
          f_sw_s = int16_of (x_div (x_div (fl (1 / 10)) (t_samp x)) (Num (of_int n))),
          status_s = word_of_int (comm_step x) OR push_bit 3 (hall_phase x), phase_s = phase\<rparr>
      })"

section \<open>The interrupt\<close>

definition store_sample :: "single \<Rightarrow> analog \<Rightarrow> sampler \<Rightarrow> sampler option" where
  "store_sample fac x s =
     (let s = s\<lparr>sample_a := sample_a s + 1\<rparr>
      in if sample_a s \<ge> m_sample_int s then
           let s = s\<lparr>sample_a := 0\<rparr>;
               s = (if m_sample_now s \<ge> ADC_SAMPLE_MAX_LEN then s\<lparr>m_sample_now := 0\<rparr> else s)
           in if 0 \<le> m_sample_now s \<and> m_sample_now s < int (length (m_samples s)) then do {
                v \<leftarrow> take_sample fac (m_sample_raw s) (m_sample_int s) x;
                Some (s\<lparr>m_samples := (m_samples s)[nat (m_sample_now s) := v], m_sample_now := m_sample_now s + 1\<rparr>)
              } else None
         else Some s)"

definition sample_last :: "sampler \<Rightarrow> int" where
  "sample_last s =
     (if m_sample_trigger s \<ge> 0 then
        let l = m_sample_trigger s - m_sample_len s in if l < 0 then l + ADC_SAMPLE_MAX_LEN else l
      else - 1)"

text \<open>The two modes that wait for the start or for a fault (\<open>hit\<close>): \<open>sends\<close> is the one that sends by itself.\<close>

definition sample_trigger :: "bool \<Rightarrow> debug_sampling_mode \<Rightarrow> sampler \<Rightarrow> bool \<times> sampler" where
  "sample_trigger hit sends s =
     (let (sample, s) =
        (if m_sample_now s = sample_last s then
           let s = s\<lparr>m_sample_mode_last := m_sample_mode s\<rparr>;
               s = (if m_sample_mode s = sends then s\<lparr>send_event := True\<rparr> else s)
           in (False, s\<lparr>m_sample_mode := DEBUG_SAMPLING_OFF\<rparr>)
         else (True, s))
      in (sample, if hit \<and> m_sample_trigger s < 0 then s\<lparr>m_sample_trigger := m_sample_now s\<rparr> else s))"

definition sample_isr :: "single \<Rightarrow> analog \<Rightarrow> sampler \<Rightarrow> sampler option" where
  "sample_isr fac x s =
     (let (sample, s) =
        (case m_sample_mode s of
           DEBUG_SAMPLING_NOW \<Rightarrow>
             if m_sample_now s = m_sample_len s
             then (False, s\<lparr>m_sample_mode := DEBUG_SAMPLING_OFF, m_sample_mode_last := DEBUG_SAMPLING_NOW, send_event := True\<rparr>)
             else (True, s)
         | DEBUG_SAMPLING_START \<Rightarrow>
             (an_state x = MC_STATE_RUNNING \<or> m_sample_now s > 0,
              if m_sample_now s = m_sample_len s
              then s\<lparr>m_sample_mode_last := m_sample_mode s, m_sample_mode := DEBUG_SAMPLING_OFF, send_event := True\<rparr> else s)
         | DEBUG_SAMPLING_TRIGGER_START \<Rightarrow> sample_trigger (an_state x = MC_STATE_RUNNING) DEBUG_SAMPLING_TRIGGER_START s
         | DEBUG_SAMPLING_TRIGGER_START_NOSEND \<Rightarrow> sample_trigger (an_state x = MC_STATE_RUNNING) DEBUG_SAMPLING_TRIGGER_START s
         | DEBUG_SAMPLING_TRIGGER_FAULT \<Rightarrow> sample_trigger (an_fault x \<noteq> FAULT_CODE_NONE) DEBUG_SAMPLING_TRIGGER_FAULT s
         | DEBUG_SAMPLING_TRIGGER_FAULT_NOSEND \<Rightarrow> sample_trigger (an_fault x \<noteq> FAULT_CODE_NONE) DEBUG_SAMPLING_TRIGGER_FAULT s
         | _ \<Rightarrow> (False, s))
      in if sample then store_sample fac x s else Some s)"

section \<open>Sending\<close>

text \<open>The two loops that bring an index into the arrays.\<close>

function wrap_down :: "int \<Rightarrow> int" where
  "wrap_down i = (if i \<ge> ADC_SAMPLE_MAX_LEN then wrap_down (i - ADC_SAMPLE_MAX_LEN) else i)"
  by pat_completeness auto

termination by (relation "measure nat") (auto simp: ADC_SAMPLE_MAX_LEN_def)

function wrap_up :: "int \<Rightarrow> int" where
  "wrap_up i = (if i < 0 then wrap_up (i + ADC_SAMPLE_MAX_LEN) else i)"
  by pat_completeness auto

termination by (relation "measure (\<lambda>i. nat (- i))") (auto simp: ADC_SAMPLE_MAX_LEN_def)

declare wrap_down.simps [simp del] wrap_up.simps [simp del]

definition COMM_SAMPLE_PRINT :: u8 where "COMM_SAMPLE_PRINT = 19"

definition current_value :: "bool \<Rightarrow> float32 \<Rightarrow> u16 \<Rightarrow> float32" where
  "current_value raw fac w = (if raw then f_of_int (sint w) else fdiv (f_of_int (sint w)) (fdiv 8 fac))"

text \<open>The voltage divider of the board is 22000 and 1500 ohms, both factors of the voltages are 1.\<close>

definition voltage_value :: "bool \<Rightarrow> u16 \<Rightarrow> float32" where
  "voltage_value raw w =
     (if raw then f_of_int (sint w)
      else fmul (fmul (fmul (fdiv (f_of_int (sint w)) 4096) (rnd (33 / 10))) (fdiv (fadd 22000 1500) 1500)) 1)"

definition send_sample_block :: "float32 \<Rightarrow> int \<Rightarrow> int \<Rightarrow> sampler \<Rightarrow> bytes option" where
  "send_sample_block fac ind offset s =
     (let ind_samp = wrap_up (wrap_down (ind + offset));
          x = m_samples s ! nat ind_samp;
          raw = m_sample_raw s
      in if ind_samp < 0 \<or> int (length (m_samples s)) \<le> ind_samp then None else do {
        (buffer, index) \<leftarrow> put_byte (replicate 50 0) 0 COMM_SAMPLE_PRINT;
        (buffer, index) \<leftarrow> buffer_append_int16 buffer (word_of_int ind) index;
        (buffer, index) \<leftarrow> buffer_append_float32_auto buffer (current_value raw fac (curr0_s x)) index;
        (buffer, index) \<leftarrow> buffer_append_float32_auto buffer (current_value raw fac (curr1_s x)) index;
        (buffer, index) \<leftarrow> buffer_append_float32_auto buffer (current_value raw fac (curr2_s x)) index;
        (buffer, index) \<leftarrow> buffer_append_float32_auto buffer (voltage_value raw (ph1_s x)) index;
        (buffer, index) \<leftarrow> buffer_append_float32_auto buffer (voltage_value raw (ph2_s x)) index;
        (buffer, index) \<leftarrow> buffer_append_float32_auto buffer (voltage_value raw (ph3_s x)) index;
        (buffer, index) \<leftarrow> buffer_append_float32_auto buffer (voltage_value raw (vzero_s x)) index;
        (buffer, index) \<leftarrow> buffer_append_float32_auto buffer (current_value raw fac (curr_fir_s x)) index;
        (buffer, index) \<leftarrow> buffer_append_float32_auto buffer (fmul (f_of_int (sint (f_sw_s x))) 10) index;
        (buffer, index) \<leftarrow> put_byte buffer index (status_s x);
        (buffer, index) \<leftarrow> put_byte buffer index (phase_s x);
        (buffer, index) \<leftarrow> buffer_append_int32 buffer (word_of_int ind) index;
        Some (take index buffer)
      })"

text \<open>The loop over the blocks; the result are the packets sent.\<close>

primrec send_blocks :: "float32 \<Rightarrow> nat \<Rightarrow> int \<Rightarrow> int \<Rightarrow> sampler \<Rightarrow> bytes list option" where
  "send_blocks fac 0 i offset s = Some []"
| "send_blocks fac (Suc n) i offset s = do {
     b \<leftarrow> send_sample_block fac i offset s;
     bs \<leftarrow> send_blocks fac n (i + 1) offset s;
     Some (b # bs)
   }"

text \<open>One round of the sending thread, when it has been signalled.\<close>

definition sample_send_thread :: "float32 \<Rightarrow> sampler \<Rightarrow> (bytes list \<times> sampler) option" where
  "sample_send_thread fac s =
     (if \<not> send_event s then Some ([], s)
      else
        let (len, offset) =
          (case m_sample_mode_last s of
             DEBUG_SAMPLING_NOW \<Rightarrow> (m_sample_len s, 0)
           | DEBUG_SAMPLING_START \<Rightarrow> (m_sample_len s, 0)
           | DEBUG_SAMPLING_TRIGGER_START \<Rightarrow> (ADC_SAMPLE_MAX_LEN, m_sample_trigger s - m_sample_len s)
           | DEBUG_SAMPLING_TRIGGER_FAULT \<Rightarrow> (ADC_SAMPLE_MAX_LEN, m_sample_trigger s - m_sample_len s)
           | DEBUG_SAMPLING_TRIGGER_START_NOSEND \<Rightarrow> (ADC_SAMPLE_MAX_LEN, m_sample_trigger s - m_sample_len s)
           | DEBUG_SAMPLING_TRIGGER_FAULT_NOSEND \<Rightarrow> (ADC_SAMPLE_MAX_LEN, m_sample_trigger s - m_sample_len s)
           | _ \<Rightarrow> (0, 0));
            s = s\<lparr>send_event := False, m_sample_offset_last := offset\<rparr>
        in do { bs \<leftarrow> send_blocks fac (nat len) 0 offset s; Some (bs, s) })"

section \<open>Commands\<close>

definition sample_init :: "sampler \<Rightarrow> sampler" where
  "sample_init s = s\<lparr>m_sample_len := 1000, m_sample_int := 1, m_sample_now := 0, m_sample_raw := False, m_sample_trigger := 0,
     m_sample_mode := DEBUG_SAMPLING_OFF, m_sample_mode_last := DEBUG_SAMPLING_OFF, m_sample_offset_last := 0\<rparr>"

definition mc_interface_sample_print_data ::
  "float32 \<Rightarrow> debug_sampling_mode \<Rightarrow> u16 \<Rightarrow> u8 \<Rightarrow> bool \<Rightarrow> sampler \<Rightarrow> (bytes list \<times> sampler) option" where
  "mc_interface_sample_print_data fac mode len decimation raw s =
     (let len = (if uint len > ADC_SAMPLE_MAX_LEN then ADC_SAMPLE_MAX_LEN else uint len)
      in if mode = DEBUG_SAMPLING_SEND_LAST_SAMPLES then Some ([], s\<lparr>send_event := True\<rparr>)
         else if mode = DEBUG_SAMPLING_SEND_SINGLE_SAMPLE then do {
           b \<leftarrow> send_sample_block fac len (m_sample_offset_last s) s;
           Some ([b], s)
         }
         else Some ([], s\<lparr>m_sample_trigger := - 1, m_sample_now := 0, m_sample_len := len, m_sample_int := uint decimation,
           m_sample_mode := mode, m_sample_raw := raw\<rparr>))"

section \<open>Well-formed states\<close>

definition sampler_ok :: "sampler \<Rightarrow> bool" where
  "sampler_ok s \<longleftrightarrow> length (m_samples s) = 1000 \<and> 0 \<le> m_sample_now s \<and> m_sample_now s \<le> ADC_SAMPLE_MAX_LEN \<and>
     0 \<le> m_sample_len s \<and> m_sample_len s \<le> ADC_SAMPLE_MAX_LEN \<and> - 1 \<le> m_sample_trigger s \<and> m_sample_trigger s \<le> ADC_SAMPLE_MAX_LEN \<and>
     0 \<le> m_sample_int s \<and> m_sample_int s \<le> 255 \<and> 0 \<le> sample_a s \<and> sample_a s \<le> 255 \<and>
     - ADC_SAMPLE_MAX_LEN - 1 \<le> m_sample_offset_last s \<and> m_sample_offset_last s \<le> ADC_SAMPLE_MAX_LEN \<and>
     (m_sample_now s = 0 \<longrightarrow> m_sample_trigger s \<le> 0)"

text \<open>What the detection of the motor has to keep for the arrays to be read inside: a commutation step from 1 to 6, as
  the comment at its declaration says.\<close>

definition analog_ok :: "analog \<Rightarrow> bool" where
  "analog_ok x \<longleftrightarrow> (an_state x = MC_STATE_DETECTING \<longrightarrow>
     1 \<le> comm_step x \<and> comm_step x \<le> 6 \<and> length (detect_currents x) = 6 \<and> length (detect_currents_diff x) = 6)"

lemma sample_taken: "analog_ok x \<Longrightarrow> \<exists>v. take_sample fac raw n x = Some v"
  by (auto simp: analog_ok_def take_sample_def current_samples_def read_at_def Let_def split: prod.split)

text \<open>The step is not in that range after a phase of the hall sensors that their table does not know (-1), which
  \<^verbatim>\<open>mcpwm.c\<close> takes over as the step at the end of every interrupt, also during detection: a sample
  is then read from in front of the arrays.\<close>

lemma detection_reads_outside:
  assumes "an_state x = MC_STATE_DETECTING" and "comm_step x = - 1"
  shows "take_sample fac raw n x = None"
  using assms by (simp add: take_sample_def current_samples_def read_at_def Let_def)
lemma wrap_exact: "wrap_up (wrap_down i) = i mod ADC_SAMPLE_MAX_LEN"
proof -
  have d: "wrap_down i mod ADC_SAMPLE_MAX_LEN = i mod ADC_SAMPLE_MAX_LEN \<and> wrap_down i < ADC_SAMPLE_MAX_LEN" for i
    by (induction i rule: wrap_down.induct) (subst (1 2) wrap_down.simps, simp)
  have "j < ADC_SAMPLE_MAX_LEN \<Longrightarrow> wrap_up j = j mod ADC_SAMPLE_MAX_LEN" for j
    by (induction j rule: wrap_up.induct) (subst wrap_up.simps, auto simp: ADC_SAMPLE_MAX_LEN_def)
  then show ?thesis using d by metis
qed

lemma store_ok: "sampler_ok s \<Longrightarrow> analog_ok x \<Longrightarrow> \<exists>t. store_sample fac x s = Some t \<and> sampler_ok t"
  using sample_taken [of x fac "m_sample_raw s" "m_sample_int s"]
  by (auto simp: sampler_ok_def store_sample_def Let_def ADC_SAMPLE_MAX_LEN_def)

lemma trigger_ok: "sampler_ok s \<Longrightarrow> sampler_ok (snd (sample_trigger hit sends s))"
  by (auto simp: sampler_ok_def sample_trigger_def Let_def ADC_SAMPLE_MAX_LEN_def)

lemma mode_upd_ok: "sampler_ok s \<Longrightarrow> sampler_ok (s\<lparr>m_sample_mode := a, m_sample_mode_last := b, send_event := c\<rparr>)"
  "sampler_ok s \<Longrightarrow> sampler_ok (s\<lparr>m_sample_mode_last := b, m_sample_mode := a, send_event := c\<rparr>)"
  by (simp_all add: sampler_ok_def)

lemma isr_ok: "sampler_ok s \<Longrightarrow> analog_ok x \<Longrightarrow> \<exists>t. sample_isr fac x s = Some t \<and> sampler_ok t"
  unfolding sample_isr_def Let_def case_prod_unfold
  by (auto simp: store_ok trigger_ok mode_upd_ok split: debug_sampling_mode.split)

text \<open>The packet of a sample, written out: 45 bytes.\<close>

definition sample_packet :: "float32 \<Rightarrow> bool \<Rightarrow> int \<Rightarrow> sample \<Rightarrow> bytes" where
  "sample_packet fac raw ind x =
     COMM_SAMPLE_PRINT # be16 (word_of_int ind) @
       concat (map (\<lambda>v. be32 (auto_word v))
         [current_value raw fac (curr0_s x), current_value raw fac (curr1_s x), current_value raw fac (curr2_s x), voltage_value raw (ph1_s x),
          voltage_value raw (ph2_s x), voltage_value raw (ph3_s x), voltage_value raw (vzero_s x), current_value raw fac (curr_fir_s x),
          fmul (f_of_int (sint (f_sw_s x))) 10]) @
       [status_s x, phase_s x] @ be32 (word_of_int ind)"

lemma length_sample_packet [simp]: "length (sample_packet fac raw ind x) = 45"
  by (simp add: sample_packet_def)

lemma block_exact:
  assumes "length (m_samples s) = 1000"
  shows "send_sample_block fac ind offset s =
    Some (sample_packet fac (m_sample_raw s) ind (m_samples s ! nat ((ind + offset) mod 1000)))"
proof -
  have "\<not> ((ind + offset) mod 1000 < 0 \<or> 1000 \<le> (ind + offset) mod 1000)"
    using pos_mod_bound [of 1000 "ind + offset"] pos_mod_sign [of 1000 "ind + offset"] by linarith
  then show ?thesis using assms
    unfolding send_sample_block_def wrap_exact ADC_SAMPLE_MAX_LEN_def Let_def
    by (simp add: put_write append_auto_write append16_write append32_write write_bytes_ok sample_packet_def)
qed

lemma blocks_exact:
  assumes "length (m_samples s) = 1000"
  shows "send_blocks fac n i offset s =
    Some (map (\<lambda>k. sample_packet fac (m_sample_raw s) (i + int k) (m_samples s ! nat ((i + int k + offset) mod 1000))) [0 ..< n])"
proof (induction n arbitrary: i)
  case (Suc n)
  show ?case unfolding upt_conv_Cons [OF zero_less_Suc] map_Suc_upt [symmetric]
    using Suc [of "i + 1"] by (simp add: block_exact [OF assms] comp_def add.assoc)
qed simp

section \<open>Histories\<close>

datatype scope_event = Isr analog | Print debug_sampling_mode u16 u8 bool | Send

fun scope_step :: "single \<Rightarrow> float32 \<Rightarrow> scope_event \<Rightarrow> sampler \<Rightarrow> (bytes list \<times> sampler) option" where
  "scope_step fac f (Isr x) s = map_option (Pair []) (sample_isr fac x s)"
| "scope_step fac f (Print mode len decimation raw) s = mc_interface_sample_print_data f mode len decimation raw s"
| "scope_step fac f Send s = sample_send_thread f s"

primrec scope_run :: "single \<Rightarrow> float32 \<Rightarrow> scope_event list \<Rightarrow> sampler \<Rightarrow> (bytes list \<times> sampler) option" where
  "scope_run fac f [] s = Some ([], s)"
| "scope_run fac f (e # es) s = do {
     (ps, s) \<leftarrow> scope_step fac f e s;
     (qs, s) \<leftarrow> scope_run fac f es s;
     Some (ps @ qs, s)
   }"

lemma send_ok:
  assumes "sampler_ok s"
  shows "\<exists>ps t. sample_send_thread f s = Some (ps, t) \<and> sampler_ok t \<and> (\<forall>p \<in> set ps. length p = 45)"
proof -
  have l: "length (m_samples s) = 1000" using assms by (simp add: sampler_ok_def)
  have u: "sampler_ok (s\<lparr>send_event := False, m_sample_offset_last := v\<rparr>)" if "- 1001 \<le> v" "v \<le> 1000" for v
    using assms that by (simp add: sampler_ok_def ADC_SAMPLE_MAX_LEN_def)
  have t: "- 1001 \<le> m_sample_trigger s - m_sample_len s" "m_sample_trigger s - m_sample_len s \<le> 1000"
    using assms by (simp_all add: sampler_ok_def ADC_SAMPLE_MAX_LEN_def)
  show ?thesis
    using assms u t unfolding sample_send_thread_def Let_def
    by (auto simp: blocks_exact l split: debug_sampling_mode.split)
qed

lemma print_ok:
  assumes "sampler_ok s"
  shows "\<exists>ps t. mc_interface_sample_print_data f mode len decimation raw s = Some (ps, t) \<and> sampler_ok t \<and> (\<forall>p \<in> set ps. length p = 45)"
proof -
  have "uint decimation \<le> 255" using uint_bounded [of decimation] by simp
  then show ?thesis
    using assms unfolding mc_interface_sample_print_data_def Let_def
    by (auto simp: sampler_ok_def block_exact ADC_SAMPLE_MAX_LEN_def)
qed

fun readable :: "scope_event \<Rightarrow> bool" where
  "readable (Isr x) = analog_ok x"
| "readable _ = True"

text \<open>C31. The scope keeps its variables in their ranges through every history of interrupts, commands and
  sending in which the commutation step is from 1 to 6 whenever the motor is being detected (the code does not check it,
  see \<open>detection_reads_outside\<close>): then no access leaves the arrays of the samples, those of the detection or the buffer
  of a packet, and every packet it sends has 45 bytes.\<close>

theorem scope_well_formed:
  assumes "sampler_ok s" and "list_all readable es"
  shows "\<exists>ps t. scope_run fac f es s = Some (ps, t) \<and> sampler_ok t \<and> (\<forall>p \<in> set ps. length p = 45)"
  using assms
proof (induction es arbitrary: s)
  case (Cons e es)
  have "\<exists>ps t. scope_step fac f e s = Some (ps, t) \<and> sampler_ok t \<and> (\<forall>p \<in> set ps. length p = 45)"
    using isr_ok [OF Cons.prems(1)] send_ok [OF Cons.prems(1)] print_ok [OF Cons.prems(1)] Cons.prems(2) by (cases e) fastforce+
  then obtain ps t where t: "scope_step fac f e s = Some (ps, t)" "sampler_ok t" "\<forall>p \<in> set ps. length p = 45" by blast
  then show ?case using Cons.IH [OF t(2)] Cons.prems(2) by fastforce
qed simp

text \<open>The state after the start of the firmware.\<close>

definition sampler0 :: sampler where
  "sampler0 = sample_init \<lparr>m_sample_len = 0, m_sample_int = 0, m_sample_raw = False, m_sample_mode = DEBUG_SAMPLING_OFF,
     m_sample_mode_last = DEBUG_SAMPLING_OFF, m_sample_offset_last = 0, m_sample_now = 0, m_sample_trigger = 0, sample_a = 0,
     m_samples = replicate 1000 \<lparr>curr0_s = 0, curr1_s = 0, curr2_s = 0, ph1_s = 0, ph2_s = 0, ph3_s = 0, vzero_s = 0, curr_fir_s = 0,
       f_sw_s = 0, status_s = 0, phase_s = 0\<rparr>, send_event = False\<rparr>"

lemma sampler0_ok: "sampler_ok sampler0"
  by (simp add: sampler_ok_def sampler0_def sample_init_def ADC_SAMPLE_MAX_LEN_def)

text \<open>What the interrupt reads in the examples, while running and during detection.\<close>

definition analog0 :: analog where
  "analog0 = \<lparr>an_state = MC_STATE_RUNNING, an_fault = FAULT_CODE_NONE, an_foc = True, ADC_V_L1 = 2000, ADC_V_L2 = 2100, ADC_V_L3 = 2200,
     curr_raw = (2048, 2049, 2050), curr_norm = (Num 1, Num 2, Num (- 3)), an_current = Num 2, foc_phase = Num 90, comm_step = 1, hall_phase = 3,
     detect_currents = replicate 6 (Num 1), detect_currents_diff = replicate 6 (Num 0), detect_voltages = (Num 0, Num 0, Num 0), mcpwm_vzero = 0,
     t_samp = fl (1 / 20000)\<rparr>"

definition detecting0 :: analog where "detecting0 = analog0\<lparr>an_state := MC_STATE_DETECTING, comm_step := 6\<rparr>"

lemma analog0_ok [simp]: "analog_ok analog0" "analog_ok detecting0"
  by (simp_all add: analog_ok_def analog0_def detecting0_def)

theorem scope_well_formed_witness:
  "\<exists>ps t. scope_run (fl (1 / 100)) (rnd (1 / 100)) [Print DEBUG_SAMPLING_NOW 2000 0 True, Isr analog0, Isr detecting0, Send, Print DEBUG_SAMPLING_SEND_LAST_SAMPLES 5 1 False, Send] sampler0 =
     Some (ps, t) \<and> sampler_ok t \<and> (\<forall>p \<in> set ps. length p = 45)"
  by (rule scope_well_formed [OF sampler0_ok]) simp

section \<open>Termination\<close>

primrec isr_run :: "single \<Rightarrow> analog list \<Rightarrow> sampler \<Rightarrow> sampler option" where
  "isr_run fac [] s = Some s"
| "isr_run fac (x # xs) s = do { s \<leftarrow> sample_isr fac x s; isr_run fac xs s }"

definition triggers :: "debug_sampling_mode set" where
  "triggers = {DEBUG_SAMPLING_TRIGGER_START, DEBUG_SAMPLING_TRIGGER_FAULT, DEBUG_SAMPLING_TRIGGER_START_NOSEND, DEBUG_SAMPLING_TRIGGER_FAULT_NOSEND}"

lemma sampling_off_run: "m_sample_mode s = DEBUG_SAMPLING_OFF \<Longrightarrow> isr_run fac xs s = Some s"
  by (induction xs) (simp_all add: sample_isr_def)

text \<open>One interrupt after the trigger.\<close>

lemma isr_triggered:
  assumes "m_sample_mode s \<in> triggers" and "0 \<le> m_sample_trigger s"
  shows "m_sample_now s \<noteq> sample_last s \<Longrightarrow> sample_isr fac x s = store_sample fac x s"
    and "m_sample_now s = sample_last s \<Longrightarrow> \<exists>t. sample_isr fac x s = Some t \<and> m_sample_mode t = DEBUG_SAMPLING_OFF"
  using assms by (auto simp: triggers_def sample_isr_def sample_trigger_def Let_def)

lemma store_fields:
  assumes "sampler_ok s" and "analog_ok x"
  shows "\<exists>t. store_sample fac x s = Some t \<and> sampler_ok t \<and> m_sample_mode t = m_sample_mode s \<and> m_sample_trigger t = m_sample_trigger s \<and>
    m_sample_int t = m_sample_int s \<and> m_sample_len t = m_sample_len s \<and> sample_last t = sample_last s \<and>
    (0 < m_sample_now s \<longrightarrow> 0 < m_sample_now t) \<and>
    (if sample_a s + 1 \<ge> m_sample_int s then sample_a t = 0 \<and> m_sample_now t = m_sample_now s mod 1000 + 1
     else sample_a t = sample_a s + 1 \<and> m_sample_now t = m_sample_now s)"
proof -
  obtain t where t: "store_sample fac x s = Some t" "sampler_ok t" using store_ok [OF assms, of fac] by blast
  obtain v where v: "take_sample fac (m_sample_raw s) (m_sample_int s) x = Some v" using sample_taken [OF assms(2)] by blast
  have n: "0 \<le> m_sample_now s" "m_sample_now s \<le> 1000" "length (m_samples s) = 1000"
    using assms(1) by (simp_all add: sampler_ok_def ADC_SAMPLE_MAX_LEN_def)
  have m: "m_sample_now s mod 1000 = (if m_sample_now s \<ge> 1000 then 0 else m_sample_now s)"
    using n by (cases "m_sample_now s = 1000") simp_all
  have "m_sample_mode t = m_sample_mode s \<and> m_sample_trigger t = m_sample_trigger s \<and> m_sample_int t = m_sample_int s \<and>
    m_sample_len t = m_sample_len s \<and>
    (if sample_a s + 1 \<ge> m_sample_int s then sample_a t = 0 \<and> m_sample_now t = m_sample_now s mod 1000 + 1
     else sample_a t = sample_a s + 1 \<and> m_sample_now t = m_sample_now s)"
    using t(1) n unfolding m by (auto simp: store_sample_def v Let_def ADC_SAMPLE_MAX_LEN_def split: if_splits)
  moreover have "0 \<le> m_sample_now s mod 1000" by simp
  ultimately show ?thesis using t by (auto simp: sample_last_def split: if_splits)
qed

text \<open>The number of interrupts until the last sample is reached.\<close>

definition sample_distance :: "sampler \<Rightarrow> int" where
  "sample_distance s = (sample_last s - m_sample_now s) mod 1000"

definition sample_measure :: "sampler \<Rightarrow> int" where
  "sample_measure s = (let d = max 1 (m_sample_int s) in
     if sample_distance s = 0 then 0 else sample_distance s * d - min (sample_a s) (d - 1))"

lemma last_range:
  "sampler_ok s \<Longrightarrow> 0 \<le> m_sample_trigger s \<Longrightarrow> 0 \<le> sample_last s \<and> sample_last s \<le> 1000"
  by (auto simp: sampler_ok_def sample_last_def Let_def ADC_SAMPLE_MAX_LEN_def)

lemma distance_zero:
  assumes "sampler_ok s" and "0 \<le> m_sample_trigger s" and "sample_last s \<noteq> 0"
  shows "sample_distance s = 0 \<longleftrightarrow> m_sample_now s = sample_last s"
proof
  assume "sample_distance s = 0"
  then have "1000 dvd sample_last s - m_sample_now s" by (simp add: sample_distance_def dvd_eq_mod_eq_0)
  then obtain k where k: "sample_last s - m_sample_now s = 1000 * k" by (elim dvdE)
  moreover have "0 \<le> m_sample_now s" "m_sample_now s \<le> 1000" using assms(1) by (simp_all add: sampler_ok_def ADC_SAMPLE_MAX_LEN_def)
  moreover have "0 < sample_last s" "sample_last s \<le> 1000" using last_range [OF assms(1,2)] assms(3) by auto
  moreover have "m_sample_now s = 0 \<Longrightarrow> sample_last s < 1000"
    using assms(1,2) by (auto simp: sampler_ok_def sample_last_def ADC_SAMPLE_MAX_LEN_def Let_def)
  ultimately have "1000 * k < 1000" "- 1000 < 1000 * k" by linarith+
  then have "- 1 < k" "k < 1" by linarith+
  then show "m_sample_now s = sample_last s" using k by simp
qed (simp add: sample_distance_def)

lemma distance_next: "0 < (l - n) mod 1000 \<Longrightarrow> (l - (n mod 1000 + 1)) mod 1000 = (l - n) mod 1000 - (1 :: int)"
proof -
  assume p: "0 < (l - n) mod 1000"
  have "(l - (n mod 1000 + 1)) mod 1000 = ((l - 1) - n mod 1000) mod 1000" by (simp add: algebra_simps)
  also have "\<dots> = ((l - n) - 1) mod 1000" by (simp only: mod_diff_right_eq) (simp add: algebra_simps)
  also have "\<dots> = ((l - n) mod 1000 - 1) mod 1000" by (simp only: mod_diff_left_eq)
  also have "\<dots> = (l - n) mod 1000 - 1" using p pos_mod_bound [of 1000 "l - n"] by (intro mod_pos_pos_trivial) simp_all
  finally show ?thesis .
qed

lemma measure_decreases:
  assumes "sampler_ok s" and "0 < sample_distance s" and "sample_last t = sample_last s" and "m_sample_int t = m_sample_int s"
    and "if sample_a s + 1 \<ge> m_sample_int s then sample_a t = 0 \<and> m_sample_now t = m_sample_now s mod 1000 + 1
     else sample_a t = sample_a s + 1 \<and> m_sample_now t = m_sample_now s"
  shows "sample_measure t < sample_measure s"
proof -
  let ?d = "max 1 (m_sample_int s)"
  have a: "0 \<le> sample_a s" using assms(1) by (simp add: sampler_ok_def)
  have one: "1 \<le> sample_distance s" using assms(2) by simp
  show ?thesis
  proof (cases "sample_a s + 1 \<ge> m_sample_int s")
    case True
    then have d: "sample_distance t = sample_distance s - 1"
      using assms(2,3,5) distance_next [of "sample_last s" "m_sample_now s"] by (simp add: sample_distance_def)
    have "sample_measure t \<le> (sample_distance s - 1) * ?d"
      using assms(4,5) True d by (simp add: sample_measure_def Let_def)
    moreover have "sample_measure s \<ge> sample_distance s * ?d - (?d - 1)" using one by (simp add: sample_measure_def Let_def)
    ultimately show ?thesis by (simp add: algebra_simps)
  next
    case False
    then have "sample_distance t = sample_distance s" using assms(3,5) by (simp add: sample_distance_def)
    then show ?thesis using assms(4,5) False a one by (simp add: sample_measure_def Let_def)
  qed
qed

lemma measure_bound:
  assumes "sampler_ok s"
  shows "sample_measure s \<le> 999 * max 1 (m_sample_int s)" "0 \<le> sample_measure s"
proof -
  let ?d = "max 1 (m_sample_int s)"
  have d: "0 \<le> sample_distance s" "sample_distance s \<le> 999" by (simp_all add: sample_distance_def)
  have a: "0 \<le> sample_a s" using assms by (simp add: sampler_ok_def)
  have "sample_distance s * ?d \<le> 999 * ?d" using d by (intro mult_right_mono) simp_all
  moreover have "0 \<le> min (sample_a s) (?d - 1)" using a by simp
  ultimately show "sample_measure s \<le> 999 * ?d" unfolding sample_measure_def Let_def by (cases "sample_distance s = 0"; simp only: simp_thms if_True if_False)
  have "sample_distance s \<noteq> 0 \<Longrightarrow> 1 * ?d \<le> sample_distance s * ?d" using d by (intro mult_right_mono) simp_all
  moreover have "min (sample_a s) (?d - 1) \<le> 1 * ?d" by simp
  ultimately have "sample_distance s \<noteq> 0 \<Longrightarrow> min (sample_a s) (?d - 1) \<le> sample_distance s * ?d" by (meson order_trans)
  then show "0 \<le> sample_measure s" by (cases "sample_distance s = 0") (simp_all add: sample_measure_def Let_def)
qed

lemma trigger_run_ends:
  assumes "sampler_ok s" and "m_sample_mode s \<in> triggers" and "0 \<le> m_sample_trigger s" and "sample_last s \<noteq> 0"
    and "sample_measure s < int (length xs)" and "list_all analog_ok xs"
  shows "\<exists>t. isr_run fac xs s = Some t \<and> m_sample_mode t = DEBUG_SAMPLING_OFF"
  using assms
proof (induction xs arbitrary: s)
  case Nil
  then show ?case using measure_bound(2) [OF Nil.prems(1)] by simp
next
  case (Cons x xs)
  show ?case
  proof (cases "m_sample_now s = sample_last s")
    case True
    then show ?thesis using isr_triggered(2) [OF Cons.prems(2,3), of fac x] sampling_off_run by fastforce
  next
    case False
    obtain t where t: "store_sample fac x s = Some t" "sampler_ok t" "m_sample_mode t = m_sample_mode s" "m_sample_trigger t = m_sample_trigger s"
      "m_sample_int t = m_sample_int s" "sample_last t = sample_last s"
      "if sample_a s + 1 \<ge> m_sample_int s then sample_a t = 0 \<and> m_sample_now t = m_sample_now s mod 1000 + 1
       else sample_a t = sample_a s + 1 \<and> m_sample_now t = m_sample_now s"
      using store_fields [OF Cons.prems(1), of x fac] Cons.prems(6) by auto
    have "0 < sample_distance s"
      using distance_zero [OF Cons.prems(1,3,4)] False pos_mod_sign [of 1000 "sample_last s - m_sample_now s"] by (simp add: sample_distance_def)
    then have "sample_measure t < sample_measure s" using measure_decreases [OF Cons.prems(1) _ t(6,5,7)] by simp
    then have "\<exists>u. isr_run fac xs t = Some u \<and> m_sample_mode u = DEBUG_SAMPLING_OFF"
      using Cons.prems t by (intro Cons.IH) simp_all
    then show ?thesis using isr_triggered(1) [OF Cons.prems(2,3) False, of fac x] t(1) by simp
  qed
qed

lemma trigger_run_goes_on:
  assumes "sampler_ok s" and "m_sample_mode s \<in> triggers" and "0 \<le> m_sample_trigger s" and "0 < m_sample_now s" and "sample_last s = 0"
    and "list_all analog_ok xs"
  shows "\<exists>t. isr_run fac xs s = Some t \<and> m_sample_mode t = m_sample_mode s"
  using assms
proof (induction xs arbitrary: s)
  case (Cons x xs)
  have n: "m_sample_now s \<noteq> sample_last s" using Cons.prems(4,5) by simp
  obtain t where t: "store_sample fac x s = Some t" "sampler_ok t" "m_sample_mode t = m_sample_mode s" "m_sample_trigger t = m_sample_trigger s"
    "sample_last t = sample_last s" "0 < m_sample_now t"
    using store_fields [OF Cons.prems(1), of x fac] Cons.prems(4,6) by auto
  have "\<exists>u. isr_run fac xs t = Some u \<and> m_sample_mode u = m_sample_mode t"
    using Cons.prems t by (intro Cons.IH) simp_all
  then show ?case using isr_triggered(1) [OF Cons.prems(2,3) n, of fac x] t(1,3) by simp
qed simp

lemma trigger_stops_at_once:
  assumes "m_sample_mode s \<in> triggers" and "0 \<le> m_sample_trigger s" and "m_sample_now s = sample_last s"
  shows "\<exists>t. isr_run fac (x # xs) s = Some t \<and> m_sample_mode t = DEBUG_SAMPLING_OFF"
  using isr_triggered(2) [OF assms, of fac x] sampling_off_run by fastforce

lemma last_zero:
  assumes "sampler_ok s" and "0 \<le> m_sample_trigger s"
  shows "sample_last s = 0 \<longleftrightarrow> m_sample_trigger s = m_sample_len s \<or> m_sample_trigger s = 0 \<and> m_sample_len s = 1000"
  using assms by (auto simp: sample_last_def sampler_ok_def ADC_SAMPLE_MAX_LEN_def Let_def)

text \<open>C29. Once the trigger of the scope has fired, it stops by itself within 999 samples, each of as many interrupts as the
  decimation says, and the interrupt after them, with one exception: if the position at which it would stop is 0 (the trigger came at the
  position that equals the configured length, or at position 0 with a length of 1000) and a sample has been stored since the
  command (the position is no longer 0), it never stops, because the position runs from 1 to 1000 from then on. (With the
  stop at 0 and no sample stored yet, it stops at the next interrupt.) The commutation step is from 1 to 6 in every interrupt
  in which the motor is being detected.\<close>

theorem scope_trigger_ends_iff:
  fixes xs
  assumes "sampler_ok s" and "m_sample_mode s \<in> triggers" and "0 \<le> m_sample_trigger s" and "list_all analog_ok xs"
    and "999 * max 1 (m_sample_int s) < int (length xs)"
  shows "map_option m_sample_mode (isr_run fac xs s) = Some (
    if m_sample_now s \<noteq> 0 \<and> (m_sample_trigger s = m_sample_len s \<or> m_sample_trigger s = 0 \<and> m_sample_len s = 1000)
    then m_sample_mode s else DEBUG_SAMPLING_OFF)"
proof -
  obtain x ys where x: "xs = x # ys" using assms(5) by (cases xs) auto
  have n: "0 \<le> m_sample_now s" using assms(1) by (simp add: sampler_ok_def)
  consider "sample_last s \<noteq> 0" | "sample_last s = 0" "m_sample_now s = 0" | "sample_last s = 0" "0 < m_sample_now s" using n by linarith
  then show ?thesis
  proof cases
    case 1
    then show ?thesis
      using trigger_run_ends [OF assms(1-3) 1 _ assms(4), of fac] measure_bound(1) [OF assms(1)] assms(5) last_zero [OF assms(1,3)] by auto
  next
    case 2
    then show ?thesis using trigger_stops_at_once [OF assms(2,3), of fac x ys] x by auto
  next
    case 3
    then show ?thesis using trigger_run_goes_on [OF assms(1-3) 3(2,1) assms(4), of fac] last_zero [OF assms(1,3)] by auto
  qed
qed

theorem scope_trigger_ends_iff_witness:
  "map_option m_sample_mode (isr_run (fl (1 / 100)) (replicate 1000 analog0)
     (sampler0\<lparr>m_sample_mode := DEBUG_SAMPLING_TRIGGER_FAULT, m_sample_trigger := 100, m_sample_len := 100, m_sample_now := 101\<rparr>)) = Some DEBUG_SAMPLING_TRIGGER_FAULT"
  using scope_trigger_ends_iff [of "sampler0\<lparr>m_sample_mode := DEBUG_SAMPLING_TRIGGER_FAULT, m_sample_trigger := 100, m_sample_len := 100, m_sample_now := 101\<rparr>"
      "replicate 1000 analog0" "fl (1 / 100)"] sampler0_ok
  by (simp add: list_all_iff sampler_ok_def ADC_SAMPLE_MAX_LEN_def triggers_def sampler0_def sample_init_def)

section \<open>Sampling at once\<close>

lemma now_waits:
  assumes "m_sample_mode s = DEBUG_SAMPLING_NOW" and "m_sample_now s \<noteq> m_sample_len s" and "sample_a s + int (length xs) < m_sample_int s"
  shows "isr_run fac xs s = Some (s\<lparr>sample_a := sample_a s + int (length xs)\<rparr>)"
  using assms by (induction xs arbitrary: s) (simp_all add: sample_isr_def store_sample_def add.assoc)

lemma now_takes:
  assumes "sampler_ok s" and "m_sample_mode s = DEBUG_SAMPLING_NOW" and "m_sample_now s < m_sample_len s" and "m_sample_int s \<le> sample_a s + 1"
    and "take_sample fac (m_sample_raw s) (m_sample_int s) x = Some v"
  shows "sample_isr fac x s =
    Some (s\<lparr>sample_a := 0, m_samples := (m_samples s)[nat (m_sample_now s) := v], m_sample_now := m_sample_now s + 1\<rparr>)"
  using assms by (simp add: sample_isr_def store_sample_def sampler_ok_def ADC_SAMPLE_MAX_LEN_def)

lemma isr_run_append: "isr_run fac (xs @ ys) s = Option.bind (isr_run fac xs s) (isr_run fac ys)"
  by (induction xs arbitrary: s) (simp_all add: bind_assoc)

text \<open>As many interrupts as the decimation says, less those that its counter has already seen, take one sample,
  from the last of them.\<close>

lemma now_block:
  assumes "sampler_ok s" and "m_sample_mode s = DEBUG_SAMPLING_NOW" and "m_sample_now s < m_sample_len s"
    and "length xs = nat (max 1 (m_sample_int s - sample_a s)) - 1" and "take_sample fac (m_sample_raw s) (m_sample_int s) x = Some v"
  shows "isr_run fac (xs @ [x]) s =
    Some (s\<lparr>sample_a := 0, m_samples := (m_samples s)[nat (m_sample_now s) := v], m_sample_now := m_sample_now s + 1\<rparr>)"
proof (cases "m_sample_int s - sample_a s \<le> 1")
  case True
  then show ?thesis using assms now_takes [OF assms(1-3) _ assms(5)] by simp
next
  case False
  let ?t = "s\<lparr>sample_a := sample_a s + int (length xs)\<rparr>"
  have a: "0 \<le> sample_a s" "m_sample_int s \<le> 255" using assms(1) by (simp_all add: sampler_ok_def)
  have l: "int (length xs) = m_sample_int s - sample_a s - 1" using assms(4) False by simp
  have "isr_run fac xs s = Some ?t" using now_waits [of s xs fac] assms(2,3) l by simp
  moreover have "sampler_ok ?t" using assms(1) l a by (simp add: sampler_ok_def)
  then have "sample_isr fac x ?t =
      Some (?t\<lparr>sample_a := 0, m_samples := (m_samples s)[nat (m_sample_now s) := v], m_sample_now := m_sample_now s + 1\<rparr>)"
    using now_takes [of ?t fac x v] assms l by simp
  ultimately show ?thesis by (simp add: isr_run_append)
qed

lemma now_run:
  assumes "sampler_ok s" and "m_sample_mode s = DEBUG_SAMPLING_NOW" and "m_sample_len s = m_sample_now s + int n"
    and "e = nat (max 1 (m_sample_int s - sample_a s))" and "d = nat (max 1 (m_sample_int s))" and "n * d < length xs" and "list_all analog_ok xs"
  shows "\<exists>t. isr_run fac xs s = Some t \<and> sampler_ok t \<and> m_sample_mode t = DEBUG_SAMPLING_OFF \<and> m_sample_mode_last t = DEBUG_SAMPLING_NOW \<and> send_event t \<and>
    m_sample_len t = m_sample_len s \<and> m_sample_raw t = m_sample_raw s \<and>
    (\<forall>i. i < nat (m_sample_now s) \<longrightarrow> m_samples t ! i = m_samples s ! i) \<and>
    (\<forall>j < n. take_sample fac (m_sample_raw s) (m_sample_int s) (xs ! (j * d + (e - 1))) = Some (m_samples t ! (nat (m_sample_now s) + j)))"
  using assms
proof (induction n arbitrary: s xs e)
  case 0
  then obtain x ys where x: "xs = x # ys" by (cases xs) auto
  then show ?case using 0 sampling_off_run by (simp add: sample_isr_def mode_upd_ok)
next
  case (Suc n)
  have "0 \<le> sample_a s" using Suc.prems(1) by (simp add: sampler_ok_def)
  then have d: "0 < e" "e \<le> d" using Suc.prems(4,5) by simp_all
  have l: "e < length xs" using Suc.prems(6) d by simp
  define ys where "ys = take (e - 1) xs"
  have xs: "xs = (ys @ [xs ! (e - 1)]) @ drop e xs" using l d id_take_nth_drop [of "e - 1" xs] by (simp add: ys_def)
  have "analog_ok (xs ! (e - 1))" using Suc.prems(7) l d by (simp add: list_all_length)
  then obtain v where v: "take_sample fac (m_sample_raw s) (m_sample_int s) (xs ! (e - 1)) = Some v" using sample_taken by blast
  let ?t = "s\<lparr>sample_a := 0, m_samples := (m_samples s)[nat (m_sample_now s) := v], m_sample_now := m_sample_now s + 1\<rparr>"
  have t: "isr_run fac (ys @ [xs ! (e - 1)]) s = Some ?t"
    by (rule now_block [OF Suc.prems(1,2) _ _ v]) (use Suc.prems(3,4) l in \<open>simp_all add: ys_def\<close>)
  have r: "isr_run fac xs s = isr_run fac (drop e xs) ?t" by (subst xs, subst isr_run_append, subst t) simp
  have "m_sample_now s < 1000" using Suc.prems(1,3) by (simp add: sampler_ok_def ADC_SAMPLE_MAX_LEN_def)
  then have o: "0 \<le> m_sample_now s" "nat (m_sample_now s) < 1000" "length (m_samples s) = 1000"
    using Suc.prems(1) by (simp_all add: sampler_ok_def)
  have k: "sampler_ok ?t" using Suc.prems(1,3) by (simp add: sampler_ok_def)
  have p: "m_sample_mode ?t = DEBUG_SAMPLING_NOW" "m_sample_len ?t = m_sample_now ?t + int n" "d = nat (max 1 (m_sample_int ?t - sample_a ?t))"
    "d = nat (max 1 (m_sample_int ?t))"
    using Suc.prems by simp_all
  have q: "n * d < length (drop e xs)" "list_all analog_ok (drop e xs)"
    using Suc.prems(6,7) d by (simp add: less_diff_conv, use Suc.prems(7) in \<open>simp add: list_all_length\<close>)
  obtain u where u: "isr_run fac (drop e xs) ?t = Some u" "sampler_ok u" "m_sample_mode u = DEBUG_SAMPLING_OFF"
    "m_sample_mode_last u = DEBUG_SAMPLING_NOW" "send_event u" "m_sample_len u = m_sample_len ?t" "m_sample_raw u = m_sample_raw ?t"
    "\<forall>i. i < nat (m_sample_now ?t) \<longrightarrow> m_samples u ! i = m_samples ?t ! i"
    "\<forall>j < n. take_sample fac (m_sample_raw ?t) (m_sample_int ?t) (drop e xs ! (j * d + (d - 1))) = Some (m_samples u ! (nat (m_sample_now ?t) + j))"
    using Suc.IH [OF k p q] by blast
  have n: "nat (m_sample_now ?t) = Suc (nat (m_sample_now s))" using o(1) by simp
  have g: "m_samples u ! i = m_samples s ! i" if "i < nat (m_sample_now s)" for i using u(8) n that by simp
  have h: "take_sample fac (m_sample_raw s) (m_sample_int s) (xs ! (j * d + (e - 1))) = Some (m_samples u ! (nat (m_sample_now s) + j))" if "j < Suc n" for j
  proof (cases j)
    case 0
    then show ?thesis using u(8) n o v by simp
  next
    case (Suc k)
    have "take_sample fac (m_sample_raw ?t) (m_sample_int ?t) (drop e xs ! (k * d + (d - 1))) = Some (m_samples u ! (nat (m_sample_now ?t) + k))"
      using u(9) that Suc by simp
    moreover have "drop e xs ! (k * d + (d - 1)) = xs ! (j * d + (e - 1))" using l d Suc by (simp add: nth_drop ac_simps)
    ultimately show ?thesis using n Suc by simp
  qed
  show ?case using r u g h by simp
qed

lemma those_exact: "(\<And>i. i \<in> set is \<Longrightarrow> f i = Some (g i)) \<Longrightarrow> those (map f is) = Some (map g is)"
  by (induction "is") simp_all

text \<open>C30. Sampling at once: after the command with the mode \<open>DEBUG_SAMPLING_NOW\<close>, more interrupts than the length times the decimation
  (with a commutation step from 1 to 6 if the motor is being detected) and a round of the sending thread, exactly the requested samples are sent,
  numbered from 0. The first is taken from the interrupt that completes the decimation counted from where its counter
  was left (the command does not reset it), each further one from the last interrupt of a full group.\<close>

theorem scope_now_sends:
  fixes xs
  assumes "sampler_ok s" and "min 1000 (unat len) * max 1 (unat decimation) < length xs" and "list_all analog_ok xs"
  defines "d \<equiv> max 1 (unat decimation)" and "first \<equiv> max 1 (unat decimation - nat (sample_a s)) - 1"
  shows "map_option fst (do {
      (ps, s) \<leftarrow> mc_interface_sample_print_data f DEBUG_SAMPLING_NOW len decimation raw s;
      s \<leftarrow> isr_run fac xs s;
      sample_send_thread f s
    }) = those (map (\<lambda>i. map_option (sample_packet f raw (int i)) (take_sample fac raw (uint decimation) (xs ! (i * d + first)))) [0 ..< min 1000 (unat len)])"
proof -
  define n where "n = min 1000 (unat len)"
  let ?s = "s\<lparr>m_sample_trigger := - 1, m_sample_now := 0, m_sample_len := int n, m_sample_int := uint decimation,
    m_sample_mode := DEBUG_SAMPLING_NOW, m_sample_raw := raw\<rparr>"
  have "(if int k > 1000 then 1000 else int k) = int (min 1000 k)" for k :: nat by simp
  then have l: "(if uint len > ADC_SAMPLE_MAX_LEN then ADC_SAMPLE_MAX_LEN else uint len) = int n"
    unfolding n_def ADC_SAMPLE_MAX_LEN_def uint_nat [of len] by blast
  have p: "mc_interface_sample_print_data f DEBUG_SAMPLING_NOW len decimation raw s = Some ([], ?s)"
    unfolding mc_interface_sample_print_data_def l Let_def by simp
  have k: "sampler_ok ?s" using print_ok [OF assms(1), of f DEBUG_SAMPLING_NOW len decimation raw] p by simp
  have a: "int (nat (sample_a s)) = sample_a s" using assms(1) by (simp add: sampler_ok_def)
  have m1: "max 1 k = nat (max 1 (int k))" and m2: "max 1 (k - b) = nat (max 1 (int k - int b))" for k b :: nat by simp_all
  have d: "d = nat (max 1 (uint decimation))" unfolding d_def uint_nat using m1 by blast
  have e: "max 1 (unat decimation - nat (sample_a s)) = nat (max 1 (uint decimation - sample_a s))"
    unfolding m2 uint_nat by (simp only: a)
  have q: "n * d < length xs" using assms(2) by (simp only: n_def d_def)
  have g: "first = nat (max 1 (m_sample_int ?s - sample_a ?s)) - 1" unfolding first_def e by simp
  obtain t where t: "isr_run fac xs ?s = Some t" "sampler_ok t" "m_sample_mode_last t = DEBUG_SAMPLING_NOW" "send_event t"
    "m_sample_len t = int n" "m_sample_raw t = raw"
    "\<forall>j < n. take_sample fac raw (uint decimation) (xs ! (j * d + first)) = Some (m_samples t ! j)"
    using now_run [OF k _ _ refl _ q assms(3), of fac] g d by fastforce
  have m: "length (m_samples t) = 1000" using t(2) by (simp add: sampler_ok_def)
  have b: "n \<le> 1000" by (simp add: n_def)
  have "those (map (\<lambda>i. map_option (sample_packet f raw (int i)) (take_sample fac raw (uint decimation) (xs ! (i * d + first)))) [0 ..< n]) =
      Some (map (\<lambda>i. sample_packet f raw (int i) (m_samples t ! nat (int i mod 1000))) [0 ..< n])"
    by (rule those_exact) (use t(7) b in simp)
  then show ?thesis by (simp add: p t sample_send_thread_def blocks_exact m n_def [symmetric])
qed

theorem scope_now_sends_witness:
  "map_option fst (do {
      (ps, s) \<leftarrow> mc_interface_sample_print_data (rnd (1 / 100)) DEBUG_SAMPLING_NOW 3 4 True (sampler0\<lparr>sample_a := 1\<rparr>);
      s \<leftarrow> isr_run (fl (1 / 100)) (replicate 13 analog0) s;
      sample_send_thread (rnd (1 / 100)) s
    }) = those (map (\<lambda>i. map_option (sample_packet (rnd (1 / 100)) True (int i)) (take_sample (fl (1 / 100)) True 4 (replicate 13 analog0 ! (i * 4 + 2)))) [0 ..< 3])"
proof -
  have "sampler_ok (sampler0\<lparr>sample_a := 1\<rparr>)" using sampler0_ok by (simp add: sampler_ok_def)
  then show ?thesis using scope_now_sends [of "sampler0\<lparr>sample_a := 1\<rparr>" 3 4 "replicate 13 analog0" "rnd (1 / 100)" True "fl (1 / 100)"]
    by (simp add: list_all_iff)
qed

text \<open>Sampling from the start of the motor takes one sample too many, and leaves the counter of the decimation where the last
  interrupt put it: with the full length the first sample is overwritten before it is sent.\<close>

lemma start_overwrites_first:
  assumes "sampler_ok s" and "m_sample_mode s = DEBUG_SAMPLING_START" and "m_sample_len s = 1000" and "m_sample_now s = 1000"
    and "m_sample_int s \<le> sample_a s + 1" and "take_sample fac (m_sample_raw s) (m_sample_int s) x = Some v"
  shows "\<exists>t. sample_isr fac x s = Some t \<and> m_sample_mode t = DEBUG_SAMPLING_OFF \<and> send_event t \<and> m_samples t ! 0 = v"
  using assms by (auto simp: sample_isr_def store_sample_def sampler_ok_def ADC_SAMPLE_MAX_LEN_def Let_def)

end
