(* ===== verification/Commands.thy ===== *)
theory Commands
  imports Timeout Sampling
begin

text \<open>
  The dispatch of commands, \<^verbatim>\<open>comm/commands.c\<close>: the commands that drive the motor, stop it, read its
  values, take samples and change the battery limits, over the motor interface, the supervision and the
  scope. All other commands are recorded as handed on.
\<close>

section \<open>State\<close>

text \<open>A reply function is a number; \<open>Dummy\<close> is the one that drops what it is given. A null pointer is
  \<open>None\<close>.\<close>

datatype port = Port nat | Dummy

datatype request_out =
  Battery_cut_can u8 bool float32 float32
| Handed_on u8

record firmware =
  mot :: motor
  sup :: supervisor
  scope :: sampler
  controller_no :: u8
  temps_mos :: "single \<times> single \<times> single"
  clock :: u32
  send_func :: "port option"
  send_func_nrf :: "port option"
  send_func_can_fwd :: "port option"
  send_func_sample :: "port option"
  replies :: "(port \<times> bytes) list"
  outs :: "request_out list"

definition COMM_GET_VALUES :: u8 where "COMM_GET_VALUES = 4"
definition COMM_SET_DUTY :: u8 where "COMM_SET_DUTY = 5"
definition COMM_SET_CURRENT :: u8 where "COMM_SET_CURRENT = 6"
definition COMM_SET_CURRENT_BRAKE :: u8 where "COMM_SET_CURRENT_BRAKE = 7"
definition COMM_SET_RPM :: u8 where "COMM_SET_RPM = 8"
definition COMM_SET_POS :: u8 where "COMM_SET_POS = 9"
definition COMM_SET_HANDBRAKE :: u8 where "COMM_SET_HANDBRAKE = 10"
definition COMM_ALIVE :: u8 where "COMM_ALIVE = 30"
definition COMM_GET_VALUES_SELECTIVE :: u8 where "COMM_GET_VALUES_SELECTIVE = 50"
definition COMM_EXT_NRF_PRESENT :: u8 where "COMM_EXT_NRF_PRESENT = 52"
definition COMM_EXT_NRF_ESB_RX_DATA :: u8 where "COMM_EXT_NRF_ESB_RX_DATA = 55"
definition COMM_SET_CURRENT_REL :: u8 where "COMM_SET_CURRENT_REL = 84"
definition COMM_SET_BATTERY_CUT :: u8 where "COMM_SET_BATTERY_CUT = 86"
definition COMM_SET_ODOMETER :: u8 where "COMM_SET_ODOMETER = 110"
definition COMM_GET_BATTERY_CUT :: u8 where "COMM_GET_BATTERY_CUT = 115"
definition COMM_LISP_REPL_CMD :: u8 where "COMM_LISP_REPL_CMD = 138"
definition COMM_LISP_RMSG :: u8 where "COMM_LISP_RMSG = 152"
definition COMM_MOTOR_ESTOP :: u8 where "COMM_MOTOR_ESTOP = 159"

lemmas comm_ids =
  COMM_GET_VALUES_def COMM_SET_DUTY_def COMM_SET_CURRENT_def COMM_SET_CURRENT_BRAKE_def COMM_SET_RPM_def COMM_SET_POS_def
  COMM_SET_HANDBRAKE_def COMM_SAMPLE_PRINT_def COMM_ALIVE_def COMM_GET_VALUES_SELECTIVE_def COMM_EXT_NRF_PRESENT_def
  COMM_EXT_NRF_ESB_RX_DATA_def COMM_SET_CURRENT_REL_def COMM_SET_BATTERY_CUT_def COMM_SET_ODOMETER_def COMM_GET_BATTERY_CUT_def
  COMM_LISP_REPL_CMD_def COMM_LISP_RMSG_def COMM_MOTOR_ESTOP_def

fun fault_byte :: "mc_fault_code \<Rightarrow> u8" where
  "fault_byte FAULT_CODE_NONE = 0"
| "fault_byte FAULT_CODE_OVER_VOLTAGE = 1"
| "fault_byte FAULT_CODE_UNDER_VOLTAGE = 2"
| "fault_byte FAULT_CODE_DRV = 3"
| "fault_byte FAULT_CODE_ABS_OVER_CURRENT = 4"
| "fault_byte FAULT_CODE_OVER_TEMP_FET = 5"
| "fault_byte FAULT_CODE_OVER_TEMP_MOTOR = 6"
| "fault_byte FAULT_CODE_GATE_DRIVER_OVER_VOLTAGE = 7"
| "fault_byte FAULT_CODE_GATE_DRIVER_UNDER_VOLTAGE = 8"
| "fault_byte FAULT_CODE_MCU_UNDER_VOLTAGE = 9"
| "fault_byte FAULT_CODE_BOOTING_FROM_WATCHDOG_RESET = 10"
| "fault_byte FAULT_CODE_ENCODER_SPI = 11"
| "fault_byte FAULT_CODE_ENCODER_SINCOS_BELOW_MIN_AMPLITUDE = 12"
| "fault_byte FAULT_CODE_ENCODER_SINCOS_ABOVE_MAX_AMPLITUDE = 13"
| "fault_byte FAULT_CODE_FLASH_CORRUPTION = 14"
| "fault_byte FAULT_CODE_HIGH_OFFSET_CURRENT_SENSOR_1 = 15"
| "fault_byte FAULT_CODE_HIGH_OFFSET_CURRENT_SENSOR_2 = 16"
| "fault_byte FAULT_CODE_HIGH_OFFSET_CURRENT_SENSOR_3 = 17"
| "fault_byte FAULT_CODE_UNBALANCED_CURRENTS = 18"
| "fault_byte FAULT_CODE_BRK = 19"
| "fault_byte FAULT_CODE_RESOLVER_LOT = 20"
| "fault_byte FAULT_CODE_RESOLVER_DOS = 21"
| "fault_byte FAULT_CODE_RESOLVER_LOS = 22"
| "fault_byte FAULT_CODE_FLASH_CORRUPTION_APP_CFG = 23"
| "fault_byte FAULT_CODE_FLASH_CORRUPTION_MC_CFG = 24"
| "fault_byte FAULT_CODE_ENCODER_NO_MAGNET = 25"
| "fault_byte FAULT_CODE_ENCODER_MAGNET_TOO_STRONG = 26"
| "fault_byte FAULT_CODE_PHASE_FILTER = 27"
| "fault_byte FAULT_CODE_ENCODER_FAULT = 28"
| "fault_byte FAULT_CODE_LV_OUTPUT_FAULT = 29"

section \<open>Replies\<close>

definition reply_to :: "port \<Rightarrow> bytes \<Rightarrow> firmware \<Rightarrow> firmware" where
  "reply_to p b s = (case p of Dummy \<Rightarrow> s | Port n \<Rightarrow> s\<lparr>replies := replies s @ [(p, b)]\<rparr>)"

text \<open>Writing one value, converted to a scaled integer, while the buffer is filled; reading it may change
  the motor interface.\<close>

type_synonym filling = "bytes \<times> nat \<times> motor"

definition put16 :: "(motor \<Rightarrow> single \<times> motor) \<Rightarrow> single \<Rightarrow> filling \<Rightarrow> filling option" where
  "put16 get scale = (\<lambda>(b, i, m).
     let (v, m) = get m in do { (b, i) \<leftarrow> buffer_append_int16 b (int16_of (x_mul v scale)) i; Some (b, i, m) })"

definition put32 :: "(motor \<Rightarrow> single \<times> motor) \<Rightarrow> single \<Rightarrow> filling \<Rightarrow> filling option" where
  "put32 get scale = (\<lambda>(b, i, m).
     let (v, m) = get m in do { (b, i) \<leftarrow> buffer_append_int32 b (word_of_int (x_to_int (x_mul v scale))) i; Some (b, i, m) })"

definition put_int :: "(motor \<Rightarrow> int \<times> motor) \<Rightarrow> filling \<Rightarrow> filling option" where
  "put_int get = (\<lambda>(b, i, m). let (v, m) = get m in do { (b, i) \<leftarrow> buffer_append_int32 b (word_of_int v) i; Some (b, i, m) })"

definition put_u8 :: "(motor \<Rightarrow> u8) \<Rightarrow> filling \<Rightarrow> filling option" where
  "put_u8 get = (\<lambda>(b, i, m). do { (b, i) \<leftarrow> put_byte b i (get m); Some (b, i, m) })"

definition mask_bit :: "u32 \<Rightarrow> nat \<Rightarrow> bool" where
  "mask_bit sel k \<longleftrightarrow> sel AND push_bit k 1 \<noteq> 0"

definition masked :: "u32 \<Rightarrow> nat \<Rightarrow> (filling \<Rightarrow> filling option) \<Rightarrow> filling \<Rightarrow> filling option" where
  "masked sel k f w = (if mask_bit sel k then f w else Some w)"

definition still :: "(motor \<Rightarrow> 'a) \<Rightarrow> motor \<Rightarrow> 'a \<times> motor" where
  "still get m = (get m, m)"

definition timeout_status :: "supervisor \<Rightarrow> u8" where
  "timeout_status g = (if has_timeout g then 1 else 0) OR push_bit 1 (if kill_sw_active g then 1 else 0)"

definition put_mos :: "single \<times> single \<times> single \<Rightarrow> filling \<Rightarrow> filling option" where
  "put_mos t w = (case t of (a, b, c) \<Rightarrow> do {
     w \<leftarrow> put16 (still (\<lambda>_. a)) (Num 10) w;
     w \<leftarrow> put16 (still (\<lambda>_. b)) (Num 10) w;
     put16 (still (\<lambda>_. c)) (Num 10) w
   })"

definition put_values :: "u32 \<Rightarrow> firmware \<Rightarrow> filling \<Rightarrow> filling option" where
  "put_values sel s w = do {
     w \<leftarrow> masked sel 0 (put16 (still mc_interface_temp_fet_filtered) (Num 10)) w;
     w \<leftarrow> masked sel 1 (put16 (still mc_interface_temp_motor_filtered) (Num 10)) w;
     w \<leftarrow> masked sel 2 (put32 mc_interface_read_reset_avg_motor_current (Num 100)) w;
     w \<leftarrow> masked sel 3 (put32 mc_interface_read_reset_avg_input_current (Num 100)) w;
     w \<leftarrow> masked sel 4 (put32 mc_interface_read_reset_avg_id (Num 100)) w;
     w \<leftarrow> masked sel 5 (put32 mc_interface_read_reset_avg_iq (Num 100)) w;
     w \<leftarrow> masked sel 6 (put16 (still mc_interface_get_duty_cycle_now) (Num 1000)) w;
     w \<leftarrow> masked sel 7 (put32 (still mc_interface_get_rpm) (Num 1)) w;
     w \<leftarrow> masked sel 8 (put16 (still mc_interface_get_input_voltage_filtered) (Num 10)) w;
     w \<leftarrow> masked sel 9 (put32 (mc_interface_get_amp_hours False) (Num 10000)) w;
     w \<leftarrow> masked sel 10 (put32 (mc_interface_get_amp_hours_charged False) (Num 10000)) w;
     w \<leftarrow> masked sel 11 (put32 (mc_interface_get_watt_hours False) (Num 10000)) w;
     w \<leftarrow> masked sel 12 (put32 (mc_interface_get_watt_hours_charged False) (Num 10000)) w;
     w \<leftarrow> masked sel 13 (put_int (mc_interface_get_tachometer_value False)) w;
     w \<leftarrow> masked sel 14 (put_int (mc_interface_get_tachometer_abs_value False)) w;
     w \<leftarrow> masked sel 15 (put_u8 (\<lambda>m. fault_byte (mc_interface_get_fault m))) w;
     w \<leftarrow> masked sel 16 (put32 (still mc_interface_get_pid_pos_now) (Num 1000000)) w;
     w \<leftarrow> masked sel 17 (put_u8 (\<lambda>_. controller_no s)) w;
     w \<leftarrow> masked sel 18 (put_mos (temps_mos s)) w;
     w \<leftarrow> masked sel 19 (put32 mc_interface_read_reset_avg_vd (Num 1000)) w;
     w \<leftarrow> masked sel 20 (put32 mc_interface_read_reset_avg_vq (Num 1000)) w;
     masked sel 21 (put_u8 (\<lambda>_. timeout_status (sup s))) w
   }"

definition get_values :: "u8 \<Rightarrow> bytes \<Rightarrow> port \<Rightarrow> firmware \<Rightarrow> firmware option" where
  "get_values packet_id data reply s = do {
     (send_buffer, ind) \<leftarrow> put_byte (replicate 512 0) 0 packet_id;
     (sel, send_buffer, ind) \<leftarrow>
       (if packet_id = COMM_GET_VALUES_SELECTIVE then do {
          (sel, _) \<leftarrow> buffer_get_uint32 data 0;
          (send_buffer, ind) \<leftarrow> buffer_append_uint32 send_buffer sel ind;
          Some (sel, send_buffer, ind)
        } else Some (0xFFFFFFFF, send_buffer, ind));
     (send_buffer, ind, m) \<leftarrow> put_values sel s (send_buffer, ind, mot s);
     Some (reply_to reply (take ind send_buffer) (s\<lparr>mot := m\<rparr>))
   }"

section \<open>Commands\<close>

text \<open>A command that drives the motor also resets the timeout.\<close>

definition drive_motor :: "(motor \<Rightarrow> motor) \<Rightarrow> firmware \<Rightarrow> firmware" where
  "drive_motor f s = s\<lparr>mot := f (mot s), sup := timeout_reset (clock s) (sup s)\<rparr>"

text \<open>A signed integer of four bytes at the front, divided by a scale.\<close>

definition arg_scaled :: "bytes \<Rightarrow> float32 \<Rightarrow> single option" where
  "arg_scaled data scale = do {
     (w, _) \<leftarrow> buffer_get_int32 data 0;
     Some (Num (fdiv (f_of_int (sint w)) scale))
   }"

definition arg_int :: "bytes \<Rightarrow> single option" where
  "arg_int data = do { (w, _) \<leftarrow> buffer_get_int32 data 0; Some (Num (f_of_int (sint w))) }"

definition set_battery_cut :: "u8 \<Rightarrow> bytes \<Rightarrow> port \<Rightarrow> firmware \<Rightarrow> firmware option" where
  "set_battery_cut packet_id data reply s = do {
     (start, ind) \<leftarrow> buffer_get_float32 data 1000 0;
     (stop, ind) \<leftarrow> buffer_get_float32 data 1000 ind;
     store \<leftarrow> get_byte data ind;
     fwd_can \<leftarrow> get_byte data (ind + 1);
     let s = (if fwd_can \<noteq> 0 then s\<lparr>outs := outs s @ [Battery_cut_can 255 (store \<noteq> 0) start stop]\<rparr> else s);
     let mcconf = m_conf (mot s);
     let s = (if l_battery_cut_start mcconf \<noteq> Num start \<or> l_battery_cut_end mcconf \<noteq> Num stop then
       let mcconf = mcconf\<lparr>l_battery_cut_start := Num start, l_battery_cut_end := Num stop\<rparr>;
           s = (if store \<noteq> 0 then s\<lparr>mot := issue (Store_mc_configuration mcconf) (mot s)\<rparr> else s)
       in s\<lparr>mot := mc_interface_set_configuration mcconf (mot s)\<rparr>
       else s);
     Some (reply_to reply [packet_id] s)
   }"

definition get_battery_cut :: "u8 \<Rightarrow> port \<Rightarrow> firmware \<Rightarrow> firmware option" where
  "get_battery_cut packet_id reply s = do {
     (b, i) \<leftarrow> put_byte (replicate 60 0) 0 packet_id;
     (b, i, m) \<leftarrow> put32 (still (\<lambda>m. l_battery_cut_start (m_conf m))) (Num 1000) (b, i, mot s);
     (b, i, m) \<leftarrow> put32 (still (\<lambda>m. l_battery_cut_end (m_conf m))) (Num 1000) (b, i, m);
     Some (reply_to reply (take i b) s)
   }"

fun sampling_mode :: "nat \<Rightarrow> debug_sampling_mode" where
  "sampling_mode n =
     (if n < 9 then [DEBUG_SAMPLING_OFF, DEBUG_SAMPLING_NOW, DEBUG_SAMPLING_START, DEBUG_SAMPLING_TRIGGER_START, DEBUG_SAMPLING_TRIGGER_FAULT,
        DEBUG_SAMPLING_TRIGGER_START_NOSEND, DEBUG_SAMPLING_TRIGGER_FAULT_NOSEND, DEBUG_SAMPLING_SEND_LAST_SAMPLES,
        DEBUG_SAMPLING_SEND_SINGLE_SAMPLE] ! n
      else DEBUG_SAMPLING_OTHER (of_nat n))"

declare sampling_mode.simps [simp del]

text \<open>Samples go to the reply function stored with the command; calling a null pointer is \<open>None\<close>.\<close>

definition send_samples :: "bytes list \<Rightarrow> firmware \<Rightarrow> firmware option" where
  "send_samples ps s =
     (if ps = [] then Some s
      else case send_func_sample s of None \<Rightarrow> None | Some p \<Rightarrow> Some (fold (reply_to p) ps s))"

definition sample_print :: "float32 \<Rightarrow> bytes \<Rightarrow> nat \<Rightarrow> firmware \<Rightarrow> firmware option" where
  "sample_print f data len s = do {
     mode \<leftarrow> get_byte data 0;
     (sample_len, ind) \<leftarrow> buffer_get_uint16 data 1;
     decimation \<leftarrow> get_byte data ind;
     raw \<leftarrow> (if len > ind + 1 then get_byte data (ind + 1) else Some 0);
     let s = s\<lparr>send_func_sample := send_func s\<rparr>;
     (ps, sc) \<leftarrow> mc_interface_sample_print_data f (sampling_mode (unat mode)) sample_len decimation (raw \<noteq> 0) (scope s);
     send_samples ps (s\<lparr>scope := sc\<rparr>)
   }"

text \<open>The board has one motor: the second selection is the same motor again.\<close>

definition mc_interface_release_motor_override_both :: "motor \<Rightarrow> motor" where
  "mc_interface_release_motor_override_both m = mc_interface_release_motor_override (mc_interface_release_motor_override m)"

definition motor_estop :: "bytes \<Rightarrow> firmware \<Rightarrow> firmware option" where
  "motor_estop data s = do {
     (t, _) \<leftarrow> buffer_get_uint16 data 0;
     Some (s\<lparr>mot := mc_interface_release_motor_override_both (Motor_If.mc_interface_ignore_input_both (uint t) (mot s))\<rparr>)
   }"

text \<open>\<open>mem\<close> is the memory from the start of the packet on, \<open>len\<close> the length of the packet: the commands read
  their arguments without looking at the length. \<open>f\<close> is \<open>FAC_CURRENT\<close>. Of the commands that are handed on only the
  fact is recorded: many of them have effects on the motor or the configuration (\<^verbatim>\<open>COMM_SET_MCCONF\<close>, detection, storing)
  that are not modelled, so no property below lets them occur.\<close>

definition dispatch :: "float32 \<Rightarrow> u8 \<Rightarrow> bytes \<Rightarrow> nat \<Rightarrow> port \<Rightarrow> firmware \<Rightarrow> firmware option" where
  "dispatch f packet_id data len reply s =
     (if packet_id = COMM_GET_VALUES \<or> packet_id = COMM_GET_VALUES_SELECTIVE then get_values packet_id data reply s
      else if packet_id = COMM_SET_DUTY then map_option (\<lambda>x. drive_motor (mc_interface_set_duty x) s) (arg_scaled data 100000)
      else if packet_id = COMM_SET_CURRENT then map_option (\<lambda>x. drive_motor (mc_interface_set_current x) s) (arg_scaled data 1000)
      else if packet_id = COMM_SET_CURRENT_BRAKE then map_option (\<lambda>x. drive_motor (mc_interface_set_brake_current x) s) (arg_scaled data 1000)
      else if packet_id = COMM_SET_RPM then map_option (\<lambda>x. drive_motor (mc_interface_set_pid_speed x) s) (arg_int data)
      else if packet_id = COMM_SET_POS then map_option (\<lambda>x. drive_motor (mc_interface_set_pid_pos x) s) (arg_scaled data 1000000)
      else if packet_id = COMM_SET_HANDBRAKE then map_option (\<lambda>x. drive_motor (mc_interface_set_handbrake x) s) (arg_scaled data 1000)
      else if packet_id = COMM_SAMPLE_PRINT then sample_print f data len s
      else if packet_id = COMM_ALIVE then Some (drive_motor (issue Shutdown_reset_timer) s)
      else if packet_id = COMM_SET_ODOMETER then
        map_option (\<lambda>(w, _). drive_motor (mc_interface_set_odometer (ucast w)) s) (buffer_get_uint32 data 0)
      else if packet_id = COMM_SET_CURRENT_REL then map_option (\<lambda>x. drive_motor (mc_interface_set_current_rel x) s) (arg_scaled data 100000)
      else if packet_id = COMM_SET_BATTERY_CUT then set_battery_cut packet_id data reply s
      else if packet_id = COMM_GET_BATTERY_CUT then get_battery_cut packet_id reply s
      else if packet_id = COMM_MOTOR_ESTOP then motor_estop data s
      else Some (s\<lparr>outs := outs s @ [Handed_on packet_id]\<rparr>))"

definition commands_process_packet :: "float32 \<Rightarrow> bytes \<Rightarrow> nat \<Rightarrow> port option \<Rightarrow> firmware \<Rightarrow> firmware option" where
  "commands_process_packet f memo len reply_func s =
     (if len = 0 then Some s
      else do {
        packet_id \<leftarrow> get_byte memo 0;
        let s = (if packet_id = COMM_EXT_NRF_PRESENT \<or> packet_id = COMM_EXT_NRF_ESB_RX_DATA then s\<lparr>send_func_nrf := reply_func\<rparr>
                 else if packet_id \<noteq> COMM_LISP_RMSG then s\<lparr>send_func := reply_func\<rparr> else s);
        let reply_func = (if reply_func = None \<and> packet_id \<noteq> COMM_LISP_REPL_CMD then Some Dummy else reply_func);
        let s = (if send_func_can_fwd s = None then s\<lparr>send_func_can_fwd := reply_func\<rparr> else s);
        dispatch f packet_id (drop 1 memo) (len - 1) (case reply_func of Some p \<Rightarrow> p | None \<Rightarrow> Dummy) s
      })"

text \<open>One round of the thread that sends samples.\<close>

definition scope_thread :: "float32 \<Rightarrow> firmware \<Rightarrow> firmware option" where
  "scope_thread f s = do { (ps, sc) \<leftarrow> sample_send_thread f (scope s); send_samples ps (s\<lparr>scope := sc\<rparr>) }"

section \<open>Driving the motor\<close>

text \<open>The commands with one number, as VESC Tool sends them.\<close>

datatype drive_command =
  C_duty int | C_current int | C_brake int | C_rpm int | C_pos int | C_handbrake int | C_current_rel int

fun encode :: "drive_command \<Rightarrow> bytes" where
  "encode (C_duty n) = COMM_SET_DUTY # be32 (word_of_int n)"
| "encode (C_current n) = COMM_SET_CURRENT # be32 (word_of_int n)"
| "encode (C_brake n) = COMM_SET_CURRENT_BRAKE # be32 (word_of_int n)"
| "encode (C_rpm n) = COMM_SET_RPM # be32 (word_of_int n)"
| "encode (C_pos n) = COMM_SET_POS # be32 (word_of_int n)"
| "encode (C_handbrake n) = COMM_SET_HANDBRAKE # be32 (word_of_int n)"
| "encode (C_current_rel n) = COMM_SET_CURRENT_REL # be32 (word_of_int n)"

definition ratio :: "int \<Rightarrow> float32 \<Rightarrow> single" where
  "ratio n d = Num (fdiv (f_of_int n) d)"

fun request_of :: "drive_command \<Rightarrow> request" where
  "request_of (C_duty n) = Duty (ratio n 100000)"
| "request_of (C_current n) = Current (ratio n 1000)"
| "request_of (C_brake n) = Brake_current (ratio n 1000)"
| "request_of (C_rpm n) = Speed (Num (f_of_int n))"
| "request_of (C_pos n) = Position (ratio n 1000000)"
| "request_of (C_handbrake n) = Handbrake (ratio n 1000)"
| "request_of (C_current_rel n) = Current_rel (ratio n 100000)"

fun carried :: "drive_command \<Rightarrow> int" where
  "carried (C_duty n) = n" | "carried (C_current n) = n" | "carried (C_brake n) = n" | "carried (C_rpm n) = n"
| "carried (C_pos n) = n" | "carried (C_handbrake n) = n" | "carried (C_current_rel n) = n"

lemma arg_be32:
  assumes "- (2 ^ 31) \<le> n" and "n < 2 ^ 31"
  shows "arg_scaled (be32 (word_of_int n) @ rest) d = Some (ratio n d)" "arg_int (be32 (word_of_int n) @ rest) = Some (Num (f_of_int n))"
proof -
  have "sint (word_of_int n :: u32) = n" using assms by (simp add: sint_sbintrunc' signed_take_bit_int_eq_self)
  moreover have "buffer_get_int32 (be32 (word_of_int n) @ rest) 0 = Some (word_of_int n, 4)"
    using get32_be(1) [of "[]" "word_of_int n" rest] by simp
  ultimately show "arg_scaled (be32 (word_of_int n) @ rest) d = Some (ratio n d)" "arg_int (be32 (word_of_int n) @ rest) = Some (Num (f_of_int n))"
    by (simp_all add: arg_scaled_def arg_int_def ratio_def)
qed

lemma length_encode [simp]: "length (encode c) = 5"
  by (cases c) simp_all

text \<open>What a command leaves alone.\<close>

definition driven :: "drive_command \<Rightarrow> firmware \<Rightarrow> firmware \<Rightarrow> bool" where
  "driven c s t \<longleftrightarrow> mot t = perform (request_of c) (mot s) \<and> sup t = timeout_reset (clock s) (sup s) \<and> scope t = scope s \<and>
     clock t = clock s \<and> replies t = replies s \<and> outs t = outs s"

lemma encode_driven:
  assumes "- (2 ^ 31) \<le> carried c" and "carried c < 2 ^ 31"
  shows "\<exists>t. commands_process_packet f (encode c @ rest) 5 reply s = Some t \<and> driven c s t"
  using assms by (cases c) (simp_all add: commands_process_packet_def get_byte_def dispatch_def comm_ids arg_be32 driven_def drive_motor_def Let_def)

section \<open>The reply with the values\<close>

text \<open>\<open>writes w enc upd\<close>: the step \<open>w\<close> writes the bytes \<open>enc m\<close> and changes the motor interface by \<open>upd\<close>.\<close>

definition writes :: "(filling \<Rightarrow> filling option) \<Rightarrow> (motor \<Rightarrow> bytes) \<Rightarrow> (motor \<Rightarrow> motor) \<Rightarrow> bool" where
  "writes w enc upd \<longleftrightarrow>
     (\<forall>b i m. i \<le> length b \<longrightarrow> w (b, i, m) = map_option (\<lambda>(b, i). (b, i, upd m)) (write_bytes b i (enc m)))"

lemma writes_put [intro]:
  "writes (put16 get scale) (\<lambda>m. be16 (int16_of (x_mul (fst (get m)) scale))) (\<lambda>m. snd (get m))"
  "writes (put32 get scale) (\<lambda>m. be32 (word_of_int (x_to_int (x_mul (fst (get m)) scale)))) (\<lambda>m. snd (get m))"
  "writes (put_int geti) (\<lambda>m. be32 (word_of_int (fst (geti m)))) (\<lambda>m. snd (geti m))"
  "writes (put_u8 getu) (\<lambda>m. [getu m]) (\<lambda>m. m)"
  by (auto simp: writes_def put16_def put32_def put_int_def put_u8_def case_prod_unfold append16_write append32_write put_byte_eq Let_def
      split: Option.bind_split)

lemma writes_masked [intro]:
  assumes "writes w enc upd"
  shows "writes (masked sel k w) (\<lambda>m. if mask_bit sel k then enc m else []) (\<lambda>m. if mask_bit sel k then upd m else m)"
  using assms by (auto simp: writes_def masked_def write_bytes_def)

lemma writes_bind [intro]:
  assumes "writes w enc upd" and "writes v enc' upd'"
  shows "writes (\<lambda>x. Option.bind (w x) v) (\<lambda>m. enc m @ enc' (upd m)) (\<lambda>m. upd' (upd m))"
  unfolding writes_def
proof (intro allI impI)
  fix b i m assume i: "i \<le> length (b :: bytes)"
  show "Option.bind (w (b, i, m)) v = map_option (\<lambda>(b, i). (b, i, upd' (upd m))) (write_bytes b i (enc m @ enc' (upd m)))"
  proof (cases "write_bytes b i (enc m)")
    case None
    then have "length b < i + length (enc m)" by (simp add: write_bytes_def split: if_splits)
    then show ?thesis using assms(1) i None by (simp add: writes_def write_bytes_def)
  next
    case (Some c)
    obtain b' i' where c: "c = (b', i')" by (cases c)
    have l: "i' \<le> length b'" using Some c by (auto simp: write_bytes_def split: if_splits)
    have "Option.bind (w (b, i, m)) v = map_option (\<lambda>(b, i). (b, i, upd' (upd m))) (write_bytes b' i' (enc' (upd m)))"
      using assms i Some c l by (simp add: writes_def)
    then show ?thesis using write_bytes_append [of b i "enc m" "enc' (upd m)"] Some c by simp
  qed
qed

text \<open>The fields of the reply with their numbers, all computed from one state.\<close>

definition field16 :: "single \<Rightarrow> single \<Rightarrow> bytes" where "field16 v scale = be16 (int16_of (x_mul v scale))"
definition field32 :: "single \<Rightarrow> single \<Rightarrow> bytes" where "field32 v scale = be32 (word_of_int (x_to_int (x_mul v scale)))"

definition value_fields :: "firmware \<Rightarrow> (nat \<times> bytes) list" where
  "value_fields s = (let m = mot s in
    [(0, field16 (mc_interface_temp_fet_filtered m) (Num 10)),
     (1, field16 (mc_interface_temp_motor_filtered m) (Num 10)),
     (2, field32 (fst (mc_interface_read_reset_avg_motor_current m)) (Num 100)),
     (3, field32 (fst (mc_interface_read_reset_avg_input_current m)) (Num 100)),
     (4, field32 (fst (mc_interface_read_reset_avg_id m)) (Num 100)),
     (5, field32 (fst (mc_interface_read_reset_avg_iq m)) (Num 100)),
     (6, field16 (mc_interface_get_duty_cycle_now m) (Num 1000)),
     (7, field32 (mc_interface_get_rpm m) (Num 1)),
     (8, field16 (mc_interface_get_input_voltage_filtered m) (Num 10)),
     (9, field32 (fst (mc_interface_get_amp_hours False m)) (Num 10000)),
     (10, field32 (fst (mc_interface_get_amp_hours_charged False m)) (Num 10000)),
     (11, field32 (fst (mc_interface_get_watt_hours False m)) (Num 10000)),
     (12, field32 (fst (mc_interface_get_watt_hours_charged False m)) (Num 10000)),
     (13, be32 (word_of_int (fst (mc_interface_get_tachometer_value False m)))),
     (14, be32 (word_of_int (fst (mc_interface_get_tachometer_abs_value False m)))),
     (15, [fault_byte (mc_interface_get_fault m)]),
     (16, field32 (mc_interface_get_pid_pos_now m) (Num 1000000)),
     (17, [controller_no s]),
     (18, case temps_mos s of (a, b, c) \<Rightarrow> field16 a (Num 10) @ field16 b (Num 10) @ field16 c (Num 10)),
     (19, field32 (fst (mc_interface_read_reset_avg_vd m)) (Num 1000)),
     (20, field32 (fst (mc_interface_read_reset_avg_vq m)) (Num 1000)),
     (21, [timeout_status (sup s)])])"

definition selected :: "u32 \<Rightarrow> (nat \<times> bytes) list \<Rightarrow> bytes" where
  "selected sel fs = concat (map snd (filter (\<lambda>f. mask_bit sel (fst f)) fs))"

text \<open>Averages that are read start anew.\<close>

definition average_read :: "u32 \<Rightarrow> nat \<Rightarrow> motor \<Rightarrow> motor" where
  "average_read sel k m =
     (if \<not> mask_bit sel k then m
      else if k = 2 then m\<lparr>m_motor_current_sum := Num 0, m_motor_current_iterations := Num 0\<rparr>
      else if k = 3 then m\<lparr>m_input_current_sum := Num 0, m_input_current_iterations := Num 0\<rparr>
      else if k = 4 then m\<lparr>m_motor_id_sum := Num 0, m_motor_id_iterations := Num 0\<rparr>
      else if k = 5 then m\<lparr>m_motor_iq_sum := Num 0, m_motor_iq_iterations := Num 0\<rparr>
      else if k = 19 then m\<lparr>m_motor_vd_sum := Num 0, m_motor_vd_iterations := Num 0\<rparr>
      else if k = 20 then m\<lparr>m_motor_vq_sum := Num 0, m_motor_vq_iterations := Num 0\<rparr>
      else m)"

definition averages_read :: "u32 \<Rightarrow> motor \<Rightarrow> motor" where
  "averages_read sel m = fold (average_read sel) [2, 3, 4, 5, 19, 20] m"

lemma average_core:
  "m_conf (average_read sel k m) = m_conf m" "inputs (average_read sel k m) = inputs m" "m_temp_fet (average_read sel k m) = m_temp_fet m"
  "m_temp_motor (average_read sel k m) = m_temp_motor m" "m_input_voltage_filtered (average_read sel k m) = m_input_voltage_filtered m"
  "m_amp_seconds (average_read sel k m) = m_amp_seconds m" "m_amp_seconds_charged (average_read sel k m) = m_amp_seconds_charged m"
  "m_watt_seconds (average_read sel k m) = m_watt_seconds m" "m_watt_seconds_charged (average_read sel k m) = m_watt_seconds_charged m"
  "m_fault_now (average_read sel k m) = m_fault_now m" "m_persistent_fault (average_read sel k m) = m_persistent_fault m"
  by (simp_all add: average_read_def)

lemma average_frame:
  "mc_interface_temp_fet_filtered (average_read sel k m) = mc_interface_temp_fet_filtered m"
  "mc_interface_temp_motor_filtered (average_read sel k m) = mc_interface_temp_motor_filtered m"
  "mc_interface_get_duty_cycle_now (average_read sel k m) = mc_interface_get_duty_cycle_now m"
  "mc_interface_get_rpm (average_read sel k m) = mc_interface_get_rpm m"
  "mc_interface_get_input_voltage_filtered (average_read sel k m) = mc_interface_get_input_voltage_filtered m"
  "fst (mc_interface_get_amp_hours False (average_read sel k m)) = fst (mc_interface_get_amp_hours False m)"
  "fst (mc_interface_get_amp_hours_charged False (average_read sel k m)) = fst (mc_interface_get_amp_hours_charged False m)"
  "fst (mc_interface_get_watt_hours False (average_read sel k m)) = fst (mc_interface_get_watt_hours False m)"
  "fst (mc_interface_get_watt_hours_charged False (average_read sel k m)) = fst (mc_interface_get_watt_hours_charged False m)"
  "fst (mc_interface_get_tachometer_value False (average_read sel k m)) = fst (mc_interface_get_tachometer_value False m)"
  "fst (mc_interface_get_tachometer_abs_value False (average_read sel k m)) = fst (mc_interface_get_tachometer_abs_value False m)"
  "mc_interface_get_fault (average_read sel k m) = mc_interface_get_fault m"
  "mc_interface_get_pid_pos_now (average_read sel k m) = mc_interface_get_pid_pos_now m"
  unfolding mc_interface_temp_fet_filtered_def mc_interface_temp_motor_filtered_def mc_interface_get_duty_cycle_now_def
    mc_interface_get_rpm_def mc_interface_get_input_voltage_filtered_def mc_interface_get_amp_hours_def mc_interface_get_amp_hours_charged_def
    mc_interface_get_watt_hours_def mc_interface_get_watt_hours_charged_def mc_interface_get_tachometer_value_def
    mc_interface_get_tachometer_abs_value_def mc_interface_get_fault_def mc_interface_get_pid_pos_now_def view_def by_type_def DIR_MULT_def
    steps_dir_def average_core fst_conv
  by (rule refl)+

lemma average_others:
  "k \<noteq> 3 \<Longrightarrow> fst (mc_interface_read_reset_avg_input_current (average_read sel k m)) = fst (mc_interface_read_reset_avg_input_current m)"
  "k \<noteq> 4 \<Longrightarrow> fst (mc_interface_read_reset_avg_id (average_read sel k m)) = fst (mc_interface_read_reset_avg_id m)"
  "k \<noteq> 5 \<Longrightarrow> fst (mc_interface_read_reset_avg_iq (average_read sel k m)) = fst (mc_interface_read_reset_avg_iq m)"
  "k \<noteq> 19 \<Longrightarrow> fst (mc_interface_read_reset_avg_vd (average_read sel k m)) = fst (mc_interface_read_reset_avg_vd m)"
  "k \<noteq> 20 \<Longrightarrow> fst (mc_interface_read_reset_avg_vq (average_read sel k m)) = fst (mc_interface_read_reset_avg_vq m)"
  by (simp_all add: average_read_def mc_interface_read_reset_avg_input_current_def mc_interface_read_reset_avg_id_def
      mc_interface_read_reset_avg_iq_def mc_interface_read_reset_avg_vd_def mc_interface_read_reset_avg_vq_def DIR_MULT_def)

lemma writes_cong: "writes w e u \<Longrightarrow> (\<And>m. e m = e' m) \<Longrightarrow> (\<And>m. u m = u' m) \<Longrightarrow> writes w e' u'"
  by (simp add: writes_def)

text \<open>The steps that read an average, and those that only read.\<close>

lemma writes_average:
  "writes (masked sel 2 (put32 mc_interface_read_reset_avg_motor_current sc))
     (\<lambda>m. if mask_bit sel 2 then field32 (fst (mc_interface_read_reset_avg_motor_current m)) sc else []) (average_read sel 2)"
  "writes (masked sel 3 (put32 mc_interface_read_reset_avg_input_current sc))
     (\<lambda>m. if mask_bit sel 3 then field32 (fst (mc_interface_read_reset_avg_input_current m)) sc else []) (average_read sel 3)"
  "writes (masked sel 4 (put32 mc_interface_read_reset_avg_id sc))
     (\<lambda>m. if mask_bit sel 4 then field32 (fst (mc_interface_read_reset_avg_id m)) sc else []) (average_read sel 4)"
  "writes (masked sel 5 (put32 mc_interface_read_reset_avg_iq sc))
     (\<lambda>m. if mask_bit sel 5 then field32 (fst (mc_interface_read_reset_avg_iq m)) sc else []) (average_read sel 5)"
  "writes (masked sel 19 (put32 mc_interface_read_reset_avg_vd sc))
     (\<lambda>m. if mask_bit sel 19 then field32 (fst (mc_interface_read_reset_avg_vd m)) sc else []) (average_read sel 19)"
  "writes (masked sel 20 (put32 mc_interface_read_reset_avg_vq sc))
     (\<lambda>m. if mask_bit sel 20 then field32 (fst (mc_interface_read_reset_avg_vq m)) sc else []) (average_read sel 20)"
  by (rule writes_cong [OF writes_masked [OF writes_put(2)]];
      simp add: field32_def average_read_def mc_interface_read_reset_avg_motor_current_def mc_interface_read_reset_avg_input_current_def
        mc_interface_read_reset_avg_id_def mc_interface_read_reset_avg_iq_def mc_interface_read_reset_avg_vd_def mc_interface_read_reset_avg_vq_def)+

lemma writes_reading:
  assumes "\<And>m. snd (h m) = m"
  shows "writes (masked sel k (put16 h sc)) (\<lambda>m. if mask_bit sel k then field16 (fst (h m)) sc else []) (\<lambda>m. m)"
    and "writes (masked sel k (put32 h sc)) (\<lambda>m. if mask_bit sel k then field32 (fst (h m)) sc else []) (\<lambda>m. m)"
  by (rule writes_cong [OF writes_masked [OF writes_put(1)]]; simp add: assms field16_def)
    (rule writes_cong [OF writes_masked [OF writes_put(2)]]; simp add: assms field32_def)

lemma writes_reading_int:
  assumes "\<And>m. snd (h m) = m"
  shows "writes (masked sel k (put_int h)) (\<lambda>m. if mask_bit sel k then be32 (word_of_int (fst (h m))) else []) (\<lambda>m. m)"
  by (rule writes_cong [OF writes_masked [OF writes_put(3)]]; simp add: assms)

lemma snd_still: "snd (still g m) = m" "fst (still g m) = g m"
  by (simp_all add: still_def)

lemma writes_u8: "writes (masked sel k (put_u8 u)) (\<lambda>m. if mask_bit sel k then [u m] else []) (\<lambda>m. m)"
  by (rule writes_cong [OF writes_masked [OF writes_put(4)]]; simp)

lemma writes_mos [intro]:
  "writes (put_mos t) (\<lambda>m. case t of (a, b, c) \<Rightarrow> field16 a (Num 10) @ field16 b (Num 10) @ field16 c (Num 10)) (\<lambda>m. m)"
proof -
  obtain a b c where t: "t = (a, b, c)" by (cases t)
  have w: "writes (put16 (still (\<lambda>_. v)) (Num 10)) (\<lambda>m. field16 v (Num 10)) (\<lambda>m. m)" for v
    using writes_put(1) [of "still (\<lambda>_. v)" "Num 10"] by (simp add: still_def field16_def)
  have "put_mos t = (\<lambda>x. Option.bind (put16 (still (\<lambda>_. a)) (Num 10) x) (\<lambda>x. Option.bind (put16 (still (\<lambda>_. b)) (Num 10) x)
      (put16 (still (\<lambda>_. c)) (Num 10))))"
    by (simp add: fun_eq_iff t put_mos_def)
  then show ?thesis using writes_bind [OF w [of a] writes_bind [OF w [of b] w [of c]]] by (simp add: t)
qed

lemma writes_mos_masked:
  "writes (masked sel k (put_mos t))
     (\<lambda>m. if mask_bit sel k then (case t of (a, b, c) \<Rightarrow> field16 a (Num 10) @ field16 b (Num 10) @ field16 c (Num 10)) else []) (\<lambda>m. m)"
  by (rule writes_cong [OF writes_masked [OF writes_mos]]) simp_all

lemma selected_simps:
  "selected sel [] = []" "selected sel ((k, b) # fs) = (if mask_bit sel k then b else []) @ selected sel fs"
  by (simp_all add: selected_def)

lemma reads_only:
  "snd (mc_interface_get_amp_hours False m) = m" "snd (mc_interface_get_amp_hours_charged False m) = m"
  "snd (mc_interface_get_watt_hours False m) = m" "snd (mc_interface_get_watt_hours_charged False m) = m"
  "snd (mc_interface_get_tachometer_value False m) = m" "snd (mc_interface_get_tachometer_abs_value False m) = m"
  by (simp_all add: mc_interface_get_amp_hours_def mc_interface_get_amp_hours_charged_def mc_interface_get_watt_hours_def
      mc_interface_get_watt_hours_charged_def mc_interface_get_tachometer_value_def mc_interface_get_tachometer_abs_value_def)

lemmas average_steps =
  average_others(1) [of 2, simplified] average_others(2) [of 2, simplified] average_others(2) [of 3, simplified] average_others(3) [of 2, simplified]
  average_others(3) [of 3, simplified] average_others(3) [of 4, simplified] average_others(4) [of 2, simplified] average_others(4) [of 3, simplified]
  average_others(4) [of 4, simplified] average_others(4) [of 5, simplified] average_others(5) [of 2, simplified] average_others(5) [of 3, simplified]
  average_others(5) [of 4, simplified] average_others(5) [of 5, simplified] average_others(5) [of 19, simplified]

lemma mot_fields: "mot (s\<lparr>mot := m\<rparr>) = m" "controller_no (s\<lparr>mot := m\<rparr>) = controller_no s" "temps_mos (s\<lparr>mot := m\<rparr>) = temps_mos s"
  "sup (s\<lparr>mot := m\<rparr>) = sup s"
  by simp_all

lemmas reading_steps =
  writes_reading [OF snd_still(1)] writes_reading [OF reads_only(1)] writes_reading [OF reads_only(2)] writes_reading [OF reads_only(3)]
  writes_reading [OF reads_only(4)] writes_reading_int [OF reads_only(5)] writes_reading_int [OF reads_only(6)] writes_u8

lemma values_updates:
  "writes (put_values sel s) (\<lambda>m. selected sel (value_fields (s\<lparr>mot := m\<rparr>))) (averages_read sel)"
  apply (rule writes_cong)
    apply (unfold put_values_def [abs_def])
    apply (rule writes_bind writes_average reading_steps writes_mos_masked)+
   apply (unfold value_fields_def selected_simps Let_def average_frame average_steps mot_fields snd_still append_Nil2)
   apply (rule refl)
  apply (simp add: averages_read_def)
  done

lemma field_lengths [simp]: "length (field16 v sc) = 2" "length (field32 v sc) = 4"
  by (simp_all add: field16_def field32_def)

lemma selected_length: "length (selected sel fs) \<le> length (concat (map snd fs))"
  by (induction fs) (auto simp: selected_def)

lemma values_length: "length (selected sel (value_fields s)) \<le> 73"
  by (rule order_trans [OF selected_length]) (simp add: value_fields_def Let_def split: prod.split)

lemma put_values_exact:
  assumes "length b = 512" and "i \<le> 5"
  shows "put_values sel s (b, i, mot s) =
    Some (take i b @ selected sel (value_fields s) @ drop (i + length (selected sel (value_fields s))) b,
      i + length (selected sel (value_fields s)), averages_read sel (mot s))"
proof -
  have "i + length (selected sel (value_fields s)) \<le> length b" using values_length [of sel s] assms by simp
  moreover have "s\<lparr>mot := mot s\<rparr> = s" by simp
  ultimately show ?thesis using values_updates [of sel s] assms by (simp add: writes_def write_bytes_def)
qed

lemma packet_buffer: "replicate 512 (0 :: u8) = 0 # replicate 511 0"
  using replicate_Suc [of 511 "0 :: u8"] by simp

lemma value_fields_frame:
  "value_fields (s\<lparr>send_func := a\<rparr>) = value_fields s" "value_fields (s\<lparr>send_func_can_fwd := a\<rparr>) = value_fields s"
  by (simp_all add: value_fields_def)

lemma get_values_all:
  "get_values COMM_GET_VALUES data reply s =
     Some (reply_to reply (COMM_GET_VALUES # selected 0xFFFFFFFF (value_fields s)) (s\<lparr>mot := averages_read 0xFFFFFFFF (mot s)\<rparr>))"
proof -
  have p: "put_byte (replicate 512 0) 0 COMM_GET_VALUES = Some (COMM_GET_VALUES # replicate 511 0, 1)"
    by (simp add: put_byte_def packet_buffer)
  have n: "COMM_GET_VALUES \<noteq> COMM_GET_VALUES_SELECTIVE" by (simp add: comm_ids)
  show ?thesis using put_values_exact [of "COMM_GET_VALUES # replicate 511 0" 1 "0xFFFFFFFF" s] n by (simp add: get_values_def p)
qed

lemma get_values_selective:
  assumes g: "buffer_get_uint32 data 0 = Some (sel, 4)"
  shows "get_values COMM_GET_VALUES_SELECTIVE data reply s =
     Some (reply_to reply (COMM_GET_VALUES_SELECTIVE # be32 sel @ selected sel (value_fields s)) (s\<lparr>mot := averages_read sel (mot s)\<rparr>))"
proof -
  have p: "put_byte (replicate 512 0) 0 COMM_GET_VALUES_SELECTIVE = Some (COMM_GET_VALUES_SELECTIVE # replicate 511 0, 1)"
    by (simp add: put_byte_def packet_buffer)
  have q: "buffer_append_uint32 (COMM_GET_VALUES_SELECTIVE # replicate 511 0) sel (Suc 0) =
      Some (COMM_GET_VALUES_SELECTIVE # be32 sel @ replicate 507 0, 5)"
    by (simp add: append32_write write_bytes_def)
  have t: "take (5 + length ys) (x # be32 sel @ ys @ zs) = x # be32 sel @ ys" for x ys and zs :: bytes
    using append_eq_conv_conj [of "x # be32 sel @ ys" zs "(x # be32 sel @ ys) @ zs"] by simp
  show ?thesis
    using put_values_exact [of "COMM_GET_VALUES_SELECTIVE # be32 sel @ replicate 507 0" 5 sel s] by (simp add: get_values_def p q g t)
qed

text \<open>C34. The reply to the command for the values contains exactly the selected fields, in the order of their numbers, each
  computed from the state at the command (reading one average does not disturb the
  others), fits the packet, and exactly the averages that were sent start anew.\<close>

theorem values_reply_exact:
  "\<exists>t. commands_process_packet f (COMM_GET_VALUES_SELECTIVE # be32 sel @ rest) 5 (Some (Port p)) s = Some t \<and>
     replies t = replies s @ [(Port p, COMM_GET_VALUES_SELECTIVE # be32 sel @ selected sel (value_fields s))] \<and>
     length (selected sel (value_fields s)) \<le> 73 \<and> mot t = averages_read sel (mot s)"
proof -
  have g: "buffer_get_uint32 (be32 sel @ rest) 0 = Some (sel, 4)" using get32_be(2) [of "[]" sel rest] by simp
  show ?thesis using values_length [of sel s]
    by (simp add: commands_process_packet_def get_byte_def dispatch_def get_values_selective [OF g] reply_to_def Let_def value_fields_frame)
      (simp add: comm_ids)
qed

section \<open>Emergency stop\<close>

text \<open>\<open>calm n m m'\<close>: nothing moved, and commands are refused for \<open>n\<close> more milliseconds.\<close>

definition calm :: "int \<Rightarrow> motor \<Rightarrow> motor \<Rightarrow> bool" where
  "calm n m m' \<longleftrightarrow> drives m' = drives m \<and> m_fault_stop_time_ms (m_conf m') = m_fault_stop_time_ms (m_conf m) \<and> n \<le> m_ignore_iterations m'"

lemma kept_calm: "kept False n m m' \<Longrightarrow> 0 < n \<Longrightarrow> calm n m m'"
  by (simp add: kept_def calm_def closed_def steady_def)

lemma configuration_calm:
  assumes "n \<le> m_ignore_iterations m" and "n \<le> m_fault_stop_time_ms (m_conf m)"
    and "motor_type cfg = motor_type (m_conf m)" and "m_fault_stop_time_ms cfg = m_fault_stop_time_ms (m_conf m)"
  shows "calm n m (mc_interface_set_configuration cfg m)"
proof -
  let ?c = "configured (applied m cfg) m"
  have a: "motor_type (applied m cfg) = motor_type (m_conf m)" "m_fault_stop_time_ms (applied m cfg) = m_fault_stop_time_ms (m_conf m)"
    using assms(3,4) by (simp_all add: applied_def)
  have c: "drives ?c = drives m" "m_ignore_iterations ?c = m_ignore_iterations m" "m_conf ?c = applied m cfg"
    using a by (simp_all add: configured_def Let_def)
  have "\<exists>x. mc_interface_set_configuration cfg m =
      (to_pwm (Some (Pwm_set_configuration (m_conf (update_override_limits ?c)))) (Some (Pwm_set_configuration (m_conf (update_override_limits ?c))))
        (update_override_limits ?c))\<lparr>m_bms := x\<rparr>"
    unfolding mc_interface_set_configuration_def configured_def applied_def Let_def by (intro exI) simp
  then have "m_ignore_iterations (mc_interface_set_configuration cfg m) = m_ignore_iterations (update_override_limits ?c)"
    by (auto simp: to_pwm_def by_type_def split: mc_motor_type.split)
  moreover have "steady ?c (mc_interface_set_configuration cfg m)" by (rule steady_configuration)
  ultimately show ?thesis using later_limits [of ?c] c a assms by (auto simp: calm_def steady_def later_def)
qed

text \<open>The kill switch is configured in the same way.\<close>

definition same_switch :: "supervisor \<Rightarrow> supervisor \<Rightarrow> bool" where
  "same_switch g h \<longleftrightarrow> timeout_kill_sw_mode h = timeout_kill_sw_mode g \<and> kill_sw_ext_set h = kill_sw_ext_set g"

lemma same_switch [simp]: "same_switch g g" "same_switch g (timeout_reset t g)"
  by (simp_all add: same_switch_def timeout_reset_def)

lemma same_switch_kill: "same_switch g h \<Longrightarrow> kill_switch i h = kill_switch i g"
  by (simp add: same_switch_def kill_switch_def)

definition commanded :: "int \<Rightarrow> firmware \<Rightarrow> firmware option \<Rightarrow> bool" where
  "commanded n s r \<longleftrightarrow>
     (\<exists>t. r = Some t \<and> calm n (mot s) (mot t) \<and> sampler_ok (scope t) \<and> same_switch (sup s) (sup t))"

lemma calm_refl: "n \<le> m_ignore_iterations m \<Longrightarrow> calm n m m"
  by (simp add: calm_def)

lemma calm_trans: "calm n m m' \<Longrightarrow> calm n m' m'' \<Longrightarrow> calm n m m''"
  by (simp add: calm_def)

lemma reply_fields [simp]: "mot (reply_to p b s) = mot s" "scope (reply_to p b s) = scope s" "send_func_sample (reply_to p b s) = send_func_sample s"
  "sup (reply_to p b s) = sup s"
  by (simp_all add: reply_to_def split: port.split)

lemma fold_reply [simp]: "mot (fold (reply_to p) bs s) = mot s" "scope (fold (reply_to p) bs s) = scope s" "sup (fold (reply_to p) bs s) = sup s"
  by (induction bs arbitrary: s) simp_all

lemma get_some:
  assumes "12 \<le> length data"
  shows "\<exists>w. buffer_get_int32 data 0 = Some (w, 4)" "\<exists>w. buffer_get_uint32 data 0 = Some (w, 4)" "\<exists>w. buffer_get_int32 data 4 = Some (w, 8)"
    "\<exists>w. buffer_get_uint16 data 0 = Some (w, 2)" "\<exists>w. buffer_get_uint16 data 1 = Some (w, 3)"
    "\<And>i. i < 12 \<Longrightarrow> \<exists>b. get_byte data i = Some b"
proof -
  show b: "\<And>i. i < 12 \<Longrightarrow> \<exists>b. get_byte data i = Some b" using assms by (simp add: get_byte_def)
  show "\<exists>w. buffer_get_int32 data 0 = Some (w, 4)" "\<exists>w. buffer_get_uint32 data 0 = Some (w, 4)" "\<exists>w. buffer_get_int32 data 4 = Some (w, 8)"
    "\<exists>w. buffer_get_uint16 data 0 = Some (w, 2)" "\<exists>w. buffer_get_uint16 data 1 = Some (w, 3)"
    using b [of 0] b [of 1] b [of 2] b [of 3] b [of 4] b [of 5] b [of 6] b [of 7]
    by (auto simp: buffer_get_int32_def buffer_get_uint32_def buffer_get_uint16_def numeral_2_eq_2 numeral_3_eq_3)
qed

lemma average_calm:
  "drives (average_read sel k m) = drives m" "m_conf (average_read sel k m) = m_conf m"
  "m_ignore_iterations (average_read sel k m) = m_ignore_iterations m"
  by (simp_all add: average_read_def drives_def)

lemma averages_calm: "n \<le> m_ignore_iterations m \<Longrightarrow> calm n m (averages_read sel m)"
  by (simp add: averages_read_def average_calm calm_def)

lemma values_commanded:
  assumes "12 \<le> length data" and "n \<le> m_ignore_iterations (mot s)" and "sampler_ok (scope s)"
    and "packet_id = COMM_GET_VALUES \<or> packet_id = COMM_GET_VALUES_SELECTIVE"
  shows "commanded n s (get_values packet_id data reply s)"
proof -
  obtain sel where g: "buffer_get_uint32 data 0 = Some (sel, 4)" using get_some(2) [OF assms(1)] by blast
  show ?thesis using assms(3,4) averages_calm [OF assms(2)]
    by (auto simp: commanded_def get_values_all get_values_selective [OF g])
qed

lemma driven_commanded:
  assumes "calm n (mot s) (f (mot s))" and "sampler_ok (scope s)" and "\<exists>x. r = Some x"
  shows "commanded n s (map_option (\<lambda>x. drive_motor f s) r)"
  using assms by (auto simp: commanded_def drive_motor_def)

lemma requests_commanded:
  assumes "\<And>x. calm n (mot s) (f x (mot s))" and "sampler_ok (scope s)" and "12 \<le> length data"
  shows "commanded n s (map_option (\<lambda>x. drive_motor (f x) s) (arg_scaled data d))"
    "commanded n s (map_option (\<lambda>x. drive_motor (f x) s) (arg_int data))"
  using assms get_some(1) [OF assms(3)] by (auto simp: commanded_def drive_motor_def arg_scaled_def arg_int_def)

lemma battery_commanded:
  assumes "12 \<le> length data" and "n \<le> m_ignore_iterations (mot s)" and "n \<le> m_fault_stop_time_ms (m_conf (mot s))" and "sampler_ok (scope s)"
  shows "commanded n s (set_battery_cut packet_id data reply s)" "commanded n s (get_battery_cut packet_id reply s)"
proof -
  obtain w v store fwd where g: "buffer_get_int32 data 0 = Some (w, 4)" "buffer_get_int32 data 4 = Some (v, 8)"
    "get_byte data 8 = Some store" "get_byte data 9 = Some fwd"
    using get_some(1,3) [OF assms(1)] get_some(6) [OF assms(1), of 8] get_some(6) [OF assms(1), of 9] by auto
  define start where "start = fdiv (f_of_int (sint w)) 1000"
  define stop where "stop = fdiv (f_of_int (sint v)) 1000"
  define cfg where "cfg = (m_conf (mot s))\<lparr>l_battery_cut_start := Num start, l_battery_cut_end := Num stop\<rparr>"
  have c: "calm n (mot s) (mc_interface_set_configuration cfg m)"
    if "drives m = drives (mot s)" "m_conf m = m_conf (mot s)" "m_ignore_iterations m = m_ignore_iterations (mot s)" for m
    using configuration_calm [of n m cfg] that assms(2,3) by (simp add: cfg_def calm_def)
  have i: "drives (issue (Store_mc_configuration x) (mot s)) = drives (mot s)" for x by simp
  show "commanded n s (set_battery_cut packet_id data reply s)"
    using c [of "mot s"] c [of "issue (Store_mc_configuration cfg) (mot s)"] assms(2,4)
    by (auto simp: set_battery_cut_def buffer_get_float32_def g start_def [symmetric] stop_def [symmetric] cfg_def [symmetric] commanded_def Let_def calm_refl)
  have "replicate 60 (0 :: u8) = 0 # replicate 59 0" using replicate_Suc [of 59 "0 :: u8"] by simp
  then show "commanded n s (get_battery_cut packet_id reply s)"
    using assms(2,4) by (simp add: get_battery_cut_def put_byte_def put32_def append32_write write_bytes_def commanded_def calm_refl still_def)
qed

lemma sample_commanded:
  assumes "12 \<le> length data" and "n \<le> m_ignore_iterations (mot s)" and "sampler_ok (scope s)" and "send_func s = Some p"
  shows "commanded n s (sample_print f data len s)"
proof -
  obtain mode w d raw where g: "get_byte data 0 = Some mode" "buffer_get_uint16 data 1 = Some (w, 3)" "get_byte data 3 = Some d" "get_byte data 4 = Some raw"
    using get_some(5) [OF assms(1)] get_some(6) [OF assms(1), of 0] get_some(6) [OF assms(1), of 3] get_some(6) [OF assms(1), of 4] by auto
  define r where "r = (if len > 4 then raw else 0)"
  obtain ps t where t: "mc_interface_sample_print_data f (sampling_mode (unat mode)) w d (r \<noteq> 0) (scope s) = Some (ps, t)" "sampler_ok t"
    using print_ok [OF assms(3)] by blast
  have "sample_print f data len s = send_samples ps (s\<lparr>send_func_sample := send_func s, scope := t\<rparr>)"
    unfolding sample_print_def using t(1) g by (cases "len > 4") (simp_all add: r_def)
  then show ?thesis using t(2) assms(2,4) by (simp add: send_samples_def commanded_def calm_refl)
qed

lemma calm_command:
  assumes "0 < n" and "n \<le> m_ignore_iterations (mot s)" and "n \<le> MCPWM_DETECT_STOP_TIME"
  shows "calm n (mot s) (mc_interface_set_duty x (mot s))" "calm n (mot s) (mc_interface_set_current x (mot s))"
    "calm n (mot s) (mc_interface_set_brake_current x (mot s))" "calm n (mot s) (mc_interface_set_pid_speed x (mot s))"
    "calm n (mot s) (mc_interface_set_pid_pos x (mot s))" "calm n (mot s) (mc_interface_set_handbrake x (mot s))"
    "calm n (mot s) (mc_interface_set_current_rel x (mot s))"
proof -
  have c: "closed False n (mot s)" using assms by (simp add: closed_def)
  show "calm n (mot s) (mc_interface_set_duty x (mot s))" "calm n (mot s) (mc_interface_set_current x (mot s))"
    "calm n (mot s) (mc_interface_set_brake_current x (mot s))" "calm n (mot s) (mc_interface_set_pid_speed x (mot s))"
    "calm n (mot s) (mc_interface_set_pid_pos x (mot s))" "calm n (mot s) (mc_interface_set_handbrake x (mot s))"
    "calm n (mot s) (mc_interface_set_current_rel x (mot s))"
    by (rule kept_calm [OF _ assms(1)]; rule single_kept [OF c assms(3)] pair_kept [OF c assms(3)])+
qed

lemma dispatch_commanded:
  assumes "0 < n" and "n \<le> m_ignore_iterations (mot s)" and "n \<le> m_fault_stop_time_ms (m_conf (mot s))" and "n \<le> MCPWM_DETECT_STOP_TIME"
    and "sampler_ok (scope s)" and "12 \<le> length data" and "send_func s = Some p" and "packet_id \<noteq> COMM_MOTOR_ESTOP"
  shows "commanded n s (dispatch f packet_id data len reply s)"
proof -
  note c = calm_command [OF assms(1,2,4)]
  have r: "commanded n s (map_option (\<lambda>x. drive_motor (g x) s) (arg_scaled data d)) \<and>
           commanded n s (map_option (\<lambda>x. drive_motor (g x) s) (arg_int data))"
    if "g \<in> {mc_interface_set_duty, mc_interface_set_current, mc_interface_set_brake_current, mc_interface_set_pid_speed,
      mc_interface_set_pid_pos, mc_interface_set_handbrake, mc_interface_set_current_rel}" for g d
  proof -
    have "calm n (mot s) (g x (mot s))" for x using that c [of x] by auto
    then show ?thesis using requests_commanded(1) [of n s g data d] requests_commanded(2) [of n s g data] assms(5,6) by blast
  qed
  obtain w where w: "buffer_get_uint32 data 0 = Some (w, 4)" using get_some(2) [OF assms(6)] by blast
  have o: "calm n (mot s) (mc_interface_set_odometer v (mot s))" "calm n (mot s) (issue Shutdown_reset_timer (mot s))" for v
    using assms(2) by (simp_all add: mc_interface_set_odometer_def calm_def drives_def issue_def)
  have m: "commanded n s (Some (drive_motor g s))" if "calm n (mot s) (g (mot s))" for g
    using that assms(5) by (simp add: commanded_def drive_motor_def)
  have h: "commanded n s (Some (s\<lparr>outs := x\<rparr>))" for x using assms(2,5) by (simp add: commanded_def calm_refl)
  show ?thesis
    unfolding dispatch_def
    using r values_commanded [OF assms(6,2,5)] battery_commanded [OF assms(6,2,3,5)] sample_commanded [OF assms(6,2,5,7)] assms(8)
    by (simp add: w m o h)
qed

lemma frame_commanded:
  assumes "commanded n s' r" and "mot s' = mot s" and "sup s' = sup s"
  shows "commanded n s r"
  using assms by (auto simp: commanded_def)

lemma process_commanded:
  assumes "0 < n" and "n \<le> m_ignore_iterations (mot s)" and "n \<le> m_fault_stop_time_ms (m_conf (mot s))" and "n \<le> MCPWM_DETECT_STOP_TIME"
    and "sampler_ok (scope s)" and "13 \<le> length memo" and "hd memo \<noteq> COMM_MOTOR_ESTOP"
  shows "commanded n s (commands_process_packet f memo len (Some p) s)"
proof (cases "len = 0")
  case True
  then show ?thesis using assms(2,5) by (simp add: commands_process_packet_def commanded_def calm_refl)
next
  case False
  obtain i data where m: "memo = i # data" using assms(6) by (cases memo) simp_all
  have l: "12 \<le> length data" using assms(6) m by simp
  define t where "t = (if i = COMM_EXT_NRF_PRESENT \<or> i = COMM_EXT_NRF_ESB_RX_DATA then s\<lparr>send_func_nrf := Some p\<rparr>
                 else if i \<noteq> COMM_LISP_RMSG then s\<lparr>send_func := Some p\<rparr> else s)"
  define u where "u = (if send_func_can_fwd t = None then t\<lparr>send_func_can_fwd := Some p\<rparr> else t)"
  have u: "mot u = mot s" "sup u = sup s" "scope u = scope s"
    by (simp_all add: u_def t_def)
  have e: "commands_process_packet f memo len (Some p) s = dispatch f i data (len - 1) p u"
    using False unfolding commands_process_packet_def u_def t_def m by (simp add: get_byte_def Let_def)
  have "commanded n u (dispatch f i data (len - 1) p u)"
  proof (cases "i = COMM_EXT_NRF_PRESENT \<or> i = COMM_EXT_NRF_ESB_RX_DATA \<or> i = COMM_LISP_RMSG")
    case True
    then have "dispatch f i data (len - 1) p u = Some (u\<lparr>outs := outs u @ [Handed_on i]\<rparr>)" by (auto simp: dispatch_def comm_ids)
    then show ?thesis using assms(2,5) u by (simp add: commanded_def calm_refl)
  next
    case False
    have "send_func u = Some p" using False by (simp add: u_def t_def)
    then show ?thesis using dispatch_commanded [of n u data p i] assms l m u by simp
  qed
  then show ?thesis using frame_commanded u(1,2) e by simp
qed

text \<open>A history: packets of any interface, with the time at which they are processed, steps of the motor
  interface, and rounds of the supervising thread.\<close>

datatype happening = Command u32 bytes nat port | Motor_event event | Supervisor reading

fun happen :: "float32 \<Rightarrow> happening \<Rightarrow> firmware \<Rightarrow> firmware option" where
  "happen f (Command t memo len reply) s = commands_process_packet f memo len (Some reply) (s\<lparr>clock := t\<rparr>)"
| "happen f (Motor_event e) s = Some (s\<lparr>mot := step e (mot s)\<rparr>)"
| "happen f (Supervisor i) s = (let (g, m) = timeout_thread i (sup s, mot s) in Some (s\<lparr>sup := g, mot := m\<rparr>))"

fun happen_all :: "float32 \<Rightarrow> happening list \<Rightarrow> firmware \<Rightarrow> firmware option" where
  "happen_all f [] s = Some s"
| "happen_all f (h # hs) s = do { s \<leftarrow> happen f h s; happen_all f hs s }"

text \<open>The commands whose effects are modelled, without the emergency stop itself.\<close>

definition quiet_commands :: "u8 list" where
  "quiet_commands = [COMM_GET_VALUES, COMM_GET_VALUES_SELECTIVE, COMM_SET_DUTY, COMM_SET_CURRENT, COMM_SET_CURRENT_BRAKE, COMM_SET_RPM,
     COMM_SET_POS, COMM_SET_HANDBRAKE, COMM_SAMPLE_PRINT, COMM_ALIVE, COMM_SET_ODOMETER, COMM_SET_CURRENT_REL, COMM_SET_BATTERY_CUT,
     COMM_GET_BATTERY_CUT]"

lemma quiet_not_estop: "i \<in> set quiet_commands \<Longrightarrow> i \<noteq> COMM_MOTOR_ESTOP"
  by (auto simp: quiet_commands_def comm_ids)

text \<open>What may happen during an emergency stop: one of these commands, with its arguments in memory, but no battery limits that are
  to be stored (the store at the end sets the ignored time to 100 ms, which the call recorded in the model does not); a step of the interface
  that neither sets the ignored time nor the configuration; a round of the supervising thread
  without a pressed kill switch (which would set the ignored time to 20 ms).\<close>

fun harmless :: "supervisor \<Rightarrow> happening \<Rightarrow> bool" where
  "harmless g (Command t memo len reply) = (13 \<le> length memo \<and> hd memo \<in> set quiet_commands \<and>
     (hd memo = COMM_SET_BATTERY_CUT \<longrightarrow> memo ! 9 = 0))"
| "harmless g (Motor_event e) = keeps_time e"
| "harmless g (Supervisor i) = (\<not> kill_switch i g)"

fun ticks :: "happening list \<Rightarrow> nat" where
  "ticks [] = 0"
| "ticks (Motor_event e # hs) = (if is_tick e then 1 else 0) + ticks hs"
| "ticks (_ # hs) = ticks hs"

lemma supervisor_commanded:
  assumes "0 < n" and "n \<le> m_ignore_iterations (mot s)" and "n \<le> MCPWM_DETECT_STOP_TIME" and "sampler_ok (scope s)" and "\<not> kill_switch i (sup s)"
  shows "commanded n s (happen f (Supervisor i) s)"
proof -
  have c: "closed False n (mot s)" using assms(1,2) by (simp add: closed_def)
  have "calm n (mot s) (stop_motors (sup s) (mot s))"
    using stop_motors_kept [OF c assms(3)] assms(1) by (simp add: calm_def closed_def)
  then show ?thesis using assms(2,4,5)
    by (simp add: timeout_thread_def commanded_def calm_refl Let_def check_threads_def same_switch_def)
qed

lemma motor_commanded:
  assumes "0 < n" and "n \<le> m_ignore_iterations (mot s)" and "n \<le> m_fault_stop_time_ms (m_conf (mot s))" and "n \<le> MCPWM_DETECT_STOP_TIME"
    and "sampler_ok (scope s)" and "keeps_time e" and "is_tick e \<Longrightarrow> 1 < n"
  shows "commanded (if is_tick e then n - 1 else n) s (happen f (Motor_event e) s)"
  using held_step [of n "mot s" e] assms by (auto simp: commanded_def calm_def closed_def split: if_splits)

lemma held_history:
  assumes "int (ticks hs) < n" and "n \<le> m_ignore_iterations (mot s)" and "n \<le> m_fault_stop_time_ms (m_conf (mot s))" and "n \<le> MCPWM_DETECT_STOP_TIME"
    and "sampler_ok (scope s)" and "list_all (harmless (sup s)) hs"
  shows "\<exists>t. happen_all f hs s = Some t \<and> drives (mot t) = drives (mot s)"
  using assms
proof (induction hs arbitrary: s n)
  case (Cons h hs)
  define k where "k = (case h of Motor_event e \<Rightarrow> if is_tick e then n - 1 else n | _ \<Rightarrow> n)"
  have k: "int (ticks hs) < k" "k \<le> n" using Cons.prems(1) by (auto simp: k_def split: happening.split if_splits)
  have n: "0 < n" using Cons.prems(1) by linarith
  have "commanded k s (happen f h s)"
  proof (cases h)
    case (Command t memo len reply)
    have "commanded n (s\<lparr>clock := t\<rparr>) (happen f h s)"
      using process_commanded [of n "s\<lparr>clock := t\<rparr>" memo] Cons.prems Command n quiet_not_estop by simp
    then show ?thesis using frame_commanded [of n "s\<lparr>clock := t\<rparr>"] Command by (simp add: k_def)
  next
    case (Motor_event e)
    then show ?thesis using motor_commanded [of n s e f] Cons.prems n by (cases "is_tick e") (simp_all add: k_def)
  next
    case (Supervisor i)
    then show ?thesis using supervisor_commanded [of n s i f] Cons.prems n by (simp add: k_def)
  qed
  then obtain t where t: "happen f h s = Some t" "calm k (mot s) (mot t)" "sampler_ok (scope t)" "same_switch (sup s) (sup t)"
    by (auto simp: commanded_def)
  have "harmless (sup t) = harmless (sup s)"
    using same_switch_kill [OF t(4)] by (intro ext, rename_tac x, case_tac x) simp_all
  then have "\<exists>u. happen_all f hs t = Some u \<and> drives (mot u) = drives (mot t)"
    using t Cons.prems k by (intro Cons.IH [of k]) (simp_all add: calm_def)
  then show ?case using t by (auto simp: calm_def)
qed simp

lemma estop_process:
  "\<exists>u. commands_process_packet f (COMM_MOTOR_ESTOP # be16 t @ rest) 3 reply s = Some u \<and> sup u = sup s \<and> scope u = scope s \<and>
     mot u = mc_interface_release_motor_override_both (Motor_If.mc_interface_ignore_input_both (uint t) (mot s))"
proof -
  have "buffer_get_uint16 (be16 t @ rest) 0 = Some (t, 2)" using get16_be [of "[]" t rest] by simp
  then have e: "motor_estop (be16 t @ rest) u =
      Some (u\<lparr>mot := mc_interface_release_motor_override_both (Motor_If.mc_interface_ignore_input_both (uint t) (mot u))\<rparr>)" for u
    by (simp add: motor_estop_def)
  have d: "dispatch f COMM_MOTOR_ESTOP data len p u = motor_estop data u" for data len p u
    unfolding dispatch_def comm_ids by simp
  define u where "u = s\<lparr>send_func := reply\<rparr>"
  define w where "w = (if send_func_can_fwd u = None then u\<lparr>send_func_can_fwd := (case reply of Some p \<Rightarrow> Some p | None \<Rightarrow> Some Dummy)\<rparr> else u)"
  have w: "sup w = sup s" "scope w = scope s" "mot w = mot s" by (simp_all add: u_def w_def)
  have i: "COMM_MOTOR_ESTOP \<noteq> COMM_EXT_NRF_PRESENT" "COMM_MOTOR_ESTOP \<noteq> COMM_EXT_NRF_ESB_RX_DATA" "COMM_MOTOR_ESTOP \<noteq> COMM_LISP_RMSG"
    "COMM_MOTOR_ESTOP \<noteq> COMM_LISP_REPL_CMD" by (simp_all add: comm_ids)
  have "commands_process_packet f (COMM_MOTOR_ESTOP # be16 t @ rest) 3 reply s = motor_estop (be16 t @ rest) w"
    unfolding commands_process_packet_def w_def u_def Let_def by (cases reply) (simp_all add: get_byte_def i d)
  then show ?thesis using w by (simp add: e)
qed

text \<open>The time the command carries replaces the one that is running, whatever set that: the emergency stop with a time of
  0 lets the next request move the motor even while the kill switch is pressed or the time after a
  fault has not passed.\<close>

lemma estop_replaces_time:
  "\<exists>u. commands_process_packet f (COMM_MOTOR_ESTOP # be16 t @ rest) 3 reply s = Some u \<and> m_ignore_iterations (mot u) = uint t \<and> sup u = sup s"
proof -
  obtain u where u: "commands_process_packet f (COMM_MOTOR_ESTOP # be16 t @ rest) 3 reply s = Some u" "sup u = sup s"
    "mot u = mc_interface_release_motor_override_both (Motor_If.mc_interface_ignore_input_both (uint t) (mot s))"
    using estop_process [of f t rest reply s] by blast
  then show ?thesis
    by (simp add: mc_interface_release_motor_override_both_def override_issues) (simp add: Motor_If.mc_interface_ignore_input_both_def)
qed

text \<open>C33. The command for an emergency stop, with a time of at most half a second and at most the configured time after a fault,
  releases the motor at once, and for fewer timer ticks than it says no request moves the motor, and every packet is processed.
  In between may come: the fourteen other modelled commands (\<open>quiet_commands\<close>) with at least 13 bytes of memory from the start of the
  packet, battery limits only without storing them, every step of the interface that does not set the ignored time or the configuration, and rounds of the supervising thread
  in which the kill switch is not pressed. Not covered are a further emergency stop, the commands that are not modelled
  (\<^verbatim>\<open>COMM_SET_MCCONF\<close> for one shortens the ignored time), the storing of battery limits and the kill switch, which set the time anew.\<close>

theorem estop_holds:
  fixes hs
  assumes "uint t \<le> 500" and "uint t \<le> m_fault_stop_time_ms (m_conf (mot s))" and "sampler_ok (scope s)"
    and "list_all (harmless (sup s)) hs" and "int (ticks hs) < uint t"
  shows "\<exists>u v. commands_process_packet f (COMM_MOTOR_ESTOP # be16 t @ rest) 3 reply s = Some u \<and>
    issued (mot u) = issued (mot s) @ release_calls (mot s) @ release_calls (mot s) \<and>
    happen_all f hs u = Some v \<and> filter drive (issued (mot v)) = filter drive (issued (mot s))"
proof -
  obtain u where u: "commands_process_packet f (COMM_MOTOR_ESTOP # be16 t @ rest) 3 reply s = Some u" "sup u = sup s" "scope u = scope s"
    "mot u = mc_interface_release_motor_override_both (Motor_If.mc_interface_ignore_input_both (uint t) (mot s))"
    using estop_process [of f t rest reply s] by blast
  have c: "release_calls (mc_interface_release_motor_override m) = release_calls m" for m
    by (simp add: release_calls_def by_type_def)
  have "release_calls (Motor_If.mc_interface_ignore_input_both x m) = release_calls m" for x m
    by (simp add: release_calls_def by_type_def Motor_If.mc_interface_ignore_input_both_def)
  then have i: "issued (mot u) = issued (mot s) @ release_calls (mot s) @ release_calls (mot s)"
    by (simp add: u(4) mc_interface_release_motor_override_both_def override_issues c) (simp add: Motor_If.mc_interface_ignore_input_both_def)
  have m: "m_ignore_iterations (mot u) = uint t" "m_conf (mot u) = m_conf (mot s)" "drives (mot u) = drives (mot s)"
    by (simp_all add: u(4) mc_interface_release_motor_override_both_def override_issues) (simp_all add: Motor_If.mc_interface_ignore_input_both_def drives_def)
  obtain v where "happen_all f hs u = Some v" "drives (mot v) = drives (mot u)"
    using held_history [of hs "uint t" u f] assms m u by (auto simp: MCPWM_DETECT_STOP_TIME_def)
  then show ?thesis using u(1) i m(3) by (auto simp: drives_def)
qed

text \<open>A firmware for examples.\<close>

definition firmware0 :: firmware where
  "firmware0 = \<lparr>mot = motor0\<lparr>m_conf := conf0, foc_init := True\<rparr>, sup = supervisor0, scope = sampler0, controller_no = 12,
     temps_mos = (Num 30, Num 30, Num 30), clock = 0, send_func = None, send_func_nrf = None, send_func_can_fwd = None,
     send_func_sample = None, replies = [], outs = []\<rparr>"

theorem estop_holds_witness:
  "\<exists>u v. commands_process_packet 1 (COMM_MOTOR_ESTOP # be16 400 @ []) 3 None firmware0 = Some u \<and>
    issued (mot u) = issued (mot firmware0) @ release_calls (mot firmware0) @ release_calls (mot firmware0) \<and>
    happen_all 1 [Command 5 (encode (C_current 10000) @ replicate 8 0) 5 (Port 1), Motor_event (Tick (Num 9) (Num 1)),
        Supervisor \<lparr>now = 7, icu_pin = True, ext2 = 0\<rparr>, Command 9 (encode (C_duty 5) @ replicate 8 0) 5 (Port 2)] u = Some v \<and>
    filter drive (issued (mot v)) = filter drive (issued (mot firmware0))"
proof (rule estop_holds)
  show "list_all (harmless (sup firmware0)) [Command 5 (encode (C_current 10000) @ replicate 8 0) 5 (Port 1), Motor_event (Tick (Num 9) (Num 1)),
      Supervisor \<lparr>now = 7, icu_pin = True, ext2 = 0\<rparr>, Command 9 (encode (C_duty 5) @ replicate 8 0) 5 (Port 2)]"
    by (simp add: comm_ids quiet_commands_def firmware0_def supervisor0_def kill_switch_def)
qed (simp_all add: firmware0_def conf0_def sampler0_ok)

section \<open>Boundary inputs\<close>

text \<open>The length of a packet is not compared with what a command reads: a packet of one byte drives the motor
  with the bytes that lie behind it.\<close>

lemma short_command:
  "commands_process_packet f (encode c @ rest) 1 reply s = commands_process_packet f (encode c @ rest) 5 reply s"
  by (cases c) (simp_all add: commands_process_packet_def get_byte_def dispatch_def comm_ids)

text \<open>The command for one sample without a reply function (as it arrives over CAN with no answer wanted) calls a
  null pointer.\<close>

lemma sample_null_reply:
  assumes "length (m_samples (scope s)) = 1000"
  shows "commands_process_packet f (COMM_SAMPLE_PRINT # [8, 0, 1, 0] @ rest) 5 None s = None"
proof -
  have m: "sampling_mode 8 = DEBUG_SAMPLING_SEND_SINGLE_SAMPLE" by (simp add: sampling_mode.simps)
  have g: "buffer_get_uint16 (8 # 0 # 1 # 0 # rest) (Suc 0) = Some (1, 3)"
    by (simp add: buffer_get_uint16_def get_byte_def numeral_3_eq_3)
  have "sample_print f (8 # 0 # 1 # 0 # rest) 4 u = None" if "send_func u = None" "scope u = scope s" for u
    unfolding sample_print_def using that assms
    by (simp add: g m get_byte_def mc_interface_sample_print_data_def block_exact send_samples_def ADC_SAMPLE_MAX_LEN_def)
  moreover have "dispatch f COMM_SAMPLE_PRINT data len p u = sample_print f data len u" for data len p u
    unfolding dispatch_def comm_ids by simp
  moreover have "COMM_SAMPLE_PRINT \<notin> {COMM_EXT_NRF_PRESENT, COMM_EXT_NRF_ESB_RX_DATA, COMM_LISP_RMSG, COMM_LISP_REPL_CMD}"
    by (simp add: comm_ids)
  ultimately show ?thesis
    unfolding commands_process_packet_def Let_def by (simp add: get_byte_def)
qed

end
