(* ===== verification/Command_Link.thy ===== *)
theory Command_Link
  imports Packet Commands
begin

text \<open>
  From the serial line to the motor: the packets of \<^verbatim>\<open>comm/packet.c\<close> that a receiver delivers are
  processed by \<^verbatim>\<open>comm/commands.c\<close>, as \<^verbatim>\<open>comm/comm_usb.c\<close> connects them.
\<close>

text \<open>Every payload is processed where it lies in the buffer of the receiver, with the bytes \<open>rest\<close> behind it.\<close>

fun process_packets :: "float32 \<Rightarrow> bytes \<Rightarrow> port \<Rightarrow> bytes list \<Rightarrow> firmware \<Rightarrow> firmware option" where
  "process_packets f rest send_packet [] s = Some s"
| "process_packets f rest send_packet (p # ps) s = do {
     s \<leftarrow> commands_process_packet f (p @ rest) (length p) (Some send_packet) s;
     process_packets f rest send_packet ps s
   }"

text \<open>The thread of the serial interface, over the bytes received.\<close>

definition serial_read :: "float32 \<Rightarrow> bytes \<Rightarrow> port \<Rightarrow> bytes \<Rightarrow> packet_state \<times> firmware \<Rightarrow> (packet_state \<times> firmware) option" where
  "serial_read f rest send_packet buffer = (\<lambda>(packet, s). do {
     (packet, ps) \<leftarrow> packet_process_bytes buffer packet;
     s \<leftarrow> process_packets f rest send_packet ps s;
     Some (packet, s)
   })"

lemma process_driven:
  assumes "\<forall>c \<in> set cs. - (2 ^ 31) \<le> carried c \<and> carried c < 2 ^ 31"
  shows "\<exists>t. process_packets f rest p (map encode cs) s = Some t \<and> mot t = fold (\<lambda>c. perform (request_of c)) cs (mot s) \<and>
    sup t = (if cs = [] then sup s else timeout_reset (clock s) (sup s)) \<and> replies t = replies s"
  using assms
proof (induction cs arbitrary: s)
  case (Cons c cs)
  obtain u where u: "commands_process_packet f (encode c @ rest) 5 (Some p) s = Some u" "driven c s u"
    using encode_driven [of c f rest "Some p" s] Cons.prems by auto
  obtain t where "process_packets f rest p (map encode cs) u = Some t" "mot t = fold (\<lambda>c. perform (request_of c)) cs (mot u)"
      "sup t = (if cs = [] then sup u else timeout_reset (clock u) (sup u))" "replies t = replies u"
    using Cons.IH [of u] Cons.prems by auto
  then show ?case using u by (simp add: driven_def timeout_reset_def)
qed simp

text \<open>C32. Commands framed by the sender and received byte by byte drive the motor as the calls of the interface
  do: all of them, in their order, with the numbers they carry, each once; the timeout starts
  anew, and nothing is answered. (This holds whatever lies behind a packet in memory.)\<close>

theorem framed_commands_drive:
  assumes "packet_inv tx" and "packet_state.send_func tx" and "packet_inv rx" and "process_func rx" and "window rx = []"
    and "\<forall>c \<in> set cs. - (2 ^ 31) \<le> carried c \<and> carried c < 2 ^ 31"
  shows "\<exists>tx' wire rx' t. packet_send_all (map encode cs) tx = Some (tx', wire) \<and>
    serial_read f rest p wire (rx, s) = Some (rx', t) \<and> window rx' = [] \<and>
    mot t = fold (\<lambda>c. perform (request_of c)) cs (mot s) \<and>
    sup t = (if cs = [] then sup s else timeout_reset (clock s) (sup s)) \<and> replies t = replies s"
proof -
  have ok: "\<forall>p \<in> set (map encode cs). payload_ok p" by (auto simp: payload_ok_def PACKET_MAX_PL_LEN_def)
  obtain tx' where tx: "packet_send_all (map encode cs) tx = Some (tx', concat (map frame (map encode cs)))"
    using packet_send_all_frames [OF assms(1,2) ok] by blast
  obtain rx' where rx: "packet_process_bytes (concat (map frame (map encode cs))) rx = Some (rx', map encode cs)" "window rx' = []"
    using pk.feed_run [of rx "concat (map frame (map encode cs))"] assms win_run_frames [OF ok]
    by (auto simp: packet_process_bytes_feed simp del: map_map)
  obtain t where t: "process_packets f rest p (map encode cs) s = Some t" "mot t = fold (\<lambda>c. perform (request_of c)) cs (mot s)"
      "sup t = (if cs = [] then sup s else timeout_reset (clock s) (sup s))" "replies t = replies s"
    using process_driven [OF assms(6)] by blast
  then have "serial_read f rest p (concat (map frame (map encode cs))) (rx, s) = Some (rx', t)"
    using rx by (simp add: serial_read_def del: map_map)
  then show ?thesis using tx rx(2) t(2-4) by blast
qed

theorem framed_commands_drive_witness:
  "\<exists>tx' wire rx' t. packet_send_all (map encode [C_current 5000, C_duty (- 20000)]) (packet_init True True) = Some (tx', wire) \<and>
    serial_read 1 [7, 7] (Port 1) wire (packet_init True True, firmware0) = Some (rx', t) \<and> window rx' = [] \<and>
    mot t = fold (\<lambda>c. perform (request_of c)) [C_current 5000, C_duty (- 20000)] (mot firmware0) \<and>
    sup t = (if [C_current 5000, C_duty (- 20000)] = [] then sup firmware0 else timeout_reset (clock firmware0) (sup firmware0)) \<and>
    replies t = replies firmware0"
  by (rule framed_commands_drive) (simp_all add: packet_inv_init)

end
