(* ===== verification/Otp.thy ===== *)
theory Otp
  imports Flash_Helper
begin

text \<open>
  \<^verbatim>\<open>hwconf/xtech/xesc_all_variants/xesc2_variant_config.c\<close>: the board identity in the
  one-time-programmable memory, the choice of the variant configuration at boot and the terminal
  commands that show and program the identity; and the gate functions of
  \<^verbatim>\<open>hw_xesc_all_variants.c\<close> that depend on the variant. The OTP area is ordinary memory of
  the machine model: eight pairs of 32 byte blocks from 0x1FFF7800. The floating point constants of
  the variant tables are kept as the rational numbers the source writes.
\<close>

section \<open>Layout\<close>

definition XESC2_OTP_BASE_ADDR :: nat where "XESC2_OTP_BASE_ADDR = 0x1FFF7800"
definition XESC2_OTP_NUM_PAIRS :: nat where "XESC2_OTP_NUM_PAIRS = 8"
definition XESC2_OTP_MAGIC :: u8 where "XESC2_OTP_MAGIC = 0xEC"
definition XESC2_OTP_VERSION :: u8 where "XESC2_OTP_VERSION = 1"

definition otp_read_block :: "nat \<Rightarrow> nat" where
  "otp_read_block pair_index = XESC2_OTP_BASE_ADDR + pair_index * 2 * 32"

text \<open>CRC-16/CCITT-FALSE, bit by bit.\<close>

definition otp_crc16_bit :: "u16 \<Rightarrow> u16" where
  "otp_crc16_bit crc = (if crc AND 0x8000 \<noteq> 0 then push_bit 1 crc XOR 0x1021 else push_bit 1 crc)"

fun otp_crc16_loop :: "u16 \<Rightarrow> bytes \<Rightarrow> u16" where
  "otp_crc16_loop crc [] = crc"
| "otp_crc16_loop crc (b # bs) = otp_crc16_loop ((otp_crc16_bit ^^ 8) (crc XOR push_bit 8 (ucast b))) bs"

definition otp_crc16 :: "bytes \<Rightarrow> u16" where
  "otp_crc16 data = otp_crc16_loop 0xFFFF data"

section \<open>Identity\<close>

record otp_identity =
  oid_type_id :: u8
  oid_variant_id :: u8
  oid_valid :: u8
  oid_hw_major :: u8
  oid_hw_minor :: u8
  oid_hw_patch :: u8
  oid_serial :: u16
  oid_timestamp :: u32

definition no_identity :: otp_identity where
  "no_identity = \<lparr>oid_type_id = 0, oid_variant_id = 0, oid_valid = 0, oid_hw_major = 0,
     oid_hw_minor = 0, oid_hw_patch = 0, oid_serial = 0, oid_timestamp = 0\<rparr>"

text \<open>The fields of a block, given as the function that reads its bytes.\<close>

definition le16 :: "u8 \<Rightarrow> u8 \<Rightarrow> u16" where
  "le16 a b = ucast a OR push_bit 8 (ucast b)"

definition le32 :: "u8 \<Rightarrow> u8 \<Rightarrow> u8 \<Rightarrow> u8 \<Rightarrow> u32" where
  "le32 a b c d = ucast a OR push_bit 8 (ucast b) OR push_bit 16 (ucast c) OR push_bit 24 (ucast d)"

definition block_crc_field :: "(nat \<Rightarrow> u8) \<Rightarrow> u16" where
  "block_crc_field blk = le16 (blk 14) (blk 15)"

definition block_crc :: "(nat \<Rightarrow> u8) \<Rightarrow> u16" where
  "block_crc blk = otp_crc16 (map blk [0 ..< 14])"

definition block_identity :: "(nat \<Rightarrow> u8) \<Rightarrow> otp_identity" where
  "block_identity blk = \<lparr>oid_type_id = blk 2, oid_variant_id = blk 3, oid_valid = 1,
     oid_hw_major = blk 4, oid_hw_minor = blk 5, oid_hw_patch = blk 6,
     oid_serial = le16 (blk 7) (blk 8),
     oid_timestamp = le32 (blk 9) (blk 10) (blk 11) (blk 12)\<rparr>"

definition pair_block :: "(nat \<Rightarrow> u8) \<Rightarrow> nat \<Rightarrow> nat \<Rightarrow> u8" where
  "pair_block m pair = (\<lambda>i. m (otp_read_block pair + i))"

definition xesc2_has_otp_data :: "(nat \<Rightarrow> u8) \<Rightarrow> bool" where
  "xesc2_has_otp_data m = list_ex (\<lambda>pair. pair_block m pair 0 = XESC2_OTP_MAGIC) [0 ..< XESC2_OTP_NUM_PAIRS]"

text \<open>The scan from the highest pair down; the argument is the number of pairs still to look at.\<close>

fun otp_scan :: "nat \<Rightarrow> (nat \<Rightarrow> u8) \<Rightarrow> otp_identity" where
  "otp_scan 0 m = no_identity"
| "otp_scan (Suc pair) m =
     (let block = pair_block m pair in
      if block 0 \<noteq> XESC2_OTP_MAGIC then otp_scan pair m
      else if block 1 \<noteq> XESC2_OTP_VERSION then otp_scan pair m
      else if block_crc_field block = block_crc block then block_identity block
      else otp_scan pair m)"

definition xesc2_get_otp_identity :: "(nat \<Rightarrow> u8) \<Rightarrow> otp_identity" where
  "xesc2_get_otp_identity m = otp_scan XESC2_OTP_NUM_PAIRS m"

section \<open>Variants\<close>

datatype driver_type = XESC2_DRIVER_TMC6200 | XESC2_DRIVER_DRV8376

record variant_config =
  vc_type_id :: u8
  vc_variant_id :: u8
  hw_name :: string
  driver_type :: driver_type
  gate_active_high :: bool
  has_phase_shunts :: bool
  current_amp_gain :: rat
  current_shunt_res :: rat
  tmc6200_amp_gain :: nat
  tmc6200_drvstrength :: nat
  lim_current_min :: rat
  lim_current_max :: rat
  lim_current_in_min :: rat
  lim_current_in_max :: rat
  lim_current_abs_max :: rat
  lim_vin_min :: rat
  lim_vin_max :: rat
  lim_temp_fet_max :: rat
  l_max_abs_current :: rat
  mcconf_l_current_max :: rat
  mcconf_l_current_min :: rat
  mcconf_l_in_current_max :: rat
  mcconf_l_in_current_min :: rat
  mcconf_max_current_unbalance :: rat

definition variant_mini_v1_standard :: variant_config where
  "variant_mini_v1_standard = \<lparr>vc_type_id = 0, vc_variant_id = 0, hw_name = ''xESC2-mini_v1'',
     driver_type = XESC2_DRIVER_TMC6200, gate_active_high = True, has_phase_shunts = True,
     current_amp_gain = 5 * (595 / 1000), current_shunt_res = 33 / 1000,
     tmc6200_amp_gain = 5, tmc6200_drvstrength = 2,
     lim_current_min = -15, lim_current_max = 15, lim_current_in_min = -10, lim_current_in_max = 10,
     lim_current_abs_max = 15, lim_vin_min = 6, lim_vin_max = 57, lim_temp_fet_max = 90,
     l_max_abs_current = 15, mcconf_l_current_max = 6, mcconf_l_current_min = -6,
     mcconf_l_in_current_max = 2, mcconf_l_in_current_min = -2, mcconf_max_current_unbalance = 512\<rparr>"

definition variant_mini_v2_standard :: variant_config where
  "variant_mini_v2_standard = \<lparr>vc_type_id = 0, vc_variant_id = 1, hw_name = ''xESC2-mini_v2'',
     driver_type = XESC2_DRIVER_TMC6200, gate_active_high = True, has_phase_shunts = True,
     current_amp_gain = 5, current_shunt_res = 25 / 1000,
     tmc6200_amp_gain = 5, tmc6200_drvstrength = 2,
     lim_current_min = -15, lim_current_max = 15, lim_current_in_min = -10, lim_current_in_max = 10,
     lim_current_abs_max = 20, lim_vin_min = 6, lim_vin_max = 57, lim_temp_fet_max = 90,
     l_max_abs_current = 20, mcconf_l_current_max = 6, mcconf_l_current_min = -6,
     mcconf_l_in_current_max = 2, mcconf_l_in_current_min = -2, mcconf_max_current_unbalance = 512\<rparr>"

definition variant_mini_v2_power :: variant_config where
  "variant_mini_v2_power = \<lparr>vc_type_id = 0, vc_variant_id = 2, hw_name = ''xESC2-power_v2'',
     driver_type = XESC2_DRIVER_TMC6200, gate_active_high = True, has_phase_shunts = True,
     current_amp_gain = 10, current_shunt_res = 3 / 1000,
     tmc6200_amp_gain = 10, tmc6200_drvstrength = 3,
     lim_current_min = -25, lim_current_max = 25, lim_current_in_min = -8, lim_current_in_max = 8,
     lim_current_abs_max = 50, lim_vin_min = 9, lim_vin_max = 48, lim_temp_fet_max = 85,
     l_max_abs_current = 50, mcconf_l_current_max = 25, mcconf_l_current_min = -25,
     mcconf_l_in_current_max = 8, mcconf_l_in_current_min = -8, mcconf_max_current_unbalance = 512\<rparr>"

definition variant_error_fallback :: variant_config where
  "variant_error_fallback = \<lparr>vc_type_id = 0, vc_variant_id = 0xFF, hw_name = ''xESC2_OTP-ERROR'',
     driver_type = XESC2_DRIVER_TMC6200, gate_active_high = True, has_phase_shunts = False,
     current_amp_gain = 1, current_shunt_res = 33 / 1000,
     tmc6200_amp_gain = 1, tmc6200_drvstrength = 2,
     lim_current_min = 0, lim_current_max = 0, lim_current_in_min = 0, lim_current_in_max = 0,
     lim_current_abs_max = 0, lim_vin_min = 6, lim_vin_max = 57, lim_temp_fet_max = 90,
     l_max_abs_current = 0, mcconf_l_current_max = 0, mcconf_l_current_min = 0,
     mcconf_l_in_current_max = 0, mcconf_l_in_current_min = 0, mcconf_max_current_unbalance = 512\<rparr>"

definition variant_lite_standard :: variant_config where
  "variant_lite_standard = \<lparr>vc_type_id = 1, vc_variant_id = 0, hw_name = ''xESC2-lite'',
     driver_type = XESC2_DRIVER_DRV8376, gate_active_high = False, has_phase_shunts = False,
     current_amp_gain = 4 / 10, current_shunt_res = 1,
     tmc6200_amp_gain = 0, tmc6200_drvstrength = 0,
     lim_current_min = -3, lim_current_max = 3, lim_current_in_min = -9, lim_current_in_max = 9,
     lim_current_abs_max = 15, lim_vin_min = 6, lim_vin_max = 55, lim_temp_fet_max = 90,
     l_max_abs_current = 4, mcconf_l_current_max = 3, mcconf_l_current_min = -3,
     mcconf_l_in_current_max = 2, mcconf_l_in_current_min = -2, mcconf_max_current_unbalance = 1024\<rparr>"

section \<open>Applying the variant at boot\<close>

record board = sys +
  g_xesc2_otp_identity :: otp_identity
  g_xesc2_fatal_config_error :: bool
  g_xesc2_variant :: variant_config
  v2_id_pad :: bool
  gate_pad :: bool

definition xesc2_get_variant_config :: "u8 \<Rightarrow> u8 \<Rightarrow> board \<Rightarrow> variant_config \<times> board" where
  "xesc2_get_variant_config type_id variant_id s =
     (let unknown = (variant_error_fallback, s\<lparr>g_xesc2_fatal_config_error := True\<rparr>) in
      if type_id = 0 then
        (if variant_id = 0 then (variant_mini_v1_standard, s)
         else if variant_id = 1 then (variant_mini_v2_standard, s)
         else if variant_id = 2 then (variant_mini_v2_power, s)
         else unknown)
      else if type_id = 1 then
        (if variant_id = 0 then (variant_lite_standard, s) else unknown)
      else unknown)"

text \<open>The identification pad reads low on a v2 board.\<close>

definition xesc2_detect_and_apply_variant :: "board \<Rightarrow> board" where
  "xesc2_detect_and_apply_variant s =
     (let is_v2 = (\<not> v2_id_pad s);
          id = xesc2_get_otp_identity (mem s);
          s1 = s\<lparr>g_xesc2_otp_identity := id\<rparr> in
      if oid_valid id \<noteq> 0 then
        (let (v, s2) = xesc2_get_variant_config (oid_type_id id) (oid_variant_id id) s1
         in s2\<lparr>g_xesc2_variant := v\<rparr>)
      else if \<not> xesc2_has_otp_data (mem s) \<and> \<not> is_v2 then
        (let (v, s2) = xesc2_get_variant_config 0 0 s1 in s2\<lparr>g_xesc2_variant := v\<rparr>)
      else s1\<lparr>g_xesc2_variant := variant_error_fallback, g_xesc2_fatal_config_error := True\<rparr>)"

subsection \<open>Gate driver\<close>

definition hw_xesc2_enable_gate :: "board \<Rightarrow> board" where
  "hw_xesc2_enable_gate s =
     (if gate_active_high (g_xesc2_variant s) then s\<lparr>gate_pad := True\<rparr> else s\<lparr>gate_pad := False\<rparr>)"

definition hw_xesc2_disable_gate :: "board \<Rightarrow> board" where
  "hw_xesc2_disable_gate s =
     (if gate_active_high (g_xesc2_variant s) then s\<lparr>gate_pad := False\<rparr> else s\<lparr>gate_pad := True\<rparr>)"

text \<open>The fault check: the state of the two drivers and the level of the fault pad are inputs.\<close>

definition hw_xesc2_drv_fault :: "bool \<Rightarrow> bool \<Rightarrow> bool \<Rightarrow> board \<Rightarrow> bool" where
  "hw_xesc2_drv_fault drv8376_config_error tmc6200_ok fault_pad s =
     (if driver_type (g_xesc2_variant s) = XESC2_DRIVER_DRV8376
      then drv8376_config_error \<or> \<not> fault_pad
      else \<not> tmc6200_ok \<or> fault_pad)"

datatype fault_reset = DRV8376_RESET_FAULTS | TMC6200_RESET_FAULTS

definition hw_xesc2_reset_drv_faults :: "board \<Rightarrow> fault_reset" where
  "hw_xesc2_reset_drv_faults s =
     (if driver_type (g_xesc2_variant s) = XESC2_DRIVER_DRV8376
      then DRV8376_RESET_FAULTS else TMC6200_RESET_FAULTS)"

section \<open>Terminal commands\<close>

text \<open>What the commands print, one constructor per format string.\<close>

datatype info_line =
    MagicInvalid nat u8
  | VersionInvalid nat u8
  | PairInfo nat u8 u8 otp_identity bool
  | ActiveIdentity otp_identity
  | ActiveRaw string
  | NoIdentity

definition hex_digits :: string where "hex_digits = ''0123456789abcdef''"

definition hex_of_byte :: "u8 \<Rightarrow> string" where
  "hex_of_byte b = [hex_digits ! unat (drop_bit 4 b), hex_digits ! unat (b AND 0x0F)]"

text \<open>The scan: lines printed so far, number of valid pairs and the last of them.\<close>

definition otp_info_pair :: "(nat \<Rightarrow> u8) \<Rightarrow> info_line list \<times> nat \<times> int \<Rightarrow> nat \<Rightarrow> info_line list \<times> nat \<times> int" where
  "otp_info_pair m acc pair =
     (let (out, found, active_pair) = acc; block = pair_block m pair in
      if block 0 \<noteq> XESC2_OTP_MAGIC then (out @ [MagicInvalid pair (block 0)], found, active_pair)
      else if block 1 \<noteq> XESC2_OTP_VERSION then (out @ [VersionInvalid pair (block 1)], found, active_pair)
      else
        (let ok = (block_crc_field block = block_crc block);
             out1 = out @ [PairInfo pair (block 0) (block 1) (block_identity block) ok]
         in if ok then (out1, found + 1, int pair) else (out1, found, active_pair)))"

definition xesc2_terminal_otp_info :: "board \<Rightarrow> info_line list" where
  "xesc2_terminal_otp_info s =
     (let (out, found, active_pair) =
            foldl (otp_info_pair (mem s)) ([], 0, - 1) [0 ..< XESC2_OTP_NUM_PAIRS] in
      if found > 0 then
        out @ [ActiveIdentity (g_xesc2_otp_identity s),
               ActiveRaw (concat (map (\<lambda>i. hex_of_byte (pair_block (mem s) (nat active_pair) i)) [0 ..< 64]))]
      else out @ [NoIdentity])"

definition otp_hexval :: "char \<Rightarrow> int" where
  "otp_hexval c =
     (let n = of_char c :: int in
      if n \<ge> 48 \<and> n \<le> 57 then n - 48
      else if n \<ge> 97 \<and> n \<le> 102 then n - 97 + 10
      else if n \<ge> 65 \<and> n \<le> 70 then n - 65 + 10
      else - 1)"

datatype brand_result =
    Usage
  | NoFreePair
  | BadLength nat
  | BadHex nat
  | BadMagic u8
  | BadVersion u8
  | CrcMismatch u16 u16
  | PairNotEmpty nat nat u8
  | WriteFailed status
  | VerifyFailed nat u8 u8
  | Programmed nat nat

text \<open>Parsing from byte \<open>i\<close> on, two characters per byte; the byte with a bad digit on failure.\<close>

fun parse_hex :: "nat \<Rightarrow> string \<Rightarrow> nat + bytes" where
  "parse_hex i (h # l # cs) =
     (if otp_hexval h < 0 \<or> otp_hexval l < 0 then Inl i
      else case parse_hex (Suc i) cs of
        Inl e \<Rightarrow> Inl e
      | Inr bs \<Rightarrow> Inr (word_of_int (otp_hexval h * 16 + otp_hexval l) # bs))"
| "parse_hex i _ = Inr []"

definition otp_pair_empty :: "(nat \<Rightarrow> u8) \<Rightarrow> nat \<Rightarrow> bool" where
  "otp_pair_empty m pair = list_all (\<lambda>j. pair_block m pair j = 0xFF) [0 ..< 64]"

definition xesc2_terminal_otp_brand :: "string list \<Rightarrow> board \<Rightarrow> brand_result \<times> board" where
  "xesc2_terminal_otp_brand argv s =
     (if length argv \<noteq> 2 then (Usage, s)
      else case find (otp_pair_empty (mem s)) [0 ..< XESC2_OTP_NUM_PAIRS] of
        None \<Rightarrow> (NoFreePair, s)
      | Some pair \<Rightarrow>
          (let hexstr = argv ! 1 in
           if length hexstr \<noteq> 128 then (BadLength (length hexstr), s)
           else case parse_hex 0 hexstr of
             Inl i \<Rightarrow> (BadHex i, s)
           | Inr blk \<Rightarrow>
               if blk ! 0 \<noteq> XESC2_OTP_MAGIC then (BadMagic (blk ! 0), s)
               else if blk ! 1 \<noteq> XESC2_OTP_VERSION then (BadVersion (blk ! 1), s)
               else if block_crc_field (nth blk) \<noteq> block_crc (nth blk)
                 then (CrcMismatch (block_crc (nth blk)) (block_crc_field (nth blk)), s)
               else case find (\<lambda>i. pair_block (mem s) pair i \<noteq> 0xFF) [0 ..< 64] of
                 Some i \<Rightarrow> (PairNotEmpty pair i (pair_block (mem s) pair i), s)
               | None \<Rightarrow>
                   (let (res, s1) = flash_helper_write_otp (word_of_nat (otp_read_block pair)) blk s in
                    if res \<noteq> 0 then (WriteFailed res, s1)
                    else case find (\<lambda>i. pair_block (mem s1) pair i \<noteq> blk ! i) [0 ..< 64] of
                      Some i \<Rightarrow> (VerifyFailed i (pair_block (mem s1) pair i) (blk ! i), s1)
                    | None \<Rightarrow> (Programmed pair (otp_read_block pair), s1))))"

subsection \<open>Status and date\<close>

definition leap_year :: "nat \<Rightarrow> bool" where
  "leap_year y = ((y mod 4 = 0 \<and> y mod 100 \<noteq> 0) \<or> y mod 400 = 0)"

definition days_in_year :: "nat \<Rightarrow> nat" where
  "days_in_year y = (if leap_year y then 366 else 365)"

function year_loop :: "nat \<Rightarrow> nat \<Rightarrow> nat \<times> nat" where
  "year_loop days y =
     (if days < days_in_year y then (days, y) else year_loop (days - days_in_year y) (y + 1))"
  by pat_completeness auto
termination
  by (relation "measure fst") (auto simp: days_in_year_def not_less split: if_splits)

definition month_days :: "nat list" where
  "month_days = [31, 28, 31, 30, 31, 30, 31, 31, 30, 31, 30, 31]"

definition month_length :: "bool \<Rightarrow> nat \<Rightarrow> nat" where
  "month_length leap mo = month_days ! mo + (if mo = 1 \<and> leap then 1 else 0)"

function month_loop :: "bool \<Rightarrow> nat \<Rightarrow> nat \<Rightarrow> nat \<times> nat" where
  "month_loop leap days mo =
     (if mo < 12 then
        (if days < month_length leap mo then (days, mo)
         else month_loop leap (days - month_length leap mo) (mo + 1))
      else (days, mo))"
  by pat_completeness auto
termination
  by (relation "measure (\<lambda>(l, d, mo). 12 - mo)") auto

record date =
  d_year :: nat
  d_month :: nat
  d_day :: nat
  d_hour :: nat
  d_minute :: nat
  d_second :: nat

definition otp_date :: "u32 \<Rightarrow> date" where
  "otp_date ts =
     (let days0 = unat ts div 86400; secs = unat ts mod 86400;
          (days1, y) = year_loop days0 1970;
          (days2, mo) = month_loop (leap_year y) days1 0
      in \<lparr>d_year = y, d_month = mo + 1, d_day = days2 + 1,
          d_hour = secs div 3600, d_minute = (secs mod 3600) div 60, d_second = secs mod 60\<rparr>)"

datatype status_line =
    OtpDetectedNo
  | OtpInvalid
  | BoardType string u8
  | VariantName string u8
  | HwVersion u8 u8 u8
  | Serial u16
  | Timestamp u32 date
  | TimestampNA
  | AmpGain rat
  | ShuntRes rat

definition otp_type_name :: "u8 \<Rightarrow> string" where
  "otp_type_name t = (if t = 0 then ''xESC2 Mini'' else if t = 1 then ''xESC2 Lite'' else ''Unknown'')"

definition otp_variant_name :: "u8 \<Rightarrow> string" where
  "otp_variant_name v = (if v = 0 then ''V1 Standard'' else if v = 1 then ''V2 Standard''
     else if v = 2 then ''V2 Power'' else ''Unknown'')"

definition xesc2_print_hw_status_otp_info :: "board \<Rightarrow> status_line list" where
  "xesc2_print_hw_status_otp_info s =
     (let id = g_xesc2_otp_identity s in
      (if \<not> xesc2_has_otp_data (mem s) then [OtpDetectedNo]
       else if oid_valid id = 0 then [OtpInvalid]
       else [BoardType (otp_type_name (oid_type_id id)) (oid_type_id id),
             VariantName (otp_variant_name (oid_variant_id id)) (oid_variant_id id),
             HwVersion (oid_hw_major id) (oid_hw_minor id) (oid_hw_patch id),
             Serial (oid_serial id),
             (if oid_timestamp id > 0 then Timestamp (oid_timestamp id) (otp_date (oid_timestamp id))
              else TimestampNA)])
      @ [AmpGain (current_amp_gain (g_xesc2_variant s)),
         ShuntRes (current_shunt_res (g_xesc2_variant s) * 1000)])"

section \<open>Lemmas\<close>

declare upt_rec_numeral [simp del]

lemma otp_crc16_bit_eq: "otp_crc16_bit = crc16_bit"
proof (rule ext)
  fix c :: u16
  have "c AND 0x8000 \<noteq> 0 \<longleftrightarrow> bit c 15"
  proof -
    have "(0x8000 :: u16) = push_bit 15 1" by simp
    then show ?thesis by (simp only: bit_iff_and_push_bit_not_eq_0)
  qed
  then show "otp_crc16_bit c = crc16_bit c"
    by (simp add: otp_crc16_bit_def crc16_bit_def)
qed

lemma otp_crc16_rolling: "otp_crc16 data = crc16_rolling 0xFFFF data"
proof -
  have "otp_crc16_loop c data = crc16_rolling c data" for c
    by (induction data arbitrary: c)
      (simp_all add: crc16_rolling_Cons crc16_byte_def otp_crc16_bit_eq)
  then show ?thesis by (simp add: otp_crc16_def)
qed

text \<open>A block that the scan accepts.\<close>

definition otp_valid :: "(nat \<Rightarrow> u8) \<Rightarrow> bool" where
  "otp_valid blk = (blk 0 = XESC2_OTP_MAGIC \<and> blk 1 = XESC2_OTP_VERSION \<and> block_crc_field blk = block_crc blk)"

lemma otp_scan_Suc:
  "otp_scan (Suc pair) m =
     (if otp_valid (pair_block m pair) then block_identity (pair_block m pair) else otp_scan pair m)"
  by (auto simp: otp_valid_def Let_def)

declare otp_scan.simps(2) [simp del]

lemma otp_scan_highest:
  "p < n \<Longrightarrow> otp_valid (pair_block m p) \<Longrightarrow> \<forall>q. p < q \<and> q < n \<longrightarrow> \<not> otp_valid (pair_block m q) \<Longrightarrow>
     otp_scan n m = block_identity (pair_block m p)"
  by (induction n) (auto simp: otp_scan_Suc less_Suc_eq)

lemma otp_scan_none: "\<forall>q < n. \<not> otp_valid (pair_block m q) \<Longrightarrow> otp_scan n m = no_identity"
  by (induction n) (auto simp: otp_scan_Suc)

lemma otp_scan_cases:
  obtains "otp_scan n m = no_identity" "\<forall>q < n. \<not> otp_valid (pair_block m q)"
  | p where "p < n" "otp_valid (pair_block m p)" "\<forall>q. p < q \<and> q < n \<longrightarrow> \<not> otp_valid (pair_block m q)"
      "otp_scan n m = block_identity (pair_block m p)"
proof (cases "\<forall>q < n. \<not> otp_valid (pair_block m q)")
  case True
  then show ?thesis using that(1) otp_scan_none by blast
next
  case False
  let ?P = "\<lambda>p. p < n \<and> otp_valid (pair_block m p)"
  define p where "p = Greatest ?P"
  have ex: "\<exists>p. ?P p" and bound: "\<forall>q. ?P q \<longrightarrow> q \<le> n"
    using False by auto
  have "?P p"
    unfolding p_def using ex bound by (metis (mono_tags, lifting) GreatestI_nat)
  moreover have "\<forall>q. p < q \<and> q < n \<longrightarrow> \<not> otp_valid (pair_block m q)"
  proof (intro allI impI notI)
    fix q assume "p < q \<and> q < n" "otp_valid (pair_block m q)"
    then have "q \<le> p"
      unfolding p_def using Greatest_le_nat [of ?P q n] bound by simp
    then show False using \<open>p < q \<and> q < n\<close> by simp
  qed
  ultimately show ?thesis using that(2) otp_scan_highest by blast
qed

lemma block_cong:
  assumes "\<And>i. i < 16 \<Longrightarrow> a i = b i"
  shows "otp_valid a = otp_valid b" and "block_identity a = block_identity b"
proof -
  have "map a [0 ..< 14] = map b [0 ..< 14]"
    using assms by simp
  moreover have "a 0 = b 0" "a 1 = b 1" "a 14 = b 14" "a 15 = b 15"
    by (simp_all add: assms)
  ultimately show "otp_valid a = otp_valid b"
    by (simp only: otp_valid_def block_crc_field_def block_crc_def)
  show "block_identity a = block_identity b"
    using assms by (simp add: block_identity_def)
qed

subsection \<open>Calendar\<close>

definition days_to_year :: "nat \<Rightarrow> nat" where
  "days_to_year y = (\<Sum>i \<in> {1970 ..< y}. days_in_year i)"

definition days_to_month :: "bool \<Rightarrow> nat \<Rightarrow> nat" where
  "days_to_month leap mo = (\<Sum>i \<in> {..< mo}. month_length leap i)"

declare year_loop.simps [simp del] month_loop.simps [simp del]

lemma year_loop_sum:
  "1970 \<le> y \<Longrightarrow> year_loop days y = (d', y') \<Longrightarrow>
     days + days_to_year y = d' + days_to_year y' \<and> d' < days_in_year y' \<and> 1970 \<le> y'"
proof (induction days y rule: year_loop.induct)
  case (1 days y)
  show ?case
  proof (cases "days < days_in_year y")
    case True
    then show ?thesis using "1.prems" by (subst (asm) year_loop.simps) auto
  next
    case False
    have "days_to_year (y + 1) = days_to_year y + days_in_year y"
      using "1.prems"(1) by (simp add: days_to_year_def)
    then show ?thesis
      using "1.IH" [OF False] "1.prems" False by (subst (asm) (2) year_loop.simps) auto
  qed
qed

lemma month_loop_sum:
  "month_loop leap days mo = (d', mo') \<Longrightarrow> mo \<le> 12 \<Longrightarrow>
     days + days_to_month leap mo = d' + days_to_month leap mo' \<and>
     (days + days_to_month leap mo < days_to_month leap 12 \<longrightarrow> mo' < 12 \<and> d' < month_length leap mo')"
proof (induction leap days mo rule: month_loop.induct)
  case (1 leap days mo)
  have s: "days_to_month leap (mo + 1) = days_to_month leap mo + month_length leap mo"
    by (simp add: days_to_month_def)
  consider "mo < 12" "days < month_length leap mo" | "mo < 12" "\<not> days < month_length leap mo" | "mo = 12"
    using "1.prems"(2) by linarith
  then show ?case
  proof cases
    case 1
    then show ?thesis using "1.prems" by (subst (asm) month_loop.simps) auto
  next
    case 2
    then show ?thesis
      using "1.IH" [OF 2] "1.prems"(1) s by (subst (asm) (2) month_loop.simps) auto
  next
    case 3
    then show ?thesis using "1.prems" by (subst (asm) month_loop.simps) auto
  qed
qed

lemma days_to_month_12: "days_to_month (leap_year y) 12 = days_in_year y"
  by (simp add: days_to_month_def month_length_def month_days_def days_in_year_def eval_nat_numeral)

subsection \<open>Hexadecimal\<close>

lemma otp_hexval_digit: "n < 16 \<Longrightarrow> otp_hexval (hex_digits ! n) = int n"
proof -
  assume "n < 16"
  then have "n \<in> {0, 1, 2, 3, 4, 5, 6, 7, 8, 9, 10, 11, 12, 13, 14, 15}"
    unfolding insert_iff empty_iff simp_thms by presburger
  then show ?thesis
    by (auto simp: hex_digits_def otp_hexval_def)
qed

lemma otp_hexval_bound: "otp_hexval c \<le> 15"
  by (auto simp: otp_hexval_def Let_def)

lemma nibbles:
  fixes b :: u8
  shows "unat (drop_bit 4 b) < 16" and "unat (b AND 0x0F) < 16"
    and "word_of_int (int (unat (drop_bit 4 b)) * 16 + int (unat (b AND 0x0F))) = b"
    and "drop_bit 4 b * 16 + (b AND 0x0F) = b"
proof -
  have hi: "unat (drop_bit 4 b) = unat b div 16"
    by (simp only: unat_drop_bit_eq) (simp add: drop_bit_eq_div)
  have "b AND 0x0F = take_bit 4 b"
    by (simp add: take_bit_eq_mask mask_eq_exp_minus_1)
  then have lo: "unat (b AND 0x0F) = unat b mod 16"
    by (simp only: unsigned_take_bit_eq) (simp add: take_bit_eq_mod)
  show "unat (drop_bit 4 b) < 16" and "unat (b AND 0x0F) < 16"
    using unat_byte_lt [of b] unfolding hi lo by (simp_all add: less_mult_imp_div_less del: unat_byte_lt)
  have "int (unat b div 16) * 16 + int (unat b mod 16) = int (unat b)"
    by (metis div_mult_mod_eq of_nat_add of_nat_mult of_nat_numeral)
  then show w: "word_of_int (int (unat (drop_bit 4 b)) * 16 + int (unat (b AND 0x0F))) = b"
    unfolding hi lo by simp
  show "drop_bit 4 b * 16 + (b AND 0x0F) = b"
    using w by simp
qed

lemma parse_hex_of_bytes: "parse_hex i (concat (map hex_of_byte bs)) = Inr bs"
  by (induction bs arbitrary: i) (simp_all add: hex_of_byte_def otp_hexval_digit nibbles)

lemma length_parse_hex: "parse_hex i cs = Inr bs \<Longrightarrow> length bs = length cs div 2"
  by (induction i cs arbitrary: bs rule: parse_hex.induct) (auto split: if_splits sum.splits)

lemma length_hex: "length (concat (map hex_of_byte bs)) = 2 * length bs"
  by (induction bs) (simp_all add: hex_of_byte_def)

lemma hex_of_byte_distinct: "hex_of_byte a = hex_of_byte b \<Longrightarrow> a = b"
  using parse_hex_of_bytes [of 0 "[a]"] parse_hex_of_bytes [of 0 "[b]"] by simp

subsection \<open>Programming a pair\<close>

lemma find_none_iff: "find P [0 ..< n] = None \<longleftrightarrow> (\<forall>i < n. \<not> P i)"
  by (auto simp: find_None_iff)

lemma find_some_upt:
  assumes "find P [0 ..< n] = Some i"
  shows "i < n" and "P i" and "\<forall>j < i. \<not> P j"
  using assms by (auto simp: find_Some_iff)

lemma find_upt_eq:
  assumes "i < n" and "P i" and "\<forall>j < i. \<not> P j"
  shows "find P [0 ..< n] = Some i"
  using assms by (auto simp: find_Some_iff)

lemma otp_addr: "pair < 8 \<Longrightarrow> unat (word_of_nat (otp_read_block pair) :: u32) = otp_read_block pair"
  unfolding unat_of_nat by (simp add: otp_read_block_def XESC2_OTP_BASE_ADDR_def)

lemma otp_pair_empty_iff: "otp_pair_empty m pair \<longleftrightarrow> (\<forall>i < 64. pair_block m pair i = 0xFF)"
  by (auto simp: otp_pair_empty_def list_all_iff)

text \<open>Writing a block to an empty pair of working OTP memory.\<close>

lemma write_pair:
  assumes "pair < 8" and "otp_pair_empty (mem s) pair" and "length blk = 64"
    and "motor_stops s" and "script s = []"
    and "t = snd (flash_helper_write_otp (word_of_nat (otp_read_block pair)) blk s)"
  shows "fst (flash_helper_write_otp (word_of_nat (otp_read_block pair)) blk s) = 0"
    and "\<forall>i < 64. pair_block (mem t) pair i = blk ! i"
    and "\<forall>a. a < otp_read_block pair \<or> otp_read_block pair + 64 \<le> a \<longrightarrow> mem t a = mem s a"
proof -
  let ?b = "word_of_nat (otp_read_block pair) :: u32"
  have le: "unat ?b + length blk \<le> 2 ^ 32"
    using assms(1,3) by (simp add: otp_addr) (simp add: otp_read_block_def XESC2_OTP_BASE_ADDR_def)
  note w = write_data_ok [OF le assms(4,5)]
  have m: "mem t = and_bytes (otp_read_block pair) blk (mem s)"
    using w(2) assms(1,6) by (simp add: flash_helper_write_otp_def case_prod_beta otp_addr)
  show "fst (flash_helper_write_otp ?b blk s) = 0"
    using w(1) by (simp add: flash_helper_write_otp_def case_prod_beta)
  show "\<forall>i < 64. pair_block (mem t) pair i = blk ! i"
    using assms(2,3) by (simp add: m pair_block_def and_bytes_def otp_pair_empty_iff)
  show "\<forall>a. a < otp_read_block pair \<or> otp_read_block pair + 64 \<le> a \<longrightarrow> mem t a = mem s a"
    using assms(3) by (auto simp: m and_bytes_outside)
qed

lemma pairs_disjoint:
  "p \<noteq> q \<Longrightarrow> i < 64 \<Longrightarrow> otp_read_block q + i < otp_read_block p \<or> otp_read_block p + 64 \<le> otp_read_block q + i"
  by (cases p q rule: linorder_cases) (simp_all add: otp_read_block_def)

section \<open>Properties\<close>

text \<open>The date shown for a timestamp is its calendar date in UTC: a real day of a real month
  of the Gregorian calendar and a time of day, and counting the seconds from 1970 up to it gives
  the timestamp back. Both loops end for every 32 bit value.\<close>

theorem otp_date_correct:
  "let dt = otp_date ts; leap = leap_year (d_year dt) in
     1970 \<le> d_year dt \<and> 1 \<le> d_month dt \<and> d_month dt \<le> 12 \<and>
     1 \<le> d_day dt \<and> d_day dt \<le> month_length leap (d_month dt - 1) \<and>
     d_hour dt < 24 \<and> d_minute dt < 60 \<and> d_second dt < 60 \<and>
     unat ts = (days_to_year (d_year dt) + days_to_month leap (d_month dt - 1) + (d_day dt - 1)) * 86400
       + d_hour dt * 3600 + d_minute dt * 60 + d_second dt"
proof -
  obtain d1 y where y: "year_loop (unat ts div 86400) 1970 = (d1, y)"
    by (cases "year_loop (unat ts div 86400) 1970")
  obtain d2 mo where mo: "month_loop (leap_year y) d1 0 = (d2, mo)"
    by (cases "month_loop (leap_year y) d1 0")
  define secs where "secs = unat ts mod 86400"
  have Y: "unat ts div 86400 = d1 + days_to_year y" "d1 < days_in_year y" "1970 \<le> y"
    using year_loop_sum [OF _ y] by (simp_all add: days_to_year_def)
  have M: "d1 = d2 + days_to_month (leap_year y) mo" "mo < 12" "d2 < month_length (leap_year y) mo"
    using month_loop_sum [OF mo] Y(2) days_to_month_12 [of y] by (simp_all add: days_to_month_def)
  have "secs mod 3600 = (secs mod 3600) div 60 * 60 + secs mod 60"
    using div_mult_mod_eq [of "secs mod 3600" 60] by (simp add: mod_mod_cancel)
  then have S: "secs = secs div 3600 * 3600 + (secs mod 3600) div 60 * 60 + secs mod 60"
    using div_mult_mod_eq [of secs 3600] by linarith
  have lt: "secs < 86400"
    by (simp add: secs_def)
  then have "secs div 3600 < 24" "(secs mod 3600) div 60 < 60"
    by (simp_all add: less_mult_imp_div_less)
  moreover have "unat ts = (unat ts div 86400) * 86400 + secs"
    by (simp add: secs_def)
  then have "unat ts = (days_to_year y + days_to_month (leap_year y) mo + d2) * 86400 +
      secs div 3600 * 3600 + (secs mod 3600) div 60 * 60 + secs mod 60"
    unfolding Y(1) M(1) using S by (simp only: ac_simps)
  moreover have "otp_date ts = \<lparr>d_year = y, d_month = mo + 1, d_day = d2 + 1, d_hour = secs div 3600,
      d_minute = (secs mod 3600) div 60, d_second = secs mod 60\<rparr>"
    by (simp add: otp_date_def y mo Let_def secs_def)
  ultimately show ?thesis
    using Y(3) M(2,3) by (simp add: Let_def)
qed

text \<open>The decision at boot. With a valid record the variant is the one of its type and
  variant bytes and a known combination raises no error; without any OTP data a v1 board runs
  as mini v1; every other case (a v2 board without record, damaged records, an unknown
  combination) latches the fatal error and selects the fallback whose current limits are all
  zero.\<close>

theorem xesc2_detect_decision:
  "let id = xesc2_get_otp_identity (mem s); t = xesc2_detect_and_apply_variant s;
       known = (oid_type_id id = 0 \<and> oid_variant_id id \<in> {0, 1, 2} \<or> oid_type_id id = 1 \<and> oid_variant_id id = 0);
       good = (if oid_valid id \<noteq> 0 then known else \<not> xesc2_has_otp_data (mem s) \<and> v2_id_pad s)
   in (g_xesc2_fatal_config_error t \<longleftrightarrow> g_xesc2_fatal_config_error s \<or> \<not> good) \<and>
      (good \<longrightarrow> vc_type_id (g_xesc2_variant t) = oid_type_id id \<and>
                vc_variant_id (g_xesc2_variant t) = oid_variant_id id) \<and>
      (\<not> good \<longrightarrow> lim_current_max (g_xesc2_variant t) = 0 \<and> lim_current_min (g_xesc2_variant t) = 0 \<and>
         lim_current_abs_max (g_xesc2_variant t) = 0 \<and> mcconf_l_current_max (g_xesc2_variant t) = 0) \<and>
      g_xesc2_otp_identity t = id \<and> mem t = mem s"
proof -
  have "oid_valid (otp_scan n m) = 0 \<Longrightarrow> otp_scan n m = no_identity" for n m
    by (rule otp_scan_cases [of n m]) (auto simp: block_identity_def)
  from this [of XESC2_OTP_NUM_PAIRS "mem s"] show ?thesis
    by (auto simp: xesc2_detect_and_apply_variant_def xesc2_get_variant_config_def Let_def
        variant_mini_v1_standard_def variant_mini_v2_standard_def variant_mini_v2_power_def
        variant_lite_standard_def variant_error_fallback_def xesc2_get_otp_identity_def no_identity_def)
qed

text \<open>C9. Branding and the next boot agree: on a board with working OTP memory whose free pairs
  come after the used ones, the command given the 128 hex characters of a valid block programs
  the first free pair and nothing else, reports success, and the identity found at the next
  boot is the one in the block.\<close>

theorem otp_brand_then_boot:
  assumes "length blk = 64" and "otp_valid (nth blk)" and "p < 8" and "otp_pair_empty (mem s) p"
    and "\<forall>q < p. \<not> otp_pair_empty (mem s) q" and "\<forall>q. p < q \<and> q < 8 \<longrightarrow> otp_pair_empty (mem s) q"
    and "motor_stops s" and "script s = []"
  shows "\<exists>t. xesc2_terminal_otp_brand [cmd, concat (map hex_of_byte blk)] s = (Programmed p (otp_read_block p), t) \<and>
    xesc2_get_otp_identity (mem t) = block_identity (nth blk) \<and>
    (\<forall>a. a < otp_read_block p \<or> otp_read_block p + 64 \<le> a \<longrightarrow> mem t a = mem s a)"
proof -
  define t where "t = snd (flash_helper_write_otp (word_of_nat (otp_read_block p)) blk s)"
  note w = write_pair [OF assms(3,4,1,7,8) t_def]
  have free: "find (otp_pair_empty (mem s)) [0 ..< XESC2_OTP_NUM_PAIRS] = Some p"
    using assms(3-5) by (intro find_upt_eq) (simp_all add: XESC2_OTP_NUM_PAIRS_def)
  have erased: "find (\<lambda>i. pair_block (mem s) p i \<noteq> 0xFF) [0 ..< 64] = None"
    using assms(4) by (simp add: find_none_iff otp_pair_empty_iff)
  have same: "find (\<lambda>i. pair_block (mem t) p i \<noteq> blk ! i) [0 ..< 64] = None"
    using w(2) by (simp add: find_none_iff)
  have hdr: "blk ! 0 = XESC2_OTP_MAGIC" "blk ! 1 = XESC2_OTP_VERSION" "block_crc_field (nth blk) = block_crc (nth blk)"
    using assms(2) by (simp_all add: otp_valid_def)
  have r: "xesc2_terminal_otp_brand [cmd, concat (map hex_of_byte blk)] s = (Programmed p (otp_read_block p), t)"
    using w(1) hdr assms(1)
    by (simp add: xesc2_terminal_otp_brand_def free parse_hex_of_bytes length_hex erased case_prod_beta
        Let_def t_def [symmetric] same)
  have own: "otp_valid (pair_block (mem t) p) = otp_valid (nth blk)"
      "block_identity (pair_block (mem t) p) = block_identity (nth blk)"
    using block_cong [of "pair_block (mem t) p" "nth blk"] w(2) by simp_all
  have "\<not> otp_valid (pair_block (mem t) q)" if "p < q" "q < 8" for q
  proof -
    have "pair_block (mem t) q 0 = pair_block (mem s) q 0"
      unfolding pair_block_def using that by (intro w(3) [rule_format] pairs_disjoint) simp_all
    then have "pair_block (mem t) q 0 = 0xFF"
      using assms(6) that by (simp add: otp_pair_empty_iff)
    then show ?thesis
      by (simp add: otp_valid_def XESC2_OTP_MAGIC_def)
  qed
  then have "xesc2_get_otp_identity (mem t) = block_identity (pair_block (mem t) p)"
    unfolding xesc2_get_otp_identity_def using assms(2,3) own(1)
    by (intro otp_scan_highest) (simp_all add: XESC2_OTP_NUM_PAIRS_def)
  then show ?thesis
    using r w(3) own(2) by auto
qed

text \<open>A valid block: a v2 mini, hardware 2.0.0, serial number 5.\<close>

definition example_block :: bytes where
  "example_block = [0xEC, 1, 0, 1, 2, 0, 0, 5, 0, 0, 0xF1, 0x53, 0x65, 0xFF, 0xe5, 0x60] @ replicate 48 0"

lemma example_block_valid: "length example_block = 64" "otp_valid (nth example_block)"
proof -
  show "length example_block = 64"
    by (simp add: example_block_def)
  have "otp_crc16 [0xEC, 1, 0, 1, 2, 0, 0, 5, 0, 0, 0xF1, 0x53, 0x65, 0xFF] = 0x60e5"
    by (simp add: otp_crc16_rolling crc16_rolling.simps(2) crc16_tab_def)
  moreover have "map (nth example_block) [0 ..< 14] = [0xEC, 1, 0, 1, 2, 0, 0, 5, 0, 0, 0xF1, 0x53, 0x65, 0xFF]"
    unfolding example_block_def by (simp add: eval_nat_numeral)
  ultimately show "otp_valid (nth example_block)"
    by (simp add: otp_valid_def block_crc_def block_crc_field_def le16_def XESC2_OTP_MAGIC_def
        XESC2_OTP_VERSION_def) (simp add: example_block_def)
qed

definition board_init :: "(nat \<Rightarrow> u8) \<Rightarrow> board" where
  "board_init m = \<lparr>mem = m, script = [], flash_locked = True, sys_lock_cnt = 0, sys_locked = False,
     init_done = True, iwdt = (4, 140), sampling_disabled = False, ignore_input = 0, motor_stops = True,
     motor_override_released = False, g_xesc2_otp_identity = no_identity,
     g_xesc2_fatal_config_error = False, g_xesc2_variant = variant_error_fallback, v2_id_pad = True,
     gate_pad = False\<rparr>"

lemma board_init_fields [simp]:
  "mem (board_init m) = m" "script (board_init m) = []" "motor_stops (board_init m)"
  by (simp_all add: board_init_def)

theorem otp_brand_then_boot_witness:
  "oid_serial (xesc2_get_otp_identity (mem (snd (xesc2_terminal_otp_brand
     [''otp_brand'', concat (map hex_of_byte example_block)] (board_init (\<lambda>_. 0xFF)))))) = 5"
proof -
  have "oid_serial (block_identity (nth example_block)) = 5"
    by (simp add: block_identity_def le16_def example_block_def)
  then show ?thesis
    using otp_brand_then_boot [of example_block 0 "board_init (\<lambda>_. 0xFF)" "''otp_brand''"] example_block_valid
    by (auto simp: otp_pair_empty_iff pair_block_def)
qed

theorem xesc2_detect_decision_witness:
  "let t = xesc2_detect_and_apply_variant (board_init (\<lambda>_. 0xFF)\<lparr>v2_id_pad := False\<rparr>) in
   g_xesc2_fatal_config_error t \<and> mcconf_l_current_max (g_xesc2_variant t) = 0"
proof -
  have m: "mem (board_init (\<lambda>_. 0xFF)\<lparr>v2_id_pad := False\<rparr>) = (\<lambda>_. 0xFF)" "\<not> v2_id_pad (board_init (\<lambda>_. 0xFF)\<lparr>v2_id_pad := False\<rparr>)"
    by (simp_all add: board_init_def)
  have "otp_scan n (\<lambda>_. 0xFF) = no_identity" for n
    by (induction n) (simp_all add: otp_scan.simps Let_def pair_block_def XESC2_OTP_MAGIC_def)
  then have "oid_valid (xesc2_get_otp_identity (\<lambda>_. 0xFF)) = 0"
    by (simp add: xesc2_get_otp_identity_def no_identity_def)
  then show ?thesis
    using xesc2_detect_decision [of "board_init (\<lambda>_. 0xFF)\<lparr>v2_id_pad := False\<rparr>"] by (simp add: m Let_def)
qed

lemma otp_brand_cases:
  assumes "xesc2_terminal_otp_brand argv s = (r, t)"
  obtains "t = s" "\<forall>p a. r \<noteq> Programmed p a"
  | pair blk where "find (otp_pair_empty (mem s)) [0 ..< XESC2_OTP_NUM_PAIRS] = Some pair"
      "length blk = 64" "otp_valid (nth blk)"
      "t = snd (flash_helper_write_otp (word_of_nat (otp_read_block pair)) blk s)"
      "\<forall>p a. r = Programmed p a \<longrightarrow> p = pair \<and> find (\<lambda>i. pair_block (mem t) pair i \<noteq> blk ! i) [0 ..< 64] = None"
proof (cases "t = s \<and> (\<forall>p a. r \<noteq> Programmed p a)")
  case True
  then show ?thesis using that(1) by blast
next
  case False
  note brand = assms [unfolded xesc2_terminal_otp_brand_def Let_def]
  have l: "length argv = 2"
    using brand False by (cases "length argv = 2") auto
  obtain pair where p: "find (otp_pair_empty (mem s)) [0 ..< XESC2_OTP_NUM_PAIRS] = Some pair"
    using brand False l by (cases "find (otp_pair_empty (mem s)) [0 ..< XESC2_OTP_NUM_PAIRS]") auto
  have h: "length (argv ! 1) = 128"
    using brand False l p by (cases "length (argv ! 1) = 128") auto
  obtain blk where k: "parse_hex 0 (argv ! 1) = Inr blk"
    using brand False l p h by (cases "parse_hex 0 (argv ! 1)") auto
  have v: "otp_valid (nth blk)"
    using brand False l p h k by (cases "otp_valid (nth blk)") (auto simp: otp_valid_def split: if_splits)
  have e: "find (\<lambda>i. pair_block (mem s) pair i \<noteq> 0xFF) [0 ..< 64] = None"
    using brand False l p h k v
    by (cases "find (\<lambda>i. pair_block (mem s) pair i \<noteq> 0xFF) [0 ..< 64]") (auto simp: otp_valid_def)
  let ?w = "flash_helper_write_otp (word_of_nat (otp_read_block pair)) blk s"
  have w: "(if fst ?w \<noteq> 0 then (WriteFailed (fst ?w), snd ?w)
      else case find (\<lambda>i. pair_block (mem (snd ?w)) pair i \<noteq> blk ! i) [0 ..< 64] of
        Some i \<Rightarrow> (VerifyFailed i (pair_block (mem (snd ?w)) pair i) (blk ! i), snd ?w)
      | None \<Rightarrow> (Programmed pair (otp_read_block pair), snd ?w)) = (r, t)"
    using brand l p h k v e by (simp add: otp_valid_def case_prod_beta)
  then have "t = snd ?w"
      "\<forall>p a. r = Programmed p a \<longrightarrow> p = pair \<and> find (\<lambda>i. pair_block (mem t) pair i \<noteq> blk ! i) [0 ..< 64] = None"
    by (auto split: if_splits option.splits)
  note * = p h k v this
  have "length blk = 64"
    using length_parse_hex [OF k] h by simp
  then show ?thesis
    using that(2) * by blast
qed

text \<open>C10. Branding is safe on any memory and for any flash behaviour: whatever arguments are
  given, the only bytes that can change are those of one pair that was completely erased; and
  when the command reports success, that pair holds a block with valid magic, version and
  CRC.\<close>

theorem otp_brand_safe:
  assumes "xesc2_terminal_otp_brand argv s = (r, t)"
  shows "(mem t = mem s \<or> (\<exists>p < 8. otp_pair_empty (mem s) p \<and>
      (\<forall>a. a < otp_read_block p \<or> otp_read_block p + 64 \<le> a \<longrightarrow> mem t a = mem s a))) \<and>
    (\<forall>p a. r = Programmed p a \<longrightarrow> p < 8 \<and> otp_pair_empty (mem s) p \<and> otp_valid (pair_block (mem t) p))"
  using assms
proof (cases rule: otp_brand_cases)
  case 1
  then show ?thesis by auto
next
  case (2 p blk)
  have p: "p < 8" "otp_pair_empty (mem s) p"
    using find_some_upt [OF 2(1)] by (simp_all add: XESC2_OTP_NUM_PAIRS_def)
  have le: "unat (word_of_nat (otp_read_block p) :: u32) + length blk \<le> 2 ^ 32"
    using p 2(2) by (simp add: otp_addr) (simp add: otp_read_block_def XESC2_OTP_BASE_ADDR_def)
  have "mem t a = mem s a" if "a < otp_read_block p \<or> otp_read_block p + 64 \<le> a" for a
    using write_data_outside [OF le, of a s] that p 2(2)
    by (simp add: 2(4) flash_helper_write_otp_def case_prod_beta otp_addr)
  moreover have "otp_valid (pair_block (mem t) q)" "q = p" if "r = Programmed q a" for q a
  proof -
    show q: "q = p" using 2(5) that by blast
    have "pair_block (mem t) p i = blk ! i" if "i < 64" for i
      using 2(5) \<open>r = Programmed q a\<close> that by (auto simp: find_none_iff)
    then show "otp_valid (pair_block (mem t) q)"
      using block_cong(1) [of "pair_block (mem t) p" "nth blk"] 2(3) q by simp
  qed
  ultimately show ?thesis
    using p by blast
qed

theorem otp_brand_safe_witness:
  "\<exists>r t. xesc2_terminal_otp_brand [''otp_brand''] (board_init (\<lambda>_. 0)) = (r, t) \<and> mem t = (\<lambda>_. 0)"
proof -
  have "xesc2_terminal_otp_brand [''otp_brand''] (board_init (\<lambda>_. 0)) = (Usage, board_init (\<lambda>_. 0))"
    by (simp add: xesc2_terminal_otp_brand_def)
  moreover have "\<not> otp_pair_empty (\<lambda>_. 0) p" for p
    by (auto simp: otp_pair_empty_iff pair_block_def intro: exI [of _ 0])
  ultimately show ?thesis
    using otp_brand_safe [of "[''otp_brand'']" "board_init (\<lambda>_. 0)" Usage "board_init (\<lambda>_. 0)"] by auto
qed

text \<open>The terminal listing and the boot agree: \<open>otp_info\<close> reports an active pair
  exactly when the boot finds an identity, and the 128 hex characters it prints for it parse
  back to a block of that identity, the form \<open>otp_brand\<close> takes.\<close>

lemma otp_info_foldl:
  "\<exists>out. foldl (otp_info_pair m) ([], 0, - 1) [0 ..< n] =
     (out, card {p. p < n \<and> otp_valid (pair_block m p)},
      if \<exists>p < n. otp_valid (pair_block m p) then int (GREATEST p. p < n \<and> otp_valid (pair_block m p)) else - 1)"
proof (induction n)
  case 0
  then show ?case by simp
next
  case (Suc n)
  let ?V = "\<lambda>p. otp_valid (pair_block m p)"
  have g: "(GREATEST p. p < Suc n \<and> ?V p) = n" if "?V n"
    using that by (intro Greatest_equality) auto
  have e: "(\<lambda>p. p < Suc n \<and> ?V p) = (\<lambda>p. p < n \<and> ?V p)" if "\<not> ?V n"
    using that by (auto simp: less_Suc_eq)
  have c: "{p. p < Suc n \<and> ?V p} = (if ?V n then insert n {p. p < n \<and> ?V p} else {p. p < n \<and> ?V p})"
    by (auto simp: less_Suc_eq)
  have step: "\<exists>out'. otp_info_pair m (out, found, act) n =
      (out', if ?V n then found + 1 else found, if ?V n then int n else act)" for out found act
    by (auto simp: otp_info_pair_def otp_valid_def Let_def)
  show ?case
  proof (cases "?V n")
    case True
    then show ?thesis
      using Suc step g c by (auto simp: less_Suc_eq)
  next
    case False
    then have "(\<exists>p < Suc n. ?V p) = (\<exists>p < n. ?V p)"
      by (auto simp: less_Suc_eq)
    then show ?thesis
      using Suc step e [OF False] c False by auto
  qed
qed

theorem otp_info_matches_boot:
  assumes "out = xesc2_terminal_otp_info s"
  shows "(oid_valid (xesc2_get_otp_identity (mem s)) = 0 \<longleftrightarrow> last out = NoIdentity) \<and>
    (oid_valid (xesc2_get_otp_identity (mem s)) \<noteq> 0 \<longrightarrow> (\<exists>hex blk. last out = ActiveRaw hex \<and>
       parse_hex 0 hex = Inr blk \<and> length blk = 64 \<and> otp_valid (nth blk) \<and>
       block_identity (nth blk) = xesc2_get_otp_identity (mem s)))"
proof (cases rule: otp_scan_cases [of XESC2_OTP_NUM_PAIRS "mem s"])
  case 1
  then have "{p. p < XESC2_OTP_NUM_PAIRS \<and> otp_valid (pair_block (mem s) p)} = {}"
    by auto
  then have "last out = NoIdentity"
    using otp_info_foldl [of "mem s" XESC2_OTP_NUM_PAIRS] assms
    by (auto simp: xesc2_terminal_otp_info_def)
  then show ?thesis
    using 1 by (simp add: xesc2_get_otp_identity_def no_identity_def)
next
  case (2 p)
  let ?blk = "map (pair_block (mem s) p) [0 ..< 64]"
  have "(GREATEST q. q < XESC2_OTP_NUM_PAIRS \<and> otp_valid (pair_block (mem s) q)) = p"
    using 2 by (intro Greatest_equality) (auto simp: not_less [symmetric])
  moreover have "card {q. q < XESC2_OTP_NUM_PAIRS \<and> otp_valid (pair_block (mem s) q)} > 0"
    using 2 by (auto simp: card_gt_0_iff)
  ultimately have l: "last out = ActiveRaw (concat (map hex_of_byte ?blk))"
    using otp_info_foldl [of "mem s" XESC2_OTP_NUM_PAIRS] assms 2(1,2)
    by (auto simp: xesc2_terminal_otp_info_def comp_def)
  have b: "otp_valid (nth ?blk)" "block_identity (nth ?blk) = block_identity (pair_block (mem s) p)"
    using block_cong [of "nth ?blk" "pair_block (mem s) p"] 2(2) by simp_all
  have "oid_valid (otp_scan XESC2_OTP_NUM_PAIRS (mem s)) \<noteq> 0"
    using 2 by (simp add: block_identity_def)
  then show ?thesis
    using l b 2(4) parse_hex_of_bytes [of 0 ?blk]
    by (auto simp: xesc2_get_otp_identity_def)
qed

theorem otp_info_matches_boot_witness:
  "last (xesc2_terminal_otp_info (board_init (\<lambda>_. 0))) = NoIdentity"
proof -
  have "xesc2_get_otp_identity (\<lambda>_. 0) = no_identity"
    unfolding xesc2_get_otp_identity_def
    by (rule otp_scan_none) (simp add: otp_valid_def pair_block_def XESC2_OTP_MAGIC_def)
  then show ?thesis
    using otp_info_matches_boot [OF refl, of "board_init (\<lambda>_. 0)"] by (simp add: no_identity_def)
qed

end
