(* ===== verification/Hw_Limits.thy ===== *)
theory Hw_Limits
  imports Otp Commands
begin

text \<open>
  The limits of the hardware: \<open>commands_apply_mcconf_hw_limits\<close> of \<^verbatim>\<open>comm/commands.c\<close> brings a configuration
  that was received into the limits of the variant of the board (\<^verbatim>\<open>hw_xesc_all_variants.h\<close>), with
  the helpers of \<^verbatim>\<open>util/utils_math.h\<close> that cut a number off.
\<close>

section \<open>Helpers\<close>

definition utils_truncate_number :: "single \<Rightarrow> single \<Rightarrow> single \<Rightarrow> single" where
  "utils_truncate_number number lo hi = (if x_less hi number then hi else if x_less number lo then lo else number)"

definition utils_truncate_number_int :: "int \<Rightarrow> int \<Rightarrow> int \<Rightarrow> int" where
  "utils_truncate_number_int number lo hi = (if number > hi then hi else if number < lo then lo else number)"

definition utils_truncate_number_abs :: "single \<Rightarrow> single \<Rightarrow> single" where
  "utils_truncate_number_abs number hi =
     (if x_less hi number then hi else if x_less number (x_neg hi) then x_neg hi else number)"

section \<open>Limits of a variant\<close>

type_synonym range = "single \<times> single"

definition HW_LIM_CURRENT :: "variant_config \<Rightarrow> range" where "HW_LIM_CURRENT v = (Num (lim_current_min v), Num (lim_current_max v))"
definition HW_LIM_CURRENT_IN :: "variant_config \<Rightarrow> range" where "HW_LIM_CURRENT_IN v = (Num (lim_current_in_min v), Num (lim_current_in_max v))"
definition HW_LIM_CURRENT_ABS :: "variant_config \<Rightarrow> range" where "HW_LIM_CURRENT_ABS v = (Num 0, Num (lim_current_abs_max v))"
definition HW_LIM_VIN :: "variant_config \<Rightarrow> range" where "HW_LIM_VIN v = (Num (lim_vin_min v), Num (lim_vin_max v))"
definition HW_LIM_ERPM :: range where "HW_LIM_ERPM = (Num (- 200000), Num 200000)"
definition HW_LIM_DUTY_MIN :: range where "HW_LIM_DUTY_MIN = (Num 0, fl (1 / 10))"
definition HW_LIM_DUTY_MAX :: range where "HW_LIM_DUTY_MAX = (Num 0, fl (99 / 100))"
definition HW_LIM_TEMP_FET :: "variant_config \<Rightarrow> range" where "HW_LIM_TEMP_FET v = (Num (- 40), Num (lim_temp_fet_max v))"
definition HW_LIM_FOC_CTRL_LOOP_FREQ :: range where "HW_LIM_FOC_CTRL_LOOP_FREQ = (Num 3000, Num 30000)"
definition HW_FOC_CURRENT_FILTER_LIM :: range where "HW_FOC_CURRENT_FILTER_LIM = (fl (5 / 100), Num 1)"

definition hw_lim_upper :: "range \<Rightarrow> single" where "hw_lim_upper r = (case r of (l, h) \<Rightarrow> h)"

definition cut :: "range \<Rightarrow> single \<Rightarrow> single" where
  "cut r x = utils_truncate_number x (fst r) (snd r)"

text \<open>The fields of the configuration that only this function and the motor control read.\<close>

record full_configuration = mc_configuration +
  l_min_duty :: single
  foc_hfi_amb_current :: single
  foc_overmod_factor :: single
  foc_f_zv :: single
  m_hall_extra_samples :: int
  foc_sl_erpm :: single
  foc_sl_erpm_start :: single
  foc_current_filter_const :: single

text \<open>The switching frequency, and with it the frequency of the control loop.\<close>

definition limit_foc_f_zv :: "full_configuration \<Rightarrow> full_configuration \<times> single" where
  "limit_foc_f_zv c =
     (if foc_control_sample_mode c = FOC_CONTROL_SAMPLE_MODE_V0_V7 then
        let c = c\<lparr>foc_f_zv := cut HW_LIM_FOC_CTRL_LOOP_FREQ (foc_f_zv c)\<rparr> in (c, foc_f_zv c)
      else
        let c = c\<lparr>foc_f_zv := utils_truncate_number (foc_f_zv c) (fst HW_LIM_FOC_CTRL_LOOP_FREQ) (x_mul (snd HW_LIM_FOC_CTRL_LOOP_FREQ) (Num 2))\<rparr>
        in (c, x_div (foc_f_zv c) (Num 2)))"

definition limit_hall_samples :: "single \<Rightarrow> int \<Rightarrow> int" where
  "limit_hall_samples ctrl_loop_freq n =
     (if x_le (x_mul (hw_lim_upper HW_LIM_FOC_CTRL_LOOP_FREQ) (fl (9 / 10))) ctrl_loop_freq then utils_truncate_number_int n 0 2
      else if x_le (x_mul (hw_lim_upper HW_LIM_FOC_CTRL_LOOP_FREQ) (fl (7 / 10))) ctrl_loop_freq then utils_truncate_number_int n 0 4
      else utils_truncate_number_int n 0 10)"

definition commands_apply_mcconf_hw_limits :: "variant_config \<Rightarrow> full_configuration \<Rightarrow> full_configuration" where
  "commands_apply_mcconf_hw_limits v c =
     (let c = (if \<not> variant_config.has_phase_shunts v \<and> foc_control_sample_mode c \<noteq> FOC_CONTROL_SAMPLE_MODE_V0
               then c\<lparr>foc_control_sample_mode := FOC_CONTROL_SAMPLE_MODE_V0\<rparr> else c);
          c = c\<lparr>l_current_max_scale := utils_truncate_number (l_current_max_scale c) (Num 0) (Num 1)\<rparr>;
          c = c\<lparr>l_current_min_scale := utils_truncate_number (l_current_min_scale c) (Num 0) (Num 1)\<rparr>;
          c = c\<lparr>l_erpm_start := utils_truncate_number (l_erpm_start c) (Num 0) (Num 1)\<rparr>;
          c = c\<lparr>foc_overmod_factor := utils_truncate_number (foc_overmod_factor c) (Num 1) (Num (3 / 2))\<rparr>;
          (c, ctrl_loop_freq) = limit_foc_f_zv c;
          c = c\<lparr>m_hall_extra_samples := limit_hall_samples ctrl_loop_freq (m_hall_extra_samples c)\<rparr>;
          c = c\<lparr>foc_sl_erpm_start := utils_truncate_number_abs (foc_sl_erpm_start c) (x_mul (foc_sl_erpm c) (fl (9 / 10)))\<rparr>;
          c = c\<lparr>l_current_max := cut (HW_LIM_CURRENT v) (l_current_max c)\<rparr>;
          c = c\<lparr>l_current_min := cut (HW_LIM_CURRENT v) (l_current_min c)\<rparr>;
          c = c\<lparr>foc_hfi_amb_current := cut (HW_LIM_CURRENT v) (foc_hfi_amb_current c)\<rparr>;
          c = c\<lparr>l_in_current_max := cut (HW_LIM_CURRENT_IN v) (l_in_current_max c)\<rparr>;
          c = c\<lparr>l_in_current_min := cut (HW_LIM_CURRENT v) (l_in_current_min c)\<rparr>;
          c = c\<lparr>l_abs_current_max := cut (HW_LIM_CURRENT_ABS v) (l_abs_current_max c)\<rparr>;
          c = c\<lparr>l_max_vin := cut (HW_LIM_VIN v) (l_max_vin c)\<rparr>;
          c = c\<lparr>l_min_vin := cut (HW_LIM_VIN v) (l_min_vin c)\<rparr>;
          c = c\<lparr>l_max_erpm := cut HW_LIM_ERPM (l_max_erpm c)\<rparr>;
          c = c\<lparr>l_min_erpm := cut HW_LIM_ERPM (l_min_erpm c)\<rparr>;
          c = c\<lparr>l_min_duty := cut HW_LIM_DUTY_MIN (l_min_duty c)\<rparr>;
          c = c\<lparr>l_max_duty := cut HW_LIM_DUTY_MAX (l_max_duty c)\<rparr>;
          c = c\<lparr>l_temp_fet_start := cut (HW_LIM_TEMP_FET v) (l_temp_fet_start c)\<rparr>;
          c = c\<lparr>l_temp_fet_end := cut (HW_LIM_TEMP_FET v) (l_temp_fet_end c)\<rparr>
      in c\<lparr>foc_current_filter_const := cut HW_FOC_CURRENT_FILTER_LIM (foc_current_filter_const c)\<rparr>)"

section \<open>Facts\<close>

definition inside :: "range \<Rightarrow> single \<Rightarrow> bool" where
  "inside r x \<longleftrightarrow> x_le (fst r) x \<and> x_le x (snd r)"

definition proper :: "range \<Rightarrow> bool" where
  "proper r \<longleftrightarrow> x_le (fst r) (snd r)"

lemma x_less_order: "x_less a b \<Longrightarrow> \<not> x_less b a" "x_less a b \<Longrightarrow> x_less b c \<Longrightarrow> x_less a c" "\<not> x_less a a"
  "a \<noteq> NaN \<Longrightarrow> b \<noteq> NaN \<Longrightarrow> x_less a b \<or> a = b \<or> x_less b a" "x_less a b \<Longrightarrow> a \<noteq> NaN \<and> b \<noteq> NaN"
  by ((cases a; cases b; cases c; auto), (cases a; cases b; cases c; auto), (cases a; auto), (cases a; cases b; auto), (cases a; cases b; auto))

lemma x_le_NaN: "x_le a b \<Longrightarrow> a \<noteq> NaN \<and> b \<noteq> NaN"
  using x_less_order(5) by (auto simp: x_le_def)

lemma cut_cases:
  assumes "proper r"
  obtains "x = NaN" "cut r x = NaN" | "x \<noteq> NaN" "x_less (snd r) x" "cut r x = snd r" | "x \<noteq> NaN" "x_less x (fst r)" "cut r x = fst r"
  | "x \<noteq> NaN" "inside r x" "cut r x = x"
proof -
  have n: "fst r \<noteq> NaN" "snd r \<noteq> NaN" using x_le_NaN assms by (auto simp: proper_def)
  have "\<not> x_less b NaN" "\<not> x_less NaN b" for b by (cases b; simp)+
  then have z: "cut r NaN = NaN" by (simp add: cut_def utils_truncate_number_def)
  consider "x = NaN" | "x \<noteq> NaN" "x_less (snd r) x" | "x \<noteq> NaN" "\<not> x_less (snd r) x" "x_less x (fst r)"
    | "x \<noteq> NaN" "\<not> x_less (snd r) x" "\<not> x_less x (fst r)" by blast
  then show thesis
  proof cases
    case 1
    then show ?thesis using that(1) z by simp
  next
    case 2
    then show ?thesis using that(2) by (simp add: cut_def utils_truncate_number_def)
  next
    case 3
    then show ?thesis using that(3) by (simp add: cut_def utils_truncate_number_def)
  next
    case 4
    then have "inside r x" using x_less_order(4) n unfolding inside_def x_le_def by metis
    then show ?thesis using that(4) 4 by (simp add: cut_def utils_truncate_number_def)
  qed
qed

lemma inside_ends: "proper r \<Longrightarrow> inside r (fst r) \<and> inside r (snd r)"
  using x_le_NaN [of "fst r" "snd r"] by (auto simp: inside_def proper_def x_le_def)

lemma cut_inside:
  assumes "proper r"
  shows "inside r (cut r x) \<longleftrightarrow> x \<noteq> NaN"
proof -
  have "\<not> inside r NaN" using x_le_NaN by (auto simp: inside_def)
  then show ?thesis using inside_ends [OF assms] by (cases rule: cut_cases [OF assms, of x]) simp_all
qed

lemma cut_same: "inside r x \<Longrightarrow> proper r \<Longrightarrow> cut r x = x"
  using x_less_order(1,3) unfolding inside_def x_le_def cut_def utils_truncate_number_def by metis

text \<open>The variants a board can have.\<close>

definition variants :: "variant_config set" where
  "variants = {variant_mini_v1_standard, variant_mini_v2_standard, variant_mini_v2_power, variant_lite_standard, variant_error_fallback}"

lemmas variant_defs = variant_mini_v1_standard_def variant_mini_v2_standard_def variant_mini_v2_power_def variant_lite_standard_def
  variant_error_fallback_def

lemmas limit_defs = HW_LIM_CURRENT_def HW_LIM_CURRENT_IN_def HW_LIM_CURRENT_ABS_def HW_LIM_VIN_def HW_LIM_TEMP_FET_def

lemma proper_range [simp]: "proper (Num a, Num b) \<longleftrightarrow> a \<le> b"
  by (auto simp: proper_def x_le_def)

lemma proper_limits:
  assumes "v \<in> variants"
  shows "proper (HW_LIM_CURRENT v)" "proper (HW_LIM_CURRENT_IN v)" "proper (HW_LIM_CURRENT_ABS v)" "proper (HW_LIM_VIN v)"
    "proper (HW_LIM_TEMP_FET v)"
  using assms by (auto simp: variants_def variant_defs limit_defs)

lemma proper_constants:
  "proper HW_LIM_ERPM" "proper HW_LIM_DUTY_MIN" "proper HW_LIM_DUTY_MAX" "proper HW_LIM_FOC_CTRL_LOOP_FREQ" "proper HW_FOC_CURRENT_FILTER_LIM"
proof -
  have "\<bar>rnd (1 / 10) - 1 / 10\<bar> \<le> 1 / 10 / 100" "\<bar>rnd (99 / 100) - 99 / 100\<bar> \<le> 99 / 100 / 100" "\<bar>rnd (5 / 100) - 5 / 100\<bar> \<le> 5 / 100 / 100"
    by (rule rnd_near; simp)+
  then have "0 \<le> rnd (1 / 10)" "0 \<le> rnd (99 / 100)" "rnd (5 / 100) \<le> 1" by linarith+
  then show "proper HW_LIM_ERPM" "proper HW_LIM_DUTY_MIN" "proper HW_LIM_DUTY_MAX" "proper HW_LIM_FOC_CTRL_LOOP_FREQ" "proper HW_FOC_CURRENT_FILTER_LIM"
    by (simp_all add: HW_LIM_ERPM_def HW_LIM_DUTY_MIN_def HW_LIM_DUTY_MAX_def HW_LIM_FOC_CTRL_LOOP_FREQ_def HW_FOC_CURRENT_FILTER_LIM_def fl_def)
qed

text \<open>What the limits of a variant apply to, with the range each value has to be in: the switching frequency may be
  twice as high unless the board samples in both zero vectors, the speed at which the observer takes over is tied to the
  speed below which it is not used. The lower limit of the input current, which the code cuts at the wrong
  range (\<open>in_current_exceeds\<close>), is not among them.\<close>

definition sl_range :: "full_configuration \<Rightarrow> range" where
  "sl_range c = (let m = x_mul (foc_sl_erpm c) (fl (9 / 10)) in (x_neg m, m))"

definition f_zv_range :: "variant_config \<Rightarrow> full_configuration \<Rightarrow> range" where
  "f_zv_range v c = (Num 3000,
     if variant_config.has_phase_shunts v \<and> foc_control_sample_mode c = FOC_CONTROL_SAMPLE_MODE_V0_V7 then Num 30000 else Num 60000)"

definition limited_values :: "variant_config \<Rightarrow> full_configuration \<Rightarrow> (range \<times> single) list" where
  "limited_values v c =
     [(HW_LIM_CURRENT v, l_current_max c), (HW_LIM_CURRENT v, l_current_min c), (HW_LIM_CURRENT v, foc_hfi_amb_current c),
      (HW_LIM_CURRENT_IN v, l_in_current_max c), (HW_LIM_CURRENT_ABS v, l_abs_current_max c),
      (HW_LIM_VIN v, l_max_vin c), (HW_LIM_VIN v, l_min_vin c), (HW_LIM_ERPM, l_max_erpm c), (HW_LIM_ERPM, l_min_erpm c),
      (HW_LIM_DUTY_MIN, l_min_duty c), (HW_LIM_DUTY_MAX, l_max_duty c), (HW_LIM_TEMP_FET v, l_temp_fet_start c),
      (HW_LIM_TEMP_FET v, l_temp_fet_end c), (HW_FOC_CURRENT_FILTER_LIM, foc_current_filter_const c),
      ((Num 0, Num 1), l_current_max_scale c), ((Num 0, Num 1), l_current_min_scale c), ((Num 0, Num 1), l_erpm_start c),
      ((Num 1, Num (3 / 2)), foc_overmod_factor c), (f_zv_range v c, foc_f_zv c), (sl_range c, foc_sl_erpm_start c)]"

lemma limit_double: "single_of 60000 = Num 60000"
  using rnd_int [of 60000] by (simp add: single_of_def Let_def)

lemma cut_abs: "utils_truncate_number_abs x h = cut (x_neg h, h) x"
  by (simp add: cut_def utils_truncate_number_def utils_truncate_number_abs_def)

lemma cut_range: "utils_truncate_number x l h = cut (l, h) x"
  by (simp add: cut_def)

lemma limited_cut: "limited_values v (commands_apply_mcconf_hw_limits v c) = map (\<lambda>(r, x). (r, cut r x)) (limited_values v c)"
  by (simp add: limited_values_def commands_apply_mcconf_hw_limits_def limit_foc_f_zv_def Let_def cut_abs cut_range f_zv_range_def sl_range_def
      HW_LIM_FOC_CTRL_LOOP_FREQ_def limit_double)

lemma rnd_nonneg: "0 \<le> x \<Longrightarrow> 0 \<le> rnd x"
  by (auto simp: rnd_def round_even_def ulp_def Let_def)

lemma sl_proper:
  assumes "x_le (Num 0) (foc_sl_erpm c)"
  shows "proper (sl_range c)"
proof -
  have r: "0 < rnd (9 / 10)" using rnd_near [of "9 / 10"] abs_ge_minus_self [of "rnd (9 / 10) - 9 / 10"] by simp
  consider e where "foc_sl_erpm c = Num e" "0 \<le> e" | "foc_sl_erpm c = Inf False" using assms by (cases "foc_sl_erpm c") (auto simp: x_le_def)
  then show ?thesis
  proof cases
    case 1
    then have "0 \<le> rnd (e * rnd (9 / 10))" using r by (intro rnd_nonneg) simp
    then show ?thesis using 1 by (auto simp: proper_def sl_range_def fl_def single_of_def Let_def x_le_def)
  next
    case 2
    then show ?thesis using r by (simp add: proper_def sl_range_def fl_def Let_def x_le_def)
  qed
qed

lemma limited_proper:
  assumes "v \<in> variants" and "x_le (Num 0) (foc_sl_erpm c)" and "(r, x) \<in> set (limited_values v c)"
  shows "proper r"
  using assms(3) proper_limits [OF assms(1)] proper_constants sl_proper [OF assms(2)] by (auto simp: limited_values_def f_zv_range_def)

lemma sample_mode_limited:
  "foc_control_sample_mode (commands_apply_mcconf_hw_limits v c) =
    (if variant_config.has_phase_shunts v then foc_control_sample_mode c else FOC_CONTROL_SAMPLE_MODE_V0)"
  by (simp add: commands_apply_mcconf_hw_limits_def limit_foc_f_zv_def Let_def)

lemma hall_limited: "0 \<le> m_hall_extra_samples (commands_apply_mcconf_hw_limits v c) \<and> m_hall_extra_samples (commands_apply_mcconf_hw_limits v c) \<le> 10"
  by (simp add: commands_apply_mcconf_hw_limits_def limit_foc_f_zv_def Let_def limit_hall_samples_def utils_truncate_number_int_def)

text \<open>\<open>fitted\<close>: the value is in its range afterwards, unless it is not a number, and the same if it was there before.\<close>

definition fitted :: "range \<times> single \<Rightarrow> range \<times> single \<Rightarrow> bool" where
  "fitted p q \<longleftrightarrow>
     fst q = fst p \<and> (inside (fst p) (snd q) \<longleftrightarrow> snd p \<noteq> NaN) \<and> (inside (fst p) (snd p) \<longrightarrow> snd q = snd p)"

text \<open>C35. On every variant of the board each of the twenty values in \<open>limited_values\<close> is inside its range after the
  hardware limits were applied, unless it is not a number, and a value already inside is kept, provided that the speed to which
  the start of the observer is tied is not negative and is a number; the number of hall samples is from 0 to 10;
  and a board without phase shunts samples in the mode that needs none.\<close>

theorem hw_limits_enforced:
  assumes "v \<in> variants" and "x_le (Num 0) (foc_sl_erpm c)"
  shows "list_all2 fitted (limited_values v c) (limited_values v (commands_apply_mcconf_hw_limits v c)) \<and>
    foc_control_sample_mode (commands_apply_mcconf_hw_limits v c) =
      (if variant_config.has_phase_shunts v then foc_control_sample_mode c else FOC_CONTROL_SAMPLE_MODE_V0) \<and>
    m_hall_extra_samples (commands_apply_mcconf_hw_limits v c) \<in> {0..10}"
proof -
  have "list_all2 fitted (limited_values v c) (map (\<lambda>(r, x). (r, cut r x)) (limited_values v c))"
    using cut_inside cut_same limited_proper [OF assms]
    by (auto simp: list.rel_map fitted_def intro!: list.rel_refl_strong)
  then show ?thesis using sample_mode_limited hall_limited by (simp add: limited_cut)
qed

text \<open>A configuration for examples: that of the motor interface with the further fields.\<close>

definition full0 :: full_configuration where
  "full0 = mc_configuration.extend conf0
     (full_configuration.fields (Num 0) (Num 5) (Num 1) (Num 25000) 1 (Num 2500) (Num 2500) (Num (1 / 8)))"

theorem hw_limits_enforced_witness:
  "list_all2 fitted (limited_values variant_lite_standard full0)
      (limited_values variant_lite_standard (commands_apply_mcconf_hw_limits variant_lite_standard full0)) \<and>
    foc_control_sample_mode (commands_apply_mcconf_hw_limits variant_lite_standard full0) =
      (if variant_config.has_phase_shunts variant_lite_standard then foc_control_sample_mode full0 else FOC_CONTROL_SAMPLE_MODE_V0) \<and>
    m_hall_extra_samples (commands_apply_mcconf_hw_limits variant_lite_standard full0) \<in> {0..10}"
  by (rule hw_limits_enforced) (simp_all add: variants_def full0_def mc_configuration.defs full_configuration.defs x_le_def)

lemma limits_applied:
  "l_current_max (commands_apply_mcconf_hw_limits v c) = cut (HW_LIM_CURRENT v) (l_current_max c)"
  "l_current_min (commands_apply_mcconf_hw_limits v c) = cut (HW_LIM_CURRENT v) (l_current_min c)"
  "l_in_current_min (commands_apply_mcconf_hw_limits v c) = cut (HW_LIM_CURRENT v) (l_in_current_min c)"
  "l_abs_current_max (commands_apply_mcconf_hw_limits v c) = cut (HW_LIM_CURRENT_ABS v) (l_abs_current_max c)"
  by (simp_all add: commands_apply_mcconf_hw_limits_def limit_foc_f_zv_def Let_def)

text \<open>The lower limit of the input current is cut at the limit of the motor current: on the first board a
  regenerative input current beyond the limit of the hardware is accepted.\<close>

lemma in_current_exceeds:
  "l_in_current_min (commands_apply_mcconf_hw_limits variant_mini_v1_standard (full0\<lparr>l_in_current_min := Num (- 60)\<rparr>)) = Num (- 15) \<and>
    fst (HW_LIM_CURRENT_IN variant_mini_v1_standard) = Num (- 10)"
  by (simp add: limits_applied cut_def utils_truncate_number_def HW_LIM_CURRENT_def HW_LIM_CURRENT_IN_def variant_mini_v1_standard_def)

text \<open>A board without a valid identity.\<close>

lemma error_no_current:
  assumes "l_current_max c \<noteq> NaN" and "l_current_min c \<noteq> NaN" and "l_abs_current_max c \<noteq> NaN"
  defines "c' \<equiv> commands_apply_mcconf_hw_limits variant_error_fallback c"
  shows "l_current_max c' = Num 0 \<and> l_current_min c' = Num 0 \<and> l_abs_current_max c' = Num 0"
proof -
  have z: "cut (Num 0, Num 0) x = Num 0" if "x \<noteq> NaN" for x
    using that by (cases x) (auto simp: cut_def utils_truncate_number_def)
  show ?thesis using z [OF assms(1)] z [OF assms(2)] z [OF assms(3)]
    by (simp add: c'_def limits_applied HW_LIM_CURRENT_def HW_LIM_CURRENT_ABS_def variant_error_fallback_def)
qed

text \<open>The smallest current is not limited: whatever it is configured to, the limit in force is not below it.\<close>

lemma min_current_uncapped:
  "cc_min_current (commands_apply_mcconf_hw_limits v c) = cc_min_current c"
  "\<not> x_less (lo_current_max (m_conf (update_override_limits s))) (cc_min_current (m_conf s))"
proof -
  show "cc_min_current (commands_apply_mcconf_hw_limits v c) = cc_min_current c"
    by (simp add: commands_apply_mcconf_hw_limits_def limit_foc_f_zv_def Let_def)
  have "\<not> x_less x x" for x by (cases x) simp_all
  then show "\<not> x_less (lo_current_max (m_conf (update_override_limits s))) (cc_min_current (m_conf s))"
    by (simp add: update_override_limits_def Let_def case_prod_unfold clamp_max_def)
qed

end
