(* ===== verification/Spec2Isabelle.thy ===== *)
theory Spec2Isabelle
  imports ConfStore Can_Link Can_Ring Bms_Cmd Command_Link Hw_Limits
begin

text \<open>
  Verification of the xESC firmware, a motor controller firmware of the VESC family: its
  communication and storage core, that is everything that decides whether a byte that is received,
  sent or stored is the byte that was meant, and the motor interface, which decides whether a
  command may move the motor.

  \<^bold>\<open>The program.\<close> Packets of up to 512 bytes come in over USB, UART (framed by
  \<^verbatim>\<open>comm/packet.c\<close>) or the CAN bus (cut into frames of 8 bytes and reassembled by
  \<^verbatim>\<open>comm/comm_can.c\<close>) and reach the command processor, \<^verbatim>\<open>comm/commands.c\<close>, which answers
  through a reply function. Commands that store something end in \<^verbatim>\<open>conf_general.c\<close> (configurations
  and user variables, kept in two flash sectors by the EEPROM emulation of \<^verbatim>\<open>driver/eeprom.c\<close>)
  or in \<^verbatim>\<open>flash_helper.c\<close> (new firmware, user code). Both guard every flash operation: the motor
  must stand still, inputs are blocked, the watchdog is slowed down, the kernel is locked. At start-up
  the board reads its identity from one-time programmable memory
  (\<^verbatim>\<open>hwconf/xtech/xesc_all_variants/xesc2_variant_config.c\<close>) and derives its limits from it.

  Every command to the motor, from wherever it comes, passes the gate of
  \<^verbatim>\<open>motor/mc_interface.c\<close>, which refuses it after a fault, under a lock or before the initialisation; a
  timer task every millisecond derives the limits of current from temperatures, voltage and the
  battery monitor (\<^verbatim>\<open>bms.c\<close>) and reports faults; the thread of \<^verbatim>\<open>timeout.c\<close> releases the motor when
  commands stay away or the kill switch is pressed, and feeds the watchdog.

  \<^bold>\<open>Theories.\<close>
  \<^item> \<open>Prelude\<close>: integer types as words, byte arrays as lists with a cursor (\<open>None\<close> is an access
    outside the array), big endian bytes, lemma collections.
  \<^item> \<open>Crc\<close> (\<^verbatim>\<open>util/crc.c\<close>): the table driven CRC-16 equals polynomial division bit by bit and
    detects every error within two adjacent bytes; the CRC-32 unit.
  \<^item> \<open>Buffer\<close>, \<open>Float32\<close> (\<^verbatim>\<open>util/buffer.c\<close>): serialisers of integers and floats. Single and double
    precision numbers are rationals, every operation of the code is the exact operation followed by
    a rounding to nearest, even on ties, with subnormals; infinities and NaN do not occur in the model. Round
    trips, and the error of a scaled value including all roundings.
  \<^item> \<open>Packet\<close> (\<^verbatim>\<open>comm/packet.c\<close>): the state of the parser is its buffer with two pointers and the
    countdown; refinement to a window of bytes; round trip, soundness, resynchronisation.
  \<^item> \<open>Mempools\<close> (\<^verbatim>\<open>util/mempools.c\<close>): the pools of configuration buffers as implementations of the
    locale \<open>allocator\<close>; the allocation in its single memory accesses for two threads.
  \<^item> \<open>Can_State\<close>, \<open>Can_Send\<close>, \<open>Can_Recv\<close> (\<^verbatim>\<open>comm/comm_can.c\<close>): the static variables as one record
    \<open>can\<close>, every sender, every case of \<open>decode_msg\<close>, the ring and the threads. What the module asks of
    others (frames given to the driver, calls of the motor interface, of the command processor, of the
    configuration store) is recorded in order in the field \<open>calls\<close>; what it reads from others is a record
    of inputs. \<open>Can_Safe\<close>: invariant of the state, and that no frame of sufficient length leads to
    an access outside an array, over all reachable states. \<open>Can_Link\<close>: two controllers joined by the bus,
    packets, requests with replies and commands. \<open>Can_Ring\<close>: which frames the processing
    thread sees.
  \<^item> \<open>Single\<close> (\<^verbatim>\<open>util/utils_math.h\<close>): single precision numbers with infinities and NaN, for code that
    divides by measured or configured values. \<open>Bms\<close>, \<open>Bms_Cmd\<close>, \<open>Bms_Limits\<close> (\<^verbatim>\<open>bms.c\<close>): the frames of
    battery monitors, the commands, and what the limits derived from the messages in force do to the current.
  \<^item> \<open>System\<close> (\<^verbatim>\<open>util/utils_sys.c\<close>, \<^verbatim>\<open>timeout.c\<close>, \<^verbatim>\<open>applications/app.c\<close>, \<^verbatim>\<open>motor/mc_interface.c\<close>): the
    machine under the storage code: memory, the guards, and a flash peripheral whose answers are a
    script (\<open>Done\<close>, an error with or without effect, a power cut before the operation), so that theorems quantify over
    all failures at the level of whole operations. An erase that is torn in itself is not modelled.
  \<^item> \<open>Flash_Helper\<close> (\<^verbatim>\<open>flash_helper.c\<close>): erasing, writing and verifying firmware and user code; all
    requests with arguments in range keep the running firmware and leave the guards as they found them; the
    range is not checked by the code.
  \<^item> \<open>Eeprom\<close>, \<open>Eeprom_Store\<close> (\<^verbatim>\<open>driver/eeprom.c\<close>): the emulation as the code has it, and its
    refinement to a map from addresses to values (locale \<open>var_store\<close>), with power loss between any two
    flash operations; and what the start-up makes of a page that a torn erase has left.
  \<^item> \<open>ConfStore\<close> (\<^verbatim>\<open>conf_general.c\<close>): configurations, backup data and user variables over the EEPROM.
  \<^item> \<open>Otp\<close>: branding and detection of the board.
  \<^item> \<open>Motor_State\<close>, \<open>Motor_Limits\<close>, \<open>Motor_If\<close> (\<^verbatim>\<open>motor/mc_interface.c\<close>): the state of the interface and its
    getters; \<open>update_override_limits\<close>; the gate, the commands, the configuration and the timer task. Calls of the
    PWM implementations are recorded in order in the field \<open>issued\<close>, what they and the sensors report is a
    record of inputs. \<open>Motor_Safe\<close>: what the gate guarantees over all histories of requests, faults, ticks
    and configurations. \<open>Motor_Modes\<close>: the end of a fault, modes, and the lock. \<open>Sampling\<close>: the scope, with the arrays of the
    detection that it reads at the commutation step without a check.
  \<^item> \<open>Timeout\<close> (\<^verbatim>\<open>timeout.c\<close>): timeout, kill switch and watchdog, composed with the motor interface.
  \<^item> \<open>Commands\<close> (\<^verbatim>\<open>comm/commands.c\<close>): the entry of the command processor and the commands that drive or stop the
    motor, read its values, take samples, keep the connection alive and set the battery limits; the
    record \<open>firmware\<close> holds the motor interface, the supervision, the scope and the reply functions. The bytes of the
    reply with the values, and the emergency stop over histories of the modelled commands, ticks and rounds of
    supervision. \<open>Command_Link\<close>: the packet layer in front of it, as \<^verbatim>\<open>comm/comm_usb.c\<close> connects them.
    \<open>Hw_Limits\<close>: \<open>commands_apply_mcconf_hw_limits\<close> for each variant of the board.

  \<^bold>\<open>Conventions.\<close> C functions keep their names. An operation returns \<open>None\<close> where the C code would
  access memory outside an array or block for ever, so that a result of the form \<open>Some\<close> in a theorem
  is a proof of safety. Preprocessor switches are those of the board: one motor, one CAN device,
  LispBM present.

  \<^bold>\<open>Bounds and fuel.\<close> The loops of the code are bounded by their arrays and are recursions
  over lists, or have a measure. Fuel is used where the code loops until a ring or a frame is
  exhausted: \<open>process_frames\<close> has one round per entry of the ring, more than can be unread;
  \<open>adc_loop\<close> one round per byte of the frame.

  \<^bold>\<open>Not modelled.\<close> The control loops (\<^verbatim>\<open>mcpwm.c\<close>, \<^verbatim>\<open>mcpwm_foc.c\<close>, \<^verbatim>\<open>foc_math.c\<close>,
  \<^verbatim>\<open>virtual_motor.c\<close>), and of \<^verbatim>\<open>mc_interface.c\<close> the sums of currents in the interrupt, the statistics and
  the waiting for a release; applications, encoders,
  IMU, gate drivers, USB and pin drivers, terminal, and the other commands of \<^verbatim>\<open>commands.c\<close> (\<open>dispatch\<close> records them as
  \<open>Handed_on\<close>; some of them set the configuration or move the motor, so no property about the motor lets them occur). The modules are control loops on sampled values, register accesses, or serialise values of other modules with
  the functions modelled here. \<^verbatim>\<open>confgenerator.c\<close> is generated: the serialised configurations are byte
  lists and the layout is a parameter. ChibiOS, LispBM, libcanard, LZO and the vendor drivers are
  third-party code; the decompressor and the driver results appear as arguments.
\<close>

end
